(* ===== verification/JsNum.thy ===== *)
theory JsNum
  imports Complex_Main
begin

text \<open>
  Numbers of the JavaScript program.  A number is a finite real, one of the two infinities or
  NaN.  Finite arithmetic is exact: the rounding of IEEE doubles, overflow of finite values to
  an infinity and the sign of zero are not modelled, everything else (NaN propagation,
  comparisons with NaN, division by zero, \<open>inf - inf\<close>, \<open>0 * inf\<close>, the truncating \<open>%\<close>) follows
  the ECMAScript rules.  The arithmetic and order type classes are instantiated, so that the
  definitions of the components read like the source.
\<close>

named_theorems jsnum_simps \<open>evaluation of number operations on finite arguments\<close>
named_theorems js_defs \<open>definitions unfolded when a function of the model is evaluated\<close>

datatype jsnum = Fin real | PInf | NInf | NaN

section \<open>Arithmetic\<close>

instantiation jsnum :: "{zero, one, plus, minus, uminus, times, inverse, ord}"
begin

definition zero_jsnum :: jsnum where
  "zero_jsnum = Fin 0"

definition one_jsnum :: jsnum where
  "one_jsnum = Fin 1"

fun plus_jsnum :: "jsnum \<Rightarrow> jsnum \<Rightarrow> jsnum" where
  "plus_jsnum (Fin a) (Fin b) = Fin (a + b)"
| "plus_jsnum NaN y = NaN"
| "plus_jsnum x NaN = NaN"
| "plus_jsnum PInf NInf = NaN"
| "plus_jsnum NInf PInf = NaN"
| "plus_jsnum PInf y = PInf"
| "plus_jsnum NInf y = NInf"
| "plus_jsnum x PInf = PInf"
| "plus_jsnum x NInf = NInf"

fun uminus_jsnum :: "jsnum \<Rightarrow> jsnum" where
  "uminus_jsnum (Fin a) = Fin (- a)"
| "uminus_jsnum PInf = NInf"
| "uminus_jsnum NInf = PInf"
| "uminus_jsnum NaN = NaN"

definition minus_jsnum :: "jsnum \<Rightarrow> jsnum \<Rightarrow> jsnum" where
  "minus_jsnum x y = x + (- y)"

definition inf_of_sign :: "real \<Rightarrow> jsnum" where
  "inf_of_sign s = (if s > 0 then PInf else if s < 0 then NInf else NaN)"

fun sign_jsnum :: "jsnum \<Rightarrow> real" where
  "sign_jsnum (Fin a) = sgn a"
| "sign_jsnum PInf = 1"
| "sign_jsnum NInf = - 1"
| "sign_jsnum NaN = 0"

fun times_jsnum :: "jsnum \<Rightarrow> jsnum \<Rightarrow> jsnum" where
  "times_jsnum (Fin a) (Fin b) = Fin (a * b)"
| "times_jsnum NaN y = NaN"
| "times_jsnum x NaN = NaN"
| "times_jsnum x y = inf_of_sign (sign_jsnum x * sign_jsnum y)"

fun divide_jsnum :: "jsnum \<Rightarrow> jsnum \<Rightarrow> jsnum" where
  "divide_jsnum (Fin a) (Fin b) = (if b = 0 then inf_of_sign a else Fin (a / b))"
| "divide_jsnum NaN y = NaN"
| "divide_jsnum x NaN = NaN"
| "divide_jsnum (Fin a) y = Fin 0"
| "divide_jsnum PInf (Fin b) = (if b \<ge> 0 then PInf else NInf)"
| "divide_jsnum NInf (Fin b) = (if b \<ge> 0 then NInf else PInf)"
| "divide_jsnum x y = NaN"

definition inverse_jsnum :: "jsnum \<Rightarrow> jsnum" where
  "inverse_jsnum x = Fin 1 div x"

fun less_jsnum :: "jsnum \<Rightarrow> jsnum \<Rightarrow> bool" where
  "less_jsnum (Fin a) (Fin b) = (a < b)"
| "less_jsnum NaN y = False"
| "less_jsnum x NaN = False"
| "less_jsnum NInf NInf = False"
| "less_jsnum NInf y = True"
| "less_jsnum x NInf = False"
| "less_jsnum PInf y = False"
| "less_jsnum x PInf = True"

fun less_eq_jsnum :: "jsnum \<Rightarrow> jsnum \<Rightarrow> bool" where
  "less_eq_jsnum (Fin a) (Fin b) = (a \<le> b)"
| "less_eq_jsnum NaN y = False"
| "less_eq_jsnum x NaN = False"
| "less_eq_jsnum NInf y = True"
| "less_eq_jsnum x PInf = True"
| "less_eq_jsnum x y = False"

instance ..

end

text \<open>Addition is a commutative monoid, which gives the numerals \<open>2\<close>, \<open>100\<close>, ... on numbers.\<close>

lemma plus_jsnum_assoc: "x + y + z = x + (y + (z :: jsnum))"
  by (cases x; cases y; cases z; simp)

lemma plus_jsnum_commute: "x + y = y + (x :: jsnum)"
  by (cases x; cases y; simp)

lemma plus_jsnum_zero: "0 + x = (x :: jsnum)"
  by (cases x; simp add: zero_jsnum_def)

instance jsnum :: comm_monoid_add
  by standard (rule plus_jsnum_assoc plus_jsnum_commute plus_jsnum_zero)+

instance jsnum :: numeral ..

lemma numeral_jsnum [simp]: "(numeral n :: jsnum) = Fin (numeral n)"
proof (induction n)
  case One
  then show ?case by (simp add: one_jsnum_def)
next
  case (Bit0 n)
  then show ?case by (simp only: numeral.simps plus_jsnum.simps)
next
  case (Bit1 n)
  then show ?case by (simp only: numeral.simps plus_jsnum.simps one_jsnum_def)
qed

lemma zero_jsnum [simp]: "(0 :: jsnum) = Fin 0"
  by (simp add: zero_jsnum_def)

lemma one_jsnum [simp]: "(1 :: jsnum) = Fin 1"
  by (simp add: one_jsnum_def)

lemma minus_jsnum_Fin [simp]: "Fin a - Fin b = Fin (a - b)"
  by (simp add: minus_jsnum_def)

lemma minus_jsnum_NaN [simp]: "x - NaN = NaN" "NaN - x = NaN"
  by (cases x; simp add: minus_jsnum_def)+

lemma inf_of_sign_simps [simp]:
  "s > 0 \<Longrightarrow> inf_of_sign s = PInf"
  "s < 0 \<Longrightarrow> inf_of_sign s = NInf"
  "inf_of_sign 0 = NaN"
  by (simp_all add: inf_of_sign_def)

section \<open>Predicates and the functions of the global object and of Math\<close>

text \<open>\<open>is_fin\<close> is the global \<open>isFinite\<close> on numbers; \<open>num_eq\<close> is \<open>==\<close> on numbers.\<close>

definition is_fin :: "jsnum \<Rightarrow> bool" where
  "is_fin x = (case x of Fin _ \<Rightarrow> True | _ \<Rightarrow> False)"

definition num_eq :: "jsnum \<Rightarrow> jsnum \<Rightarrow> bool" where
  "num_eq x y = (x = y \<and> x \<noteq> NaN)"

lemma is_fin_simps [simp]:
  "is_fin (Fin a)" "\<not> is_fin PInf" "\<not> is_fin NInf" "\<not> is_fin NaN"
  by (simp_all add: is_fin_def)

lemma is_finE [elim]:
  assumes "is_fin x"
  obtains a where "x = Fin a"
  using assms by (cases x) auto

lemma num_eq_simps [simp]:
  "num_eq (Fin a) (Fin b) = (a = b)"
  "\<not> num_eq NaN y" "\<not> num_eq x NaN"
  "\<not> num_eq (Fin a) PInf" "\<not> num_eq (Fin a) NInf"
  "\<not> num_eq PInf (Fin a)" "\<not> num_eq NInf (Fin a)"
  by (auto simp: num_eq_def)

fun math_floor :: "jsnum \<Rightarrow> jsnum" where
  "math_floor (Fin a) = Fin (of_int \<lfloor>a\<rfloor>)"
| "math_floor x = x"

fun math_ceil :: "jsnum \<Rightarrow> jsnum" where
  "math_ceil (Fin a) = Fin (of_int \<lceil>a\<rceil>)"
| "math_ceil x = x"

text \<open>\<open>Math.round\<close> rounds halves up.\<close>

fun math_round :: "jsnum \<Rightarrow> jsnum" where
  "math_round (Fin a) = Fin (of_int \<lfloor>a + 1 / 2\<rfloor>)"
| "math_round x = x"

fun math_abs :: "jsnum \<Rightarrow> jsnum" where
  "math_abs (Fin a) = Fin \<bar>a\<bar>"
| "math_abs NInf = PInf"
| "math_abs x = x"

text \<open>\<open>parseInt\<close> on a number: truncation towards zero; NaN for anything not finite.\<close>

fun parse_int :: "jsnum \<Rightarrow> jsnum" where
  "parse_int (Fin a) = Fin (if 0 \<le> a then of_int \<lfloor>a\<rfloor> else of_int \<lceil>a\<rceil>)"
| "parse_int x = NaN"

definition math_max :: "jsnum \<Rightarrow> jsnum \<Rightarrow> jsnum" where
  "math_max x y = (if x = NaN \<or> y = NaN then NaN else if x < y then y else x)"

definition math_min :: "jsnum \<Rightarrow> jsnum \<Rightarrow> jsnum" where
  "math_min x y = (if x = NaN \<or> y = NaN then NaN else if y < x then y else x)"

lemma math_max_Fin [simp]: "math_max (Fin a) (Fin b) = Fin (max a b)"
  by (simp add: math_max_def max_def)

lemma math_min_Fin [simp]: "math_min (Fin a) (Fin b) = Fin (min a b)"
  by (simp add: math_min_def min_def)

text \<open>The remainder \<open>%\<close>: the sign of the dividend, quotient truncated towards zero.\<close>

definition trunc :: "real \<Rightarrow> real" where
  "trunc a = (if 0 \<le> a then of_int \<lfloor>a\<rfloor> else of_int \<lceil>a\<rceil>)"

fun js_mod :: "jsnum \<Rightarrow> jsnum \<Rightarrow> jsnum" where
  "js_mod (Fin a) (Fin b) = (if b = 0 then NaN else Fin (a - b * trunc (a / b)))"
| "js_mod (Fin a) PInf = Fin a"
| "js_mod (Fin a) NInf = Fin a"
| "js_mod x y = NaN"

text \<open>\<open>Math.pow(10, n)\<close> and the like, for an exponent that is a finite integer.\<close>

fun pow_int :: "real \<Rightarrow> jsnum \<Rightarrow> jsnum" where
  "pow_int b (Fin n) = Fin (b powi \<lfloor>n\<rfloor>)"
| "pow_int b PInf = PInf"
| "pow_int b NInf = Fin 0"
| "pow_int b NaN = NaN"

text \<open>\<open>Number.MAX_VALUE\<close>.\<close>

definition MAX_VALUE :: jsnum where
  "MAX_VALUE = Fin ((2 ^ 53 - 1) * 2 ^ 971)"

definition max_real :: real where
  "max_real = (2 ^ 53 - 1) * 2 ^ 971"

lemma MAX_VALUE_Fin: "MAX_VALUE = Fin max_real"
  by (simp add: MAX_VALUE_def max_real_def)

lemma max_real_pos: "0 < max_real"
  by (simp add: max_real_def)

section \<open>Lemmas shared by the components\<close>

lemma less_jsnum_NaN [simp]: "\<not> (x < NaN)" "\<not> (NaN < x)" "\<not> (x \<le> NaN)" "\<not> (NaN \<le> x)" for x :: jsnum
  by (cases x; simp)+

lemma less_jsnum_irrefl [simp]: "\<not> (x < (x::jsnum))"
  by (cases x) simp_all

lemma not_less_Fin_le: "\<not> (Fin a < Fin b) \<longleftrightarrow> Fin b \<le> Fin a"
  by auto

lemma trunc_le_abs: "\<bar>trunc q\<bar> \<le> \<bar>q\<bar>"
proof (cases "0 \<le> q")
  case True
  then have "0 \<le> \<lfloor>q\<rfloor>" and "of_int \<lfloor>q\<rfloor> \<le> q" by simp_all
  with True show ?thesis by (simp add: trunc_def)
next
  case False
  then have "\<lceil>q\<rceil> \<le> 0" and "q \<le> of_int \<lceil>q\<rceil>" by (simp_all add: ceiling_le_iff)
  then have "of_int \<lceil>q\<rceil> \<le> (0::real)" by (simp only: of_int_le_0_iff)
  with False \<open>q \<le> of_int \<lceil>q\<rceil>\<close> show ?thesis by (simp add: trunc_def)
qed

lemma trunc_abs_le: "\<bar>b * trunc (a / b)\<bar> \<le> \<bar>a\<bar>"
proof (cases "b = 0")
  case False
  have "\<bar>trunc (a / b)\<bar> \<le> \<bar>a / b\<bar>"
    by (rule trunc_le_abs)
  then have "\<bar>b\<bar> * \<bar>trunc (a / b)\<bar> \<le> \<bar>b\<bar> * \<bar>a / b\<bar>"
    by (intro mult_left_mono) simp_all
  with False show ?thesis by (simp add: abs_mult)
qed simp

end
