(* ===== verification/JsValue.thy ===== *)
theory JsValue
  imports JsNum "HOL-Library.AList"
begin

text \<open>
  Values of the JavaScript program: the dynamic type of everything a configuration object or a
  data set can hold, the coercions the source relies on (\<open>ToNumber\<close>, \<open>ToBoolean\<close>, \<open>ToString\<close>,
  \<open>typeof\<close>, \<open>==\<close>), objects as association lists in insertion order, arrays with reads outside
  their bounds giving \<open>undefined\<close>, and the string methods the source calls.

  Characters are code units below 256.  The decimal representation that \<open>Number.prototype.toString\<close>
  chooses is an argument \<open>ns\<close> of the definitions that print numbers, since the standard leaves
  the digits of non-integers to the implementation.  A function value carries its name only.
\<close>

datatype jsval =
    Undef
  | Null
  | Bool bool
  | Num jsnum
  | Str string
  | Arr "jsval list"
  | Obj "(string \<times> jsval) list"
  | Fn string

type_synonym obj = "(string \<times> jsval) list"

text \<open>The outcomes of a handler that is not a value: an exception, or the fuel of the model.\<close>

datatype js_error = TypeError | ReferenceError | RangeError | OutOfFuel

abbreviation NumF :: "real \<Rightarrow> jsval" where
  "NumF r \<equiv> Num (Fin r)"

section \<open>Strings\<close>

definition is_digit :: "char \<Rightarrow> bool" where
  "is_digit c = (48 \<le> (of_char c :: nat) \<and> (of_char c :: nat) \<le> 57)"

definition is_space :: "char \<Rightarrow> bool" where
  "is_space c = (of_char c \<in> {9, 10, 11, 12, 13, 32, 160 :: nat})"

text \<open>\<open>String.prototype.trim\<close>.\<close>

definition str_trim :: "string \<Rightarrow> string" where
  "str_trim s = rev (dropWhile is_space (rev (dropWhile is_space s)))"

text \<open>\<open>s.indexOf(p)\<close>, with \<open>None\<close> for \<open>-1\<close>.\<close>

fun index_of :: "string \<Rightarrow> string \<Rightarrow> nat option" where
  "index_of p [] = (if p = [] then Some 0 else None)"
| "index_of p (c # s) =
     (if take (length p) (c # s) = p then Some 0 else map_option Suc (index_of p s))"

text \<open>\<open>s.replace(p, q)\<close> with a string pattern: the first occurrence only.\<close>

definition str_replace1 :: "string \<Rightarrow> string \<Rightarrow> string \<Rightarrow> string" where
  "str_replace1 s p q =
     (case index_of p s of None \<Rightarrow> s
      | Some i \<Rightarrow> take i s @ q @ drop (i + length p) s)"

text \<open>\<open>s.substring(a, b)\<close>: both ends clamped to the string, and swapped when out of order.\<close>

definition str_substring :: "string \<Rightarrow> int \<Rightarrow> int \<Rightarrow> string" where
  "str_substring s a b =
     (let n = int (length s);
          a' = nat (max 0 (min a n)); b' = nat (max 0 (min b n));
          lo = min a' b'; hi = max a' b'
      in take (hi - lo) (drop lo s))"

text \<open>\<open>s.split(c)\<close> on a single character.\<close>

fun str_split :: "char \<Rightarrow> string \<Rightarrow> string list" where
  "str_split c [] = [[]]"
| "str_split c (x # s) =
     (if x = c then [] # str_split c s
      else (case str_split c s of [] \<Rightarrow> [[x]] | w # ws \<Rightarrow> (x # w) # ws))"

definition str_join :: "string \<Rightarrow> string list \<Rightarrow> string" where
  "str_join sep ws =
     (case ws of [] \<Rightarrow> [] | w # ws' \<Rightarrow> w @ concat (map (\<lambda>x. sep @ x) ws'))"

section \<open>Reading a number from a string\<close>

definition digit_val :: "char \<Rightarrow> nat" where
  "digit_val c =
     (let n = (of_char c :: nat)
      in if 48 \<le> n \<and> n \<le> 57 then n - 48
         else if 97 \<le> n \<and> n \<le> 122 then n - 87
         else if 65 \<le> n \<and> n \<le> 90 then n - 55 else 99)"

definition digits_val :: "nat \<Rightarrow> string \<Rightarrow> nat" where
  "digits_val r ds = foldl (\<lambda>acc c. r * acc + digit_val c) 0 ds"

definition parse_radix :: "nat \<Rightarrow> string \<Rightarrow> jsnum" where
  "parse_radix r ds =
     (if ds \<noteq> [] \<and> list_all (\<lambda>c. digit_val c < r) ds then Fin (of_nat (digits_val r ds)) else NaN)"

text \<open>The exponent part of a decimal literal: \<open>None\<close> when it is malformed.\<close>

definition parse_exponent :: "string \<Rightarrow> int option" where
  "parse_exponent s =
     (case s of
        [] \<Rightarrow> Some 0
      | e # r \<Rightarrow>
          if e = CHR ''e'' \<or> e = CHR ''E'' then
            (let neg = (r \<noteq> [] \<and> hd r = CHR ''-'');
                 ds = (if r \<noteq> [] \<and> (hd r = CHR ''-'' \<or> hd r = CHR ''+'') then tl r else r)
             in if ds \<noteq> [] \<and> list_all is_digit ds
                then Some ((if neg then -1 else 1) * int (digits_val 10 ds)) else None)
          else None)"

definition parse_unsigned :: "string \<Rightarrow> jsnum" where
  "parse_unsigned s =
     (if s = ''Infinity'' then PInf
      else
        (let i = takeWhile is_digit s; r = dropWhile is_digit s;
             dot = (r \<noteq> [] \<and> hd r = CHR ''.'');
             f = (if dot then takeWhile is_digit (tl r) else []);
             r' = (if dot then dropWhile is_digit (tl r) else r)
         in if i = [] \<and> f = [] then NaN
            else (case parse_exponent r' of
                    None \<Rightarrow> NaN
                  | Some e \<Rightarrow>
                      Fin (of_nat (digits_val 10 (i @ f)) * 10 powi (e - int (length f))))))"

definition str_to_num :: "string \<Rightarrow> jsnum" where
  "str_to_num s0 =
     (let s = str_trim s0
      in case s of
           [] \<Rightarrow> Fin 0
         | c # r \<Rightarrow>
             if c = CHR ''-'' then - parse_unsigned r
             else if c = CHR ''+'' then parse_unsigned r
             else if c = CHR ''0'' \<and> r \<noteq> [] \<and> hd r \<in> {CHR ''x'', CHR ''X''} then parse_radix 16 (tl r)
             else if c = CHR ''0'' \<and> r \<noteq> [] \<and> hd r \<in> {CHR ''o'', CHR ''O''} then parse_radix 8 (tl r)
             else if c = CHR ''0'' \<and> r \<noteq> [] \<and> hd r \<in> {CHR ''b'', CHR ''B''} then parse_radix 2 (tl r)
             else parse_unsigned s)"

section \<open>Handlers that may raise\<close>

definition and_then :: "js_error + 'a \<Rightarrow> ('a \<Rightarrow> js_error + 'b) \<Rightarrow> js_error + 'b" where
  "and_then r f = (case r of Inl e \<Rightarrow> Inl e | Inr x \<Rightarrow> f x)"

lemma and_then_simps [simp]: "and_then (Inl e) f = Inl e" "and_then (Inr x) f = f x"
  by (simp_all add: and_then_def)

section \<open>Coercions\<close>

text \<open>An array becomes its elements joined by commas, so that two or more elements are NaN.\<close>

fun to_number :: "jsval \<Rightarrow> jsnum" where
  "to_number Undef = NaN"
| "to_number Null = Fin 0"
| "to_number (Bool b) = Fin (if b then 1 else 0)"
| "to_number (Num n) = n"
| "to_number (Str s) = str_to_num s"
| "to_number (Arr vs) =
     (case vs of [] \<Rightarrow> Fin 0
      | [v] \<Rightarrow> (case v of Undef \<Rightarrow> Fin 0 | Null \<Rightarrow> Fin 0 | Bool _ \<Rightarrow> NaN | _ \<Rightarrow> to_number v)
      | _ \<Rightarrow> NaN)"
| "to_number (Obj _) = NaN"
| "to_number (Fn _) = NaN"

fun to_bool :: "jsval \<Rightarrow> bool" where
  "to_bool Undef = False"
| "to_bool Null = False"
| "to_bool (Bool b) = b"
| "to_bool (Num n) = (n \<noteq> NaN \<and> n \<noteq> Fin 0)"
| "to_bool (Str s) = (s \<noteq> [])"
| "to_bool (Arr _) = True"
| "to_bool (Obj _) = True"
| "to_bool (Fn _) = True"

fun typeof :: "jsval \<Rightarrow> string" where
  "typeof Undef = ''undefined''"
| "typeof Null = ''object''"
| "typeof (Bool _) = ''boolean''"
| "typeof (Num _) = ''number''"
| "typeof (Str _) = ''string''"
| "typeof (Arr _) = ''object''"
| "typeof (Obj _) = ''object''"
| "typeof (Fn _) = ''function''"

fun is_function :: "jsval \<Rightarrow> bool" where
  "is_function (Fn _) = True"
| "is_function _ = False"

fun is_string :: "jsval \<Rightarrow> bool" where
  "is_string (Str _) = True"
| "is_string _ = False"

fun is_number :: "jsval \<Rightarrow> bool" where
  "is_number (Num _) = True"
| "is_number _ = False"

definition is_undef :: "jsval \<Rightarrow> bool" where
  "is_undef v = (v = Undef)"

fun to_string :: "(jsnum \<Rightarrow> string) \<Rightarrow> jsval \<Rightarrow> string" where
  "to_string ns Undef = ''undefined''"
| "to_string ns Null = ''null''"
| "to_string ns (Bool b) = (if b then ''true'' else ''false'')"
| "to_string ns (Num n) = ns n"
| "to_string ns (Str s) = s"
| "to_string ns (Arr vs) =
     str_join '','' (map (\<lambda>v. if v = Undef \<or> v = Null then [] else to_string ns v) vs)"
| "to_string ns (Obj _) = ''[object Object]''"
| "to_string ns (Fn f) = f"

text \<open>
  \<open>==\<close> between primitive values.  A comparison that involves an object or a function is never
  true here: the source compares those with \<open>typeof\<close> only.
\<close>

fun loose_eq :: "jsval \<Rightarrow> jsval \<Rightarrow> bool" where
  "loose_eq Undef v = (v = Undef \<or> v = Null)"
| "loose_eq Null v = (v = Undef \<or> v = Null)"
| "loose_eq (Str s) (Str t) = (s = t)"
| "loose_eq (Num m) v =
     (case v of Num n \<Rightarrow> num_eq m n | Str _ \<Rightarrow> num_eq m (to_number v)
      | Bool _ \<Rightarrow> num_eq m (to_number v) | _ \<Rightarrow> False)"
| "loose_eq (Bool b) v =
     (case v of Num n \<Rightarrow> num_eq (Fin (if b then 1 else 0)) n
      | Str _ \<Rightarrow> num_eq (Fin (if b then 1 else 0)) (to_number v)
      | Bool c \<Rightarrow> b = c | _ \<Rightarrow> False)"
| "loose_eq (Str s) v =
     (case v of Num n \<Rightarrow> num_eq (str_to_num s) n
      | Bool _ \<Rightarrow> num_eq (str_to_num s) (to_number v) | _ \<Rightarrow> False)"
| "loose_eq _ _ = False"

text \<open>The global \<open>isNaN\<close>, \<open>isFinite\<close>.\<close>

definition is_nan :: "jsval \<Rightarrow> bool" where
  "is_nan v = (to_number v = NaN)"

section \<open>Objects and arrays\<close>

definition oget :: "obj \<Rightarrow> string \<Rightarrow> jsval" where
  "oget ob k = (case map_of ob k of None \<Rightarrow> Undef | Some v \<Rightarrow> v)"

definition oset :: "string \<Rightarrow> jsval \<Rightarrow> obj \<Rightarrow> obj" where
  "oset k v ob = AList.update k v ob"

abbreviation wf_obj :: "obj \<Rightarrow> bool" where
  "wf_obj ob \<equiv> distinct (map fst ob)"

text \<open>\<open>a[i]\<close>: \<open>undefined\<close> outside the bounds.\<close>

definition aget :: "jsval list \<Rightarrow> nat \<Rightarrow> jsval" where
  "aget vs i = (if i < length vs then vs ! i else Undef)"

lemma oget_oset [simp]: "oget (oset k v ob) k' = (if k = k' then v else oget ob k')"
  by (simp add: oget_def oset_def update_conv')

lemma wf_oset [simp]: "wf_obj ob \<Longrightarrow> wf_obj (oset k v ob)"
  by (simp add: oset_def distinct_update)

lemma keys_oset: "fst ` set (oset k v ob) = insert k (fst ` set ob)"
  by (simp add: oset_def dom_update)

lemma oget_Nil [simp]: "oget [] k = Undef"
  by (simp add: oget_def)

lemma oget_Cons [simp]: "oget ((k, v) # ob) k' = (if k = k' then v else oget ob k')"
  by (simp add: oget_def)

lemma aget_bounds [simp]: "length vs \<le> i \<Longrightarrow> aget vs i = Undef"
  by (simp add: aget_def)

lemma loose_eq_Num [simp]: "loose_eq (Num a) (Num b) = num_eq a b"
  by simp

lemma loose_eq_False_bool: "loose_eq (Bool b) (Bool c) = (b = c)"
  by simp

text \<open>
  \<open>for (var k in src) dst[k] = src[k]\<close>, and an object literal: its properties are assigned in
  order to a fresh object, so that the last of two properties with the same name counts.
\<close>

fun copy_attrs :: "obj \<Rightarrow> obj \<Rightarrow> obj" where
  "copy_attrs dst [] = dst"
| "copy_attrs dst ((k, v) # src) = copy_attrs (oset k v dst) src"

definition obj_literal :: "(string \<times> jsval) list \<Rightarrow> obj" where
  "obj_literal props = copy_attrs [] props"

text \<open>The value the last property named \<open>k\<close> has, starting from \<open>acc\<close>.\<close>

fun find_last :: "jsval \<Rightarrow> string \<Rightarrow> (string \<times> jsval) list \<Rightarrow> jsval" where
  "find_last acc k [] = acc"
| "find_last acc k ((k', v) # ps) = find_last (if k' = k then v else acc) k ps"

lemma oget_copy_attrs: "oget (copy_attrs dst src) k = find_last (oget dst k) k src"
  by (induction dst src rule: copy_attrs.induct) simp_all

lemma oget_obj_literal: "oget (obj_literal props) k = find_last Undef k props"
  by (simp add: obj_literal_def oget_copy_attrs)

lemma wf_copy_attrs [simp]: "wf_obj dst \<Longrightarrow> wf_obj (copy_attrs dst src)"
  by (induction dst src rule: copy_attrs.induct) simp_all

lemma wf_obj_literal [simp]: "wf_obj (obj_literal props)"
  by (simp add: obj_literal_def)

lemma keys_copy_attrs: "fst ` set (copy_attrs dst src) = fst ` set dst \<union> fst ` set src"
  by (induction dst src rule: copy_attrs.induct) (auto simp: keys_oset)

lemma keys_obj_literal: "fst ` set (obj_literal props) = fst ` set props"
  by (simp add: obj_literal_def keys_copy_attrs)

lemma find_last_notin: "k \<notin> fst ` set ps \<Longrightarrow> find_last acc k ps = acc"
  by (induction acc k ps rule: find_last.induct) auto

lemma find_last_wf:
  "wf_obj ps \<Longrightarrow> find_last acc k ps = (if k \<in> fst ` set ps then oget ps k else acc)"
  by (induction acc k ps rule: find_last.induct) (auto simp: find_last_notin)

lemma find_last_append: "find_last acc k (ps @ qs) = find_last (find_last acc k ps) k qs"
  by (induction acc k ps rule: find_last.induct) simp_all

lemma oget_notin: "k \<notin> fst ` set ob \<Longrightarrow> oget ob k = Undef"
  by (induction ob) auto

section \<open>String lemmas\<close>

lemma index_of_bound: "index_of p s = Some i \<Longrightarrow> i + length p \<le> length s"
proof (induction p s arbitrary: i rule: index_of.induct)
  case (2 p c s)
  then show ?case
    by (auto split: if_splits dest: arg_cong [where f = length])
qed (auto split: if_splits)

lemma index_of_char_dropWhile:
  "index_of [c] s = (if c \<in> set s then Some (length (takeWhile (\<lambda>x. x \<noteq> c) s)) else None)"
  by (induction s) auto

lemma str_trim_idem [simp]: "str_trim (str_trim s) = str_trim s"
proof -
  have *: "dropWhile is_space (rev (dropWhile is_space (rev t))) = rev (dropWhile is_space (rev t))"
    if "dropWhile is_space t = t" for t
  proof (cases t)
    case (Cons a u)
    with that have "\<not> is_space a"
      by (metis dropWhile_eq_self_iff list.distinct(1) list.sel(1))
    then have "rev (dropWhile is_space (rev t)) = [] \<or> hd (rev (dropWhile is_space (rev t))) = a"
      using Cons by (auto simp: dropWhile_append)
    with \<open>\<not> is_space a\<close> show ?thesis
      by (metis dropWhile_eq_self_iff)
  qed simp
  show ?thesis
    unfolding str_trim_def by (simp add: *)
qed

end
