(* ===== verification/ChartTables.thy ===== *)
theory ChartTables
  imports JsValue
begin

text \<open>
  The default option tables of ChartNew.js, literal by literal and in the order of the source:
  the options common to all charts, those common to the charts with two axes, and the ones of
  each of the nine chart types.
\<close>

text \<open>The character \<open>U+0027\<close>, which a string literal cannot hold at its end.\<close>

abbreviation sq :: string where
  "sq \<equiv> [CHR 0x27]"

section \<open>Options common to several charts\<close>

text \<open>Sizes, borders, titles, foot note and legend: the first part of the literal \<open>chart.defaults.commonOptions\<close>.\<close>

definition commonOptions_layout :: obj where
  "commonOptions_layout = [
     (''chartTextScale'', NumF 1),
     (''chartLineScale'', NumF 1),
     (''chartSpaceScale'', NumF 1),
     (''multiGraph'', Bool False),
     (''clearRect'', Bool True),
     (''dynamicDisplay'', Bool False),
     (''graphSpaceBefore'', NumF 5),
     (''graphSpaceAfter'', NumF 5),
     (''canvasBorders'', Bool False),
     (''canvasBackgroundColor'', Str ''none''),
     (''canvasBordersWidth'', NumF 3),
     (''canvasBordersStyle'', Str ''solid''),
     (''canvasBordersColor'', Str ''black''),
     (''zeroValue'', NumF (1 / 10000000000)),
     (''graphTitle'', Str ''''),
     (''graphTitleFontFamily'', Str (sq @ ''Arial'' @ sq)),
     (''graphTitleFontSize'', NumF 24),
     (''graphTitleFontStyle'', Str ''bold''),
     (''graphTitleFontColor'', Str ''#666''),
     (''graphTitleSpaceBefore'', NumF 5),
     (''graphTitleSpaceAfter'', NumF 5),
     (''graphTitleBorders'', Bool False),
     (''graphTitleBordersColor'', Str ''black''),
     (''graphTitleBordersXSpace'', NumF 3),
     (''graphTitleBordersYSpace'', NumF 3),
     (''graphTitleBordersWidth'', NumF 1),
     (''graphTitleBordersStyle'', Str ''solid''),
     (''graphTitleBackgroundColor'', Str ''none''),
     (''graphSubTitle'', Str ''''),
     (''graphSubTitleFontFamily'', Str (sq @ ''Arial'' @ sq)),
     (''graphSubTitleFontSize'', NumF 18),
     (''graphSubTitleFontStyle'', Str ''normal''),
     (''graphSubTitleFontColor'', Str ''#666''),
     (''graphSubTitleSpaceBefore'', NumF 5),
     (''graphSubTitleSpaceAfter'', NumF 5),
     (''graphSubTitleBorders'', Bool False),
     (''graphSubTitleBordersColor'', Str ''black''),
     (''graphSubTitleBordersXSpace'', NumF 3),
     (''graphSubTitleBordersYSpace'', NumF 3),
     (''graphSubTitleBordersWidth'', NumF 1),
     (''graphSubTitleBordersStyle'', Str ''solid''),
     (''graphSubTitleBackgroundColor'', Str ''none''),
     (''footNote'', Str ''''),
     (''footNoteFontFamily'', Str (sq @ ''Arial'' @ sq)),
     (''footNoteFontSize'', NumF 8),
     (''footNoteFontStyle'', Str ''bold''),
     (''footNoteFontColor'', Str ''#666''),
     (''footNoteSpaceBefore'', NumF 5),
     (''footNoteSpaceAfter'', NumF 5),
     (''footNoteBorders'', Bool False),
     (''footNoteBordersColor'', Str ''black''),
     (''footNoteBordersXSpace'', NumF 3),
     (''footNoteBordersYSpace'', NumF 3),
     (''footNoteBordersWidth'', NumF 1),
     (''footNoteBordersStyle'', Str ''solid''),
     (''footNoteBackgroundColor'', Str ''none''),
     (''legend'', Bool False),
     (''showSingleLegend'', Bool False),
     (''maxLegendCols'', NumF 999),
     (''legendPosY'', NumF 4),
     (''legendPosX'', NumF (-2)),
     (''legendFontFamily'', Str (sq @ ''Arial'' @ sq)),
     (''legendFontSize'', NumF 12),
     (''legendFontStyle'', Str ''normal''),
     (''legendFontColor'', Str ''#666''),
     (''legendBlockSize'', NumF 15),
     (''legendBorders'', Bool True),
     (''legendBordersStyle'', Str ''solid''),
     (''legendBordersWidth'', NumF 1),
     (''legendBordersColors'', Str ''#666''),
     (''legendBordersSpaceBefore'', NumF 5),
     (''legendBordersSpaceAfter'', NumF 5),
     (''legendBordersSpaceLeft'', NumF 5),
     (''legendBordersSpaceRight'', NumF 5),
     (''legendSpaceBeforeText'', NumF 5),
     (''legendSpaceAfterText'', NumF 5),
     (''legendSpaceLeftText'', NumF 5),
     (''legendSpaceRightText'', NumF 5),
     (''legendSpaceBetweenTextVertical'', NumF 5),
     (''legendSpaceBetweenTextHorizontal'', NumF 5),
     (''legendSpaceBetweenBoxAndText'', NumF 5),
     (''legendFillColor'', Str ''rgba(0,0,0,0)''),
     (''legendXPadding'', NumF 0),
     (''legendYPadding'', NumF 0),
     (''inGraphDataBorders'', Bool False),
     (''inGraphDataBordersColor'', Str ''black''),
     (''inGraphDataBordersXSpace'', NumF 3),
     (''inGraphDataBordersYSpace'', NumF 3),
     (''inGraphDataBordersWidth'', NumF 1),
     (''inGraphDataBordersStyle'', Str ''solid''),
     (''inGraphDataBackgroundColor'', Str ''none'')]"

text \<open>Annotation, cross texts and images, number formats, animation, mouse and responsive options:
  the second part of that literal.\<close>

definition commonOptions_behaviour :: obj where
  "commonOptions_behaviour = [
     (''annotateDisplay'', Bool False),
     (''annotateRelocate'', Bool False),
     (''savePng'', Bool False),
     (''savePngOutput'', Str ''NewWindow''),
     (''savePngFunction'', Str ''mousedown right''),
     (''savePngBackgroundColor'', Str ''WHITE''),
     (''annotateFunction'', Str ''mousemove''),
     (''annotateFontFamily'', Str (sq @ ''Arial'' @ sq)),
     (''annotateBorder'', Str ''none''),
     (''annotateBorderRadius'', Str ''2px''),
     (''annotateBackgroundColor'', Str ''rgba(0,0,0,0.8)''),
     (''annotateFontSize'', NumF 12),
     (''annotateFontColor'', Str ''white''),
     (''annotateFontStyle'', Str ''normal''),
     (''annotatePadding'', Str ''3px''),
     (''annotateClassName'', Str ''''),
     (''annotateFunctionIn'', Null),
     (''annotateFunctionOut'', Null),
     (''crossText'', Arr [Str '''']),
     (''crossTextIter'', Arr [Str ''all'']),
     (''crossTextOverlay'', Arr [Bool True]),
     (''crossTextFontFamily'', Arr [Str (sq @ ''Arial'' @ sq)]),
     (''crossTextFontSize'', Arr [NumF 12]),
     (''crossTextFontStyle'', Arr [Str ''normal'']),
     (''crossTextFontColor'', Arr [Str ''rgba(220,220,220,1)'']),
     (''crossTextRelativePosX'', Arr [NumF 2]),
     (''crossTextRelativePosY'', Arr [NumF 2]),
     (''crossTextBaseline'', Arr [Str ''middle'']),
     (''crossTextAlign'', Arr [Str ''center'']),
     (''crossTextPosX'', Arr [NumF 0]),
     (''crossTextPosY'', Arr [NumF 0]),
     (''crossTextAngle'', Arr [NumF 0]),
     (''crossTextFunction'', Null),
     (''crossTextBorders'', Arr [Bool False]),
     (''crossTextBordersColor'', Arr [Str ''black'']),
     (''crossTextBordersXSpace'', Arr [NumF 3]),
     (''crossTextBordersYSpace'', Arr [NumF 3]),
     (''crossTextBordersWidth'', Arr [NumF 1]),
     (''crossTextBordersStyle'', Arr [Str ''solid'']),
     (''crossTextBackgroundColor'', Arr [Str ''none'']),
     (''crossImage'', Arr [Undef]),
     (''crossImageIter'', Arr [Str ''all'']),
     (''crossImageOverlay'', Arr [Bool True]),
     (''crossImageRelativePosX'', Arr [NumF 2]),
     (''crossImageRelativePosY'', Arr [NumF 2]),
     (''crossImageBaseline'', Arr [Str ''middle'']),
     (''crossImageAlign'', Arr [Str ''center'']),
     (''crossImagePosX'', Arr [NumF 0]),
     (''crossImagePosY'', Arr [NumF 0]),
     (''crossImageAngle'', Arr [NumF 0]),
     (''spaceTop'', NumF 0),
     (''spaceBottom'', NumF 0),
     (''spaceRight'', NumF 0),
     (''spaceLeft'', NumF 0),
     (''decimalSeparator'', Str ''.''),
     (''thousandSeparator'', Str ''''),
     (''roundNumber'', Str ''none''),
     (''roundPct'', NumF (-1)),
     (''templatesOpenTag'', Str ''<%=''),
     (''templatesCloseTag'', Str ''%>''),
     (''fmtV1'', Str ''none''),
     (''fmtV2'', Str ''none''),
     (''fmtV3'', Str ''none''),
     (''fmtV4'', Str ''none''),
     (''fmtV5'', Str ''none''),
     (''fmtV6'', Str ''none''),
     (''fmtV6T'', Str ''none''),
     (''fmtV7'', Str ''none''),
     (''fmtV8'', Str ''none''),
     (''fmtV8T'', Str ''none''),
     (''fmtV9'', Str ''none''),
     (''fmtV10'', Str ''none''),
     (''fmtV11'', Str ''none''),
     (''fmtV12'', Str ''none''),
     (''fmtV13'', Str ''none''),
     (''fmtXLabel'', Str ''none''),
     (''fmtYLabel'', Str ''none''),
     (''fmtYLabel2'', Str ''none''),
     (''fmtLegend'', Str ''none''),
     (''animationStartValue'', NumF 0),
     (''animationStopValue'', NumF 1),
     (''animationCount'', NumF 1),
     (''animationPauseTime'', NumF 5),
     (''animationBackward'', Bool False),
     (''animationStartWithDataset'', NumF 1),
     (''animationStartWithData'', NumF 1),
     (''animationLeftToRight'', Bool False),
     (''animationByDataset'', Bool False),
     (''defaultStrokeColor'', Str ''rgba(220,220,220,1)''),
     (''defaultFillColor'', Str ''rgba(220,220,220,0.5)''),
     (''defaultLineWidth'', NumF 2),
     (''graphMaximized'', Bool False),
     (''contextMenu'', Bool True),
     (''mouseDownRight'', Null),
     (''mouseDownLeft'', Null),
     (''mouseDownMiddle'', Null),
     (''mouseMove'', Null),
     (''mouseOut'', Null),
     (''mouseWheel'', Null),
     (''savePngName'', Str ''canvas''),
     (''responsive'', Bool False),
     (''responsiveMinWidth'', NumF 0),
     (''responsiveMinHeight'', NumF 0),
     (''responsiveMaxWidth'', NumF 9999999),
     (''responsiveMaxHeight'', NumF 9999999),
     (''maintainAspectRatio'', Bool True),
     (''responsiveScaleContent'', Bool False),
     (''responsiveWindowInitialWidth'', Bool False),
     (''pointMarker'', Str ''circle'')]"

definition commonOptions :: obj where
  "commonOptions = obj_literal (commonOptions_layout @ commonOptions_behaviour)"

text \<open>\<open>chart.defaults.xyAxisCommonOptions\<close>.\<close>

definition xyAxisCommonOptions :: obj where
  "xyAxisCommonOptions = obj_literal [
     (''yAxisMinimumInterval'', Str ''none''),
     (''yAxisMinimumInterval2'', Str ''none''),
     (''yScaleLabelsMinimumWidth'', NumF 0),
     (''xScaleLabelsMinimumWidth'', NumF 0),
     (''yAxisLeft'', Bool True),
     (''yAxisRight'', Bool False),
     (''xAxisBottom'', Bool True),
     (''xAxisTop'', Bool False),
     (''xAxisSpaceBetweenLabels'', NumF 5),
     (''fullWidthGraph'', Bool False),
     (''yAxisLabel'', Str ''''),
     (''yAxisLabel2'', Str ''''),
     (''yAxisFontFamily'', Str (sq @ ''Arial'' @ sq)),
     (''yAxisFontSize'', NumF 16),
     (''yAxisFontStyle'', Str ''normal''),
     (''yAxisFontColor'', Str ''#666''),
     (''yAxisLabelSpaceRight'', NumF 5),
     (''yAxisLabelSpaceLeft'', NumF 5),
     (''yAxisSpaceRight'', NumF 5),
     (''yAxisSpaceLeft'', NumF 5),
     (''yAxisLabelBorders'', Bool False),
     (''yAxisLabelBordersColor'', Str ''black''),
     (''yAxisLabelBordersXSpace'', NumF 3),
     (''yAxisLabelBordersYSpace'', NumF 3),
     (''yAxisLabelBordersWidth'', NumF 1),
     (''yAxisLabelBordersStyle'', Str ''solid''),
     (''yAxisLabelBackgroundColor'', Str ''none''),
     (''xAxisLabel'', Str ''''),
     (''xAxisFontFamily'', Str (sq @ ''Arial'' @ sq)),
     (''xAxisFontSize'', NumF 16),
     (''xAxisFontStyle'', Str ''normal''),
     (''xAxisFontColor'', Str ''#666''),
     (''xAxisLabelSpaceBefore'', NumF 5),
     (''xAxisLabelSpaceAfter'', NumF 5),
     (''xAxisSpaceBefore'', NumF 5),
     (''xAxisSpaceAfter'', NumF 5),
     (''xAxisLabelBorders'', Bool False),
     (''xAxisLabelBordersColor'', Str ''black''),
     (''xAxisLabelBordersXSpace'', NumF 3),
     (''xAxisLabelBordersYSpace'', NumF 3),
     (''xAxisLabelBordersWidth'', NumF 1),
     (''xAxisLabelBordersStyle'', Str ''solid''),
     (''xAxisLabelBackgroundColor'', Str ''none''),
     (''yAxisUnit'', Str ''''),
     (''yAxisUnit2'', Str ''''),
     (''yAxisUnitFontFamily'', Str (sq @ ''Arial'' @ sq)),
     (''yAxisUnitFontSize'', NumF 8),
     (''yAxisUnitFontStyle'', Str ''normal''),
     (''yAxisUnitFontColor'', Str ''#666''),
     (''yAxisUnitSpaceBefore'', NumF 5),
     (''yAxisUnitSpaceAfter'', NumF 5),
     (''yAxisUnitBorders'', Bool False),
     (''yAxisUnitBordersColor'', Str ''black''),
     (''yAxisUnitBordersXSpace'', NumF 3),
     (''yAxisUnitBordersYSpace'', NumF 3),
     (''yAxisUnitBordersWidth'', NumF 1),
     (''yAxisUnitBordersStyle'', Str ''solid''),
     (''yAxisUnitBackgroundColor'', Str ''none'')]"

section \<open>Options of each chart type\<close>

text \<open>The literal assigned to \<open>chart.PolarArea.defaults\<close>.\<close>

definition PolarArea_defaults :: obj where
  "PolarArea_defaults = obj_literal [
     (''inGraphDataShow'', Bool False),
     (''inGraphDataPaddingRadius'', NumF 5),
     (''inGraphDataPaddingAngle'', NumF 0),
     (''inGraphDataTmpl'', Str (''<%=(v1 == '' @ sq @ sq @ ''? '' @ sq @ sq @ '' : v1+'' @ sq @ '':'' @ sq @ '')+ v2 + '' @ sq @ '' ('' @ sq @ '' + v6 + '' @ sq @ '' %)'' @ sq @ ''%>'')),
     (''inGraphDataAlign'', Str ''off-center''),
     (''inGraphDataVAlign'', Str ''off-center''),
     (''inGraphDataRotate'', NumF 0),
     (''inGraphDataFontFamily'', Str (sq @ ''Arial'' @ sq)),
     (''inGraphDataFontSize'', NumF 12),
     (''inGraphDataFontStyle'', Str ''normal''),
     (''inGraphDataFontColor'', Str ''#666''),
     (''inGraphDataRadiusPosition'', NumF 3),
     (''inGraphDataAnglePosition'', NumF 2),
     (''scaleOverlay'', Bool True),
     (''scaleOverride'', Bool False),
     (''scaleOverride2'', Bool False),
     (''scaleGridLinesStep'', NumF 1),
     (''scaleSteps'', Null),
     (''scaleStepWidth'', Null),
     (''scaleStartValue'', Null),
     (''scaleShowLine'', Bool True),
     (''scaleLineColor'', Str ''rgba(0,0,0,.1)''),
     (''scaleLineWidth'', NumF 1),
     (''scaleLineStyle'', Str ''solid''),
     (''scaleShowLabels'', Bool True),
     (''scaleShowLabels2'', Bool True),
     (''scaleLabel'', Str ''<%=value%>''),
     (''scaleFontFamily'', Str (sq @ ''Arial'' @ sq)),
     (''scaleFontSize'', NumF 12),
     (''scaleFontStyle'', Str ''normal''),
     (''scaleFontColor'', Str ''#666''),
     (''scaleShowLabelBackdrop'', Bool True),
     (''scaleBackdropColor'', Str ''rgba(255,255,255,0.75)''),
     (''scaleBackdropPaddingY'', NumF 2),
     (''scaleBackdropPaddingX'', NumF 2),
     (''segmentShowStroke'', Bool True),
     (''segmentStrokeColor'', Str ''#fff''),
     (''segmentStrokeStyle'', Str ''solid''),
     (''segmentStrokeWidth'', NumF 2),
     (''animation'', Bool True),
     (''animationByData'', Str ''ByArc''),
     (''animationSteps'', NumF 100),
     (''animationEasing'', Str ''easeOutBounce''),
     (''animateRotate'', Bool True),
     (''animateScale'', Bool False),
     (''onAnimationComplete'', Null),
     (''annotateLabel'', Str (''<%=(v1 == '' @ sq @ sq @ ''? '' @ sq @ sq @ '' : v1+'' @ sq @ '':'' @ sq @ '')+ v2 + '' @ sq @ '' ('' @ sq @ '' + v6 + '' @ sq @ '' %)'' @ sq @ ''%>'')),
     (''startAngle'', NumF 90)]"

text \<open>The literal assigned to \<open>chart.Radar.defaults\<close>.\<close>

definition Radar_defaults :: obj where
  "Radar_defaults = obj_literal [
     (''inGraphDataShow'', Bool False),
     (''inGraphDataPaddingRadius'', NumF 5),
     (''inGraphDataTmpl'', Str ''<%=v3%>''),
     (''inGraphDataAlign'', Str ''off-center''),
     (''inGraphDataVAlign'', Str ''off-center''),
     (''inGraphDataRotate'', NumF 0),
     (''inGraphDataFontFamily'', Str (sq @ ''Arial'' @ sq)),
     (''inGraphDataFontSize'', NumF 12),
     (''inGraphDataFontStyle'', Str ''normal''),
     (''inGraphDataFontColor'', Str ''#666''),
     (''inGraphDataRadiusPosition'', NumF 3),
     (''yAxisMinimumInterval'', Str ''none''),
     (''scaleGridLinesStep'', NumF 1),
     (''scaleOverlay'', Bool False),
     (''scaleOverride'', Bool False),
     (''scaleOverride2'', Bool False),
     (''scaleSteps'', Null),
     (''scaleStepWidth'', Null),
     (''scaleStartValue'', Null),
     (''scaleShowLine'', Bool True),
     (''scaleLineColor'', Str ''rgba(0,0,0,.1)''),
     (''scaleLineStyle'', Str ''solid''),
     (''scaleLineWidth'', NumF 1),
     (''scaleShowLabels'', Bool False),
     (''scaleShowLabels2'', Bool True),
     (''scaleLabel'', Str ''<%=value%>''),
     (''scaleFontFamily'', Str (sq @ ''Arial'' @ sq)),
     (''scaleFontSize'', NumF 12),
     (''scaleFontStyle'', Str ''normal''),
     (''scaleFontColor'', Str ''#666''),
     (''scaleShowLabelBackdrop'', Bool True),
     (''scaleBackdropColor'', Str ''rgba(255,255,255,0.75)''),
     (''scaleBackdropPaddingY'', NumF 2),
     (''scaleBackdropPaddingX'', NumF 2),
     (''angleShowLineOut'', Bool True),
     (''angleLineColor'', Str ''rgba(0,0,0,.1)''),
     (''angleLineStyle'', Str ''solid''),
     (''angleLineWidth'', NumF 1),
     (''pointLabelFontFamily'', Str (sq @ ''Arial'' @ sq)),
     (''pointLabelFontStyle'', Str ''normal''),
     (''pointLabelFontSize'', NumF 12),
     (''pointLabelFontColor'', Str ''#666''),
     (''pointDot'', Bool True),
     (''pointDotRadius'', NumF 3),
     (''pointDotStrokeWidth'', NumF 1),
     (''pointDotStrokeStyle'', Str ''solid''),
     (''datasetFill'', Bool True),
     (''datasetStrokeWidth'', NumF 2),
     (''datasetStrokeStyle'', Str ''solid''),
     (''animation'', Bool True),
     (''animationSteps'', NumF 60),
     (''animationEasing'', Str ''easeOutQuart''),
     (''onAnimationComplete'', Null),
     (''annotateLabel'', Str (''<%=(v1 == '' @ sq @ sq @ '' ? '' @ sq @ sq @ '' : v1) + (v1!='' @ sq @ sq @ '' && v2 !='' @ sq @ sq @ '' ? '' @ sq @ '' - '' @ sq @ '' : '' @ sq @ sq @ '')+(v2 == '' @ sq @ sq @ '' ? '' @ sq @ sq @ '' : v2)+(v1!='' @ sq @ sq @ '' || v2 !='' @ sq @ sq @ '' ? '' @ sq @ '':'' @ sq @ '' : '' @ sq @ sq @ '') + v3%>'')),
     (''pointHitDetectionRadius'', NumF 10),
     (''startAngle'', NumF 90)]"

text \<open>The literal assigned to \<open>chart.Pie.defaults\<close>.\<close>

definition Pie_defaults :: obj where
  "Pie_defaults = obj_literal [
     (''inGraphDataShow'', Bool False),
     (''inGraphDataPaddingRadius'', NumF 5),
     (''inGraphDataPaddingAngle'', NumF 0),
     (''inGraphDataTmpl'', Str (''<%=(v1 == '' @ sq @ sq @ ''? '' @ sq @ sq @ '' : v1+'' @ sq @ '':'' @ sq @ '')+ v2 + '' @ sq @ '' ('' @ sq @ '' + v6 + '' @ sq @ '' %)'' @ sq @ ''%>'')),
     (''inGraphDataAlign'', Str ''off-center''),
     (''inGraphDataVAlign'', Str ''off-center''),
     (''inGraphDataRotate'', NumF 0),
     (''inGraphDataFontFamily'', Str (sq @ ''Arial'' @ sq)),
     (''inGraphDataFontSize'', NumF 12),
     (''inGraphDataFontStyle'', Str ''normal''),
     (''inGraphDataFontColor'', Str ''#666''),
     (''inGraphDataRadiusPosition'', NumF 3),
     (''inGraphDataAnglePosition'', NumF 2),
     (''inGraphDataMinimumAngle'', NumF 0),
     (''segmentShowStroke'', Bool True),
     (''segmentStrokeColor'', Str ''#fff''),
     (''segmentStrokeStyle'', Str ''solid''),
     (''segmentStrokeWidth'', NumF 2),
     (''animation'', Bool True),
     (''animationByData'', Bool False),
     (''animationSteps'', NumF 100),
     (''animationEasing'', Str ''easeOutBounce''),
     (''animateRotate'', Bool True),
     (''animateScale'', Bool False),
     (''onAnimationComplete'', Null),
     (''annotateLabel'', Str (''<%=(v1 == '' @ sq @ sq @ ''? '' @ sq @ sq @ '' : v1+'' @ sq @ '':'' @ sq @ '')+ v2 + '' @ sq @ '' ('' @ sq @ '' + v6 + '' @ sq @ '' %)'' @ sq @ ''%>'')),
     (''startAngle'', NumF 90),
     (''radiusScale'', NumF 1)]"

text \<open>The literal assigned to \<open>chart.Doughnut.defaults\<close>.\<close>

definition Doughnut_defaults :: obj where
  "Doughnut_defaults = obj_literal [
     (''inGraphDataShow'', Bool False),
     (''inGraphDataPaddingRadius'', NumF 5),
     (''inGraphDataPaddingAngle'', NumF 0),
     (''inGraphDataTmpl'', Str (''<%=(v1 == '' @ sq @ sq @ ''? '' @ sq @ sq @ '' : v1+'' @ sq @ '':'' @ sq @ '')+ v2 + '' @ sq @ '' ('' @ sq @ '' + v6 + '' @ sq @ '' %)'' @ sq @ ''%>'')),
     (''inGraphDataAlign'', Str ''off-center''),
     (''inGraphDataVAlign'', Str ''off-center''),
     (''inGraphDataRotate'', NumF 0),
     (''inGraphDataFontFamily'', Str (sq @ ''Arial'' @ sq)),
     (''inGraphDataFontSize'', NumF 12),
     (''inGraphDataFontStyle'', Str ''normal''),
     (''inGraphDataFontColor'', Str ''#666''),
     (''inGraphDataRadiusPosition'', NumF 3),
     (''inGraphDataAnglePosition'', NumF 2),
     (''inGraphDataMinimumAngle'', NumF 0),
     (''segmentShowStroke'', Bool True),
     (''segmentStrokeColor'', Str ''#fff''),
     (''segmentStrokeStyle'', Str ''solid''),
     (''segmentStrokeWidth'', NumF 2),
     (''percentageInnerCutout'', NumF 50),
     (''animation'', Bool True),
     (''animationByData'', Bool False),
     (''animationSteps'', NumF 100),
     (''animationEasing'', Str ''easeOutBounce''),
     (''animateRotate'', Bool True),
     (''animateScale'', Bool False),
     (''onAnimationComplete'', Null),
     (''annotateLabel'', Str (''<%=(v1 == '' @ sq @ sq @ ''? '' @ sq @ sq @ '' : v1+'' @ sq @ '':'' @ sq @ '')+ v2 + '' @ sq @ '' ('' @ sq @ '' + v6 + '' @ sq @ '' %)'' @ sq @ ''%>'')),
     (''startAngle'', NumF 90),
     (''radiusScale'', NumF 1)]"

text \<open>The literal assigned to \<open>chart.Line.defaults\<close>.\<close>

definition Line_defaults :: obj where
  "Line_defaults = obj_literal [
     (''inGraphDataShow'', Bool False),
     (''inGraphDataPaddingX'', NumF 3),
     (''inGraphDataPaddingY'', NumF 3),
     (''inGraphDataTmpl'', Str ''<%=v3%>''),
     (''inGraphDataAlign'', Str ''left''),
     (''inGraphDataVAlign'', Str ''bottom''),
     (''inGraphDataRotate'', NumF 0),
     (''inGraphDataFontFamily'', Str (sq @ ''Arial'' @ sq)),
     (''inGraphDataFontSize'', NumF 12),
     (''inGraphDataFontStyle'', Str ''normal''),
     (''inGraphDataFontColor'', Str ''#666''),
     (''drawXScaleLine'', Arr [Obj [(''position'', Str ''bottom'')]]),
     (''scaleOverlay'', Bool False),
     (''scaleOverride'', Bool False),
     (''scaleOverride2'', Bool False),
     (''scaleSteps'', Null),
     (''scaleStepWidth'', Null),
     (''scaleStartValue'', Null),
     (''scaleSteps2'', Null),
     (''scaleStepWidth2'', Null),
     (''scaleStartValue2'', Null),
     (''scaleLabel2'', Str ''<%=value%>''),
     (''scaleLineColor'', Str ''rgba(0,0,0,.1)''),
     (''scaleLineStyle'', Str ''solid''),
     (''scaleLineWidth'', NumF 1),
     (''scaleShowLabels'', Bool True),
     (''scaleShowLabels2'', Bool True),
     (''scaleLabel'', Str ''<%=value%>''),
     (''scaleFontFamily'', Str (sq @ ''Arial'' @ sq)),
     (''scaleFontSize'', NumF 12),
     (''scaleFontStyle'', Str ''normal''),
     (''scaleFontColor'', Str ''#666''),
     (''scaleShowGridLines'', Bool True),
     (''scaleXGridLinesStep'', NumF 1),
     (''scaleYGridLinesStep'', NumF 1),
     (''scaleGridLineColor'', Str ''rgba(0,0,0,.05)''),
     (''scaleGridLineStyle'', Str ''solid''),
     (''scaleGridLineWidth'', NumF 1),
     (''showYAxisMin'', Bool True),
     (''rotateLabels'', Str ''smart''),
     (''logarithmic'', Bool False),
     (''logarithmic2'', Bool False),
     (''scaleTickSizeLeft'', NumF 5),
     (''scaleTickSizeRight'', NumF 5),
     (''scaleTickSizeBottom'', NumF 5),
     (''scaleTickSizeTop'', NumF 5),
     (''bezierCurve'', Bool True),
     (''bezierCurveTension'', NumF (4 / 10)),
     (''pointDot'', Bool True),
     (''pointDotRadius'', NumF 4),
     (''pointDotStrokeStyle'', Str ''solid''),
     (''pointDotStrokeWidth'', NumF 2),
     (''datasetStrokeStyle'', Str ''solid''),
     (''datasetStrokeWidth'', NumF 2),
     (''datasetFill'', Bool True),
     (''animation'', Bool True),
     (''animationSteps'', NumF 60),
     (''animationEasing'', Str ''easeOutQuart''),
     (''extrapolateMissingData'', Bool True),
     (''onAnimationComplete'', Null),
     (''annotateLabel'', Str (''<%=(v1 == '' @ sq @ sq @ '' ? '' @ sq @ sq @ '' : v1) + (v1!='' @ sq @ sq @ '' && v2 !='' @ sq @ sq @ '' ? '' @ sq @ '' - '' @ sq @ '' : '' @ sq @ sq @ '')+(v2 == '' @ sq @ sq @ '' ? '' @ sq @ sq @ '' : v2)+(v1!='' @ sq @ sq @ '' || v2 !='' @ sq @ sq @ '' ? '' @ sq @ '':'' @ sq @ '' : '' @ sq @ sq @ '') + v3%>'')),
     (''pointHitDetectionRadius'', NumF 10)]"

text \<open>The literal assigned to \<open>chart.StackedBar.defaults\<close>.\<close>

definition StackedBar_defaults :: obj where
  "StackedBar_defaults = obj_literal [
     (''inGraphDataShow'', Bool False),
     (''inGraphDataPaddingX'', NumF 0),
     (''inGraphDataPaddingY'', NumF (-3)),
     (''inGraphDataTmpl'', Str ''<%=v3%>''),
     (''inGraphDataAlign'', Str ''center''),
     (''inGraphDataVAlign'', Str ''top''),
     (''inGraphDataRotate'', NumF 0),
     (''inGraphDataFontFamily'', Str (sq @ ''Arial'' @ sq)),
     (''inGraphDataFontSize'', NumF 12),
     (''inGraphDataFontStyle'', Str ''normal''),
     (''inGraphDataFontColor'', Str ''#666''),
     (''inGraphDataXPosition'', NumF 2),
     (''inGraphDataYPosition'', NumF 3),
     (''scaleOverlay'', Bool False),
     (''scaleOverride'', Bool False),
     (''scaleOverride2'', Bool False),
     (''scaleSteps'', Null),
     (''scaleStepWidth'', Null),
     (''scaleStartValue'', Null),
     (''scaleLineColor'', Str ''rgba(0,0,0,.1)''),
     (''scaleLineStyle'', Str ''solid''),
     (''scaleLineWidth'', NumF 1),
     (''scaleShowLabels'', Bool True),
     (''scaleShowLabels2'', Bool True),
     (''scaleLabel'', Str ''<%=value%>''),
     (''scaleFontFamily'', Str (sq @ ''Arial'' @ sq)),
     (''scaleFontSize'', NumF 12),
     (''scaleFontStyle'', Str ''normal''),
     (''scaleFontColor'', Str ''#666''),
     (''scaleShowGridLines'', Bool True),
     (''scaleXGridLinesStep'', NumF 1),
     (''scaleYGridLinesStep'', NumF 1),
     (''scaleGridLineColor'', Str ''rgba(0,0,0,.05)''),
     (''scaleGridLineStyle'', Str ''solid''),
     (''scaleGridLineWidth'', NumF 1),
     (''showYAxisMin'', Bool True),
     (''rotateLabels'', Str ''smart''),
     (''scaleTickSizeLeft'', NumF 5),
     (''scaleTickSizeRight'', NumF 5),
     (''scaleTickSizeBottom'', NumF 5),
     (''scaleTickSizeTop'', NumF 5),
     (''pointDot'', Bool True),
     (''pointDotRadius'', NumF 4),
     (''pointDotStrokeStyle'', Str ''solid''),
     (''pointDotStrokeWidth'', NumF 2),
     (''barShowStroke'', Bool True),
     (''barStrokeWidth'', NumF 2),
     (''barValueSpacing'', NumF 5),
     (''barDatasetSpacing'', NumF 1),
     (''spaceBetweenBar'', NumF 0),
     (''animation'', Bool True),
     (''animationSteps'', NumF 60),
     (''animationEasing'', Str ''easeOutQuart''),
     (''onAnimationComplete'', Null),
     (''annotateLabel'', Str (''<%=(v1 == '' @ sq @ sq @ '' ? '' @ sq @ sq @ '' : v1) + (v1!='' @ sq @ sq @ '' && v2 !='' @ sq @ sq @ '' ? '' @ sq @ '' - '' @ sq @ '' : '' @ sq @ sq @ '')+(v2 == '' @ sq @ sq @ '' ? '' @ sq @ sq @ '' : v2)+(v1!='' @ sq @ sq @ '' || v2 !='' @ sq @ sq @ '' ? '' @ sq @ '':'' @ sq @ '' : '' @ sq @ sq @ '') + v3 + '' @ sq @ '' ('' @ sq @ '' + v6 + '' @ sq @ '' %)'' @ sq @ ''%>'')),
     (''pointHitDetectionRadius'', NumF 10)]"

text \<open>The literal assigned to \<open>chart.HorizontalStackedBar.defaults\<close>.\<close>

definition HorizontalStackedBar_defaults :: obj where
  "HorizontalStackedBar_defaults = obj_literal [
     (''inGraphDataShow'', Bool False),
     (''inGraphDataPaddingX'', NumF (-3)),
     (''inGraphDataPaddingY'', NumF 0),
     (''inGraphDataTmpl'', Str ''<%=v3%>''),
     (''inGraphDataAlign'', Str ''right''),
     (''inGraphDataVAlign'', Str ''middle''),
     (''inGraphDataRotate'', NumF 0),
     (''inGraphDataFontFamily'', Str (sq @ ''Arial'' @ sq)),
     (''inGraphDataFontSize'', NumF 12),
     (''inGraphDataFontStyle'', Str ''normal''),
     (''inGraphDataFontColor'', Str ''#666''),
     (''inGraphDataXPosition'', NumF 3),
     (''inGraphDataYPosition'', NumF 2),
     (''scaleOverlay'', Bool False),
     (''scaleOverride'', Bool False),
     (''scaleOverride2'', Bool False),
     (''scaleSteps'', Null),
     (''scaleStepWidth'', Null),
     (''scaleStartValue'', Null),
     (''scaleLineColor'', Str ''rgba(0,0,0,.1)''),
     (''scaleLineStyle'', Str ''solid''),
     (''scaleLineWidth'', NumF 1),
     (''scaleShowLabels'', Bool True),
     (''scaleShowLabels2'', Bool True),
     (''scaleLabel'', Str ''<%=value%>''),
     (''scaleFontFamily'', Str (sq @ ''Arial'' @ sq)),
     (''scaleFontSize'', NumF 12),
     (''scaleFontStyle'', Str ''normal''),
     (''scaleFontColor'', Str ''#666''),
     (''scaleShowGridLines'', Bool True),
     (''scaleXGridLinesStep'', NumF 1),
     (''scaleYGridLinesStep'', NumF 1),
     (''scaleGridLineColor'', Str ''rgba(0,0,0,.05)''),
     (''scaleGridLineStyle'', Str ''solid''),
     (''scaleGridLineWidth'', NumF 1),
     (''scaleTickSizeLeft'', NumF 5),
     (''scaleTickSizeRight'', NumF 5),
     (''scaleTickSizeBottom'', NumF 5),
     (''scaleTickSizeTop'', NumF 5),
     (''showYAxisMin'', Bool True),
     (''rotateLabels'', Str ''smart''),
     (''barShowStroke'', Bool True),
     (''barStrokeWidth'', NumF 2),
     (''barValueSpacing'', NumF 5),
     (''barDatasetSpacing'', NumF 1),
     (''spaceBetweenBar'', NumF 0),
     (''animation'', Bool True),
     (''animationSteps'', NumF 60),
     (''animationEasing'', Str ''easeOutQuart''),
     (''onAnimationComplete'', Null),
     (''annotateLabel'', Str (''<%=(v1 == '' @ sq @ sq @ '' ? '' @ sq @ sq @ '' : v1) + (v1!='' @ sq @ sq @ '' && v2 !='' @ sq @ sq @ '' ? '' @ sq @ '' - '' @ sq @ '' : '' @ sq @ sq @ '')+(v2 == '' @ sq @ sq @ '' ? '' @ sq @ sq @ '' : v2)+(v1!='' @ sq @ sq @ '' || v2 !='' @ sq @ sq @ '' ? '' @ sq @ '':'' @ sq @ '' : '' @ sq @ sq @ '') + v3 + '' @ sq @ '' ('' @ sq @ '' + v6 + '' @ sq @ '' %)'' @ sq @ ''%>'')),
     (''reverseOrder'', Bool False)]"

text \<open>The literal assigned to \<open>chart.Bar.defaults\<close>.\<close>

definition Bar_defaults :: obj where
  "Bar_defaults = obj_literal [
     (''inGraphDataShow'', Bool False),
     (''inGraphDataPaddingX'', NumF 0),
     (''inGraphDataPaddingY'', NumF 3),
     (''inGraphDataTmpl'', Str ''<%=v3%>''),
     (''inGraphDataAlign'', Str ''center''),
     (''inGraphDataVAlign'', Str ''bottom''),
     (''inGraphDataRotate'', NumF 0),
     (''inGraphDataFontFamily'', Str (sq @ ''Arial'' @ sq)),
     (''inGraphDataFontSize'', NumF 12),
     (''inGraphDataFontStyle'', Str ''normal''),
     (''inGraphDataFontColor'', Str ''#666''),
     (''inGraphDataXPosition'', NumF 2),
     (''inGraphDataYPosition'', NumF 3),
     (''scaleOverlay'', Bool False),
     (''scaleOverride'', Bool False),
     (''scaleOverride2'', Bool False),
     (''scaleSteps'', Null),
     (''scaleStepWidth'', Null),
     (''scaleStartValue'', Null),
     (''scaleSteps2'', Null),
     (''scaleStepWidth2'', Null),
     (''scaleStartValue2'', Null),
     (''scaleLineColor'', Str ''rgba(0,0,0,.1)''),
     (''scaleLineStyle'', Str ''solid''),
     (''scaleLineWidth'', NumF 1),
     (''scaleShowLabels'', Bool True),
     (''scaleShowLabels2'', Bool True),
     (''scaleLabel'', Str ''<%=value%>''),
     (''scaleLabel2'', Str ''<%=value%>''),
     (''scaleFontFamily'', Str (sq @ ''Arial'' @ sq)),
     (''scaleFontSize'', NumF 12),
     (''scaleFontStyle'', Str ''normal''),
     (''scaleFontColor'', Str ''#666''),
     (''scaleShowGridLines'', Bool True),
     (''scaleXGridLinesStep'', NumF 1),
     (''scaleYGridLinesStep'', NumF 1),
     (''scaleGridLineColor'', Str ''rgba(0,0,0,.05)''),
     (''scaleGridLineWidth'', NumF 1),
     (''scaleGridLineStyle'', Str ''solid''),
     (''showYAxisMin'', Bool True),
     (''rotateLabels'', Str ''smart''),
     (''logarithmic'', Bool False),
     (''logarithmic2'', Bool False),
     (''scaleTickSizeLeft'', NumF 5),
     (''scaleTickSizeRight'', NumF 5),
     (''scaleTickSizeBottom'', NumF 5),
     (''scaleTickSizeTop'', NumF 5),
     (''barShowStroke'', Bool True),
     (''barStrokeWidth'', NumF 2),
     (''barValueSpacing'', NumF 5),
     (''barDatasetSpacing'', NumF 1),
     (''barBorderRadius'', NumF 0),
     (''pointDot'', Bool True),
     (''pointDotRadius'', NumF 4),
     (''pointDotStrokeStyle'', Str ''solid''),
     (''pointDotStrokeWidth'', NumF 2),
     (''extrapolateMissingData'', Bool True),
     (''animation'', Bool True),
     (''animationSteps'', NumF 60),
     (''animationEasing'', Str ''easeOutQuart''),
     (''onAnimationComplete'', Null),
     (''bezierCurve'', Bool True),
     (''bezierCurveTension'', NumF (4 / 10)),
     (''annotateLabel'', Str (''<%=(v1 == '' @ sq @ sq @ '' ? '' @ sq @ sq @ '' : v1) + (v1!='' @ sq @ sq @ '' && v2 !='' @ sq @ sq @ '' ? '' @ sq @ '' - '' @ sq @ '' : '' @ sq @ sq @ '')+(v2 == '' @ sq @ sq @ '' ? '' @ sq @ sq @ '' : v2)+(v1!='' @ sq @ sq @ '' || v2 !='' @ sq @ sq @ '' ? '' @ sq @ '':'' @ sq @ '' : '' @ sq @ sq @ '') + v3 + '' @ sq @ '' ('' @ sq @ '' + v6 + '' @ sq @ '' %)'' @ sq @ ''%>'')),
     (''pointHitDetectionRadius'', NumF 10)]"

text \<open>The literal assigned to \<open>chart.HorizontalBar.defaults\<close>.\<close>

definition HorizontalBar_defaults :: obj where
  "HorizontalBar_defaults = obj_literal [
     (''inGraphDataShow'', Bool False),
     (''inGraphDataPaddingX'', NumF 3),
     (''inGraphDataPaddingY'', NumF 0),
     (''inGraphDataTmpl'', Str ''<%=v3%>''),
     (''inGraphDataAlign'', Str ''left''),
     (''inGraphDataVAlign'', Str ''middle''),
     (''inGraphDataRotate'', NumF 0),
     (''inGraphDataFontFamily'', Str (sq @ ''Arial'' @ sq)),
     (''inGraphDataFontSize'', NumF 12),
     (''inGraphDataFontStyle'', Str ''normal''),
     (''inGraphDataFontColor'', Str ''#666''),
     (''inGraphDataXPosition'', NumF 3),
     (''inGraphDataYPosition'', NumF 2),
     (''scaleOverlay'', Bool False),
     (''scaleOverride'', Bool False),
     (''scaleOverride2'', Bool False),
     (''scaleSteps'', Null),
     (''scaleStepWidth'', Null),
     (''scaleStartValue'', Null),
     (''scaleLineColor'', Str ''rgba(0,0,0,.1)''),
     (''scaleLineStyle'', Str ''solid''),
     (''scaleLineWidth'', NumF 1),
     (''scaleShowLabels'', Bool True),
     (''scaleShowLabels2'', Bool True),
     (''scaleLabel'', Str ''<%=value%>''),
     (''scaleFontFamily'', Str (sq @ ''Arial'' @ sq)),
     (''scaleFontSize'', NumF 12),
     (''scaleFontStyle'', Str ''normal''),
     (''scaleFontColor'', Str ''#666''),
     (''scaleShowGridLines'', Bool True),
     (''scaleXGridLinesStep'', NumF 1),
     (''scaleYGridLinesStep'', NumF 1),
     (''scaleGridLineColor'', Str ''rgba(0,0,0,.05)''),
     (''scaleGridLineStyle'', Str ''solid''),
     (''scaleGridLineWidth'', NumF 1),
     (''scaleTickSizeLeft'', NumF 5),
     (''scaleTickSizeRight'', NumF 5),
     (''scaleTickSizeBottom'', NumF 5),
     (''scaleTickSizeTop'', NumF 5),
     (''showYAxisMin'', Bool True),
     (''rotateLabels'', Str ''smart''),
     (''barShowStroke'', Bool True),
     (''barStrokeWidth'', NumF 2),
     (''barValueSpacing'', NumF 5),
     (''barDatasetSpacing'', NumF 1),
     (''barBorderRadius'', NumF 0),
     (''animation'', Bool True),
     (''animationSteps'', NumF 60),
     (''animationEasing'', Str ''easeOutQuart''),
     (''onAnimationComplete'', Null),
     (''annotateLabel'', Str (''<%=(v1 == '' @ sq @ sq @ '' ? '' @ sq @ sq @ '' : v1) + (v1!='' @ sq @ sq @ '' && v2 !='' @ sq @ sq @ '' ? '' @ sq @ '' - '' @ sq @ '' : '' @ sq @ sq @ '')+(v2 == '' @ sq @ sq @ '' ? '' @ sq @ sq @ '' : v2)+(v1!='' @ sq @ sq @ '' || v2 !='' @ sq @ sq @ '' ? '' @ sq @ '':'' @ sq @ '' : '' @ sq @ sq @ '') + v3 + '' @ sq @ '' ('' @ sq @ '' + v6 + '' @ sq @ '' %)'' @ sq @ ''%>'')),
     (''reverseOrder'', Bool False)]"

end
