(* ===== verification/ChartOptions.thy ===== *)
theory ChartOptions
  imports ChartTables
begin

text \<open>
  How the configuration of a chart is made: \<open>mergeChartConfig\<close>, and the nine constructors
  \<open>chart.Line(data, options)\<close>, ... as far as the configuration they hand to the drawing code.
  The locale \<open>option_store\<close> states what the constructors rely on; it is interpreted on
  \<open>mergeChartConfig\<close>, and the order of precedence of the option layers is proved once in it.
\<close>

section \<open>Merging two option objects\<close>

definition mergeChartConfig :: "obj \<Rightarrow> obj \<Rightarrow> obj" where
  "mergeChartConfig defaults userDefined = copy_attrs (copy_attrs [] defaults) userDefined"

locale option_store =
  fixes get :: "'o \<Rightarrow> 'k \<Rightarrow> 'v"
    and keys :: "'o \<Rightarrow> 'k set"
    and merge :: "'o \<Rightarrow> 'o \<Rightarrow> 'o"
    and wf :: "'o \<Rightarrow> bool"
    and undef :: 'v
  assumes wf_merge: "wf d \<Longrightarrow> wf u \<Longrightarrow> wf (merge d u)"
    and keys_merge: "keys (merge d u) = keys d \<union> keys u"
    and get_merge: "wf d \<Longrightarrow> wf u \<Longrightarrow> get (merge d u) k = (if k \<in> keys u then get u k else get d k)"
    and get_undef: "k \<notin> keys d \<Longrightarrow> get d k = undef"
begin

text \<open>The specification: the first layer that has the key decides.\<close>

primrec layered :: "'o list \<Rightarrow> 'k \<Rightarrow> 'v" where
  "layered [] k = undef"
| "layered (d # ds) k = (if k \<in> keys d then get d k else layered ds k)"

lemma layered_single: "layered [d] k = get d k"
  by (simp add: get_undef)

lemma get_merge_layered:
  assumes "wf d" "wf u" "\<And>k. get d k = layered ds k"
  shows "get (merge d u) k = layered (u # ds) k"
  using assms by (simp add: get_merge)

lemma get_merge_under:
  assumes "wf d" "wf u" "\<And>k. get u k = layered us k" "keys u = (\<Union>x\<in>set us. keys x)"
  shows "get (merge d u) k = layered (us @ [d]) k"
proof -
  have *: "layered (us @ [d]) k = (if k \<in> (\<Union>x\<in>set us. keys x) then layered us k else get d k)"
    by (induction us) (auto simp: get_undef)
  show ?thesis
    using assms by (simp add: get_merge *)
qed

lemma get_merge_self: "wf d \<Longrightarrow> get (merge d d) k = get d k"
  by (simp add: get_merge)

lemma get_merge_assoc:
  "wf a \<Longrightarrow> wf b \<Longrightarrow> wf c \<Longrightarrow> get (merge (merge a b) c) k = get (merge a (merge b c)) k"
  by (simp add: get_merge keys_merge wf_merge)

end

interpretation cfg: option_store oget "\<lambda>ob. fst ` set ob" mergeChartConfig wf_obj Undef
proof
  fix d u :: obj and k :: string
  show "wf_obj d \<Longrightarrow> wf_obj u \<Longrightarrow> wf_obj (mergeChartConfig d u)"
    by (simp add: mergeChartConfig_def)
  show "fst ` set (mergeChartConfig d u) = fst ` set d \<union> fst ` set u"
    by (simp add: mergeChartConfig_def keys_copy_attrs)
  show "oget (mergeChartConfig d u) k = (if k \<in> fst ` set u then oget u k else oget d k)"
    if "wf_obj d" "wf_obj u"
    using that by (simp add: mergeChartConfig_def oget_copy_attrs find_last_wf oget_notin)
  show "oget d k = Undef" if "k \<notin> fst ` set d"
    using that by (rule oget_notin)
qed

section \<open>The option objects of the page\<close>

text \<open>
  The global variables \<open>charJSPersonalDefaultOptions...\<close>, which a page may fill to change the
  defaults of all charts or of one chart type.
\<close>

record personal_options =
  charJSPersonalDefaultOptions :: obj
  charJSPersonalDefaultOptionsLine :: obj
  charJSPersonalDefaultOptionsRadar :: obj
  charJSPersonalDefaultOptionsPolarArea :: obj
  charJSPersonalDefaultOptionsPie :: obj
  charJSPersonalDefaultOptionsDoughnut :: obj
  charJSPersonalDefaultOptionsBar :: obj
  charJSPersonalDefaultOptionsStackedBar :: obj
  charJSPersonalDefaultOptionsHorizontalBar :: obj
  charJSPersonalDefaultOptionsHorizontalStackedBar :: obj

text \<open>As the file initialises them: all empty.\<close>

definition no_personal_options :: personal_options where
  "no_personal_options = \<lparr> charJSPersonalDefaultOptions = [],
     charJSPersonalDefaultOptionsLine = [],
     charJSPersonalDefaultOptionsRadar = [],
     charJSPersonalDefaultOptionsPolarArea = [],
     charJSPersonalDefaultOptionsPie = [],
     charJSPersonalDefaultOptionsDoughnut = [],
     charJSPersonalDefaultOptionsBar = [],
     charJSPersonalDefaultOptionsStackedBar = [],
     charJSPersonalDefaultOptionsHorizontalBar = [],
     charJSPersonalDefaultOptionsHorizontalStackedBar = [] \<rparr>"

section \<open>The configuration each constructor computes\<close>

text \<open>\<open>(options) ? mergeChartConfig(defaults, options) : defaults\<close>; \<open>None\<close> is a falsy argument.\<close>

definition with_options :: "obj \<Rightarrow> obj option \<Rightarrow> obj" where
  "with_options d options = (case options of None \<Rightarrow> d | Some op \<Rightarrow> mergeChartConfig d op)"

definition chart_PolarArea :: "personal_options \<Rightarrow> obj option \<Rightarrow> obj" where
  "chart_PolarArea g options =
     (let d = mergeChartConfig commonOptions PolarArea_defaults;
          d = mergeChartConfig d (charJSPersonalDefaultOptions g);
          d = mergeChartConfig d (charJSPersonalDefaultOptionsPolarArea g)
      in with_options d options)"

definition chart_Radar :: "personal_options \<Rightarrow> obj option \<Rightarrow> obj" where
  "chart_Radar g options =
     (let d = mergeChartConfig commonOptions Radar_defaults;
          d = mergeChartConfig d (charJSPersonalDefaultOptions g);
          d = mergeChartConfig d (charJSPersonalDefaultOptionsRadar g)
      in with_options d options)"

definition chart_Pie :: "personal_options \<Rightarrow> obj option \<Rightarrow> obj" where
  "chart_Pie g options =
     (let d = mergeChartConfig commonOptions Pie_defaults;
          d = mergeChartConfig d (charJSPersonalDefaultOptions g);
          d = mergeChartConfig d (charJSPersonalDefaultOptionsPie g)
      in with_options d options)"

definition chart_Doughnut :: "personal_options \<Rightarrow> obj option \<Rightarrow> obj" where
  "chart_Doughnut g options =
     (let d = mergeChartConfig commonOptions Doughnut_defaults;
          d = mergeChartConfig d (charJSPersonalDefaultOptions g);
          d = mergeChartConfig d (charJSPersonalDefaultOptionsDoughnut g)
      in with_options d options)"

definition chart_Line :: "personal_options \<Rightarrow> obj option \<Rightarrow> obj" where
  "chart_Line g options =
     (let d = mergeChartConfig commonOptions Line_defaults;
          d = mergeChartConfig xyAxisCommonOptions d;
          d = mergeChartConfig d (charJSPersonalDefaultOptions g);
          d = mergeChartConfig d (charJSPersonalDefaultOptionsLine g)
      in with_options d options)"

definition chart_StackedBar :: "personal_options \<Rightarrow> obj option \<Rightarrow> obj" where
  "chart_StackedBar g options =
     (let d = mergeChartConfig commonOptions StackedBar_defaults;
          d = mergeChartConfig xyAxisCommonOptions d;
          d = mergeChartConfig d (charJSPersonalDefaultOptions g);
          d = mergeChartConfig d (charJSPersonalDefaultOptionsStackedBar g)
      in with_options d options)"

definition chart_HorizontalStackedBar :: "personal_options \<Rightarrow> obj option \<Rightarrow> obj" where
  "chart_HorizontalStackedBar g options =
     (let d = mergeChartConfig commonOptions HorizontalStackedBar_defaults;
          d = mergeChartConfig xyAxisCommonOptions d;
          d = mergeChartConfig d (charJSPersonalDefaultOptions g);
          d = mergeChartConfig d (charJSPersonalDefaultOptionsHorizontalStackedBar g)
      in with_options d options)"

definition chart_Bar :: "personal_options \<Rightarrow> obj option \<Rightarrow> obj" where
  "chart_Bar g options =
     (let d = mergeChartConfig commonOptions Bar_defaults;
          d = mergeChartConfig xyAxisCommonOptions d;
          d = mergeChartConfig d (charJSPersonalDefaultOptions g);
          d = mergeChartConfig d (charJSPersonalDefaultOptionsBar g)
      in with_options d options)"

definition chart_HorizontalBar :: "personal_options \<Rightarrow> obj option \<Rightarrow> obj" where
  "chart_HorizontalBar g options =
     (let d = mergeChartConfig commonOptions HorizontalBar_defaults;
          d = mergeChartConfig xyAxisCommonOptions d;
          d = mergeChartConfig d (charJSPersonalDefaultOptions g);
          d = mergeChartConfig d (charJSPersonalDefaultOptionsHorizontalBar g)
      in with_options d options)"

section \<open>Precedence of the layers\<close>

datatype chart_type =
    PolarArea | Radar | Pie | Doughnut | Line
  | StackedBar | HorizontalStackedBar | Bar | HorizontalBar

primrec chart_config :: "chart_type \<Rightarrow> personal_options \<Rightarrow> obj option \<Rightarrow> obj" where
  "chart_config PolarArea = chart_PolarArea"
| "chart_config Radar = chart_Radar"
| "chart_config Pie = chart_Pie"
| "chart_config Doughnut = chart_Doughnut"
| "chart_config Line = chart_Line"
| "chart_config StackedBar = chart_StackedBar"
| "chart_config HorizontalStackedBar = chart_HorizontalStackedBar"
| "chart_config Bar = chart_Bar"
| "chart_config HorizontalBar = chart_HorizontalBar"

primrec type_defaults :: "chart_type \<Rightarrow> obj" where
  "type_defaults PolarArea = PolarArea_defaults"
| "type_defaults Radar = Radar_defaults"
| "type_defaults Pie = Pie_defaults"
| "type_defaults Doughnut = Doughnut_defaults"
| "type_defaults Line = Line_defaults"
| "type_defaults StackedBar = StackedBar_defaults"
| "type_defaults HorizontalStackedBar = HorizontalStackedBar_defaults"
| "type_defaults Bar = Bar_defaults"
| "type_defaults HorizontalBar = HorizontalBar_defaults"

primrec personal_of :: "chart_type \<Rightarrow> personal_options \<Rightarrow> obj" where
  "personal_of PolarArea = charJSPersonalDefaultOptionsPolarArea"
| "personal_of Radar = charJSPersonalDefaultOptionsRadar"
| "personal_of Pie = charJSPersonalDefaultOptionsPie"
| "personal_of Doughnut = charJSPersonalDefaultOptionsDoughnut"
| "personal_of Line = charJSPersonalDefaultOptionsLine"
| "personal_of StackedBar = charJSPersonalDefaultOptionsStackedBar"
| "personal_of HorizontalStackedBar = charJSPersonalDefaultOptionsHorizontalStackedBar"
| "personal_of Bar = charJSPersonalDefaultOptionsBar"
| "personal_of HorizontalBar = charJSPersonalDefaultOptionsHorizontalBar"

primrec has_axes :: "chart_type \<Rightarrow> bool" where
  "has_axes PolarArea = False"
| "has_axes Radar = False"
| "has_axes Pie = False"
| "has_axes Doughnut = False"
| "has_axes Line = True"
| "has_axes StackedBar = True"
| "has_axes HorizontalStackedBar = True"
| "has_axes Bar = True"
| "has_axes HorizontalBar = True"

text \<open>The specification of a layered configuration: the first layer that has the key decides.\<close>

primrec first_layer :: "obj list \<Rightarrow> string \<Rightarrow> jsval" where
  "first_layer [] k = Undef"
| "first_layer (d # ds) k = (if k \<in> fst ` set d then oget d k else first_layer ds k)"

definition wf_personal :: "personal_options \<Rightarrow> bool" where
  "wf_personal g = (wf_obj (charJSPersonalDefaultOptions g) \<and> (\<forall>ct. wf_obj (personal_of ct g)))"

definition option_layers :: "chart_type \<Rightarrow> personal_options \<Rightarrow> obj option \<Rightarrow> obj list" where
  "option_layers ct g options =
     (case options of None \<Rightarrow> [] | Some op \<Rightarrow> [op])
     @ [personal_of ct g, charJSPersonalDefaultOptions g, type_defaults ct, commonOptions]
     @ (if has_axes ct then [xyAxisCommonOptions] else [])"

lemma cfg_layered [simp]: "cfg.layered ds k = first_layer ds k"
  by (induction ds) simp_all

lemma wf_tables [simp]: "wf_obj commonOptions" "wf_obj xyAxisCommonOptions" "wf_obj (type_defaults ct)"
  by (simp_all add: commonOptions_def xyAxisCommonOptions_def)
    (cases ct; simp add: PolarArea_defaults_def Radar_defaults_def Pie_defaults_def
      Doughnut_defaults_def Line_defaults_def StackedBar_defaults_def
      HorizontalStackedBar_defaults_def Bar_defaults_def HorizontalBar_defaults_def)

lemma wf_personalD:
  assumes "wf_personal g"
  shows "wf_obj (charJSPersonalDefaultOptions g)" "wf_obj (personal_of ct g)"
  using assms by (simp_all add: wf_personal_def)

text \<open>The common shape of the nine constructors.\<close>

lemma chart_config_eq:
  "chart_config ct g options =
     with_options
       (mergeChartConfig
          (mergeChartConfig
             (if has_axes ct
              then mergeChartConfig xyAxisCommonOptions (mergeChartConfig commonOptions (type_defaults ct))
              else mergeChartConfig commonOptions (type_defaults ct))
             (charJSPersonalDefaultOptions g))
          (personal_of ct g))
       options"
  by (cases ct) (simp_all add: chart_PolarArea_def chart_Radar_def chart_Pie_def chart_Doughnut_def
      chart_Line_def chart_StackedBar_def chart_HorizontalStackedBar_def chart_Bar_def
      chart_HorizontalBar_def Let_def)

lemma wf_chart_config:
  assumes "wf_personal g" "\<And>op. options = Some op \<Longrightarrow> wf_obj op"
  shows "wf_obj (chart_config ct g options)"
  using assms wf_personalD [OF assms(1)]
  by (cases options) (simp_all add: chart_config_eq with_options_def cfg.wf_merge)

lemma chart_config_layers:
  assumes "wf_personal g" "\<And>op. options = Some op \<Longrightarrow> wf_obj op"
  shows "oget (chart_config ct g options) k = first_layer (option_layers ct g options) k"
proof -
  note wfs = wf_personalD [OF assms(1)]
  have "oget (chart_config ct g None) k = first_layer (option_layers ct g None) k" for k
    using wfs
    by (simp add: chart_config_eq with_options_def option_layers_def cfg.get_merge cfg.keys_merge
        cfg.wf_merge oget_notin)
  moreover have "chart_config ct g (Some op) = mergeChartConfig (chart_config ct g None) op" for op
    by (simp add: chart_config_eq with_options_def)
  ultimately show ?thesis
    using assms wf_chart_config [of g None ct]
    by (cases options) (simp_all add: cfg.get_merge option_layers_def)
qed

lemma wf_no_personal: "wf_personal no_personal_options"
proof -
  have "personal_of ct no_personal_options = []" for ct
    by (cases ct) (simp_all add: no_personal_options_def)
  then show ?thesis by (simp add: wf_personal_def) (simp add: no_personal_options_def)
qed

section \<open>Properties\<close>

text \<open>C5: The value of an option of a chart is the one of the first layer that has the option, in this
  order: the options of the call, the personal defaults of the chart type, the personal defaults
  of all charts, the defaults of the chart type, the common options, the axis options.\<close>

theorem option_precedence:
  assumes "wf_personal g" "\<And>op. options = Some op \<Longrightarrow> wf_obj op"
  shows "oget (chart_config ct g options) k = first_layer (option_layers ct g options) k"
  using assms by (rule chart_config_layers)

theorem option_precedence_witness:
  "oget (chart_config Line no_personal_options (Some [(''bezierCurve'', Bool False)])) ''bezierCurve''
     = first_layer (option_layers Line no_personal_options (Some [(''bezierCurve'', Bool False)])) ''bezierCurve''"
  by (rule option_precedence) (simp_all add: wf_no_personal)

text \<open>A redraw passes the configuration of the previous drawing as the options of the call: the new
  configuration has the same value for every option, so redrawing is stable.\<close>

theorem redraw_keeps_config:
  assumes "wf_personal g" "\<And>op. options = Some op \<Longrightarrow> wf_obj op"
  shows "oget (chart_config ct g (Some (chart_config ct g options))) k = oget (chart_config ct g options) k"
proof -
  have *: "chart_config ct g (Some op) = mergeChartConfig (chart_config ct g None) op" for op
    by (simp add: chart_config_eq with_options_def)
  have wf: "wf_obj (chart_config ct g None)"
    using assms(1) by (intro wf_chart_config) simp_all
  show ?thesis
  proof (cases options)
    case None
    with wf show ?thesis by (simp add: * cfg.get_merge_self)
  next
    case (Some op)
    with wf assms(2) show ?thesis by (auto simp: * cfg.get_merge cfg.keys_merge cfg.wf_merge)
  qed
qed

theorem redraw_keeps_config_witness:
  "oget (chart_config Bar no_personal_options (Some (chart_config Bar no_personal_options None))) ''responsive''
     = oget (chart_config Bar no_personal_options None) ''responsive''"
  by (rule redraw_keeps_config)
    (simp_all add: wf_no_personal)

end
