(* ===== verification/ChartHelpers.thy ===== *)
theory ChartHelpers
  imports ChartOptions
begin

text \<open>
  The small functions every chart of ChartNew.js uses: line styles, the polyfill of
  \<open>Array.prototype.indexOf\<close>, number formatting and its inverse, capping, option values that
  may be given per data item, and the drawing type of a data set.
\<close>

section \<open>Line styles\<close>

definition chartJSLineStyle :: "(string \<times> real list) list" where
  "chartJSLineStyle =
     [(''solid'', []),
      (''dotted'', [1, 4]),
      (''shortDash'', [2, 1]),
      (''dashed'', [4, 2]),
      (''dashSpace'', [4, 6]),
      (''longDashDot'', [7, 2, 1, 2]),
      (''longDashShortDash'', [10, 4, 4, 4]),
      (''gradient'', [1, 2, 2, 3, 3, 4, 4, 5, 5, 6, 6, 7, 7, 8, 8, 9, 9, 10, 10, 9, 9, 8, 8, 7, 7,
                      6, 6, 5, 5, 4, 4, 3, 3, 2, 2, 1])]"

definition lineStyleFn :: "(jsnum \<Rightarrow> string) \<Rightarrow> jsval \<Rightarrow> real list" where
  "lineStyleFn ns data =
     (case map_of chartJSLineStyle (to_string ns data) of Some style \<Rightarrow> style | None \<Rightarrow> [])"

section \<open>The polyfill of indexOf\<close>

text \<open>
  \<open>n\<close> is the integer read from the second argument: \<open>NaN\<close> counts as 0, any other finite number
  is truncated towards zero.  The result is \<open>-1\<close> when nothing is found.  Elements are compared
  with \<open>===\<close>, given as the argument \<open>eq\<close>.
\<close>

definition indexOf_from :: "jsnum \<Rightarrow> jsnum" where
  "indexOf_from n =
     (if n = NaN then Fin 0
      else if \<not> num_eq n 0 \<and> n \<noteq> PInf \<and> n \<noteq> NInf
      then (if n > 0 then 1 else - 1) * math_floor (math_abs n)
      else n)"

fun indexOf_scan :: "('a \<Rightarrow> bool) \<Rightarrow> nat \<Rightarrow> 'a list \<Rightarrow> int" where
  "indexOf_scan p k [] = - 1"
| "indexOf_scan p k (x # xs) = (if p x then int k else indexOf_scan p (Suc k) xs)"

definition array_indexOf :: "('a \<Rightarrow> 'a \<Rightarrow> bool) \<Rightarrow> 'a list \<Rightarrow> 'a \<Rightarrow> jsnum \<Rightarrow> int" where
  "array_indexOf eq t searchElement fromIndex =
     (let len = length t
      in if len = 0 then - 1
         else
           (let n = indexOf_from fromIndex
            in if n \<ge> Fin (of_nat len) then - 1
               else
                 (let k = (if n \<ge> 0 then n else math_max (Fin (of_nat len) - math_abs n) 0)
                  in case k of
                       Fin r \<Rightarrow> indexOf_scan (\<lambda>x. eq x searchElement) (nat \<lfloor>r\<rfloor>) (drop (nat \<lfloor>r\<rfloor>) t)
                     | _ \<Rightarrow> - 1)))"

section \<open>Numbers, caps and extrema\<close>

text \<open>
  \<open>!isNaN(parseFloat(n)) && isFinite(n)\<close>: for a string, \<open>parseFloat\<close> succeeds on every
  non-blank string that \<open>ToNumber\<close> accepts, and fails on a blank one.
\<close>

fun isNumber :: "jsval \<Rightarrow> bool" where
  "isNumber (Num n) = is_fin n"
| "isNumber (Str s) = (is_fin (str_to_num s) \<and> str_trim s \<noteq> [])"
| "isNumber (Arr [v]) = isNumber v"
| "isNumber _ = False"

definition CapValue :: "jsnum \<Rightarrow> jsval \<Rightarrow> jsval \<Rightarrow> jsnum" where
  "CapValue valueToCap maxValue minValue =
     (if isNumber maxValue \<and> valueToCap > to_number maxValue then to_number maxValue
      else if isNumber minValue \<and> valueToCap < to_number minValue then to_number minValue
      else valueToCap)"

definition Max_array :: "jsnum list \<Rightarrow> jsnum" where
  "Max_array array = foldl math_max NInf array"

definition Min_array :: "jsnum list \<Rightarrow> jsnum" where
  "Min_array array = foldl math_min PInf array"

definition Default :: "jsval \<Rightarrow> jsval \<Rightarrow> jsval" where
  "Default userDeclared valueIfFalse = (if \<not> to_bool userDeclared then valueIfFalse else userDeclared)"

section \<open>Formatting numbers\<close>

definition is_word :: "char \<Rightarrow> bool" where
  "is_word c = (is_digit c \<or> c = CHR ''_''
      \<or> (65 \<le> (of_char c :: nat) \<and> (of_char c :: nat) \<le> 90)
      \<or> (97 \<le> (of_char c :: nat) \<and> (of_char c :: nat) \<le> 122))"

text \<open>
  \<open>s.replace(/\B(?=(\d{3})+(?!\d))/g, sep)\<close>: \<open>sep\<close> is inserted at every position that is inside a
  word and is followed by a maximal run of digits whose length is a positive multiple of three.
  \<open>prev\<close> tells whether the character before the position is a word character.
\<close>

fun group_thousands :: "string \<Rightarrow> bool \<Rightarrow> string \<Rightarrow> string" where
  "group_thousands sep prev [] = []"
| "group_thousands sep prev (c # s) =
     (let n = length (takeWhile is_digit (c # s))
      in (if prev \<and> 0 < n \<and> 3 dvd n then sep else []) @ c # group_thousands sep (is_word c) s)"

text \<open>\<open>s.replace(/\./g, d)\<close>.\<close>

definition replace_dots :: "string \<Rightarrow> string \<Rightarrow> string" where
  "replace_dots d s = concat (map (\<lambda>c. if c = CHR ''.'' then d else [c]) s)"

text \<open>\<open>while (v1.indexOf(sep) >= 0) v1 = v1.replace(sep, "")\<close>, for a separator that is not empty.\<close>

function remove_all :: "string \<Rightarrow> string \<Rightarrow> string" where
  "remove_all sep s =
     (if sep \<noteq> [] \<and> index_of sep s \<noteq> None then remove_all sep (str_replace1 s sep []) else s)"
  by pat_completeness auto
termination
proof (relation "measure (\<lambda>(sep, s). length s)")
  fix sep s :: string
  assume "sep \<noteq> [] \<and> index_of sep s \<noteq> None"
  then obtain i where "index_of sep s = Some i" and "sep \<noteq> []" by auto
  with index_of_bound [of sep s i] show "((sep, str_replace1 s sep []), sep, s) \<in> measure (\<lambda>(sep, s). length s)"
    by (cases sep; cases s) (simp_all add: str_replace1_def)
qed simp

declare remove_all.simps [simp del]

text \<open>The rounding by string concatenation that \<open>fmtChartJS\<close> and \<open>roundToWithThousands\<close> share.\<close>

definition round_place :: "(jsnum \<Rightarrow> string) \<Rightarrow> jsnum \<Rightarrow> jsval \<Rightarrow> jsnum" where
  "round_place ns value place =
     (if to_number place \<le> 0 then
        (let roundVal = - to_number place
         in str_to_num (ns (math_round (str_to_num (ns value @ ''e+'' @ ns roundVal))) @ ''e-'' @ ns roundVal))
      else
        (let divval = ''1e+'' @ to_string ns place
         in math_round (value / str_to_num divval) * str_to_num divval))"

definition fmtChartJS ::
  "(jsnum \<Rightarrow> string) \<Rightarrow> (obj \<Rightarrow> jsval \<Rightarrow> jsval \<Rightarrow> jsval) \<Rightarrow> obj \<Rightarrow> jsval \<Rightarrow> jsval \<Rightarrow> jsval" where
  "fmtChartJS ns perso config value fmt =
     (if loose_eq fmt (Str ''notformatted'') then value
      else if loose_eq fmt (Str ''none'') \<and> is_number value then
        (let value1 = (if \<not> loose_eq (oget config ''roundNumber'') (Str ''none'')
                       then round_place ns (to_number value) (oget config ''roundNumber'')
                       else to_number value);
             dec = oget config ''decimalSeparator''; thou = oget config ''thousandSeparator''
         in if \<not> loose_eq dec (Str ''.'') \<or> \<not> loose_eq thou (Str '''') then
              (let return_value = replace_dots (to_string ns dec) (ns value1)
               in if \<not> loose_eq thou (Str '''') then
                    (let posdec = index_of (to_string ns dec) return_value;
                         part2 = (case posdec of None \<Rightarrow> [] | Some p \<Rightarrow> drop (p + 1) return_value);
                         part1 = (case posdec of None \<Rightarrow> return_value | Some p \<Rightarrow> take p return_value);
                         part1' = group_thousands (to_string ns thou) False part1
                     in Str (if part2 \<noteq> [] then part1' @ to_string ns dec @ part2 else part1'))
                  else Str return_value)
            else Num value1)
      else if \<not> loose_eq fmt (Str ''none'') \<and> \<not> loose_eq fmt (Str ''notformatted'')
      then perso config value fmt
      else value)"

definition unFormat :: "(jsnum \<Rightarrow> string) \<Rightarrow> obj \<Rightarrow> jsval \<Rightarrow> jsval" where
  "unFormat ns config num =
     (let dec = oget config ''decimalSeparator''; thou = oget config ''thousandSeparator''
      in if (\<not> loose_eq dec (Str ''.'') \<or> \<not> loose_eq thou (Str '''')) \<and> is_string num then
           (let v1 = to_string ns num;
                v1 = (if \<not> loose_eq thou (Str '''') then remove_all (to_string ns thou) v1 else v1);
                v1 = (if \<not> loose_eq dec (Str ''.'') then str_replace1 v1 (to_string ns dec) ''.'' else v1)
            in Num (str_to_num v1))
         else num)"

definition roundToWithThousands ::
  "(jsnum \<Rightarrow> string) \<Rightarrow> (obj \<Rightarrow> jsval \<Rightarrow> jsval \<Rightarrow> jsval) \<Rightarrow> obj \<Rightarrow> jsval \<Rightarrow> jsval \<Rightarrow> jsval" where
  "roundToWithThousands ns perso config num place =
     (let newval = to_number (unFormat ns config num);
          newval = (if \<not> loose_eq place (Str ''none'') then round_place ns newval place else newval)
      in fmtChartJS ns perso config (Num newval) (Str ''none''))"

text \<open>The sample formats of ChartNew.js itself, which a page replaces by its own function.\<close>

definition fmtChartJSPerso_ChartNew :: "(jsnum \<Rightarrow> string) \<Rightarrow> obj \<Rightarrow> jsval \<Rightarrow> jsval \<Rightarrow> jsval" where
  "fmtChartJSPerso_ChartNew ns config value fmt =
     (if fmt = Str ''SampleJS_Format'' then
        (if is_number value then Str (''My Format : '' @ to_string ns value @ '' $'')
         else Str (to_string ns value @ ''XX''))
      else if fmt = Str ''Change_Month'' then
        (if is_string value then Str (to_string ns value @ '' 2014'')
         else Str (to_string ns value @ ''YY''))
      else value)"

section \<open>Option values\<close>

text \<open>
  An option is a value, an array indexed by the data position, or a function.  \<open>call f r i j\<close> is
  the result of the option function \<open>f\<close> for the reference \<open>r\<close> and the position \<open>(i, j)\<close>.
  Reading \<open>length\<close> of \<open>null\<close> raises; an object without \<open>length\<close> gives \<open>undefined\<close>.
\<close>

definition option_at :: "jsval \<Rightarrow> int \<Rightarrow> int \<Rightarrow> js_error + jsval" where
  "option_at v posi posj =
     (let pos = (if posj = - 1 then posi else posj)
      in case v of
           Arr vs \<Rightarrow>
             (let ix = min (int (length vs) - 1) (max 0 pos)
              in Inr (if ix < 0 then Undef else aget vs (nat ix)))
         | Null \<Rightarrow> Inl TypeError
         | _ \<Rightarrow> Inr Undef)"

definition rescaled :: "jsnum \<Rightarrow> jsval \<Rightarrow> jsval" where
  "rescaled rescale rv = (if \<not> num_eq rescale 1 then Num (math_ceil (to_number rv * rescale)) else rv)"

definition setOptionValue ::
  "(string \<Rightarrow> string \<Rightarrow> int \<Rightarrow> int \<Rightarrow> jsval) \<Rightarrow> jsnum \<Rightarrow> string \<Rightarrow> jsval \<Rightarrow> jsval \<Rightarrow> int \<Rightarrow> int
     \<Rightarrow> js_error + jsval" where
  "setOptionValue call rescale reference optionvar defaultvalue posi posj =
     (if typeof optionvar = ''undefined'' then
        (case defaultvalue of
           Fn f \<Rightarrow> Inr (call f reference posi posj)
         | _ \<Rightarrow>
             (if typeof defaultvalue = ''object''
              then (case option_at defaultvalue posi posj of
                      Inl e \<Rightarrow> Inl e | Inr rv \<Rightarrow> Inr (rescaled rescale rv))
              else Inr (rescaled rescale defaultvalue)))
      else
        (case optionvar of
           Fn f \<Rightarrow> Inr (rescaled rescale (call f reference posi posj))
         | _ \<Rightarrow>
             (if typeof optionvar = ''object''
              then (case option_at optionvar posi posj of
                      Inl e \<Rightarrow> Inl e | Inr rv \<Rightarrow> Inr (rescaled rescale rv))
              else Inr (rescaled rescale optionvar))))"

text \<open>
  \<open>isBooleanOptionTrue(optionVar, defaultvalue)\<close> reads a variable \<open>optionvar\<close> that is not its
  parameter: a global that no script declares, so that \<open>typeof optionvar\<close> is \<open>"undefined"\<close>.
\<close>

definition global_optionvar :: jsval where
  "global_optionvar = Undef"

definition boolean_option :: "jsval \<Rightarrow> js_error + jsval" where
  "boolean_option v =
     (case v of
        Fn _ \<Rightarrow> Inr (Bool True)
      | Arr vs \<Rightarrow> Inr (Bool (list_ex to_bool vs))
      | Obj _ \<Rightarrow> Inr (Bool False)
      | Null \<Rightarrow> Inl TypeError
      | _ \<Rightarrow> Inr v)"

definition isBooleanOptionTrue :: "jsval \<Rightarrow> jsval \<Rightarrow> js_error + jsval" where
  "isBooleanOptionTrue optionVar defaultvalue =
     (if typeof global_optionvar = ''undefined'' then boolean_option defaultvalue
      else boolean_option global_optionvar)"

text \<open>The drawing type of a data set: the data sets of a bar chart may be drawn as lines.\<close>

definition tpdraw :: "string \<Rightarrow> jsval \<Rightarrow> string" where
  "tpdraw tpchart dataval_type =
     (if tpchart = ''Bar'' then (if loose_eq dataval_type (Str ''Line'') then ''Line'' else tpchart)
      else tpchart)"

section \<open>Lemmas\<close>

lemma isNumber_NumF [simp]: "isNumber (NumF r)"
  by simp

lemma CapValue_Fin:
  "CapValue (Fin v) (NumF hi) (NumF lo) = Fin (if v > hi then hi else if v < lo then lo else v)"
  by (simp add: CapValue_def)

lemma CapValue_range:
  assumes "lo \<le> hi"
  obtains r where "CapValue (Fin v) (NumF hi) (NumF lo) = Fin r" "lo \<le> r" "r \<le> hi"
  using assms by (auto simp: CapValue_Fin split: if_splits)

lemma group_thousands_filter:
  "\<not> is_word c \<Longrightarrow> c \<notin> set s \<Longrightarrow> filter (\<lambda>x. x \<noteq> c) (group_thousands [c] prev s) = s"
  by (induction "[c]" prev s rule: group_thousands.induct) (auto simp: Let_def)

lemma remove_all_char: "remove_all [c] s = filter (\<lambda>x. x \<noteq> c) s"
proof (induction "[c]" s rule: remove_all.induct)
  case (1 s)
  show ?case
  proof (cases "c \<in> set s")
    case False
    then show ?thesis
      by (subst remove_all.simps) (auto simp: index_of_char_dropWhile intro: filter_True [symmetric])
  next
    case True
    then obtain ys zs where s: "s = ys @ c # zs" and ys: "c \<notin> set ys"
      by (meson split_list_first)
    have "takeWhile (\<lambda>x. x \<noteq> c) (ys @ c # zs) = ys"
      using ys by (subst takeWhile_append2) auto
    then have ix: "index_of [c] s = Some (length ys)"
      by (simp add: s index_of_char_dropWhile)
    have "str_replace1 s [c] [] = ys @ zs"
      by (simp add: str_replace1_def ix) (simp add: s)
    then have "remove_all [c] s = filter (\<lambda>x. x \<noteq> c) (ys @ zs)"
      using 1 ix by (simp add: remove_all.simps [of "[c]" s])
    then show ?thesis by (simp add: s)
  qed
qed

lemma indexOf_scan_cases:
  obtains "indexOf_scan p k xs = - 1" "\<And>i. i < length xs \<Longrightarrow> \<not> p (xs ! i)"
  | i where "indexOf_scan p k xs = int (k + i)" "i < length xs" "p (xs ! i)"
      "\<And>j. j < i \<Longrightarrow> \<not> p (xs ! j)"
proof (induction p k xs arbitrary: thesis rule: indexOf_scan.induct)
  case (2 p k x xs)
  show ?case
  proof (cases "p x")
    case True
    then show ?thesis using "2.prems"(2) [of 0] by simp
  next
    case False
    show ?thesis
    proof (rule "2.IH" [OF False])
      assume "indexOf_scan p (Suc k) xs = - 1" "\<And>i. i < length xs \<Longrightarrow> \<not> p (xs ! i)"
      with False show thesis by (intro "2.prems"(1)) (auto simp: nth_Cons split: nat.splits)
    next
      fix i
      assume "indexOf_scan p (Suc k) xs = int (Suc k + i)" "i < length xs" "p (xs ! i)"
        "\<And>j. j < i \<Longrightarrow> \<not> p (xs ! j)"
      with False show thesis
        by (intro "2.prems"(2) [of "Suc i"]) (auto simp: nth_Cons split: nat.splits)
    qed
  qed
qed simp

lemma indexOf_from_int [simp]: "indexOf_from (Fin (of_int n)) = Fin (of_int n)"
  by (simp add: indexOf_from_def)

text \<open>The first index a search from the integer \<open>n\<close> looks at.\<close>

definition search_start :: "nat \<Rightarrow> int \<Rightarrow> nat" where
  "search_start len n = nat (if 0 \<le> n then n else int len + n)"

lemma array_indexOf_int:
  "array_indexOf eq t x (Fin (of_int n)) =
     indexOf_scan (\<lambda>y. eq y x) (search_start (length t) n) (drop (search_start (length t) n) t)"
proof -
  have "real (length t) \<le> of_int n \<longleftrightarrow> int (length t) \<le> n"
    by (metis of_int_le_iff of_int_of_nat_eq)
  moreover have "nat \<lfloor>max (real (length t) - \<bar>real_of_int n\<bar>) 0\<rfloor> = nat (int (length t) + n)" if "n < 0"
  proof -
    have "max (real (length t) - \<bar>real_of_int n\<bar>) 0 = real_of_int (max (int (length t) + n) 0)"
      using that by simp
    then show ?thesis by (simp only: floor_of_int)
  qed
  ultimately show ?thesis
    by (auto simp: array_indexOf_def Let_def search_start_def)
qed

text \<open>
  A printed number that the formatting understands: it reads back as the number, and it is a run
  of characters with at most one dot, followed by something.
\<close>

definition plain_numeral :: "(jsnum \<Rightarrow> string) \<Rightarrow> jsnum \<Rightarrow> bool" where
  "plain_numeral ns v =
     (let s = ns v; i = takeWhile (\<lambda>c. c \<noteq> CHR ''.'') s; f = dropWhile (\<lambda>c. c \<noteq> CHR ''.'') s
      in str_to_num s = v \<and> (f = [] \<or> tl f \<noteq> [] \<and> CHR ''.'' \<notin> set (tl f)))"

lemma plain_numeralE:
  assumes "plain_numeral ns v"
  obtains (integer) "str_to_num (ns v) = v" "CHR ''.'' \<notin> set (ns v)"
  | (fraction) i f where "str_to_num (ns v) = v" "ns v = i @ CHR ''.'' # f" "CHR ''.'' \<notin> set i"
      "CHR ''.'' \<notin> set f" "f \<noteq> []"
proof (cases "dropWhile (\<lambda>c. c \<noteq> CHR ''.'') (ns v)")
  case Nil
  then have "CHR ''.'' \<notin> set (ns v)" by (auto simp: dropWhile_eq_Nil_conv)
  moreover have "str_to_num (ns v) = v" using assms by (simp add: plain_numeral_def Let_def)
  ultimately show ?thesis using that(1) by blast
next
  case (Cons d f)
  have "d = CHR ''.''" using Cons by (simp add: dropWhile_eq_Cons_conv)
  moreover have "ns v = takeWhile (\<lambda>c. c \<noteq> CHR ''.'') (ns v) @ d # f"
    using takeWhile_dropWhile_id [of "\<lambda>c. c \<noteq> CHR ''.''" "ns v"] by (simp only: Cons)
  moreover have "CHR ''.'' \<notin> set (takeWhile (\<lambda>c. c \<noteq> CHR ''.'') (ns v))"
    by (auto dest: set_takeWhileD)
  moreover have "str_to_num (ns v) = v" "CHR ''.'' \<notin> set f" "f \<noteq> []"
    using assms unfolding plain_numeral_def Let_def Cons by auto
  ultimately show ?thesis by (intro that(2)) simp_all
qed

lemma replace_dots_none: "CHR ''.'' \<notin> set s \<Longrightarrow> replace_dots d s = s"
  by (induction s) (auto simp: replace_dots_def)

lemma replace_dots_append: "replace_dots d (s @ t) = replace_dots d s @ replace_dots d t"
  by (simp add: replace_dots_def)

lemma replace_dots_Cons: "replace_dots d (c # s) = (if c = CHR ''.'' then d else [c]) @ replace_dots d s"
  by (simp add: replace_dots_def)

lemma index_of_char_first: "c \<notin> set i \<Longrightarrow> index_of [c] (i @ c # f) = Some (length i)"
  by (simp add: index_of_char_dropWhile) (subst takeWhile_append2; auto)

lemma index_of_char_none: "c \<notin> set s \<Longrightarrow> index_of [c] s = None"
  by (simp add: index_of_char_dropWhile)

text \<open>Taking the separators of a grouped number out again.\<close>

lemma ungroup:
  assumes "\<not> is_word t" "t \<noteq> d" "t \<notin> set i" "t \<notin> set f"
  shows "remove_all [t] (group_thousands [t] False i @ d # f) = i @ d # f"
    and "remove_all [t] (group_thousands [t] False i) = i"
  using assms by (auto simp: remove_all_char group_thousands_filter filter_id_conv)

lemma put_dot_back:
  assumes "d \<notin> set i"
  shows "str_replace1 (i @ d # f) [d] ''.'' = i @ CHR ''.'' # f"
  using assms by (simp add: str_replace1_def index_of_char_first)

lemma put_dot_back_none: "d \<notin> set s \<Longrightarrow> str_replace1 s [d] q = s"
  by (simp add: str_replace1_def index_of_char_none)

section \<open>Properties\<close>

text \<open>\<open>Array.prototype.indexOf\<close> (the polyfill) returns the first index, not before the given one
  (counted from the end when negative), at which the element occurs, and \<open>-1\<close> when there is none.\<close>

theorem array_indexOf_first:
  "let k = search_start (length t) n in
   array_indexOf eq t x (Fin (of_int n)) = - 1 \<and> (\<forall>i. k \<le> i \<and> i < length t \<longrightarrow> \<not> eq (t ! i) x)
         \<or> (\<exists>i. array_indexOf eq t x (Fin (of_int n)) = int i \<and> k \<le> i \<and> i < length t \<and> eq (t ! i) x
               \<and> (\<forall>j. k \<le> j \<and> j < i \<longrightarrow> \<not> eq (t ! j) x))"
  (is "let k = ?k in ?P k")
proof (cases rule: indexOf_scan_cases [of "\<lambda>y. eq y x" ?k "drop ?k t"])
  case 1
  have "\<not> eq (t ! i) x" if "?k \<le> i" "i < length t" for i
    using 1(2) [of "i - ?k"] that by simp
  with 1(1) show ?thesis by (simp add: array_indexOf_int)
next
  case (2 i)
  have "\<not> eq (t ! j) x" if "?k \<le> j" "j < ?k + i" for j
    using 2(2) 2(4) [of "j - ?k"] that by simp
  with 2 show ?thesis
    unfolding Let_def by (intro disjI2 exI [of _ "?k + i"]) (simp add: array_indexOf_int)
qed

theorem array_indexOf_first_witness:
  "let k = search_start (length [7, 8, 7::nat]) (- 2) in
   array_indexOf (=) [7, 8, 7::nat] 7 (Fin (of_int (- 2))) = - 1
     \<and> (\<forall>i. k \<le> i \<and> i < length [7, 8, 7::nat] \<longrightarrow> \<not> [7, 8, 7] ! i = (7::nat))
   \<or> (\<exists>i. array_indexOf (=) [7, 8, 7::nat] 7 (Fin (of_int (- 2))) = int i \<and> k \<le> i \<and> i < length [7, 8, 7::nat]
        \<and> [7, 8, 7] ! i = (7::nat) \<and> (\<forall>j. k \<le> j \<and> j < i \<longrightarrow> \<not> [7, 8, 7] ! j = (7::nat)))"
  by (rule array_indexOf_first)

text \<open>C29: Formatting a number with a decimal separator and a thousand separator and reading it back with
  \<open>unFormat\<close> gives the number again, for every number that is printed without an exponent.\<close>

theorem unFormat_fmtChartJS:
  assumes "oget config ''decimalSeparator'' = Str [d]" "oget config ''thousandSeparator'' = Str ts"
    and "oget config ''roundNumber'' = Str ''none''" "plain_numeral ns v"
    and "d \<noteq> CHR ''.'' \<Longrightarrow> d \<notin> set (ns v)"
    and "ts = [] \<or> (\<exists>t. ts = [t] \<and> \<not> is_word t \<and> t \<noteq> d \<and> t \<notin> set (ns v))"
  shows "unFormat ns config (fmtChartJS ns perso config (Num v) (Str ''none'')) = Num v"
  using assms(4)
proof (cases rule: plain_numeralE)
  case integer
  with assms show ?thesis
    by (auto simp: fmtChartJS_def unFormat_def Let_def replace_dots_none index_of_char_none ungroup put_dot_back_none)
next
  case (fraction i f)
  with assms show ?thesis
    by (auto simp: fmtChartJS_def unFormat_def Let_def replace_dots_none replace_dots_append replace_dots_Cons
        index_of_char_first ungroup put_dot_back)
qed

definition german :: obj where
  "german = [(''decimalSeparator'', Str '',''), (''thousandSeparator'', Str '' ''), (''roundNumber'', Str ''none'')]"

theorem unFormat_fmtChartJS_witness:
  "unFormat (\<lambda>_. ''1234567.5'') german
     (fmtChartJS (\<lambda>_. ''1234567.5'') (\<lambda>_ v _. v) german (NumF (12345675 / 10)) (Str ''none'')) = NumF (12345675 / 10)"
  by (rule unFormat_fmtChartJS [where d = "CHR '',''" and ts = "'' ''"])
    (simp_all add: german_def plain_numeral_def Let_def is_word_def is_digit_def str_to_num_def str_trim_def
      is_space_def parse_unsigned_def parse_exponent_def digits_val_def digit_val_def)

text \<open>An option given as a non-empty array always yields one of its elements, whatever position is
  asked for: the position is clamped to the array.\<close>

theorem setOptionValue_array:
  assumes "vs \<noteq> []"
  shows "\<exists>v \<in> set vs. setOptionValue call (Fin 1) reference (Arr vs) defaultvalue posi posj = Inr v"
proof -
  have "nat (min (int (length vs) - 1) (max 0 p)) < length vs" for p
    using assms by (cases vs) auto
  moreover have "\<not> min (int (length vs) - 1) (max 0 p) < 0" for p
    using assms by (cases vs) auto
  ultimately show ?thesis
    by (simp add: setOptionValue_def option_at_def Let_def rescaled_def aget_def)
qed

theorem setOptionValue_array_witness:
  "\<exists>v \<in> set [Str ''red'', Str ''blue'']. setOptionValue (\<lambda>_ _ _ _. Undef) (Fin 1) ''COLOR''
     (Arr [Str ''red'', Str ''blue'']) Undef 7 (- 1) = Inr v"
  by (rule setOptionValue_array) simp

text \<open>\<open>isBooleanOptionTrue\<close> never looks at the option it is given: its answer depends on the default
  value only.\<close>

theorem isBooleanOptionTrue_ignores_option:
  "isBooleanOptionTrue optionVar defaultvalue = boolean_option defaultvalue"
  by (simp add: isBooleanOptionTrue_def global_optionvar_def)

end
