(* ===== verification/Easing.thy ===== *)
theory Easing
  imports JsValue
begin

text \<open>
  The easing functions of the animation (\<open>animationOptions\<close> in \<open>window.Chart\<close>), each taking the
  completed share \<open>t\<close> of an animation to the share that is drawn.  Assignments to \<open>t\<close> inside an
  expression of the source are \<open>let\<close>s here, in the order of evaluation.
\<close>

section \<open>Functions of Math\<close>

fun math_sqrt :: "jsnum \<Rightarrow> jsnum" where
  "math_sqrt (Fin a) = (if a < 0 then NaN else Fin (sqrt a))"
| "math_sqrt PInf = PInf"
| "math_sqrt _ = NaN"

fun math_cos :: "jsnum \<Rightarrow> jsnum" where
  "math_cos (Fin a) = Fin (cos a)"
| "math_cos _ = NaN"

fun math_sin :: "jsnum \<Rightarrow> jsnum" where
  "math_sin (Fin a) = Fin (sin a)"
| "math_sin _ = NaN"

fun math_asin :: "jsnum \<Rightarrow> jsnum" where
  "math_asin (Fin a) = (if - 1 \<le> a \<and> a \<le> 1 then Fin (arcsin a) else NaN)"
| "math_asin _ = NaN"

text \<open>\<open>Math.pow(2, x)\<close>.\<close>

fun math_pow2 :: "jsnum \<Rightarrow> jsnum" where
  "math_pow2 (Fin a) = Fin (2 powr a)"
| "math_pow2 PInf = PInf"
| "math_pow2 NInf = Fin 0"
| "math_pow2 NaN = NaN"

definition PI :: jsnum where
  "PI = Fin pi"

section \<open>The easing functions\<close>

definition linear :: "jsnum \<Rightarrow> jsnum" where
  "linear t = t"

definition easeInQuad :: "jsnum \<Rightarrow> jsnum" where
  "easeInQuad t = t * t"

definition easeOutQuad :: "jsnum \<Rightarrow> jsnum" where
  "easeOutQuad t = - 1 * t * (t - 2)"

definition easeInOutQuad :: "jsnum \<Rightarrow> jsnum" where
  "easeInOutQuad t0 =
     (let t = t0 / (1 / 2)
      in if t < 1 then 1 / 2 * t * t else (let t' = t - 1 in - 1 / 2 * (t' * (t' - 2) - 1)))"

definition easeInCubic :: "jsnum \<Rightarrow> jsnum" where
  "easeInCubic t = t * t * t"

definition easeOutCubic :: "jsnum \<Rightarrow> jsnum" where
  "easeOutCubic t0 = (let t = t0 / 1 - 1 in 1 * (t * t * t + 1))"

definition easeInOutCubic :: "jsnum \<Rightarrow> jsnum" where
  "easeInOutCubic t0 =
     (let t = t0 / (1 / 2)
      in if t < 1 then 1 / 2 * t * t * t else (let t' = t - 2 in 1 / 2 * (t' * t' * t' + 2)))"

definition easeInQuart :: "jsnum \<Rightarrow> jsnum" where
  "easeInQuart t = t * t * t * t"

definition easeOutQuart :: "jsnum \<Rightarrow> jsnum" where
  "easeOutQuart t0 = (let t = t0 / 1 - 1 in - 1 * (t * t * t * t - 1))"

definition easeInOutQuart :: "jsnum \<Rightarrow> jsnum" where
  "easeInOutQuart t0 =
     (let t = t0 / (1 / 2)
      in if t < 1 then 1 / 2 * t * t * t * t
         else (let t' = t - 2 in - 1 / 2 * (t' * t' * t' * t' - 2)))"

definition easeInQuint :: "jsnum \<Rightarrow> jsnum" where
  "easeInQuint t0 = (let t = t0 / 1 in 1 * t * t * t * t * t)"

definition easeOutQuint :: "jsnum \<Rightarrow> jsnum" where
  "easeOutQuint t0 = (let t = t0 / 1 - 1 in 1 * (t * t * t * t * t + 1))"

definition easeInOutQuint :: "jsnum \<Rightarrow> jsnum" where
  "easeInOutQuint t0 =
     (let t = t0 / (1 / 2)
      in if t < 1 then 1 / 2 * t * t * t * t * t
         else (let t' = t - 2 in 1 / 2 * (t' * t' * t' * t' * t' + 2)))"

definition easeInSine :: "jsnum \<Rightarrow> jsnum" where
  "easeInSine t = - 1 * math_cos (t / 1 * (PI / 2)) + 1"

definition easeOutSine :: "jsnum \<Rightarrow> jsnum" where
  "easeOutSine t = 1 * math_sin (t / 1 * (PI / 2))"

definition easeInOutSine :: "jsnum \<Rightarrow> jsnum" where
  "easeInOutSine t = - 1 / 2 * (math_cos (PI * t / 1) - 1)"

definition easeInExpo :: "jsnum \<Rightarrow> jsnum" where
  "easeInExpo t = (if num_eq t 0 then 1 else 1 * math_pow2 (10 * (t / 1 - 1)))"

definition easeOutExpo :: "jsnum \<Rightarrow> jsnum" where
  "easeOutExpo t = (if num_eq t 1 then 1 else 1 * (- math_pow2 (- 10 * t / 1) + 1))"

definition easeInOutExpo :: "jsnum \<Rightarrow> jsnum" where
  "easeInOutExpo t0 =
     (if num_eq t0 0 then 0
      else if num_eq t0 1 then 1
      else
        (let t = t0 / (1 / 2)
         in if t < 1 then 1 / 2 * math_pow2 (10 * (t - 1))
            else (let t' = t - 1 in 1 / 2 * (- math_pow2 (- 10 * t') + 2))))"

definition easeInCirc :: "jsnum \<Rightarrow> jsnum" where
  "easeInCirc t0 =
     (if t0 \<ge> 1 then t0 else (let t = t0 / 1 in - 1 * (math_sqrt (1 - t * t) - 1)))"

definition easeOutCirc :: "jsnum \<Rightarrow> jsnum" where
  "easeOutCirc t0 = (let t = t0 / 1 - 1 in 1 * math_sqrt (1 - t * t))"

definition easeInOutCirc :: "jsnum \<Rightarrow> jsnum" where
  "easeInOutCirc t0 =
     (let t = t0 / (1 / 2)
      in if t < 1 then - 1 / 2 * (math_sqrt (1 - t * t) - 1)
         else (let t' = t - 2 in 1 / 2 * (math_sqrt (1 - t' * t') + 1)))"

text \<open>In the elastic functions \<open>a < Math.abs(1)\<close> never holds for \<open>a = 1\<close>: the other branch sets \<open>s\<close>.\<close>

definition elastic_s :: "jsnum \<Rightarrow> jsnum \<Rightarrow> jsnum" where
  "elastic_s a p = (if a < math_abs 1 then p / 4 else p / (2 * PI) * math_asin (1 / a))"

definition easeInElastic :: "jsnum \<Rightarrow> jsnum" where
  "easeInElastic t0 =
     (let a = 1; p = 1 * Fin (3 / 10)
      in if num_eq t0 0 then 0
         else
           (let t = t0 / 1
            in if num_eq t 1 then 1
               else
                 (let s = elastic_s a p; t' = t - 1
                  in - (a * math_pow2 (10 * t') * math_sin ((t' * 1 - s) * (2 * PI) / p)))))"

definition easeOutElastic :: "jsnum \<Rightarrow> jsnum" where
  "easeOutElastic t0 =
     (let a = 1; p = 1 * Fin (3 / 10)
      in if num_eq t0 0 then 0
         else
           (let t = t0 / 1
            in if num_eq t 1 then 1
               else
                 (let s = elastic_s a p
                  in a * math_pow2 (- 10 * t) * math_sin ((t * 1 - s) * (2 * PI) / p) + 1)))"

definition easeInOutElastic :: "jsnum \<Rightarrow> jsnum" where
  "easeInOutElastic t0 =
     (let a = 1; p = 1 * (Fin (3 / 10) * Fin (3 / 2))
      in if num_eq t0 0 then 0
         else
           (let t = t0 / (1 / 2)
            in if num_eq t 2 then 1
               else
                 (let s = elastic_s a p; t' = t - 1
                  in if t < 1
                     then - Fin (1 / 2) * (a * math_pow2 (10 * t') * math_sin ((t' * 1 - s) * (2 * PI) / p))
                     else a * math_pow2 (- 10 * t') * math_sin ((t' * 1 - s) * (2 * PI) / p) * Fin (1 / 2)
                          + 1)))"

definition easeInBack :: "jsnum \<Rightarrow> jsnum" where
  "easeInBack t0 = (let s = Fin (170158 / 100000); t = t0 / 1 in 1 * t * t * ((s + 1) * t - s))"

definition easeOutBack :: "jsnum \<Rightarrow> jsnum" where
  "easeOutBack t0 =
     (let s = Fin (170158 / 100000); t = t0 / 1 - 1 in 1 * (t * t * ((s + 1) * t + s) + 1))"

definition easeInOutBack :: "jsnum \<Rightarrow> jsnum" where
  "easeInOutBack t0 =
     (let s = Fin (170158 / 100000); t = t0 / (1 / 2); s' = s * Fin (1525 / 1000)
      in if t < 1 then 1 / 2 * (t * t * ((s' + 1) * t - s'))
         else (let t' = t - 2 in 1 / 2 * (t' * t' * ((s' + 1) * t' + s') + 2)))"

definition easeOutBounce :: "jsnum \<Rightarrow> jsnum" where
  "easeOutBounce t0 =
     (let t = t0 / 1; k = Fin (75625 / 10000); d = Fin (275 / 100)
      in if t < 1 / d then 1 * (k * t * t)
         else if t < 2 / d then (let t' = t - Fin (3 / 2) / d in 1 * (k * t' * t' + Fin (75 / 100)))
         else if t < Fin (5 / 2) / d
         then (let t' = t - Fin (225 / 100) / d in 1 * (k * t' * t' + Fin (9375 / 10000)))
         else (let t' = t - Fin (2625 / 1000) / d in 1 * (k * t' * t' + Fin (984375 / 1000000))))"

definition easeInBounce :: "jsnum \<Rightarrow> jsnum" where
  "easeInBounce t = 1 - easeOutBounce (1 - t)"

definition easeInOutBounce :: "jsnum \<Rightarrow> jsnum" where
  "easeInOutBounce t =
     (if t < 1 / 2 then easeInBounce (t * 2) * Fin (1 / 2)
      else easeOutBounce (t * 2 - 1) * Fin (1 / 2) + 1 * Fin (1 / 2))"

definition animationOptions :: "(string \<times> (jsnum \<Rightarrow> jsnum)) list" where
  "animationOptions =
     [(''linear'', linear),
      (''easeInQuad'', easeInQuad), (''easeOutQuad'', easeOutQuad), (''easeInOutQuad'', easeInOutQuad),
      (''easeInCubic'', easeInCubic), (''easeOutCubic'', easeOutCubic),
      (''easeInOutCubic'', easeInOutCubic),
      (''easeInQuart'', easeInQuart), (''easeOutQuart'', easeOutQuart),
      (''easeInOutQuart'', easeInOutQuart),
      (''easeInQuint'', easeInQuint), (''easeOutQuint'', easeOutQuint),
      (''easeInOutQuint'', easeInOutQuint),
      (''easeInSine'', easeInSine), (''easeOutSine'', easeOutSine), (''easeInOutSine'', easeInOutSine),
      (''easeInExpo'', easeInExpo), (''easeOutExpo'', easeOutExpo), (''easeInOutExpo'', easeInOutExpo),
      (''easeInCirc'', easeInCirc), (''easeOutCirc'', easeOutCirc), (''easeInOutCirc'', easeInOutCirc),
      (''easeInElastic'', easeInElastic), (''easeOutElastic'', easeOutElastic),
      (''easeInOutElastic'', easeInOutElastic),
      (''easeInBack'', easeInBack), (''easeOutBack'', easeOutBack), (''easeInOutBack'', easeInOutBack),
      (''easeInBounce'', easeInBounce), (''easeOutBounce'', easeOutBounce),
      (''easeInOutBounce'', easeInOutBounce)]"

lemmas easing_defs = linear_def easeInQuad_def easeOutQuad_def easeInOutQuad_def easeInCubic_def
  easeOutCubic_def easeInOutCubic_def easeInQuart_def easeOutQuart_def easeInOutQuart_def
  easeInQuint_def easeOutQuint_def easeInOutQuint_def easeInSine_def easeOutSine_def
  easeInOutSine_def easeInExpo_def easeOutExpo_def easeInOutExpo_def easeInCirc_def
  easeOutCirc_def easeInOutCirc_def easeInElastic_def easeOutElastic_def easeInOutElastic_def
  easeInBack_def easeOutBack_def easeInOutBack_def easeInBounce_def easeOutBounce_def
  easeInOutBounce_def PI_def

section \<open>End points\<close>

lemma easing_at_1_all: "\<forall>(n, f) \<in> set animationOptions. f (Fin 1) = Fin 1"
  by (simp add: animationOptions_def) (simp add: easing_defs Let_def field_simps)

lemma easing_at_0_all: "\<forall>(n, f) \<in> set animationOptions. n \<noteq> ''easeInExpo'' \<longrightarrow> f (Fin 0) = Fin 0"
  by (simp add: animationOptions_def) (simp add: easing_defs Let_def field_simps)

lemma easeInExpo_at_0: "easeInExpo (Fin 0) = Fin 1"
  by (simp add: easeInExpo_def)

section \<open>Properties\<close>

text \<open>Every easing function of \<open>animationOptions\<close> ends at the complete chart: its value at 1 is 1.\<close>

theorem easing_end: "list_all (\<lambda>(name, f). f (Fin 1) = Fin 1) animationOptions"
  using easing_at_1_all by (simp add: list_all_iff)

text \<open>Every easing function starts with nothing drawn, except \<open>easeInExpo\<close>, whose value at 0 is 1:
  an animation eased by it starts with the complete chart.\<close>

theorem easing_start:
  "list_all (\<lambda>(name, f). f (Fin 0) = Fin (if name = ''easeInExpo'' then 1 else 0)) animationOptions"
proof -
  have "\<forall>(n, f) \<in> set animationOptions. n = ''easeInExpo'' \<longrightarrow> f = easeInExpo"
    by (simp add: animationOptions_def)
  with easing_at_0_all easeInExpo_at_0 show ?thesis
    by (auto simp: list_all_iff)
qed

end
