(* ===== verification/AnimationLoop.thy ===== *)
theory AnimationLoop
  imports ChartHelpers Easing
begin

text \<open>
  \<open>animationLoop\<close> of ChartNew.js: the local variables of the closure are the record
  \<open>anim_loop\<close>, its prologue is \<open>anim_prologue\<close>, and one call of the inner \<open>animLoop\<close> is a
  function of the configuration, of the state \<open>firstPass\<close> of the drawing context at that moment
  and of the closure's variables.  What the call does with itself (ask for another frame, pause,
  or finish) is its outcome.  The lemmas show when a loop ends and what share of the chart each
  frame draws.
\<close>

record anim_loop =
  cntiter :: int
  animationCount :: int
  multAnim :: int
  percentAnimComplete :: jsnum
  animFrameAmount :: jsnum
  beginAnim :: int
  beginAnimPct :: jsnum

datatype anim_outcome = RequestFrame | PauseThenFrame | Finished

section \<open>The prologue\<close>

text \<open>\<open>while (percentAnimComplete < config.animationStartValue) { cntiter++; ... }\<close>\<close>

partial_function (option) skip_to_start ::
    "jsnum \<Rightarrow> jsnum \<Rightarrow> int \<Rightarrow> jsnum \<Rightarrow> (int \<times> jsnum) option" where
  "skip_to_start start amount cnt pct =
     (if pct < start then skip_to_start start amount (cnt + 1) (pct + amount) else Some (cnt, pct))"

text \<open>
  The assignments to \<open>config.animation.StartValue\<close> and \<open>config.animation.StopValue\<close> set a property
  of the value of \<open>config.animation\<close>: they raise on \<open>undefined\<close> and \<open>null\<close> and change nothing that
  the loop reads otherwise.
\<close>

definition out_of_range :: "jsval \<Rightarrow> bool" where
  "out_of_range v = (to_number v < 0 \<or> to_number v > 1)"

definition capped_steps :: "obj \<Rightarrow> jsnum" where
  "capped_steps config = CapValue (to_number (oget config ''animationSteps'')) (Num MAX_VALUE) (NumF 1)"

definition anim_prologue :: "bool \<Rightarrow> obj \<Rightarrow> js_error + (obj \<times> anim_loop)" where
  "anim_prologue oldIE config0 =
     (let start = oget config0 ''animationStartValue''; stop = oget config0 ''animationStopValue''
      in if (out_of_range start \<or> out_of_range stop) \<and> oget config0 ''animation'' \<in> {Undef, Null}
         then Inl TypeError
         else
           (let config1 = (if to_number stop < to_number start
                           then oset ''animationStopValue'' start config0 else config0);
                config = (if oldIE then oset ''animation'' (Bool False) config1 else config1);
                animated = to_bool (oget config ''animation'');
                amount = (if animated then 1 / capped_steps config else 1);
                pct = (if animated then 0 else 1);
                skipped = (if animated \<and> to_number start > 0 \<and> to_number start \<le> 1
                           then skip_to_start (to_number start) amount 0 pct else Some (0, pct))
            in case skipped of
                 None \<Rightarrow> Inl OutOfFuel
               | Some (cnt, pct') \<Rightarrow>
                   Inr (config, \<lparr> cntiter = cnt, animationCount = 1, multAnim = 1,
                                  percentAnimComplete = pct', animFrameAmount = amount,
                                  beginAnim = cnt, beginAnimPct = pct' \<rparr>)))"

section \<open>One call of animLoop\<close>

text \<open>The states of the context in which a chart is redrawn without animation.\<close>

definition immediate :: "nat option \<Rightarrow> bool" where
  "immediate fp = (fp = Some 3 \<or> fp = Some 4 \<or> fp = Some 8 \<or> fp = Some 9)"

definition advance :: "obj \<Rightarrow> nat option \<Rightarrow> anim_loop \<Rightarrow> anim_loop" where
  "advance config fp l =
     (let cnt = cntiter l + multAnim l;
          pct = percentAnimComplete l + Fin (of_int (multAnim l)) * animFrameAmount l;
          pct' = (if loose_eq (NumF (of_int cnt)) (oget config ''animationSteps'')
                     \<or> loose_eq (oget config ''animation'') (Bool False) \<or> immediate fp then 1
                  else if pct \<ge> 1 then Fin (999 / 1000) else pct)
      in l\<lparr> cntiter := cnt, percentAnimComplete := pct' \<rparr>)"

text \<open>
  The share of the chart that \<open>animateFrame\<close> draws; calling an easing function that does not
  exist raises.
\<close>

definition easing_of :: "(jsnum \<Rightarrow> string) \<Rightarrow> obj \<Rightarrow> (jsnum \<Rightarrow> jsnum) option" where
  "easing_of ns config = map_of animationOptions (to_string ns (oget config ''animationEasing''))"

definition frame_percent ::
    "(jsnum \<Rightarrow> string) \<Rightarrow> obj \<Rightarrow> nat option \<Rightarrow> anim_loop \<Rightarrow> js_error + jsnum" where
  "frame_percent ns config fp l =
     (let animated = to_bool (oget config ''animation'')
      in if animated \<and> easing_of ns config = None then Inl TypeError
         else
           (let eased = (if animated
                         then CapValue (the (easing_of ns config) (percentAnimComplete l)) Null (NumF 0)
                         else 1)
            in Inr (if Fin (of_int (cntiter l)) \<ge> capped_steps config
                       \<or> loose_eq (oget config ''animation'') (Bool False) \<or> immediate fp then 1
                    else if eased \<ge> 1 then Fin (9999 / 10000) else eased)))"

definition animLoop :: "obj \<Rightarrow> nat option \<Rightarrow> anim_loop \<Rightarrow> anim_loop \<times> anim_outcome" where
  "animLoop config fp l0 =
     (let l = advance config fp l0
      in if multAnim l = - 1 \<and> cntiter l \<le> beginAnim l then (l\<lparr> multAnim := 1 \<rparr>, RequestFrame)
         else if percentAnimComplete l < to_number (oget config ''animationStopValue'')
         then (l, RequestFrame)
         else if (Fin (of_int (animationCount l)) < to_number (oget config ''animationCount'')
                  \<or> loose_eq (oget config ''animationCount'') (NumF 0))
                 \<and> (fp = Some 1 \<or> fp \<noteq> Some 2)
         then
           (let l' = l\<lparr> animationCount := animationCount l + 1 \<rparr>
            in (if to_bool (oget config ''animationBackward'') \<and> multAnim l' = 1
                then l'\<lparr> percentAnimComplete := percentAnimComplete l' - animFrameAmount l', multAnim := - 1 \<rparr>
                else l'\<lparr> multAnim := 1, cntiter := beginAnim l' - 1,
                         percentAnimComplete := beginAnimPct l' - animFrameAmount l' \<rparr>,
                PauseThenFrame))
         else (l, Finished))"

text \<open>At most \<open>n\<close> calls, with the state of the context unchanged in between.\<close>

fun anim_run :: "obj \<Rightarrow> nat option \<Rightarrow> nat \<Rightarrow> anim_loop \<Rightarrow> anim_loop option" where
  "anim_run config fp 0 l = None"
| "anim_run config fp (Suc n) l =
     (case animLoop config fp l of
        (l', Finished) \<Rightarrow> Some l'
      | (l', _) \<Rightarrow> anim_run config fp n l')"

section \<open>Lemmas\<close>

lemma capped_steps_nat:
  assumes "oget config ''animationSteps'' = NumF (of_nat N)" "1 \<le> N" "of_nat N \<le> max_real"
  shows "capped_steps config = Fin (of_nat N)"
  using assms by (simp add: capped_steps_def CapValue_def MAX_VALUE_Fin)

text \<open>Skipping to the start value ends: the share grows by a positive amount.\<close>

lemma skip_to_start_Some:
  assumes "0 < a"
  shows "\<exists>cnt' p'. skip_to_start (Fin s) (Fin a) cnt (Fin p) = Some (cnt', Fin p') \<and> s \<le> p' \<and> cnt \<le> cnt'"
proof (induction "nat \<lceil>(s - p) / a\<rceil>" arbitrary: p cnt rule: less_induct)
  case less
  show ?case
  proof (cases "p < s")
    case False
    then show ?thesis by (simp add: skip_to_start.simps)
  next
    case True
    have "(s - (p + a)) / a = (s - p) / a - 1"
      using assms by (simp add: field_simps)
    moreover have "0 < (s - p) / a"
      using True assms by simp
    ultimately have "nat \<lceil>(s - (p + a)) / a\<rceil> < nat \<lceil>(s - p) / a\<rceil>"
      by (simp add: zless_nat_conj)
    from less [OF this, of "cnt + 1"] True show ?thesis
      by (simp add: skip_to_start.simps [of "Fin s" "Fin a" cnt]) (meson add_increasing2 order_trans zle_add1_eq_le zless_add1_eq)
  qed
qed

section \<open>When a loop ends\<close>

text \<open>A configuration that plays an animation of \<open>N\<close> steps once, up to the share \<open>stop\<close>.\<close>

definition plays_once :: "obj \<Rightarrow> nat \<Rightarrow> real \<Rightarrow> bool" where
  "plays_once config N stop =
     (oget config ''animation'' = Bool True
      \<and> oget config ''animationSteps'' = NumF (of_nat N) \<and> 1 \<le> N \<and> of_nat N \<le> max_real
      \<and> oget config ''animationStopValue'' = NumF stop \<and> stop \<le> 1
      \<and> oget config ''animationCount'' = NumF 1)"

text \<open>The variables of such a loop after \<open>k\<close> frames.\<close>

definition at_frame :: "nat \<Rightarrow> nat \<Rightarrow> anim_loop \<Rightarrow> bool" where
  "at_frame N k l =
     (cntiter l = int k \<and> animationCount l = 1 \<and> multAnim l = 1
      \<and> percentAnimComplete l = Fin (of_nat k / of_nat N) \<and> animFrameAmount l = Fin (1 / of_nat N))"

lemma advance_at_frame:
  assumes "plays_once config N stop" "at_frame N k l" "k < N"
  shows "percentAnimComplete (advance config fp l)
           = (if Suc k = N \<or> immediate fp then Fin 1 else Fin (of_nat (Suc k) / of_nat N))"
    and "cntiter (advance config fp l) = int (Suc k)"
    and "animationCount (advance config fp l) = 1" "multAnim (advance config fp l) = 1"
    and "animFrameAmount (advance config fp l) = Fin (1 / of_nat N)"
proof -
  have "of_nat (Suc k) / real N < 1" if "Suc k \<noteq> N"
    using that assms(3) by simp
  moreover have "of_int (int k + 1) = real N \<longleftrightarrow> Suc k = N"
    by (metis Suc_as_int Suc_eq_plus1 add.commute of_int_of_nat_eq of_nat_eq_iff of_nat_Suc)
  ultimately show "percentAnimComplete (advance config fp l)
           = (if Suc k = N \<or> immediate fp then Fin 1 else Fin (of_nat (Suc k) / of_nat N))"
    using assms
    by (auto simp: advance_def Let_def plays_once_def at_frame_def add_divide_distrib)
qed (use assms in \<open>simp_all add: advance_def Let_def at_frame_def\<close>)

lemma animLoop_at_frame:
  assumes "plays_once config N stop" "at_frame N k l" "k < N"
  shows "animLoop config fp l =
           (advance config fp l,
            if percentAnimComplete (advance config fp l) < Fin stop then RequestFrame else Finished)"
  using assms advance_at_frame [OF assms]
  by (simp add: animLoop_def Let_def plays_once_def)

lemma anim_run_ends:
  assumes "plays_once config N stop" "at_frame N k l" "k < N"
  shows "\<exists>l'. anim_run config fp (N - k) l = Some l' \<and> Fin stop \<le> percentAnimComplete l'"
  using assms
proof (induction "N - k" arbitrary: k l)
  case 0
  then show ?case by simp
next
  case (Suc n)
  let ?l = "advance config fp l"
  note adv = advance_at_frame [OF Suc.prems, of fp]
  note step = animLoop_at_frame [OF Suc.prems, of fp]
  have Nk: "N - k = Suc n" and n: "n = N - Suc k" using Suc.hyps(2) by simp_all
  have stop: "stop \<le> 1" using Suc.prems(1) by (simp add: plays_once_def)
  show ?case
  proof (cases "percentAnimComplete ?l < Fin stop")
    case False
    with stop have "Fin stop \<le> percentAnimComplete ?l"
      by (auto simp: adv(1) split: if_splits)
    with False show ?thesis by (simp add: Nk step)
  next
    case True
    with stop have nlast: "Suc k \<noteq> N" "\<not> immediate fp"
      by (auto simp: adv(1) split: if_splits)
    then have "at_frame N (Suc k) ?l"
      using adv by (simp add: at_frame_def)
    moreover have "Suc k < N" using nlast Suc.prems(3) by simp
    ultimately obtain l' where "anim_run config fp (N - Suc k) ?l = Some l'"
        "Fin stop \<le> percentAnimComplete l'"
      using Suc.hyps(1) [OF n Suc.prems(1)] by blast
    with True show ?thesis by (simp add: Nk n step)
  qed
qed

lemma prologue_at_frame:
  assumes "plays_once config N stop" "oget config ''animationStartValue'' = NumF 0" "0 \<le> stop"
  shows "\<exists>l. anim_prologue False config = Inr (config, l) \<and> at_frame N 0 l"
  using assms capped_steps_nat [of config N]
  by (simp add: anim_prologue_def Let_def plays_once_def at_frame_def out_of_range_def)

section \<open>What each frame draws\<close>

lemma easing_fin_all: "0 \<le> t \<Longrightarrow> t \<le> 1 \<Longrightarrow> \<forall>(n, f) \<in> set animationOptions. is_fin (f (Fin t))"
proof -
  assume t: "0 \<le> t" "t \<le> 1"
  have sq: "x * x \<le> 1" if "- 1 \<le> x" "x \<le> 1" for x :: real
    using that by (metis abs_le_iff abs_mult_self_eq abs_square_le_1 minus_le_iff power2_eq_square)
  have "t * t \<le> 1" "(t - 1) * (t - 1) \<le> 1"
    using t by (intro sq; simp)+
  moreover have "2 * t < 1 \<longrightarrow> (2 * t) * (2 * t) \<le> 1" "\<not> 2 * t < 1 \<longrightarrow> (2 * t - 2) * (2 * t - 2) \<le> 1"
    using t sq [of "2 * t"] sq [of "2 * t - 2"] by auto
  ultimately show ?thesis
    using t by (simp add: animationOptions_def)
      (simp add: easing_defs elastic_s_def Let_def mult.commute, argo)
qed

lemma frame_percent_range:
  assumes "frame_percent ns config fp l = Inr p"
    and "percentAnimComplete l = Fin t" "0 \<le> t" "t \<le> 1"
  shows "\<exists>r. p = Fin r \<and> 0 \<le> r \<and> r \<le> 1"
proof (cases "to_bool (oget config ''animation'')")
  case False
  with assms(1) show ?thesis
    by (auto simp: frame_percent_def Let_def split: if_splits)
next
  case True
  with assms(1) obtain f where f: "easing_of ns config = Some f"
    by (auto simp: frame_percent_def Let_def split: if_splits)
  then have "(to_string ns (oget config ''animationEasing''), f) \<in> set animationOptions"
    by (simp add: easing_of_def map_of_SomeD)
  with easing_fin_all [OF assms(3,4)] obtain e where e: "f (Fin t) = Fin e"
    by (fastforce elim: is_finE)
  from assms(1,2) True f have "p \<in> {Fin 1, Fin (9999 / 10000), Fin 0} \<or> (p = Fin e \<and> 0 \<le> e \<and> e < 1)"
    by (auto simp: frame_percent_def Let_def CapValue_def e split: if_splits)
  then show ?thesis by auto
qed

lemma frame_percent_last:
  assumes "plays_once config N 1" "at_frame N k l" "k < N" "easing_of ns config \<noteq> None"
  shows "snd (animLoop config fp l) = Finished
           \<longleftrightarrow> frame_percent ns config fp (advance config fp l) = Inr (Fin 1)"
proof -
  note adv = advance_at_frame [OF assms(1-3), of fp]
    and step = animLoop_at_frame [OF assms(1-3), of fp]
  have steps: "capped_steps config = Fin (of_nat N)"
    using assms(1) by (intro capped_steps_nat) (simp_all add: plays_once_def)
  have lt: "real (Suc k) / real N < 1" if "Suc k \<noteq> N"
    using that assms(3) by simp
  have "real N \<le> of_int (int (Suc k)) \<longleftrightarrow> Suc k = N"
    using assms(3) by auto
  with assms(1,4) adv steps lt show ?thesis
    by (auto simp: step frame_percent_def Let_def plays_once_def)
qed

section \<open>A number of steps that is never reached\<close>

text \<open>
  \<open>percentAnimComplete\<close> becomes 1 only when the counter of frames equals the number of steps, so a
  number of steps that no counter reaches keeps the share at or below 0.999.
\<close>

definition below_end :: "anim_loop \<Rightarrow> bool" where
  "below_end l =
     (0 \<le> cntiter l \<and> multAnim l = 1
      \<and> (\<exists>t. percentAnimComplete l = Fin t \<and> 0 \<le> t) \<and> (\<exists>a. animFrameAmount l = Fin a \<and> 0 \<le> a))"

lemma animLoop_below_end:
  assumes "oget config ''animation'' = Bool True" "oget config ''animationSteps'' = NumF s"
    "\<And>k::nat. 0 < k \<Longrightarrow> s \<noteq> of_nat k" "oget config ''animationStopValue'' = NumF 1" "\<not> immediate fp"
    and l: "below_end l"
  shows "\<exists>l'. animLoop config fp l = (l', RequestFrame) \<and> below_end l'"
proof -
  from l obtain k t a where kta: "cntiter l = int k" "multAnim l = 1"
      "percentAnimComplete l = Fin t" "0 \<le> t" "animFrameAmount l = Fin a" "0 \<le> a"
    unfolding below_end_def by (metis zero_le_imp_eq_int)
  have "s \<noteq> 1 + real k" using assms(3) [of "Suc k"] by simp
  then show ?thesis
    using assms(1-5) kta
    by (simp add: animLoop_def advance_def Let_def below_end_def add.commute)
      (auto intro: exI [of _ "999 / 1000"])
qed

lemma anim_run_below_end:
  assumes "oget config ''animation'' = Bool True" "oget config ''animationSteps'' = NumF s"
    "\<And>k::nat. 0 < k \<Longrightarrow> s \<noteq> of_nat k" "oget config ''animationStopValue'' = NumF 1" "\<not> immediate fp"
  shows "below_end l \<Longrightarrow> anim_run config fp n l = None"
proof (induction n arbitrary: l)
  case (Suc n)
  from animLoop_below_end [OF assms Suc.prems] obtain l'
    where "animLoop config fp l = (l', RequestFrame)" "below_end l'" by blast
  with Suc.IH show ?case by simp
qed simp

lemma prologue_below_end:
  assumes "oget config ''animation'' = Bool True" "oget config ''animationSteps'' = NumF s"
    "oget config ''animationStartValue'' = NumF 0" "oget config ''animationStopValue'' = NumF 1"
  shows "\<exists>l. anim_prologue False config = Inr (config, l) \<and> below_end l"
  using assms max_real_pos
  by (simp add: anim_prologue_def Let_def out_of_range_def capped_steps_def CapValue_def
      MAX_VALUE_Fin below_end_def)

section \<open>Properties\<close>

text \<open>The animation options of a page that plays three steps, for the witnesses.\<close>

definition three_steps :: obj where
  "three_steps = [(''animation'', Bool True), (''animationSteps'', NumF 3), (''animationStartValue'', NumF 0),
     (''animationStopValue'', NumF 1), (''animationCount'', NumF 1), (''animationEasing'', Str ''linear'')]"

lemma three_steps_once: "plays_once three_steps 3 1"
proof -
  have "(3::real) \<le> max_real" by (simp add: max_real_def)
  then show ?thesis by (simp add: plays_once_def three_steps_def)
qed

text \<open>C9: An animation of \<open>N\<close> steps that starts at 0 and is played once ends after at most \<open>N\<close> calls of
  \<open>animLoop\<close>, whatever the state of the context, and then its share has reached the stop value.\<close>

theorem animation_terminates:
  assumes "plays_once config N stop" "0 \<le> stop" "oget config ''animationStartValue'' = NumF 0"
  shows "\<exists>l l'. anim_prologue False config = Inr (config, l) \<and> anim_run config fp N l = Some l'
           \<and> Fin stop \<le> percentAnimComplete l'"
proof -
  from prologue_at_frame [OF assms(1,3,2)] obtain l
    where l: "anim_prologue False config = Inr (config, l)" "at_frame N 0 l" by blast
  have "0 < N" using assms(1) by (simp add: plays_once_def)
  with anim_run_ends [OF assms(1) l(2), of fp] l(1) show ?thesis by auto
qed

theorem animation_terminates_witness:
  "\<exists>l l'. anim_prologue False three_steps = Inr (three_steps, l) \<and> anim_run three_steps (Some 1) 3 l = Some l'
     \<and> Fin 1 \<le> percentAnimComplete l'"
  using animation_terminates [OF three_steps_once, of "Some 1"] by (simp add: three_steps_def)

text \<open>C32: With a number of steps that is not a positive integer (0 for instance) an animated chart asks
  for frames for ever: no number of calls of \<open>animLoop\<close> ends the loop.\<close>

theorem animation_diverges:
  assumes "oget config ''animation'' = Bool True" "oget config ''animationSteps'' = NumF s"
    and "\<And>k::nat. 0 < k \<Longrightarrow> s \<noteq> of_nat k"
    and "oget config ''animationStartValue'' = NumF 0" "oget config ''animationStopValue'' = NumF 1"
    and "\<not> immediate fp"
  shows "\<exists>l. anim_prologue False config = Inr (config, l) \<and> (\<forall>n. anim_run config fp n l = None)"
  using prologue_below_end [OF assms(1,2,4,5)] anim_run_below_end [OF assms(1-3,5,6)] by blast

theorem animation_diverges_witness:
  "\<exists>l. anim_prologue False (oset ''animationSteps'' (NumF 0) three_steps)
         = Inr (oset ''animationSteps'' (NumF 0) three_steps, l)
     \<and> (\<forall>n. anim_run (oset ''animationSteps'' (NumF 0) three_steps) (Some 1) n l = None)"
  by (rule animation_diverges [where s = 0]) (simp_all add: three_steps_def immediate_def)

text \<open>Every share of the chart that a frame of an animation draws is a number between 0 and 1,
  whatever easing function is chosen.\<close>

theorem frame_percent_unit:
  assumes "percentAnimComplete l = Fin t" "0 \<le> t" "t \<le> 1"
  shows "case frame_percent ns config fp l of
           Inl e \<Rightarrow> e = TypeError \<and> easing_of ns config = None
         | Inr p \<Rightarrow> \<exists>r. p = Fin r \<and> 0 \<le> r \<and> r \<le> 1"
proof (cases "frame_percent ns config fp l")
  case (Inl e)
  then show ?thesis by (auto simp: frame_percent_def Let_def split: if_splits)
next
  case (Inr p)
  with frame_percent_range [OF _ assms] show ?thesis by simp
qed

theorem frame_percent_unit_witness:
  "case frame_percent (\<lambda>_. []) three_steps (Some 1)
          \<lparr> cntiter = 1, animationCount = 1, multAnim = 1, percentAnimComplete = Fin (1 / 3),
            animFrameAmount = Fin (1 / 3), beginAnim = 0, beginAnimPct = Fin 0 \<rparr> of
     Inl e \<Rightarrow> e = TypeError \<and> easing_of (\<lambda>_. []) three_steps = None
   | Inr p \<Rightarrow> \<exists>r. p = Fin r \<and> 0 \<le> r \<and> r \<le> 1"
  by (rule frame_percent_unit [where t = "1 / 3"]) simp_all

text \<open>Throughout an animation that plays to its end, the call of \<open>animLoop\<close> that ends the loop is
  exactly the one that draws the complete chart: the last frame is complete and no earlier one is.\<close>

theorem last_frame_complete:
  assumes "plays_once config N 1" "at_frame N k l" "k < N" "easing_of ns config \<noteq> None"
  shows "snd (animLoop config fp l) = Finished
           \<longleftrightarrow> frame_percent ns config fp (advance config fp l) = Inr (Fin 1)"
  using assms by (rule frame_percent_last)

theorem last_frame_complete_witness:
  "let l = \<lparr> cntiter = 2, animationCount = 1, multAnim = 1, percentAnimComplete = Fin (2 / 3),
             animFrameAmount = Fin (1 / 3), beginAnim = 0, beginAnimPct = Fin 0 \<rparr>
   in snd (animLoop three_steps (Some 1) l) = Finished
        \<longleftrightarrow> frame_percent (\<lambda>_. []) three_steps (Some 1) (advance three_steps (Some 1) l) = Inr (Fin 1)"
  unfolding Let_def
  by (rule last_frame_complete [OF three_steps_once, where k = 2])
    (simp_all add: at_frame_def easing_of_def three_steps_def animationOptions_def)

end
