(* ===== verification/ChartLifecycle.thy ===== *)
theory ChartLifecycle
  imports AnimationLoop
begin

text \<open>
  The life of a chart on a page: the drawing context with the state \<open>firstPass\<close>, the registry of
  responsive charts, the charts drawn when they scroll into view, the listeners of a canvas and
  the animation loops that wait for a frame.  The functions of ChartNew.js are functions from the
  world to the world or to the exception they raise.

  \<open>redrawGraph\<close> calls the chart constructors, which call \<open>init_and_start\<close>, \<open>subUpdateChart\<close>,
  \<open>testRedraw\<close> and the animation loop, which call \<open>redrawGraph\<close> again.  Every function of this
  cycle takes the redraw function it calls as its argument \<open>redraw\<close>; \<open>redrawGraph\<close> ties the
  knot and counts the nesting down; theory ChartStates shows that a nesting of two is never
  exceeded.  A data object is only passed around, so it is a type variable \<open>'d\<close> (a reference).
  Whether the layout of a chart finds room for its scale (\<open>valueBounds.maxSteps > 0\<close>,
  \<open>pieRadius > 0\<close>, ...) is the argument \<open>layout_fits\<close> of the environment.
\<close>

section \<open>The state\<close>

text \<open>A missing property of the context is \<open>Undef\<close> or \<open>None\<close>.\<close>

record ctx =
  canvas_id :: string
  canvas_width :: jsnum
  canvas_height :: jsnum
  style_width :: "jsnum option"
  style_height :: "jsnum option"
  parentNode :: "nat option"
  oncontextmenu :: bool
  listeners :: "(string \<times> nat) list"
  eventListeners :: "(string \<times> nat) list"
  listenerSeq :: nat
  tpchart :: string
  tpdata :: nat
  ChartNewId :: "string option"
  firstPass :: "nat option"
  prevWidth :: jsval
  prevHeight :: jsval
  initialWidth :: jsval
  aspectRatio :: jsval
  chartTextScale :: jsval
  chartLineScale :: jsval
  chartSpaceScale :: jsval
  reversed :: bool
  runanimationcompletefunction :: jsval

text \<open>An entry \<open>[id, ctx.tpchart, ctx, data, config]\<close> of \<open>jsGraphResize\<close>.\<close>

record 'd resize_entry =
  r_id :: "string option"
  r_tpchart :: string
  r_ctx :: nat
  r_data :: 'd
  r_config :: obj

text \<open>An entry \<open>[ctx, visible, drawn, data, config, canvas]\<close> of \<open>dynamicDisplay\<close>.\<close>

record 'd dynamic_entry =
  d_ctx :: nat
  d_visible :: bool
  d_drawn :: bool
  d_data :: 'd
  d_config :: obj

text \<open>An animation loop that waits for its next frame.\<close>

record 'd pending =
  p_ctx :: nat
  p_data :: 'd
  p_config :: obj
  p_loop :: anim_loop

record 'd world =
  ctxs :: "nat \<Rightarrow> ctx"
  jsGraphResize :: "'d resize_entry list"
  resizeListeners :: nat
  initChartJsResize :: bool
  container :: "nat option"
  dynamicDisplay :: "string \<Rightarrow> 'd dynamic_entry option"
  dynamicDisplayList :: "string list"
  onscroll :: bool
  cursorDivCreated :: bool
  annotated :: "string set"
  frames :: "'d pending list"
  painted :: "(nat \<times> 'd \<times> jsnum) list"
  notified :: "(nat \<times> nat) list"

text \<open>One element on the way from a canvas to the document, for \<open>isScrolledIntoView\<close>.\<close>

record elem_box =
  offsetLeft :: jsnum
  scrollLeft :: jsnum
  clientLeft :: jsnum
  offsetTop :: jsnum
  scrollTop :: jsnum
  clientTop :: jsnum

record 'd env =
  devicePixelRatio :: jsval
  userAgent :: string
  getTime :: string
  clientWidth :: "nat \<Rightarrow> jsnum"
  clientHeight :: "nat \<Rightarrow> jsnum"
  boxes :: "nat \<Rightarrow> elem_box list"
  pageXOffset :: jsnum
  pageYOffset :: jsnum
  innerWidth :: jsnum
  innerHeight :: jsnum
  personal :: personal_options
  numstr :: "jsnum \<Rightarrow> string"
  layout_fits :: "'d world \<Rightarrow> nat \<Rightarrow> 'd \<Rightarrow> obj \<Rightarrow> bool"

type_synonym 'd result = "js_error + 'd world"
type_synonym 'd redraw = "nat \<Rightarrow> 'd \<Rightarrow> obj \<Rightarrow> 'd world \<Rightarrow> 'd result"

definition upd_ctx :: "nat \<Rightarrow> (ctx \<Rightarrow> ctx) \<Rightarrow> 'd world \<Rightarrow> 'd world" where
  "upd_ctx c f w = w\<lparr> ctxs := (ctxs w)(c := f (ctxs w c)) \<rparr>"

section \<open>The browser\<close>

definition to_lower :: "char \<Rightarrow> char" where
  "to_lower c = (let n = (of_char c :: nat) in if 65 \<le> n \<and> n \<le> 90 then char_of (n + 32) else c)"

text \<open>\<open>parseInt\<close> on a string: blanks, a sign, then the longest run of digits.\<close>

definition parse_int_str :: "string \<Rightarrow> jsnum" where
  "parse_int_str s0 =
     (let s = dropWhile is_space s0;
          neg = (s \<noteq> [] \<and> hd s = CHR ''-'');
          r = (if s \<noteq> [] \<and> hd s \<in> {CHR ''-'', CHR ''+''} then tl s else s);
          hex = (length r \<ge> 2 \<and> hd r = CHR ''0'' \<and> hd (tl r) \<in> {CHR ''x'', CHR ''X''});
          ds = (if hex then takeWhile (\<lambda>c. digit_val c < 16) (drop 2 r) else takeWhile is_digit r)
      in if ds = [] then NaN
         else Fin ((if neg then - 1 else 1) * of_nat (digits_val (if hex then 16 else 10) ds)))"

definition isIE :: "'d env \<Rightarrow> jsval" where
  "isIE env =
     (let myNav = map to_lower (userAgent env)
      in case index_of ''msie'' myNav of
           None \<Rightarrow> Bool False
         | Some i \<Rightarrow>
             (let rest = drop (i + 4) myNav;
                  piece = (case index_of ''msie'' rest of None \<Rightarrow> rest | Some j \<Rightarrow> take j rest)
              in Num (parse_int_str piece)))"

text \<open>\<open>isIE() < 9 && isIE() != false\<close>\<close>

definition old_IE :: "'d env \<Rightarrow> bool" where
  "old_IE env = (to_number (isIE env) < 9 \<and> \<not> loose_eq (isIE env) (Bool False))"

definition isScrolledIntoView :: "'d env \<Rightarrow> 'd world \<Rightarrow> nat \<Rightarrow> bool" where
  "isScrolledIntoView env w c =
     (let xPosition = sum_list (map (\<lambda>e. offsetLeft e - scrollLeft e + clientLeft e) (boxes env c));
          yPosition = sum_list (map (\<lambda>e. offsetTop e - scrollTop e + clientTop e) (boxes env c));
          x = xPosition + canvas_width (ctxs w c) / 2; y = yPosition + canvas_height (ctxs w c) / 2
      in x \<ge> pageXOffset env \<and> x \<le> pageXOffset env + innerWidth env
         \<and> y \<ge> pageYOffset env \<and> y \<le> pageYOffset env + innerHeight env)"

section \<open>Responsive charts\<close>

text \<open>The element whose size limits a canvas: its parent, else the last one used.\<close>

definition getContainer :: "nat \<Rightarrow> 'd world \<Rightarrow> nat option" where
  "getContainer c w = (case parentNode (ctxs w c) of Some p \<Rightarrow> Some p | None \<Rightarrow> container w)"

definition getMaximumWidth :: "'d env \<Rightarrow> nat \<Rightarrow> 'd world \<Rightarrow> js_error + (jsnum \<times> 'd world)" where
  "getMaximumWidth env c w =
     (case getContainer c w of
        None \<Rightarrow> Inl TypeError
      | Some p \<Rightarrow> Inr (clientWidth env p, w\<lparr> container := Some p \<rparr>))"

definition getMaximumHeight :: "'d env \<Rightarrow> nat \<Rightarrow> 'd world \<Rightarrow> js_error + (jsnum \<times> 'd world)" where
  "getMaximumHeight env c w =
     (case getContainer c w of
        None \<Rightarrow> Inl TypeError
      | Some p \<Rightarrow> Inr (clientHeight env p, w\<lparr> container := Some p \<rparr>))"

text \<open>\<open>if (typeof config.k == "undefined") config.k = v\<close>: the caller's object changes.\<close>

definition set_default :: "string \<Rightarrow> jsval \<Rightarrow> obj \<Rightarrow> obj" where
  "set_default k v config = (if oget config k = Undef then oset k v config else config)"

definition resize_defaults :: "obj \<Rightarrow> obj" where
  "resize_defaults config =
     set_default ''responsiveMaxHeight'' (NumF 9999999)
       (set_default ''responsiveMaxWidth'' (NumF 9999999)
         (set_default ''responsiveMinHeight'' (NumF 0)
           (set_default ''responsiveMinWidth'' (NumF 0)
             (set_default ''maintainAspectRatio'' (Bool True) config))))"

definition clamp_size :: "jsval \<Rightarrow> jsval \<Rightarrow> jsnum \<Rightarrow> jsnum" where
  "clamp_size lo hi x = math_min (to_number hi) (math_max (to_number lo) x)"

definition resizeGraph ::
    "'d env \<Rightarrow> nat \<Rightarrow> obj \<Rightarrow> 'd world \<Rightarrow> js_error + (jsnum \<times> jsnum \<times> obj \<times> 'd world)" where
  "resizeGraph env c config0 w0 =
     (let config = resize_defaults config0;
          w1 = upd_ctx c (\<lambda>x. x\<lparr> aspectRatio :=
                 (if aspectRatio x = Undef then Num (canvas_width x / canvas_height x)
                  else aspectRatio x) \<rparr>) w0
      in case getMaximumWidth env c w1 of
           Inl e \<Rightarrow> Inl e
         | Inr (newWidth, w2) \<Rightarrow>
             (case (if to_bool (oget config ''maintainAspectRatio'')
                    then Inr (newWidth / to_number (aspectRatio (ctxs w2 c)), w2)
                    else getMaximumHeight env c w2) of
                Inl e \<Rightarrow> Inl e
              | Inr (newHeight, w3) \<Rightarrow>
                  Inr (parse_int (clamp_size (oget config ''responsiveMinWidth'')
                                    (oget config ''responsiveMaxWidth'') newWidth),
                       parse_int (clamp_size (oget config ''responsiveMinHeight'')
                                    (oget config ''responsiveMaxHeight'') newHeight),
                       config, w3)))"

definition rescale_content :: "jsnum \<Rightarrow> obj \<Rightarrow> ctx \<Rightarrow> ctx" where
  "rescale_content newWidth config x =
     (if chartTextScale x \<noteq> Undef \<and> to_bool (oget config ''responsiveScaleContent'')
      then
        (let ratio = newWidth / to_number (initialWidth x)
         in x\<lparr> chartTextScale := Num (to_number (oget config ''chartTextScale'') * ratio),
               chartLineScale := Num (to_number (oget config ''chartLineScale'') * ratio),
               chartSpaceScale := Num (to_number (oget config ''chartSpaceScale'') * ratio) \<rparr>)
      else x)"

definition resizeCtx :: "'d env \<Rightarrow> nat \<Rightarrow> jsnum \<Rightarrow> jsnum \<Rightarrow> obj \<Rightarrow> 'd world \<Rightarrow> 'd world" where
  "resizeCtx env c newWidth newHeight config =
     upd_ctx c (\<lambda>x. rescale_content newWidth config
       (if to_bool (devicePixelRatio env) then
          (let r = to_number (devicePixelRatio env)
           in x\<lparr> style_width := Some (newWidth / r), style_height := Some (newHeight / r),
                 canvas_height := newHeight / r * r, canvas_width := newWidth / r * r \<rparr>)
        else x\<lparr> canvas_height := newHeight, canvas_width := newWidth \<rparr>))"

text \<open>The flag \<open>initChartJsResize\<close> is tested and never set.\<close>

definition initChartResize :: "'d world \<Rightarrow> 'd world" where
  "initChartResize w =
     (if \<not> initChartJsResize w then w\<lparr> resizeListeners := resizeListeners w + 1 \<rparr> else w)"

definition addResponsiveChart ::
    "'d env \<Rightarrow> nat \<Rightarrow> 'd \<Rightarrow> obj \<Rightarrow> 'd world \<Rightarrow> js_error + (obj \<times> 'd world)" where
  "addResponsiveChart env c data config0 w0 =
     (case resizeGraph env c config0 (initChartResize w0) of
        Inl e \<Rightarrow> Inl e
      | Inr (newWidth, newHeight, config, w1) \<Rightarrow>
          (let w2 = (if prevWidth (ctxs w1 c) \<noteq> Undef
                     then resizeCtx env c newWidth newHeight config w1
                     else if to_bool (oget config ''responsiveScaleContent'')
                             \<and> to_bool (oget config ''responsiveWindowInitialWidth'')
                     then upd_ctx c (\<lambda>x. x\<lparr> initialWidth := Num newWidth \<rparr>) w1
                     else w1);
               w3 = upd_ctx c (\<lambda>x. x\<lparr> prevWidth := Num newWidth, prevHeight := Num newHeight \<rparr>) w2
           in Inr (config, w3\<lparr> jsGraphResize := jsGraphResize w3 @
                [\<lparr> r_id = ChartNewId (ctxs w3 c), r_tpchart = tpchart (ctxs w3 c), r_ctx = c,
                   r_data = data, r_config = config \<rparr>] \<rparr>)))"

section \<open>Charts drawn when they scroll into view\<close>

definition dynamicFunction :: "'d env \<Rightarrow> 'd \<Rightarrow> obj \<Rightarrow> nat \<Rightarrow> 'd world \<Rightarrow> bool \<times> 'd world" where
  "dynamicFunction env data config c w0 =
     (if old_IE env \<or> \<not> to_bool (oget config ''dynamicDisplay'') then (True, w0)
      else
        (let w1 = (if canvas_id (ctxs w0 c) = []
                   then upd_ctx c (\<lambda>x. x\<lparr> canvas_id := ''Canvas_'' @ getTime env \<rparr>) w0 else w0);
             i = canvas_id (ctxs w1 c);
             vis = isScrolledIntoView env w1 c;
             w2 = (case dynamicDisplay w1 i of
                     None \<Rightarrow>
                       w1\<lparr> dynamicDisplayList := dynamicDisplayList w1 @ [i],
                           dynamicDisplay := (dynamicDisplay w1)(i \<mapsto>
                             \<lparr> d_ctx = c, d_visible = vis, d_drawn = False, d_data = data, d_config = config \<rparr>),
                           onscroll := True \<rparr>
                   | Some e \<Rightarrow>
                       (if \<not> d_drawn e
                        then w1\<lparr> dynamicDisplay := (dynamicDisplay w1)(i \<mapsto> e\<lparr> d_visible := vis \<rparr>) \<rparr>
                        else w1))
         in case dynamicDisplay w2 i of
              None \<Rightarrow> (True, w2)
            | Some e \<Rightarrow>
                (if \<not> d_visible e \<and> \<not> d_drawn e then (False, w2)
                 else (True, w2\<lparr> dynamicDisplay := (dynamicDisplay w2)(i \<mapsto> e\<lparr> d_drawn := True \<rparr>) \<rparr>))))"

section \<open>The states of firstPass\<close>

text \<open>\<open>ctx.firstPass = n\<close>\<close>

definition set_pass :: "nat \<Rightarrow> nat \<Rightarrow> 'd world \<Rightarrow> 'd world" where
  "set_pass c n = upd_ctx c (\<lambda>x. x\<lparr> firstPass := Some n \<rparr>)"

text \<open>The new size of a responsive chart is applied and remembered; otherwise it is forgotten.\<close>

definition apply_size :: "'d env \<Rightarrow> nat \<Rightarrow> jsnum \<Rightarrow> jsnum \<Rightarrow> obj \<Rightarrow> 'd world \<Rightarrow> 'd world" where
  "apply_size env c newWidth newHeight config w =
     (if to_bool (oget config ''responsive'')
      then upd_ctx c (\<lambda>x. x\<lparr> prevWidth := Num newWidth, prevHeight := Num newHeight \<rparr>)
             (resizeCtx env c newWidth newHeight config w)
      else upd_ctx c (\<lambda>x. x\<lparr> prevWidth := NumF 0, prevHeight := NumF 0 \<rparr>) w)"

definition subUpdateChart :: "'d redraw \<Rightarrow> 'd env \<Rightarrow> nat \<Rightarrow> 'd \<Rightarrow> obj \<Rightarrow> 'd world \<Rightarrow> 'd result" where
  "subUpdateChart redraw env c data config w0 =
     (case dynamicFunction env data config c w0 of
        (False, w) \<Rightarrow> Inr w
      | (True, w) \<Rightarrow>
          (case firstPass (ctxs w c) of
             None \<Rightarrow>
               (case resizeGraph env c config (set_pass c 1 w) of
                  Inl e \<Rightarrow> Inl e
                | Inr (newWidth, newHeight, config', w1) \<Rightarrow>
                    redraw c data config'
                      (upd_ctx c (\<lambda>x. x\<lparr> runanimationcompletefunction := Bool True \<rparr>)
                        (apply_size env c newWidth newHeight config' w1)))
           | Some fp \<Rightarrow>
               if fp = 0 then
                 (case resizeGraph env c config (set_pass c 1 w) of
                    Inl e \<Rightarrow> Inl e
                  | Inr (newWidth, newHeight, config', w1) \<Rightarrow>
                      redraw c data config' (apply_size env c newWidth newHeight config' w1))
               else if fp = 1 \<or> fp = 2 then Inr (set_pass c 2 w)
               else if fp = 3 \<or> fp = 4 then Inr (set_pass c 4 w)
               else if fp = 5 then redraw c data config (set_pass c 1 w)
               else if fp = 6 then
                 (case resizeGraph env c config w of
                    Inl e \<Rightarrow> Inl e
                  | Inr (newWidth, newHeight, config', w1) \<Rightarrow>
                      if \<not> loose_eq (Num newWidth) (prevWidth (ctxs w1 c))
                         \<or> \<not> loose_eq (Num newHeight) (prevHeight (ctxs w1 c))
                      then redraw c data config' (apply_size env c newWidth newHeight config' (set_pass c 3 w1))
                      else Inr (set_pass c 5 w1))
               else if fp = 7 then
                 (case resizeGraph env c config w of
                    Inl e \<Rightarrow> Inl e
                  | Inr (newWidth, newHeight, config', w1) \<Rightarrow>
                      redraw c data config' (apply_size env c newWidth newHeight config' (set_pass c 3 w1)))
               else Inr w))"

definition testRedraw ::
    "'d redraw \<Rightarrow> 'd env \<Rightarrow> nat \<Rightarrow> 'd \<Rightarrow> obj \<Rightarrow> 'd world \<Rightarrow> js_error + (bool \<times> 'd world)" where
  "testRedraw redraw env c data config w =
     (if firstPass (ctxs w c) \<in> {Some 2, Some 4, Some 9} then
        (case subUpdateChart redraw env c data config (set_pass c 6 w) of
           Inl e \<Rightarrow> Inl e | Inr w' \<Rightarrow> Inr (True, w'))
      else Inr (False, set_pass c 5 w))"

section \<open>Listeners of a canvas\<close>

definition add_listener :: "string \<Rightarrow> ctx \<Rightarrow> ctx" where
  "add_listener ty x =
     x\<lparr> listeners := listeners x @ [(ty, listenerSeq x)], listenerSeq := listenerSeq x + 1 \<rparr>"

text \<open>\<open>f.split(' ')[0]\<close>\<close>

definition first_word :: "(jsnum \<Rightarrow> string) \<Rightarrow> jsval \<Rightarrow> string" where
  "first_word ns v = takeWhile (\<lambda>ch. ch \<noteq> CHR '' '') (to_string ns v)"

definition on_type :: "bool \<Rightarrow> string \<Rightarrow> string" where
  "on_type oldIE ty = (if oldIE then ''on'' @ ty else ty)"

text \<open>
  The inner \<open>add_event_listener\<close>: the listener of an earlier drawing with the same hash is removed
  under the type it is asked for, the new one is added (for a mouse wheel under another type).
\<close>

definition add_event_listener :: "bool \<Rightarrow> string \<Rightarrow> jsval \<Rightarrow> ctx \<Rightarrow> ctx" where
  "add_event_listener oldIE ty func x =
     (case func of
        Fn name \<Rightarrow>
          (let hash = ty @ '' '' @ name;
               x1 = (case map_of (eventListeners x) hash of
                       None \<Rightarrow> x
                     | Some h \<Rightarrow> x\<lparr> listeners := filter (\<lambda>l. l \<noteq> (ty, h)) (listeners x) \<rparr>);
               x2 = x1\<lparr> eventListeners := AList.update hash (listenerSeq x1) (eventListeners x1) \<rparr>;
               ty' = (if \<not> oldIE \<and> ty = ''mousewheel'' then ''DOMMouseScroll'' else ty)
           in add_listener (on_type oldIE ty') x2)
      | _ \<Rightarrow> x)"

definition defMouse :: "'d env \<Rightarrow> nat \<Rightarrow> obj \<Rightarrow> 'd world \<Rightarrow> 'd result" where
  "defMouse env c config w0 =
     (case isBooleanOptionTrue Undef (oget config ''annotateDisplay'') of
        Inl e \<Rightarrow> Inl e
      | Inr annotate \<Rightarrow>
          (let ns = numstr env; ie = old_IE env;
               w1 = (if to_bool annotate
                     then upd_ctx c (add_listener (on_type ie (first_word ns (oget config ''annotateFunction''))))
                            (w0\<lparr> cursorDivCreated := True \<rparr>)
                     else w0);
               w2 = (if to_bool (oget config ''savePng'')
                     then upd_ctx c (add_listener (on_type ie (first_word ns (oget config ''savePngFunction'')))) w1
                     else w1);
               down = (is_function (oget config ''mouseDownRight'')
                       \<or> is_function (oget config ''mouseDownLeft'')
                       \<or> is_function (oget config ''mouseDownMiddle''))
           in Inr (upd_ctx c (\<lambda>x.
                (let x1 = add_listener (if ie then ''onmousewheel'' else ''DOMMouseScroll'') x;
                     x2 = (if down then add_event_listener ie ''mousedown'' (Fn ''chartJsMouseDown'') x1 else x1);
                     x3 = add_event_listener ie ''mousemove'' (oget config ''mouseMove'') x2;
                     x4 = add_event_listener ie ''mouseout'' (oget config ''mouseOut'') x3
                 in add_event_listener ie ''mousewheel'' (oget config ''mouseWheel'') x4)) w2)))"

section \<open>Drawing a chart\<close>

definition set_if_undef :: "jsval \<Rightarrow> jsval \<Rightarrow> jsval" where
  "set_if_undef old new = (if old = Undef then new else old)"

text \<open>The first part of \<open>init_and_start\<close>: the properties a context gets at its first drawing.\<close>

definition init_ctx :: "'d env \<Rightarrow> obj \<Rightarrow> ctx \<Rightarrow> ctx" where
  "init_ctx env config x =
     (let x1 = x\<lparr> initialWidth := set_if_undef (initialWidth x) (Num (canvas_width x)),
                  chartTextScale := set_if_undef (chartTextScale x) (oget config ''chartTextScale''),
                  chartLineScale := set_if_undef (chartLineScale x) (oget config ''chartLineScale''),
                  chartSpaceScale := set_if_undef (chartSpaceScale x) (oget config ''chartSpaceScale'') \<rparr>
      in if ChartNewId x1 = None
         then x1\<lparr> runanimationcompletefunction := Bool True,
                  ChartNewId := Some (tpchart x1 @ ''_'' @ getTime env), eventListeners := [] \<rparr>
         else x1)"

text \<open>
  \<open>jsGraphAnnotate[ctx.ChartNewId]\<close> exists afterwards (its entries are the drawing code's), the
  context menu may be disabled, and the listeners are installed.  The conversion of labels to
  titles changes the data object only, \<open>setRect\<close> the pixels only.
\<close>

definition init_and_start ::
    "'d redraw \<Rightarrow> 'd env \<Rightarrow> nat \<Rightarrow> 'd \<Rightarrow> obj \<Rightarrow> 'd world \<Rightarrow> js_error + (bool \<times> obj \<times> 'd world)" where
  "init_and_start redraw env c data config w0 =
     (let w1 = upd_ctx c (init_ctx env config) w0;
          respond = (\<lambda>w. to_bool (oget config ''responsive'') \<and> firstPass (ctxs w c) = None)
      in case dynamicFunction env data config c w1 of
           (False, w2) \<Rightarrow>
             (if respond w2 \<and> \<not> to_bool (oget config ''multiGraph'')
              then (case addResponsiveChart env c data config w2 of
                      Inl e \<Rightarrow> Inl e | Inr (config', w3) \<Rightarrow> Inr (False, config', w3))
              else Inr (False, config, w2))
         | (True, w2) \<Rightarrow>
             if respond w2 \<and> \<not> to_bool (oget config ''multiGraph'') then
               (case addResponsiveChart env c data config w2 of
                  Inl e \<Rightarrow> Inl e
                | Inr (config', w3) \<Rightarrow>
                    (case subUpdateChart redraw env c data config' w3 of
                       Inl e \<Rightarrow> Inl e | Inr w4 \<Rightarrow> Inr (False, config', w4)))
             else
               (let w3 = (if respond w2 then set_pass c 1 w2 else w2);
                    w4 = w3\<lparr> annotated := annotated w3 \<union> set_option (ChartNewId (ctxs w3 c)) \<rparr>;
                    w5 = (if loose_eq (oget config ''contextMenu'') (Bool False)
                             \<or> is_function (oget config ''mouseDownRight'')
                          then upd_ctx c (\<lambda>x. x\<lparr> oncontextmenu := True \<rparr>) w4 else w4)
                in case defMouse env c config w5 of
                     Inl e \<Rightarrow> Inl e
                   | Inr w6 \<Rightarrow> Inr (True, config, w6)))"

text \<open>
  One call of \<open>animLoop\<close> on the world: paint the frame, then wait for the next one or finish
  with \<open>testRedraw\<close> and the callback.
\<close>

definition animLoop_call :: "'d redraw \<Rightarrow> 'd env \<Rightarrow> 'd pending \<Rightarrow> 'd world \<Rightarrow> 'd result" where
  "animLoop_call redraw env p w =
     (let c = p_ctx p; config = p_config p; fp = firstPass (ctxs w c);
          l = advance config fp (p_loop p);
          notifies = (\<lambda>w. is_function (oget config ''onAnimationComplete'')
                       \<and> loose_eq (runanimationcompletefunction (ctxs w c)) (Bool True))
      in case frame_percent (numstr env) config fp l of
           Inl e \<Rightarrow> Inl e
         | Inr pct \<Rightarrow>
             (let w1 = w\<lparr> painted := painted w @ [(c, p_data p, pct)] \<rparr>
              in case animLoop config fp (p_loop p) of
                   (l', RequestFrame) \<Rightarrow>
                     (let w2 = (if multAnim l = - 1 \<and> cntiter l \<le> beginAnim l \<and> notifies w1
                                then w1\<lparr> notified := notified w1 @ [(c, 0)] \<rparr> else w1)
                      in Inr (w2\<lparr> frames := frames w2 @ [p\<lparr> p_loop := l' \<rparr>] \<rparr>))
                 | (l', PauseThenFrame) \<Rightarrow> Inr (w1\<lparr> frames := frames w1 @ [p\<lparr> p_loop := l' \<rparr>] \<rparr>)
                 | (l', Finished) \<Rightarrow>
                     (case testRedraw redraw env c (p_data p) config w1 of
                        Inl e \<Rightarrow> Inl e
                      | Inr (True, w2) \<Rightarrow> Inr w2
                      | Inr (False, w2) \<Rightarrow>
                          Inr (if notifies w2
                               then upd_ctx c (\<lambda>x. x\<lparr> runanimationcompletefunction := Bool False \<rparr>)
                                      (w2\<lparr> notified := notified w2 @ [(c, 1)] \<rparr>)
                               else w2))))"

definition animationLoop :: "'d redraw \<Rightarrow> 'd env \<Rightarrow> nat \<Rightarrow> 'd \<Rightarrow> obj \<Rightarrow> 'd world \<Rightarrow> 'd result" where
  "animationLoop redraw env c data config0 w =
     (case anim_prologue (old_IE env) config0 of
        Inl e \<Rightarrow> Inl e
      | Inr (config, l) \<Rightarrow>
          (let p = \<lparr> p_ctx = c, p_data = data, p_config = config, p_loop = l \<rparr>
           in if to_bool (oget config ''clearRect'') then Inr (w\<lparr> frames := frames w @ [p] \<rparr>)
              else animLoop_call redraw env p w))"

text \<open>The name and the data layout (\<open>ctx.tpchart\<close>, \<open>ctx.tpdata\<close>) each constructor sets.\<close>

primrec chart_name :: "chart_type \<Rightarrow> string" where
  "chart_name PolarArea = ''PolarArea''"
| "chart_name Radar = ''Radar''"
| "chart_name Pie = ''Pie''"
| "chart_name Doughnut = ''Doughnut''"
| "chart_name Line = ''Line''"
| "chart_name StackedBar = ''StackedBar''"
| "chart_name HorizontalStackedBar = ''HorizontalStackedBar''"
| "chart_name Bar = ''Bar''"
| "chart_name HorizontalBar = ''HorizontalBar''"

definition data_layout :: "chart_type \<Rightarrow> nat" where
  "data_layout ct = (if ct \<in> {PolarArea, Pie, Doughnut} then 1 else 0)"

definition mark_reversed :: "nat \<Rightarrow> obj \<Rightarrow> 'd world \<Rightarrow> 'd world" where
  "mark_reversed c config w =
     (if to_bool (oget config ''reverseOrder'') then upd_ctx c (\<lambda>x. x\<lparr> reversed := True \<rparr>) w else w)"

text \<open>The body shared by the nine constructors, up to the drawing of pixels.\<close>

definition draw_chart ::
    "chart_type \<Rightarrow> 'd redraw \<Rightarrow> 'd env \<Rightarrow> nat \<Rightarrow> 'd \<Rightarrow> obj \<Rightarrow> 'd world \<Rightarrow> 'd result" where
  "draw_chart ct redraw env c data config w0 =
     (let w1 = (if ct = HorizontalStackedBar then mark_reversed c config w0 else w0);
          w2 = upd_ctx c (\<lambda>x. x\<lparr> tpchart := chart_name ct, tpdata := data_layout ct \<rparr>) w1
      in case init_and_start redraw env c data config w2 of
           Inl e \<Rightarrow> Inl e
         | Inr (False, _, w3) \<Rightarrow> Inr w3
         | Inr (True, config', w3) \<Rightarrow>
             (let w4 = (if ct = HorizontalBar then mark_reversed c config' w3 else w3)
              in if ct = Radar \<or> layout_fits env w4 c data config'
                 then animationLoop redraw env c data config' w4
                 else (case testRedraw redraw env c data config' w4 of
                         Inl e \<Rightarrow> Inl e | Inr (_, w5) \<Rightarrow> Inr w5)))"

text \<open>\<open>new Chart(ctx)\<close>: on a display with a pixel ratio the canvas is scaled once more.\<close>

definition new_Chart :: "'d env \<Rightarrow> nat \<Rightarrow> 'd world \<Rightarrow> 'd world" where
  "new_Chart env c w =
     (if to_bool (devicePixelRatio env) then
        (let r = to_number (devicePixelRatio env)
         in upd_ctx c (\<lambda>x. x\<lparr> style_width := Some (canvas_width x), style_height := Some (canvas_height x),
                             canvas_height := canvas_height x * r, canvas_width := canvas_width x * r \<rparr>) w)
      else w)"

definition chart_of_name :: "string \<Rightarrow> chart_type option" where
  "chart_of_name s =
     map_of (map (\<lambda>ct. (chart_name ct, ct))
       [Bar, Pie, Doughnut, Radar, PolarArea, HorizontalBar, StackedBar, HorizontalStackedBar, Line]) s"

fun redrawGraph :: "nat \<Rightarrow> 'd env \<Rightarrow> nat \<Rightarrow> 'd \<Rightarrow> obj \<Rightarrow> 'd world \<Rightarrow> 'd result" where
  "redrawGraph 0 env c data config w = Inl OutOfFuel"
| "redrawGraph (Suc n) env c data config w =
     (let w1 = new_Chart env c w
      in case chart_of_name (tpchart (ctxs w1 c)) of
           None \<Rightarrow> Inr w1
         | Some ct \<Rightarrow>
             draw_chart ct (redrawGraph n env) env c data (chart_config ct (personal env) (Some config)) w1)"

section \<open>The entry points of a page\<close>

text \<open>\<open>new Chart(ctx)\<close> followed by \<open>chart.Line(data, options)\<close>, or another chart type.\<close>

definition call_chart ::
    "nat \<Rightarrow> 'd env \<Rightarrow> chart_type \<Rightarrow> nat \<Rightarrow> 'd \<Rightarrow> obj option \<Rightarrow> 'd world \<Rightarrow> 'd result" where
  "call_chart n env ct c data options w =
     draw_chart ct (redrawGraph n env) env c data (chart_config ct (personal env) options) (new_Chart env c w)"

definition updateChart ::
    "nat \<Rightarrow> 'd env \<Rightarrow> nat \<Rightarrow> 'd \<Rightarrow> obj \<Rightarrow> bool \<Rightarrow> jsval \<Rightarrow> 'd world \<Rightarrow> 'd result" where
  "updateChart n env c data config animation runf w =
     (if firstPass (ctxs w c) = Some 5 then
        (let w1 = upd_ctx c (\<lambda>x. x\<lparr> runanimationcompletefunction := runf,
                                   firstPass := Some (if animation then 0 else 7) \<rparr>) w;
             w2 = (if to_bool (oget config ''responsive'')
                   then w1\<lparr> jsGraphResize := map (\<lambda>e.
                          if ChartNewId (ctxs w1 (r_ctx e)) = ChartNewId (ctxs w1 c)
                          then e\<lparr> r_data := data, r_config := config \<rparr> else e) (jsGraphResize w1) \<rparr>
                   else w1)
         in subUpdateChart (redrawGraph n env) env c data config w2)
      else Inr w)"

text \<open>The handler of a window resize: every registered chart in turn.\<close>

definition resize_one :: "nat \<Rightarrow> 'd env \<Rightarrow> nat \<Rightarrow> 'd world \<Rightarrow> 'd result" where
  "resize_one n env i w =
     (let e = jsGraphResize w ! i; c = r_ctx e;
          w1 = (if firstPass (ctxs w c) = Some 5 then set_pass c 6 w else w)
      in subUpdateChart (redrawGraph n env) env c (r_data e) (r_config e) w1)"

fun resize_from :: "nat \<Rightarrow> 'd env \<Rightarrow> nat list \<Rightarrow> 'd world \<Rightarrow> 'd result" where
  "resize_from n env [] w = Inr w"
| "resize_from n env (i # is) w =
     (case resize_one n env i w of Inl e \<Rightarrow> Inl e | Inr w' \<Rightarrow> resize_from n env is w')"

definition chartJsResize :: "nat \<Rightarrow> 'd env \<Rightarrow> 'd world \<Rightarrow> 'd result" where
  "chartJsResize n env w = resize_from n env [0..<length (jsGraphResize w)] w"

text \<open>The next animation frame: the loop that waited longest runs once.\<close>

definition run_frame :: "nat \<Rightarrow> 'd env \<Rightarrow> 'd world \<Rightarrow> 'd result" where
  "run_frame n env w =
     (case frames w of
        [] \<Rightarrow> Inr w
      | p # ps \<Rightarrow> animLoop_call (redrawGraph n env) env p (w\<lparr> frames := ps \<rparr>))"

text \<open>The scroll handler.\<close>

fun scroll_list :: "nat \<Rightarrow> 'd env \<Rightarrow> string list \<Rightarrow> 'd world \<Rightarrow> 'd result" where
  "scroll_list n env [] w = Inr w"
| "scroll_list n env (i # is) w =
     (case dynamicDisplay w i of
        None \<Rightarrow> Inl TypeError
      | Some e \<Rightarrow>
          if isScrolledIntoView env w (d_ctx e) \<and> \<not> d_drawn e then
            (case redrawGraph n env (d_ctx e) (d_data e) (d_config e)
                    (w\<lparr> dynamicDisplay := (dynamicDisplay w)(i \<mapsto> e\<lparr> d_visible := True \<rparr>) \<rparr>) of
               Inl err \<Rightarrow> Inl err
             | Inr w' \<Rightarrow> scroll_list n env is w')
          else scroll_list n env is w)"

definition scrollFunction :: "nat \<Rightarrow> 'd env \<Rightarrow> 'd world \<Rightarrow> 'd result" where
  "scrollFunction n env w = scroll_list n env (dynamicDisplayList w) w"

end
