(* ===== verification/PageOptions.thy ===== *)
theory PageOptions
  imports ChartStates
begin

text \<open>
  The options under which a page draws charts without surprises: \<open>page_options\<close> for the object a
  page passes, \<open>page_config\<close> for the configuration a constructor computes from it.  The defaults
  of ChartNew.js are within the limits (the tables are evaluated), and so is every configuration
  made from such options.
\<close>

section \<open>Options of such a page\<close>

text \<open>
  The limits on the options: the chart is responsive and drawn at once on a cleared canvas, and
  the options the drawing code dereferences without a check have usable values.
\<close>

definition page_limits :: "(string \<times> (jsval \<Rightarrow> bool)) list" where
  "page_limits =
     [(''dynamicDisplay'', \<lambda>v. \<not> to_bool v),
      (''multiGraph'', \<lambda>v. \<not> to_bool v),
      (''clearRect'', to_bool),
      (''annotateDisplay'', \<lambda>v. v \<noteq> Null),
      (''animationEasing'', \<lambda>v. v \<in> Str ` fst ` set animationOptions),
      (''animationStartValue'', \<lambda>v. \<not> out_of_range v),
      (''animationStopValue'', \<lambda>v. \<not> out_of_range v)]"

definition page_options :: "obj \<Rightarrow> bool" where
  "page_options op =
     (wf_obj op \<and> to_bool (oget op ''responsive'')
      \<and> (\<forall>(k, P) \<in> set page_limits. k \<in> fst ` set op \<longrightarrow> P (oget op k)))"

definition page_config :: "obj \<Rightarrow> bool" where
  "page_config config =
     (wf_obj config \<and> to_bool (oget config ''responsive'') \<and> (\<forall>(k, P) \<in> set page_limits. P (oget config k)))"

lemma page_options_limit: "page_options op \<Longrightarrow> (k, P) \<in> set page_limits \<Longrightarrow> k \<in> fst ` set op \<Longrightarrow> P (oget op k)"
  by (auto simp: page_options_def)

lemma page_optionsI:
  assumes "wf_obj op" "to_bool (oget op ''responsive'')"
    "\<And>k P. (k, P) \<in> set page_limits \<Longrightarrow> k \<in> fst ` set op \<Longrightarrow> P (oget op k)"
  shows "page_options op"
  using assms by (auto simp: page_options_def)

lemma page_options_wf: "page_options op \<Longrightarrow> wf_obj op"
  by (simp add: page_options_def)

lemma page_config_options: "page_config config \<Longrightarrow> page_options config"
  by (auto simp: page_config_def page_options_def)

lemma page_configD:
  assumes "page_config config"
  shows "\<not> to_bool (oget config ''dynamicDisplay'')" "\<not> to_bool (oget config ''multiGraph'')"
    "to_bool (oget config ''clearRect'')" "oget config ''annotateDisplay'' \<noteq> Null"
    "easing_of ns config \<noteq> None" "to_bool (oget config ''responsive'')"
    "\<not> out_of_range (oget config ''animationStartValue'')" "\<not> out_of_range (oget config ''animationStopValue'')"
proof -
  have "\<forall>(k, P) \<in> set page_limits. P (oget config k)"
    using assms by (simp add: page_config_def)
  then show "\<not> to_bool (oget config ''dynamicDisplay'')" "\<not> to_bool (oget config ''multiGraph'')"
    "to_bool (oget config ''clearRect'')" "oget config ''annotateDisplay'' \<noteq> Null"
    "\<not> out_of_range (oget config ''animationStartValue'')" "\<not> out_of_range (oget config ''animationStopValue'')"
    by (simp_all add: page_limits_def)
  have "oget config ''animationEasing'' \<in> Str ` fst ` set animationOptions"
    using assms by (simp add: page_config_def page_limits_def)
  then show "easing_of ns config \<noteq> None"
    by (auto simp: easing_of_def map_of_eq_None_iff intro: rev_image_eqI)
qed (use assms in \<open>simp add: page_config_def\<close>)

lemma page_optionsD:
  assumes "page_options op"
  shows "to_bool (oget op ''responsive'')" "\<not> to_bool (oget op ''dynamicDisplay'')"
  using assms oget_notin [of "''dynamicDisplay''" op] by (auto simp: page_options_def page_limits_def)

text \<open>The default options are within the limits.\<close>

lemma find_last_keys: "k \<in> fst ` set ps \<Longrightarrow> find_last acc k ps = find_last acc' k ps"
proof (induction ps arbitrary: acc acc')
  case (Cons p ps)
  show ?case
  proof (cases "k \<in> fst ` set ps")
    case True
    then show ?thesis using Cons.IH by (cases p) simp
  next
    case False
    with Cons.prems have "fst p = k" by auto
    then show ?thesis by (cases p) simp
  qed
qed simp

text \<open>Evaluating a look-up in a table leaves the rest of the table alone.\<close>

lemma find_last_step: "acc = acc' \<Longrightarrow> find_last acc k ps = find_last acc' k ps"
  by simp

lemma find_last_obj_literal: "find_last acc k (obj_literal ps) = find_last acc k ps"
proof (cases "k \<in> fst ` set ps")
  case True
  then show ?thesis
    by (simp add: find_last_wf keys_obj_literal oget_obj_literal find_last_keys [of k ps acc Undef])
next
  case False
  then show ?thesis by (simp add: find_last_wf keys_obj_literal find_last_notin)
qed

lemma chart_config_default:
  "oget (chart_config ct no_personal_options None) k =
     find_last (find_last (if has_axes ct then oget xyAxisCommonOptions k else Undef) k commonOptions) k (type_defaults ct)"
proof -
  have p: "personal_of ct no_personal_options = []" "charJSPersonalDefaultOptions no_personal_options = []"
    by (cases ct; simp add: no_personal_options_def)+
  show ?thesis
    using chart_config_layers [OF wf_no_personal, of None ct k]
    by (simp add: option_layers_def p oget_notin find_last_wf)
qed

lemma common_values:
  "find_last acc ''dynamicDisplay'' commonOptions = Bool False"
  "find_last acc ''multiGraph'' commonOptions = Bool False"
  "find_last acc ''clearRect'' commonOptions = Bool True"
  "find_last acc ''annotateDisplay'' commonOptions = Bool False"
  "find_last acc ''animationStartValue'' commonOptions = NumF 0"
  "find_last acc ''animationStopValue'' commonOptions = NumF 1"
  unfolding commonOptions_def find_last_obj_literal find_last_append commonOptions_layout_def commonOptions_behaviour_def
  by (simp_all cong: find_last_step)

lemmas table_defs = PolarArea_defaults_def Radar_defaults_def Pie_defaults_def Doughnut_defaults_def
  Line_defaults_def StackedBar_defaults_def HorizontalStackedBar_defaults_def Bar_defaults_def
  HorizontalBar_defaults_def

lemma type_values:
  "find_last acc ''dynamicDisplay'' (type_defaults ct) = acc"
  "find_last acc ''multiGraph'' (type_defaults ct) = acc"
  "find_last acc ''clearRect'' (type_defaults ct) = acc"
  "find_last acc ''annotateDisplay'' (type_defaults ct) = acc"
  "find_last acc ''animationStartValue'' (type_defaults ct) = acc"
  "find_last acc ''animationStopValue'' (type_defaults ct) = acc"
  by (induct ct; unfold type_defaults.simps table_defs find_last_obj_literal; simp cong: find_last_step)+

lemma type_easing:
  "find_last acc ''animationEasing'' (type_defaults ct) \<in> {Str ''easeOutBounce'', Str ''easeOutQuart''}"
  by (induct ct; unfold type_defaults.simps table_defs find_last_obj_literal; simp cong: find_last_step)

lemma easing_names: "''easeOutBounce'' \<in> fst ` set animationOptions" "''easeOutQuart'' \<in> fst ` set animationOptions"
  by (simp_all add: animationOptions_def)

lemma defaults_within_limits:
  "\<forall>(k, P) \<in> set page_limits. P (oget (chart_config ct no_personal_options None) k)"
proof -
  have "oget (chart_config ct no_personal_options None) ''animationEasing'' \<in> Str ` fst ` set animationOptions"
    using type_easing easing_names unfolding chart_config_default by blast
  then show ?thesis
    by (simp add: page_limits_def) (simp add: chart_config_default type_values common_values out_of_range_def)
qed

text \<open>The configuration a chart gets from such options is within the limits, too.\<close>

lemma page_config_chart:
  assumes "page_options op"
  shows "page_config (chart_config ct no_personal_options (Some op))"
proof -
  let ?d = "chart_config ct no_personal_options None"
  have c: "chart_config ct no_personal_options (Some op) = mergeChartConfig ?d op"
    by (simp add: chart_config_eq with_options_def)
  have wf: "wf_obj ?d" "wf_obj op"
    using wf_no_personal assms by (auto intro: wf_chart_config simp: page_options_def)
  have r: "''responsive'' \<in> fst ` set op"
    using page_optionsD(1) [OF assms] oget_notin by force
  have "P (oget (mergeChartConfig ?d op) k)" if "(k, P) \<in> set page_limits" for k P
    using assms that defaults_within_limits [of ct] by (auto simp: cfg.get_merge [OF wf] page_options_def)
  with assms wf r show ?thesis
    by (auto simp: page_config_def c cfg.get_merge cfg.wf_merge page_options_def)
qed

lemma page_options_oset:
  "page_options op \<Longrightarrow> k \<noteq> ''responsive'' \<Longrightarrow> k \<notin> fst ` set page_limits \<Longrightarrow> page_options (oset k v op)"
  by (intro page_optionsI) (auto simp: keys_oset page_optionsD page_options_wf intro: page_options_limit rev_image_eqI)

lemma page_options_defaults:
  assumes "page_options op"
  shows "page_options (resize_defaults op)"
proof -
  have "page_options (set_default k v op)"
    if "page_options op" "k \<noteq> ''responsive''" "k \<notin> fst ` set page_limits" for k v op
    using that by (simp add: set_default_def page_options_oset)
  with assms show ?thesis
    by (simp add: resize_defaults_def page_limits_def)
qed

lemma page_configD_limit: "page_config config \<Longrightarrow> (k, P) \<in> set page_limits \<Longrightarrow> P (oget config k)"
  by (auto simp: page_config_def)

lemma page_config_oset:
  assumes "page_config config" "k \<noteq> ''responsive''" "\<And>P. (k, P) \<in> set page_limits \<Longrightarrow> P v"
  shows "page_config (oset k v config)"
proof -
  have "P (oget (oset k v config) k')" if "(k', P) \<in> set page_limits" for k' P
    using assms that by (cases "k = k'") (auto dest: page_configD_limit)
  with assms show ?thesis by (auto simp: page_config_def)
qed

lemma anim_prologue_page:
  assumes "page_config config"
  obtains config' l where "anim_prologue ie config = Inr (config', l)" "page_config config'"
proof -
  note lim = page_configD [OF assms]
  define config1 where "config1 =
    (if to_number (oget config ''animationStopValue'') < to_number (oget config ''animationStartValue'')
     then oset ''animationStopValue'' (oget config ''animationStartValue'') config else config)"
  have c1: "page_config config1"
    unfolding config1_def using assms lim(7) by (auto intro!: page_config_oset simp: page_limits_def)
  define config2 where "config2 = (if ie then oset ''animation'' (Bool False) config1 else config1)"
  have c2: "page_config config2"
    unfolding config2_def using c1 by (auto intro!: page_config_oset simp: page_limits_def)
  have "\<exists>l. anim_prologue ie config = Inr (config2, l)"
    using lim(7,8) anim_prologue_completes [of ie config]
    unfolding anim_prologue_def Let_def config1_def [symmetric] config2_def [symmetric]
    by (auto split: option.splits simp: completes_def)
  with c2 that show ?thesis by blast
qed

end
