(* ===== verification/PageMachine.thy ===== *)
theory PageMachine
  imports PageOptions
begin

text \<open>
  The events of a page that draws responsive charts the way dashboard.html and stats.html do: a
  chart is drawn once on a fresh context and updated later, windows are resized, frames are
  played, canvases are moved in the document.  The invariant of the machine says that a context
  has exactly one animation loop waiting while its state is 1 to 4 and none otherwise, so that
  two loops never draw on the same canvas; and every event succeeds.
\<close>

section \<open>The effect of drawing\<close>

text \<open>
  A drawing of context \<open>c\<close> ends in one of two ways: an animation loop for \<open>c\<close> waits and the context
  is in state 1 or 3, or the chart has no room and the context is in state 5.  Nothing else of the
  machine changes.
\<close>

definition drawn :: "nat \<Rightarrow> 'd \<Rightarrow> 'd world \<Rightarrow> 'd world \<Rightarrow> bool" where
  "drawn c data w w' =
     ((\<forall>c'. c' \<noteq> c \<longrightarrow> chart_state w' c' = chart_state w c')
      \<and> tpchart (ctxs w' c) = tpchart (ctxs w c) \<and> parentNode (ctxs w' c) = parentNode (ctxs w c)
      \<and> jsGraphResize w' = jsGraphResize w \<and> (container w \<noteq> None \<longrightarrow> container w' \<noteq> None)
      \<and> ((firstPass (ctxs w' c) = Some 1 \<or> firstPass (ctxs w' c) = Some 3)
           \<and> (\<exists>p. frames w' = frames w @ [p] \<and> p_ctx p = c \<and> p_data p = data \<and> page_config (p_config p))
         \<or> firstPass (ctxs w' c) = Some 5 \<and> frames w' = frames w))"

text \<open>A frame of the loop \<open>p\<close> is drawn and the loop waits again.\<close>

definition waits :: "'d pending \<Rightarrow> 'd world \<Rightarrow> 'd world \<Rightarrow> bool" where
  "waits p w w' =
     (chart_state w' = chart_state w \<and> jsGraphResize w' = jsGraphResize w \<and> container w' = container w
      \<and> (\<exists>l. frames w' = frames w @ [p\<lparr> p_loop := l \<rparr>]))"

text \<open>Where the canvases are in the document: drawing does not move them.\<close>

definition document :: "'d world \<Rightarrow> nat \<Rightarrow> nat option" where
  "document w c = parentNode (ctxs w c)"

lemma document_drawn: "drawn c data w w' \<Longrightarrow> document w' = document w"
proof (rule ext)
  fix c' assume "drawn c data w w'"
  then show "document w' c' = document w c'"
    by (cases "c' = c") (simp_all add: drawn_def chart_state_def document_def)
qed

lemma document_waits: "waits p w w' \<Longrightarrow> document w' = document w"
  by (simp add: waits_def chart_state_def document_def fun_eq_iff)

lemma document_quiet: "quiet w w' \<Longrightarrow> document w' = document w"
  by (simp add: document_def fun_eq_iff quietD(3))

lemma document_same [simp]:
  "document (set_pass c k w) = document w" "document (w\<lparr> frames := fs \<rparr>) = document w"
  "document (w\<lparr> jsGraphResize := reg \<rparr>) = document w"
  by (auto simp: document_def set_pass_def)

lemma drawn_quiet:
  assumes "quiet w w1" "drawn c data w1 w'"
  shows "drawn c data w w'"
  using assms quietD [OF assms(1)] by (simp add: drawn_def quiet_def)

lemma drawn_pass:
  assumes "drawn c data (set_pass c n w) w'"
  shows "drawn c data w w'"
  using assms by (simp add: drawn_def set_pass_def chart_state_def)

lemma drawn_then_quiet:
  assumes "drawn c data w w1" "quiet w1 w'"
  shows "drawn c data w w'"
  using assms quietD [OF assms(2)] by (simp add: drawn_def quiet_def)

text \<open>A drawing that starts in state 1 or 3 with a page configuration.\<close>

lemma defMouse_page:
  assumes "page_config config"
  obtains w' where "defMouse env c config w = Inr w'" "quiet w w'"
proof -
  have "\<exists>r. isBooleanOptionTrue Undef (oget config ''annotateDisplay'') = Inr r"
    using page_configD(4) [OF assms]
    by (auto simp: isBooleanOptionTrue_def global_optionvar_def boolean_option_def split: jsval.splits)
  then obtain w' where "defMouse env c config w = Inr w'"
    by (auto simp: defMouse_def Let_def)
  with that defMouse_quiet show ?thesis by blast
qed

lemma init_and_start_page:
  assumes "page_config config" "firstPass (ctxs w c) = Some k"
  obtains w' where "init_and_start redraw env c data config w = Inr (True, config, w')" "quiet w w'"
proof -
  let ?w1 = "upd_ctx c (init_ctx env config) w"
  let ?w2 = "?w1\<lparr> annotated := annotated ?w1 \<union> set_option (ChartNewId (ctxs ?w1 c)) \<rparr>"
  let ?w3 = "if loose_eq (oget config ''contextMenu'') (Bool False) \<or> is_function (oget config ''mouseDownRight'')
             then upd_ctx c (\<lambda>x. x\<lparr> oncontextmenu := True \<rparr>) ?w2 else ?w2"
  have q: "quiet w ?w2"
    using quiet_init_ctx quiet_annotated(1) by (rule quiet_trans)
  have "quiet ?w2 (upd_ctx c (\<lambda>x. x\<lparr> oncontextmenu := True \<rparr>) ?w2)"
    by (rule quiet_upd) simp_all
  with q have q3: "quiet w ?w3" using quiet_trans by auto
  have fp: "firstPass (ctxs ?w1 c) = Some k"
    using assms(2) quietD(1) [OF quiet_init_ctx [of w c env config], of c] by simp
  obtain w' where d: "defMouse env c config ?w3 = Inr w'" "quiet ?w3 w'"
    using defMouse_page [OF assms(1)] by blast
  have "init_and_start redraw env c data config w = Inr (True, config, w')"
    unfolding init_and_start_def Let_def dynamicFunction_off [OF page_configD(1) [OF assms(1)]]
    using fp d(1) by (auto simp del: ctxs_upd_ctx split: if_splits)
  with that quiet_trans [OF q3 d(2)] show ?thesis by blast
qed

lemma animationLoop_page:
  assumes "page_config config"
  obtains p where "animationLoop redraw env c data config w = Inr (w\<lparr> frames := frames w @ [p] \<rparr>)"
    "p_ctx p = c" "p_data p = data" "page_config (p_config p)"
proof -
  obtain config' l where a: "anim_prologue (old_IE env) config = Inr (config', l)" "page_config config'"
    using anim_prologue_page [OF assms] by blast
  with that [of "\<lparr> p_ctx = c, p_data = data, p_config = config', p_loop = l \<rparr>"] page_configD(3) show ?thesis
    by (simp add: animationLoop_def Let_def)
qed

lemma draw_chart_page:
  assumes "page_config config" "tpchart (ctxs w c) = chart_name ct"
    and "firstPass (ctxs w c) = Some 1 \<or> firstPass (ctxs w c) = Some 3"
  shows "\<exists>w'. draw_chart ct redraw env c data config w = Inr w' \<and> drawn c data w w'"
proof -
  define w2 where "w2 = upd_ctx c (\<lambda>x. x\<lparr> tpchart := chart_name ct, tpdata := data_layout ct \<rparr>)
      (if ct = HorizontalStackedBar then mark_reversed c config w else w)"
  have q2: "quiet w w2"
  proof -
    have "quiet w (if ct = HorizontalStackedBar then mark_reversed c config w else w)" (is "quiet w ?w1")
      by (simp add: quiet_mark_reversed)
    moreover have "quiet ?w1 (upd_ctx c (\<lambda>x. x\<lparr> tpchart := chart_name ct, tpdata := data_layout ct \<rparr>) ?w1)"
      using assms(2) quietD(2) [OF quiet_mark_reversed [of w c config], of c] by (intro quiet_upd) simp_all
    ultimately show ?thesis unfolding w2_def by (rule quiet_trans)
  qed
  obtain k where k: "firstPass (ctxs w2 c) = Some k" "k = 1 \<or> k = 3"
    using assms(3) quietD(1) [OF q2, of c] by auto
  obtain w3 where i: "init_and_start redraw env c data config w2 = Inr (True, config, w3)" "quiet w2 w3"
    using init_and_start_page [OF assms(1) k(1)] by blast
  define w4 where "w4 = (if ct = HorizontalBar then mark_reversed c config w3 else w3)"
  have q4: "quiet w w4"
    using quiet_trans [OF q2 i(2)] quiet_trans [OF _ quiet_mark_reversed [of w3 c config]] by (simp add: w4_def)
  have k4: "firstPass (ctxs w4 c) = Some k"
    using k(1) quietD(1) [OF q4, of c] quietD(1) [OF q2, of c] by simp
  have t: "testRedraw redraw env c data config w4 = Inr (False, set_pass c 5 w4)"
    using k(2) k4 by (intro testRedraw_settled) (auto simp: wants_redraw_def)
  have d: "draw_chart ct redraw env c data config w =
      (if ct = Radar \<or> layout_fits env w4 c data config then animationLoop redraw env c data config w4
       else Inr (set_pass c 5 w4))"
    unfolding draw_chart_def Let_def w2_def [symmetric] i(1) sum.case prod.case bool.case w4_def [symmetric] t
    by (rule refl)
  obtain p where p: "animationLoop redraw env c data config w4 = Inr (w4\<lparr> frames := frames w4 @ [p] \<rparr>)"
      "p_ctx p = c" "p_data p = data" "page_config (p_config p)"
    by (rule animationLoop_page [OF assms(1)])
  have "drawn c data w4 (w4\<lparr> frames := frames w4 @ [p] \<rparr>)" "drawn c data w4 (set_pass c 5 w4)"
    using p k4 k(2) by (auto simp: drawn_def chart_state_def set_pass_def)
  then show ?thesis
    unfolding d p(1) using drawn_quiet [OF q4] by auto
qed

lemma chart_of_name_chart_name [simp]: "chart_of_name (chart_name ct) = Some ct"
  by (cases ct) (simp_all add: chart_of_name_def)

lemma addResponsiveChart_page:
  assumes "parentNode (ctxs w c) \<noteq> None \<or> container w \<noteq> None"
  obtains v e where "addResponsiveChart env c data config w = Inr (resize_defaults config, v)"
    "chart_state v = chart_state w" "frames v = frames w" "container v \<noteq> None"
    "jsGraphResize v = jsGraphResize w @ [e]" "r_ctx e = c" "r_data e = data" "r_config e = resize_defaults config"
proof -
  have qi: "quiet w (initChartResize w)"
    by (simp add: initChartResize_def quiet_def chart_state_def fun_eq_iff)
  then have "parentNode (ctxs (initChartResize w) c) \<noteq> None \<or> container (initChartResize w) \<noteq> None"
    using assms by (simp add: initChartResize_def)
  then obtain a b w1 where r: "resizeGraph env c config (initChartResize w) = Inr (a, b, resize_defaults config, w1)"
      "quiet (initChartResize w) w1" "container w1 \<noteq> None"
    by (rule resizeGraph_Inr)
  define w2 where "w2 = (if prevWidth (ctxs w1 c) \<noteq> Undef then resizeCtx env c a b (resize_defaults config) w1
      else if to_bool (oget (resize_defaults config) ''responsiveScaleContent'')
              \<and> to_bool (oget (resize_defaults config) ''responsiveWindowInitialWidth'')
      then upd_ctx c (\<lambda>x. x\<lparr> initialWidth := Num a \<rparr>) w1 else w1)"
  define w3 where "w3 = upd_ctx c (\<lambda>x. x\<lparr> prevWidth := Num a, prevHeight := Num b \<rparr>) w2"
  have "quiet w1 w2"
    using quiet_resizeCtx [of w1 env c a b "resize_defaults config"] quiet_upd [of "\<lambda>x. x\<lparr> initialWidth := Num a \<rparr>" w1 c]
    by (simp add: w2_def)
  moreover have "quiet w2 w3" unfolding w3_def by (rule quiet_upd) simp_all
  ultimately have q: "quiet w1 w3" by (rule quiet_trans)
  have qw: "quiet w w3" using quiet_trans [OF qi r(2)] q by (rule quiet_trans)
  let ?e = "\<lparr> r_id = ChartNewId (ctxs w3 c), r_tpchart = tpchart (ctxs w3 c), r_ctx = c,
              r_data = data, r_config = resize_defaults config \<rparr>"
  have "addResponsiveChart env c data config w
      = Inr (resize_defaults config, w3\<lparr> jsGraphResize := jsGraphResize w3 @ [?e] \<rparr>)"
    unfolding addResponsiveChart_def r(1) sum.case prod.case Let_def w2_def [symmetric] w3_def [symmetric] by (rule refl)
  moreover have "container w3 \<noteq> None" using quietD(6) [OF q r(3)] .
  ultimately show ?thesis
    using quietD [OF qw] qw by (intro that [of "w3\<lparr> jsGraphResize := jsGraphResize w3 @ [?e] \<rparr>" ?e])
      (simp_all add: quiet_def chart_state_def fun_eq_iff)
qed

text \<open>
  The contract between \<open>redrawGraph\<close> and its callers on such a page: called in state 1 or 3 it
  draws.  The effect of every caller follows from it.
\<close>

locale page_redraw =
  fixes redraw :: "'d redraw" and env :: "'d env"
  assumes redraw_draws:
    "page_options op \<Longrightarrow> tpchart (ctxs w c) \<in> range chart_name
       \<Longrightarrow> firstPass (ctxs w c) = Some 1 \<or> firstPass (ctxs w c) = Some 3
       \<Longrightarrow> \<exists>w'. redraw c data op w = Inr w' \<and> drawn c data w w'"
begin

lemma redraw_after:
  assumes "page_options op" "tpchart (ctxs w c) \<in> range chart_name" "quiet (set_pass c k w) w1" "k = 1 \<or> k = 3"
    "container w1 \<noteq> None"
  shows "\<exists>w'. redraw c data op w1 = Inr w' \<and> drawn c data w w' \<and> container w' \<noteq> None"
proof -
  have "tpchart (ctxs w1 c) \<in> range chart_name" "firstPass (ctxs w1 c) = Some k"
    using assms(2) quietD(1,2) [OF assms(3), of c] by (simp_all add: set_pass_def)
  then obtain w' where "redraw c data op w1 = Inr w'" "drawn c data w1 w'"
    using redraw_draws [OF assms(1), of w1 c data] assms(4) by auto
  with drawn_pass [OF drawn_quiet [OF assms(3)]] assms(5) show ?thesis by (auto simp: drawn_def)
qed

text \<open>\<open>subUpdateChart\<close> draws when the chart is idle, and only takes a note when it is being drawn.\<close>

lemma subUpdateChart_draws:
  assumes "page_options op" "tpchart (ctxs w c) \<in> range chart_name"
    and "parentNode (ctxs w c) \<noteq> None \<or> container w \<noteq> None"
    and "firstPass (ctxs w c) \<in> {None, Some 0, Some 6, Some 7}"
  shows "\<exists>w'. subUpdateChart redraw env c data op w = Inr w' \<and> drawn c data w w' \<and> container w' \<noteq> None"
proof -
  have dyn: "dynamicFunction env data op c w = (True, w)"
    by (rule dynamicFunction_off [OF page_optionsD(2) [OF assms(1)]])
  note op' = page_options_defaults [OF assms(1)]
  have drawn5: "drawn c data w (set_pass c 5 v)" if "quiet w v" for v
    using quietD [OF that] by (simp add: drawn_def set_pass_def chart_state_def)
  have quiet3: "quiet (set_pass c 3 w) (apply_size env c a b cfg (set_pass c 3 v))" if "quiet w v" for v a b cfg
  proof -
    have "quiet (set_pass c 3 w) (set_pass c 3 v)"
      using quietD [OF that] by (simp add: quiet_def set_pass_def chart_state_def fun_eq_iff)
    then show ?thesis using quiet_apply_size by (rule quiet_trans)
  qed
  show ?thesis
  proof (cases "firstPass (ctxs w c) \<in> {None, Some 0}")
    case True
    obtain a b v where r: "resizeGraph env c op (set_pass c 1 w) = Inr (a, b, resize_defaults op, v)"
        "quiet (set_pass c 1 w) v" "container v \<noteq> None"
      using assms(3) by (elim resizeGraph_Inr [of "set_pass c 1 w" c env op, rotated]) (simp add: set_pass_def)
    let ?v = "apply_size env c a b (resize_defaults op) v"
    let ?v' = "upd_ctx c (\<lambda>x. x\<lparr> runanimationcompletefunction := Bool True \<rparr>) ?v"
    have q: "quiet v ?v" "quiet v ?v'"
      using quiet_apply_size quiet_trans [OF quiet_apply_size quiet_upd, of "\<lambda>x. x\<lparr> runanimationcompletefunction := Bool True \<rparr>"]
      by auto
    then have "container ?v \<noteq> None" "container ?v' \<noteq> None"
      using quietD(6) r(3) by blast+
    then show ?thesis
      using redraw_after [OF op' assms(2) quiet_trans [OF r(2) q(1)], of data]
        redraw_after [OF op' assms(2) quiet_trans [OF r(2) q(2)], of data] True
      by (auto simp: subUpdateChart_def dyn r(1) simp del: One_nat_def)
  next
    case False
    obtain a b v where r: "resizeGraph env c op w = Inr (a, b, resize_defaults op, v)"
        "quiet w v" "container v \<noteq> None"
      by (rule resizeGraph_Inr [OF assms(3)])
    let ?v = "apply_size env c a b (resize_defaults op) (set_pass c 3 v)"
    have "container ?v \<noteq> None"
      using r(3) by (intro quietD(6) [OF quiet_apply_size]) (simp add: set_pass_def)
    with redraw_after [OF op' assms(2) quiet3 [OF r(2)], where data = data] drawn5 [OF r(2)] False assms(4) r(3) show ?thesis
      by (auto simp: subUpdateChart_def dyn r(1) set_pass_def)
  qed
qed

lemma subUpdateChart_busy:
  assumes "page_options op"
  shows "firstPass (ctxs w c) = Some k \<Longrightarrow> k = 1 \<or> k = 2 \<Longrightarrow> subUpdateChart redraw env c data op w = Inr (set_pass c 2 w)"
    and "firstPass (ctxs w c) = Some k \<Longrightarrow> k = 3 \<or> k = 4 \<Longrightarrow> subUpdateChart redraw env c data op w = Inr (set_pass c 4 w)"
  by (auto simp: subUpdateChart_def dynamicFunction_off [OF page_optionsD(2) [OF assms]])

lemma testRedraw_page:
  assumes "page_options op" "tpchart (ctxs w c) \<in> range chart_name" "container w \<noteq> None"
  shows "\<exists>b w'. testRedraw redraw env c data op w = Inr (b, w') \<and> drawn c data w w'"
proof (cases "wants_redraw (firstPass (ctxs w c))")
  case True
  have "\<exists>w'. subUpdateChart redraw env c data op (set_pass c 6 w) = Inr w' \<and> drawn c data (set_pass c 6 w) w' \<and> container w' \<noteq> None"
    using assms by (intro subUpdateChart_draws) (simp_all add: set_pass_def)
  with True drawn_pass show ?thesis
    by (fastforce simp: testRedraw_def wants_redraw_def)
next
  case False
  have "drawn c data w (set_pass c 5 w)"
    by (simp add: drawn_def set_pass_def chart_state_def)
  with testRedraw_settled [OF False] show ?thesis by blast
qed

text \<open>A frame either leaves its loop waiting for the next one or ends with a drawing.\<close>

lemma animLoop_call_page:
  assumes "page_config (p_config p)" "tpchart (ctxs w (p_ctx p)) \<in> range chart_name" "container w \<noteq> None"
  shows "\<exists>w'. animLoop_call redraw env p w = Inr w'
           \<and> (waits p w w' \<or> drawn (p_ctx p) (p_data p) w w')"
proof -
  let ?c = "p_ctx p" and ?cfg = "p_config p"
  let ?fp = "firstPass (ctxs w ?c)"
  obtain pct where pct: "frame_percent (numstr env) ?cfg ?fp (advance ?cfg ?fp (p_loop p)) = Inr pct"
    using page_configD(5) [OF assms(1), of "numstr env"] by (auto simp: frame_percent_def Let_def)
  let ?w1 = "w\<lparr> painted := painted w @ [(?c, p_data p, pct)] \<rparr>"
  have q1: "quiet w ?w1"
    by (simp add: quiet_def chart_state_def fun_eq_iff)
  obtain b w2 where t: "testRedraw redraw env ?c (p_data p) ?cfg ?w1 = Inr (b, w2)" "drawn ?c (p_data p) w w2"
    using testRedraw_page [OF page_config_options [OF assms(1)], of ?w1 ?c "p_data p"] assms(2,3) drawn_quiet [OF q1]
    by auto
  have q2: "quiet w2 (upd_ctx ?c (\<lambda>x. x\<lparr> runanimationcompletefunction := Bool False \<rparr>) (w2\<lparr> notified := ns \<rparr>))" for ns
    by (simp add: quiet_def chart_state_def fun_eq_iff)
  obtain l o' where a: "animLoop ?cfg ?fp (p_loop p) = (l, o')" by fastforce
  note call = animLoop_call_def [of redraw env p w, unfolded Let_def pct sum.case a prod.case]
  show ?thesis
  proof (cases o')
    case RequestFrame
    with call show ?thesis by (simp add: waits_def chart_state_def fun_eq_iff) blast
  next
    case PauseThenFrame
    with call show ?thesis by (simp add: waits_def chart_state_def fun_eq_iff) blast
  next
    case Finished
    with call t drawn_then_quiet [OF t(2) q2] show ?thesis by (cases b) auto
  qed
qed

text \<open>The first drawing of a context registers the chart and draws it.\<close>

lemma draw_chart_first:
  assumes "page_config config" "firstPass (ctxs w c) = None" "parentNode (ctxs w c) \<noteq> None"
  shows "\<exists>v w' e. draw_chart ct redraw env c data config w = Inr w' \<and> drawn c data v w' \<and> container w' \<noteq> None
     \<and> (\<forall>c'. c' \<noteq> c \<longrightarrow> chart_state v c' = chart_state w c') \<and> tpchart (ctxs v c) = chart_name ct
     \<and> document v = document w
     \<and> frames v = frames w \<and> jsGraphResize v = jsGraphResize w @ [e] \<and> r_ctx e = c \<and> r_data e = data
     \<and> page_options (r_config e)"
proof -
  define w2 where "w2 = upd_ctx c (\<lambda>x. x\<lparr> tpchart := chart_name ct, tpdata := data_layout ct \<rparr>)
      (if ct = HorizontalStackedBar then mark_reversed c config w else w)"
  define w3 where "w3 = upd_ctx c (init_ctx env config) w2"
  have q3: "quiet w2 w3" unfolding w3_def by (rule quiet_init_ctx)
  have s2: "tpchart (ctxs w2 c) = chart_name ct" "firstPass (ctxs w2 c) = None" "parentNode (ctxs w2 c) \<noteq> None"
      "frames w2 = frames w" "jsGraphResize w2 = jsGraphResize w" "\<And>c'. c' \<noteq> c \<Longrightarrow> chart_state w2 c' = chart_state w c'"
    using quietD [OF quiet_mark_reversed [of w c config]] assms by (simp_all add: w2_def chart_state_def)
  then have s3: "parentNode (ctxs w3 c) \<noteq> None \<or> container w3 \<noteq> None" "firstPass (ctxs w3 c) = None"
    using quietD [OF q3] by simp_all
  obtain v e where a: "addResponsiveChart env c data config w3 = Inr (resize_defaults config, v)"
    "chart_state v = chart_state w3" "frames v = frames w3" "container v \<noteq> None"
    "jsGraphResize v = jsGraphResize w3 @ [e]" "r_ctx e = c" "r_data e = data" "r_config e = resize_defaults config"
    by (rule addResponsiveChart_page [OF s3(1)])
  have sv: "chart_state v = chart_state w2" using a(2) q3 by (simp add: quiet_def)
  then have "firstPass (ctxs v c) = None" "tpchart (ctxs v c) = chart_name ct" and doc2: "document v = document w2"
    using s2 by (simp_all add: chart_state_def fun_eq_iff document_def)
  moreover have doc: "document v = document w"
    using doc2 document_quiet [OF quiet_mark_reversed [of w c config]] by (simp add: w2_def document_def fun_eq_iff)
  moreover note op = page_options_defaults [OF page_config_options [OF assms(1)]]
  ultimately obtain w' where u: "subUpdateChart redraw env c data (resize_defaults config) v = Inr w'"
      "drawn c data v w'" "container w' \<noteq> None"
    using subUpdateChart_draws [OF op, of v c data] a(4) by auto
  have "init_and_start redraw env c data config w2 = Inr (False, resize_defaults config, w')"
    unfolding init_and_start_def Let_def dynamicFunction_off [OF page_configD(1) [OF assms(1)]] w3_def [symmetric]
    using page_configD(2,6) [OF assms(1)] s3(2) a(1) u(1) by simp
  then have "draw_chart ct redraw env c data config w = Inr w'"
    by (simp add: draw_chart_def Let_def flip: w2_def)
  with u(2,3) s2 sv a op \<open>tpchart (ctxs v c) = chart_name ct\<close> doc quietD(4,5) [OF q3] show ?thesis
    by (intro exI [of _ v] exI [of _ w'] exI [of _ e]) simp
qed

end

text \<open>The pages load ChartNew.js and set no personal default options.\<close>

definition page_env :: "'d env \<Rightarrow> 'd env" where
  "page_env env = env\<lparr> personal := no_personal_options \<rparr>"

lemma page_env_personal [simp]: "personal (page_env env) = no_personal_options"
  by (simp add: page_env_def)

interpretation page: page_redraw "redrawGraph (Suc n) (page_env env)" "page_env env" for n env
proof
  fix op :: obj and w :: "'a world" and c data
  assume op: "page_options op" and "tpchart (ctxs w c) \<in> range chart_name"
    and fp: "firstPass (ctxs w c) = Some 1 \<or> firstPass (ctxs w c) = Some 3"
  let ?w = "new_Chart (page_env env) c w"
  note q = quiet_new_Chart [of w "page_env env" c]
  obtain ct where ct: "tpchart (ctxs ?w c) = chart_name ct"
    using quietD(2) [OF q, of c] \<open>tpchart (ctxs w c) \<in> range chart_name\<close> by auto
  have "firstPass (ctxs ?w c) = Some 1 \<or> firstPass (ctxs ?w c) = Some 3"
    using fp quietD(1) [OF q, of c] by simp
  from draw_chart_page [OF page_config_chart [OF op, of ct] ct this]
  obtain w' where "draw_chart ct (redrawGraph n (page_env env)) (page_env env) c data
      (chart_config ct no_personal_options (Some op)) ?w = Inr w'" "drawn c data ?w w'" by blast
  then show "\<exists>w'. redrawGraph (Suc n) (page_env env) c data op w = Inr w' \<and> drawn c data w w'"
    using drawn_quiet [OF q] ct by (auto simp: Let_def page_env_personal)
qed

section \<open>The events of a page\<close>

datatype 'd event =
    Draw chart_type nat 'd obj
  | Update nat 'd obj bool jsval
  | Resize
  | Frame
  | Move nat "nat option"

fun handle :: "'d env \<Rightarrow> 'd event \<Rightarrow> 'd world \<Rightarrow> 'd result" where
  "handle env (Draw ct c data op) w = call_chart 1 (page_env env) ct c data (Some op) w"
| "handle env (Update c data op animation runf) w = updateChart 1 (page_env env) c data op animation runf w"
| "handle env Resize w = chartJsResize 1 (page_env env) w"
| "handle env Frame w = run_frame 1 (page_env env) w"
| "handle env (Move c parent) w = Inr (upd_ctx c (\<lambda>x. x\<lparr> parentNode := parent \<rparr>) w)"

text \<open>A page draws a chart on a context that is in the document and has no chart yet.\<close>

fun enabled :: "'d world \<Rightarrow> 'd event \<Rightarrow> bool" where
  "enabled w (Draw ct c data op) =
     (firstPass (ctxs w c) = None \<and> parentNode (ctxs w c) \<noteq> None \<and> page_options op)"
| "enabled w (Update c data op animation runf) = page_options op"
| "enabled w Resize = True"
| "enabled w Frame = True"
| "enabled w (Move c parent) = True"

definition fresh_page :: "'d world \<Rightarrow> bool" where
  "fresh_page w = ((\<forall>c. firstPass (ctxs w c) = None) \<and> frames w = [] \<and> jsGraphResize w = [])"

inductive reachable :: "'d world \<Rightarrow> bool" where
  start: "fresh_page w \<Longrightarrow> reachable w"
| step: "reachable w \<Longrightarrow> enabled w e \<Longrightarrow> handle env e w = Inr w' \<Longrightarrow> reachable w'"

inductive_cases reachableE: "reachable w"

section \<open>The invariant\<close>

text \<open>The animation loops that wait for a frame of the context, and the entries of its registry.\<close>

definition loops :: "nat \<Rightarrow> 'd world \<Rightarrow> nat" where
  "loops c w = length (filter (\<lambda>p. p_ctx p = c) (frames w))"

definition entries :: "nat \<Rightarrow> 'd world \<Rightarrow> nat" where
  "entries c w = length (filter (\<lambda>e. r_ctx e = c) (jsGraphResize w))"

text \<open>The contexts of the registry, in the order they were registered, and the one an event adds.\<close>

definition registered :: "'d world \<Rightarrow> nat list" where
  "registered w = map r_ctx (jsGraphResize w)"

fun new_charts :: "'d event \<Rightarrow> nat list" where
  "new_charts (Draw ct c data op) = [c]"
| "new_charts _ = []"

fun moved :: "'d event \<Rightarrow> (nat \<Rightarrow> nat option) \<Rightarrow> nat \<Rightarrow> nat option" where
  "moved (Move c parent) d = d(c := parent)"
| "moved _ d = d"

lemma entries_registered: "entries c w = count_list (registered w) c"
  by (simp add: entries_def registered_def count_list_eq_length_filter filter_map comp_def eq_commute)

text \<open>The state of a context agrees with the loops and the entries it has.\<close>

definition consistent :: "nat option \<Rightarrow> nat \<Rightarrow> nat \<Rightarrow> bool" where
  "consistent fp l e =
     (case fp of
        None \<Rightarrow> l = 0 \<and> e = 0
      | Some k \<Rightarrow> e = 1 \<and> (k \<in> {1, 2, 3, 4} \<and> l = 1 \<or> k = 5 \<and> l = 0))"

definition page_inv :: "'d world \<Rightarrow> bool" where
  "page_inv w =
     ((\<forall>c. consistent (firstPass (ctxs w c)) (loops c w) (entries c w))
      \<and> (\<forall>c. firstPass (ctxs w c) \<noteq> None \<longrightarrow> tpchart (ctxs w c) \<in> range chart_name \<and> container w \<noteq> None)
      \<and> (\<forall>p \<in> set (frames w). page_config (p_config p))
      \<and> (\<forall>e \<in> set (jsGraphResize w). page_options (r_config e)))"

lemma page_invD:
  assumes "page_inv w"
  shows "consistent (firstPass (ctxs w c)) (loops c w) (entries c w)"
    "firstPass (ctxs w c) = Some k \<Longrightarrow> tpchart (ctxs w c) \<in> range chart_name"
    "firstPass (ctxs w c) = Some k \<Longrightarrow> container w \<noteq> None"
    "p \<in> set (frames w) \<Longrightarrow> page_config (p_config p)"
    "e \<in> set (jsGraphResize w) \<Longrightarrow> page_options (r_config e)"
  using assms by (auto simp: page_inv_def)

lemma page_inv_registered:
  assumes "page_inv w" "e \<in> set (jsGraphResize w)"
  obtains k where "firstPass (ctxs w (r_ctx e)) = Some k" "k \<in> {1, 2, 3, 4, 5}"
proof -
  have "entries (r_ctx e) w \<noteq> 0"
    using assms(2) by (auto simp: entries_def filter_empty_conv)
  with page_invD(1) [OF assms(1), of "r_ctx e"] that show ?thesis
    by (auto simp: consistent_def split: option.splits)
qed

lemma page_inv_waiting:
  assumes "page_inv w" "p \<in> set (frames w)"
  obtains k where "firstPass (ctxs w (p_ctx p)) = Some k" "k \<in> {1, 2, 3, 4}"
proof -
  have "loops (p_ctx p) w \<noteq> 0"
    using assms(2) by (auto simp: loops_def filter_empty_conv)
  with page_invD(1) [OF assms(1), of "p_ctx p"] that show ?thesis
    by (auto simp: consistent_def split: option.splits)
qed

text \<open>The invariant while context \<open>c\<close> is being redrawn: it has no loop, whatever its state is.\<close>

definition page_inv_but :: "nat \<Rightarrow> 'd world \<Rightarrow> bool" where
  "page_inv_but c w =
     ((\<forall>c'. c' \<noteq> c \<longrightarrow> consistent (firstPass (ctxs w c')) (loops c' w) (entries c' w))
      \<and> (\<forall>c'. c' \<noteq> c \<longrightarrow> firstPass (ctxs w c') \<noteq> None \<longrightarrow> tpchart (ctxs w c') \<in> range chart_name)
      \<and> loops c w = 0 \<and> entries c w = 1 \<and> tpchart (ctxs w c) \<in> range chart_name
      \<and> (\<forall>p \<in> set (frames w). page_config (p_config p))
      \<and> (\<forall>e \<in> set (jsGraphResize w). page_options (r_config e)))"

lemma page_inv_drawn:
  assumes "page_inv_but c w" "drawn c data w w'" "container w' \<noteq> None"
  shows "page_inv w'"
proof -
  have st: "firstPass (ctxs w' c') = firstPass (ctxs w c')" "tpchart (ctxs w' c') = tpchart (ctxs w c')" if "c' \<noteq> c" for c'
    using assms(2) that by (simp_all add: drawn_def chart_state_def)
  have en: "entries c' w' = entries c' w" for c'
    using assms(2) by (simp add: drawn_def entries_def)
  have lo: "loops c' w' = loops c' w" if "c' \<noteq> c" for c'
    using assms(2) that by (auto simp: drawn_def loops_def)
  have "consistent (firstPass (ctxs w' c)) (loops c w') (entries c w')"
    using assms(1,2) en [of c] by (auto simp: drawn_def page_inv_but_def consistent_def loops_def)
  with assms(1) st en lo have "consistent (firstPass (ctxs w' c')) (loops c' w') (entries c' w')" for c'
    by (cases "c' = c") (simp_all add: page_inv_but_def)
  moreover have "tpchart (ctxs w' c') \<in> range chart_name" if "firstPass (ctxs w' c') \<noteq> None" for c'
    using that assms(1,2) st by (cases "c' = c") (simp_all add: page_inv_but_def drawn_def)
  moreover have "page_config (p_config p)" if "p \<in> set (frames w')" for p
    using that assms(1,2) by (auto simp: drawn_def page_inv_but_def)
  ultimately show ?thesis
    using assms by (simp add: page_inv_def drawn_def page_inv_but_def)
qed

lemma page_inv_but_idle:
  assumes "page_inv w" "firstPass (ctxs w c) = Some 5"
  shows "page_inv_but c w"
  using assms page_invD(1) [OF assms(1), of c] page_invD(2) [OF assms] by (simp add: page_inv_def page_inv_but_def consistent_def)

lemma page_inv_but_upd:
  assumes "page_inv_but c w" "tpchart (f (ctxs w c)) = tpchart (ctxs w c)"
  shows "page_inv_but c (upd_ctx c f w)"
  using assms by (simp add: page_inv_but_def loops_def entries_def)

lemma page_inv_but_frame:
  assumes "page_inv w" "frames w = p # ps"
  shows "page_inv_but (p_ctx p) (w\<lparr> frames := ps \<rparr>)"
proof -
  obtain k where k: "firstPass (ctxs w (p_ctx p)) = Some k" "k \<in> {1, 2, 3, 4}"
    using page_inv_waiting [OF assms(1), of p] assms(2) by auto
  have "loops c (w\<lparr> frames := ps \<rparr>) = (if c = p_ctx p then loops c w - 1 else loops c w)"
    "entries c (w\<lparr> frames := ps \<rparr>) = entries c w" for c
    using assms(2) by (simp_all add: loops_def entries_def)
  with assms page_invD(1) [OF assms(1), of "p_ctx p"] page_invD(2) [OF assms(1) k(1)] k show ?thesis
    by (auto simp: page_inv_def page_inv_but_def consistent_def)
qed

lemma page_inv_busy:
  assumes "page_inv w" "firstPass (ctxs w c) = Some k" "k \<in> {1, 2, 3, 4}" "k' \<in> {1, 2, 3, 4}"
  shows "page_inv (set_pass c k' w)"
  using assms page_invD(1) [OF assms(1), of c]
  by (auto simp: page_inv_def set_pass_def loops_def entries_def consistent_def)

lemma page_inv_quiet:
  assumes "page_inv w" "quiet w w'"
  shows "page_inv w'"
  using assms(1) quietD [OF assms(2)] by (auto simp: page_inv_def loops_def entries_def)

section \<open>Every event succeeds and keeps the invariant\<close>

lemma draw_event:
  assumes "page_inv w" "enabled w (Draw ct c data op)"
  shows "\<exists>w'. handle env (Draw ct c data op) w = Inr w' \<and> page_inv w' \<and> registered w' = registered w @ [c]
           \<and> document w' = document w"
proof -
  let ?w = "new_Chart (page_env env) c w"
  note q = quiet_new_Chart [of w "page_env env" c]
  have fp: "firstPass (ctxs ?w c) = None" "parentNode (ctxs ?w c) \<noteq> None" and op: "page_options op"
    using assms(2) quietD [OF q] by simp_all
  note inv = page_inv_quiet [OF assms(1) q]
  from page.draw_chart_first [OF page_config_chart [OF op, of ct] fp, where n = 0 and env = env and ct = ct and data = data]
  obtain v w' e where d: "draw_chart ct (redrawGraph 1 (page_env env)) (page_env env) c data
        (chart_config ct no_personal_options (Some op)) ?w = Inr w'"
    "drawn c data v w'" "container w' \<noteq> None" "\<And>c'. c' \<noteq> c \<Longrightarrow> chart_state v c' = chart_state ?w c'"
    "tpchart (ctxs v c) = chart_name ct" "document v = document ?w" "frames v = frames ?w" "jsGraphResize v = jsGraphResize ?w @ [e]"
    "r_ctx e = c" "page_options (r_config e)"
    unfolding One_nat_def by blast
  have "page_inv_but c v"
    using inv page_invD(1) [OF inv, of c] fp(1) d(4-10)
    by (auto simp: page_inv_def page_inv_but_def chart_state_def loops_def entries_def consistent_def)
  moreover have "registered w' = registered w @ [c]"
    using d(2,8,9) quietD(5) [OF q] by (simp add: registered_def drawn_def)
  moreover have "document w' = document w"
    using document_drawn [OF d(2)] d(6) document_quiet [OF q] by simp
  ultimately show ?thesis
    using page_inv_drawn [OF _ d(2,3)] d(1) by (simp add: call_chart_def)
qed

text \<open>The registry after an update: \<open>updateChart\<close> finds the entry by the id of its context.\<close>

definition registry_after :: "nat \<Rightarrow> 'd \<Rightarrow> obj \<Rightarrow> 'd world \<Rightarrow> 'd resize_entry list" where
  "registry_after c data op w =
     map (\<lambda>e. if ChartNewId (ctxs w (r_ctx e)) = ChartNewId (ctxs w c)
               then e\<lparr> r_data := data, r_config := op \<rparr> else e) (jsGraphResize w)"

lemma registry_after_ctx: "map r_ctx (registry_after c data op w) = map r_ctx (jsGraphResize w)"
  by (simp add: registry_after_def)

lemma registry_after_options:
  "page_inv w \<Longrightarrow> page_options op \<Longrightarrow> e \<in> set (registry_after c data op w) \<Longrightarrow> page_options (r_config e)"
  using page_invD(5) [of w] by (auto simp: registry_after_def)

lemma registry_after_data: "e \<in> set (registry_after c data op w) \<Longrightarrow> r_ctx e = c \<Longrightarrow> r_data e = data"
  by (auto simp: registry_after_def split: if_splits)

lemma update_event:
  assumes "page_inv w" "enabled w (Update c data op an rf)"
  shows "\<exists>w'. handle env (Update c data op an rf) w = Inr w' \<and> page_inv w' \<and> registered w' = registered w
     \<and> document w' = document w
     \<and> (firstPass (ctxs w c) = Some 5 \<longrightarrow> drawn c data (w\<lparr> jsGraphResize := jsGraphResize w' \<rparr>) w'
           \<and> jsGraphResize w' = registry_after c data op w)
     \<and> (firstPass (ctxs w c) \<noteq> Some 5 \<longrightarrow> w' = w)"
proof (cases "firstPass (ctxs w c) = Some 5")
  case False
  with assms show ?thesis by (simp add: updateChart_def)
next
  case True
  from assms(2) have op: "page_options op" by simp
  define w1 where "w1 = upd_ctx c (\<lambda>x. x\<lparr> runanimationcompletefunction := rf, firstPass := Some (if an then 0 else 7) \<rparr>) w"
  define reg where "reg = registry_after c data op w"
  define w2 where "w2 = w1\<lparr> jsGraphResize := reg \<rparr>"
  have w2: "w2 = w1\<lparr> jsGraphResize := map (\<lambda>e. if ChartNewId (ctxs w1 (r_ctx e)) = ChartNewId (ctxs w1 c)
                          then e\<lparr> r_data := data, r_config := op \<rparr> else e) (jsGraphResize w1) \<rparr>"
    by (auto simp: w2_def reg_def registry_after_def w1_def intro!: map_cong)
  have reg: "map r_ctx reg = map r_ctx (jsGraphResize w)" "\<forall>e \<in> set reg. page_options (r_config e)"
    using registry_after_ctx registry_after_options [OF assms(1) op] by (auto simp: reg_def)
  have en: "entries c' w2 = entries c' w" for c'
    using arg_cong [OF reg(1), of "\<lambda>cs. length (filter (\<lambda>x. x = c') cs)"]
    by (simp add: entries_def w2_def filter_map comp_def)
  have "page_inv_but c w1"
    unfolding w1_def using page_inv_but_idle [OF assms(1) True] by (rule page_inv_but_upd) simp
  then have but: "page_inv_but c w2"
    using en reg(2) by (simp add: page_inv_but_def w2_def loops_def w1_def entries_def)
  have "\<exists>w'. subUpdateChart (redrawGraph (Suc 0) (page_env env)) (page_env env) c data op w2 = Inr w'
      \<and> drawn c data w2 w' \<and> container w' \<noteq> None"
    using op page_invD(2,3) [OF assms(1) True] by (intro page.subUpdateChart_draws) (auto simp: w2_def w1_def)
  then obtain w' where u: "subUpdateChart (redrawGraph 1 (page_env env)) (page_env env) c data op w2 = Inr w'"
      "drawn c data w2 w'" "container w' \<noteq> None" by auto
  have "jsGraphResize w' = reg" using u(2) by (simp add: drawn_def w2_def)
  have "document w' = document w"
    using document_drawn [OF u(2)] by (simp add: w2_def w1_def) (simp add: document_def fun_eq_iff)
  then have "drawn c data (w\<lparr> jsGraphResize := jsGraphResize w' \<rparr>) w'"
    using u(2) by (simp add: drawn_def w2_def w1_def chart_state_def)
  moreover have "handle env (Update c data op an rf) w = Inr w'"
    using True u(1) page_optionsD(1) [OF op]
    by (simp add: updateChart_def Let_def flip: w1_def w2)
  ultimately show ?thesis
    using page_inv_drawn [OF but u(2,3)] True reg(1) \<open>jsGraphResize w' = reg\<close>
      \<open>document w' = document w\<close> by (simp add: registered_def reg_def)
qed

lemma resize_one_event:
  assumes "page_inv w" "i < length (jsGraphResize w)"
  shows "\<exists>w'. resize_one 1 (page_env env) i w = Inr w' \<and> page_inv w' \<and> jsGraphResize w' = jsGraphResize w
           \<and> document w' = document w"
proof -
  let ?e = "jsGraphResize w ! i"
  let ?c = "r_ctx ?e"
  have e: "?e \<in> set (jsGraphResize w)" using assms(2) by simp
  note op = page_invD(5) [OF assms(1) e]
  obtain k where k: "firstPass (ctxs w ?c) = Some k" "k \<in> {1, 2, 3, 4, 5}"
    by (rule page_inv_registered [OF assms(1) e])
  show ?thesis
  proof (cases "k = 5")
    case True
    have but: "page_inv_but ?c (set_pass ?c 6 w)"
      unfolding set_pass_def using page_inv_but_idle [OF assms(1)] k(1) True by (intro page_inv_but_upd) simp_all
    have "\<exists>w'. subUpdateChart (redrawGraph (Suc 0) (page_env env)) (page_env env) ?c (r_data ?e) (r_config ?e) (set_pass ?c 6 w)
        = Inr w' \<and> drawn ?c (r_data ?e) (set_pass ?c 6 w) w' \<and> container w' \<noteq> None"
      using op page_invD(2,3) [OF assms(1) k(1)] by (intro page.subUpdateChart_draws) (auto simp: set_pass_def)
    then obtain w' where "resize_one 1 (page_env env) i w = Inr w'" "drawn ?c (r_data ?e) (set_pass ?c 6 w) w'"
        "container w' \<noteq> None"
      using True k(1) by (auto simp: resize_one_def Let_def)
    with page_inv_drawn [OF but] document_drawn [of ?c "r_data ?e" "set_pass ?c 6 w" w'] show ?thesis
      by simp (simp add: drawn_def set_pass_def)
  next
    case False
    with k page.subUpdateChart_busy [OF op k(1), of 0 env "r_data ?e"]
    have "resize_one 1 (page_env env) i w = Inr (set_pass ?c (if k = 1 \<or> k = 2 then 2 else 4) w)"
      by (auto simp: resize_one_def Let_def)
    moreover have "page_inv (set_pass ?c (if k = 1 \<or> k = 2 then 2 else 4) w)"
      using k False by (intro page_inv_busy [OF assms(1) k(1)]) auto
    ultimately show ?thesis by simp (simp add: set_pass_def)
  qed
qed

lemma resize_from_event:
  "page_inv w \<Longrightarrow> \<forall>i \<in> set is. i < length (jsGraphResize w)
     \<Longrightarrow> \<exists>w'. resize_from 1 (page_env env) is w = Inr w' \<and> page_inv w' \<and> registered w' = registered w
           \<and> document w' = document w"
proof (induction "is" arbitrary: w)
  case (Cons i "is")
  then obtain w1 where "resize_one 1 (page_env env) i w = Inr w1" "page_inv w1" "jsGraphResize w1 = jsGraphResize w"
      "document w1 = document w"
    using resize_one_event [of w i env] by auto
  with Cons.IH [of w1] Cons.prems(2) show ?case by (simp add: registered_def)
qed simp

lemma frame_event:
  assumes "page_inv w"
  shows "\<exists>w'. run_frame 1 (page_env env) w = Inr w' \<and> page_inv w' \<and> registered w' = registered w
           \<and> document w' = document w"
proof (cases "frames w")
  case Nil
  with assms show ?thesis by (simp add: run_frame_def)
next
  case (Cons p ps)
  let ?w = "w\<lparr> frames := ps \<rparr>"
  obtain k where k: "firstPass (ctxs w (p_ctx p)) = Some k"
    using page_inv_waiting [OF assms, of p] Cons by auto
  have cfg: "page_config (p_config p)" and tp: "tpchart (ctxs w (p_ctx p)) \<in> range chart_name" "container w \<noteq> None"
    using page_invD(4) [OF assms, of p] page_invD(2,3) [OF assms k] Cons by auto
  have "\<exists>w'. animLoop_call (redrawGraph (Suc 0) (page_env env)) (page_env env) p ?w = Inr w'
      \<and> (waits p ?w w' \<or> drawn (p_ctx p) (p_data p) ?w w')"
    using cfg tp by (intro page.animLoop_call_page) simp_all
  then obtain w' where w': "run_frame 1 (page_env env) w = Inr w'"
      "waits p ?w w' \<or> drawn (p_ctx p) (p_data p) ?w w'"
    using Cons by (auto simp: run_frame_def)
  from w'(2) have "page_inv w'"
  proof
    assume "drawn (p_ctx p) (p_data p) ?w w'"
    with page_inv_but_frame [OF assms Cons] tp(2) show ?thesis
      by (auto intro: page_inv_drawn simp: drawn_def)
  next
    assume wait: "waits p ?w w'"
    then have "loops c w' = loops c w" "entries c w' = entries c w" for c
      using Cons by (auto simp: waits_def loops_def entries_def)
    with wait assms cfg Cons show ?thesis
      by (auto simp: waits_def page_inv_def chart_state_def fun_eq_iff)
  qed
  moreover have "registered w' = registered w"
    using w'(2) by (auto simp: waits_def drawn_def registered_def)
  moreover have "document w' = document w"
    using w'(2) document_waits [of p ?w w'] document_drawn [of _ _ ?w w'] by auto
  ultimately show ?thesis using w'(1) by blast
qed

lemma event_succeeds:
  assumes "page_inv w" "enabled w e"
  shows "\<exists>w'. handle env e w = Inr w' \<and> page_inv w' \<and> registered w' = registered w @ new_charts e
           \<and> document w' = moved e (document w)"
proof (cases e)
  case (Draw ct c data op)
  from draw_event [OF assms(1) assms(2) [unfolded Draw]] show ?thesis unfolding Draw by simp
next
  case (Update c data op an rf)
  from update_event [OF assms(1) assms(2) [unfolded Update], of env] show ?thesis unfolding Update by auto
next
  case Resize
  with assms show ?thesis
    using resize_from_event [of w "[0..<length (jsGraphResize w)]" env] by (simp add: chartJsResize_def)
next
  case Frame
  with assms show ?thesis using frame_event by simp
next
  case (Move c parent)
  with assms(1) show ?thesis
    by (auto simp: page_inv_def loops_def entries_def registered_def document_def fun_eq_iff)
qed

text \<open>Only drawing on a context gives it a chart.\<close>

lemma page_inv_fresh: "page_inv w \<Longrightarrow> firstPass (ctxs w c) = None \<longleftrightarrow> c \<notin> set (registered w)"
  using page_invD(1) [of w c] count_list_0_iff [of "registered w" c]
  by (auto simp: consistent_def entries_registered split: option.splits)

lemma reachable_inv: "reachable w \<Longrightarrow> page_inv w"
proof (induction rule: reachable.induct)
  case (start w)
  then show ?case
    by (simp add: fresh_page_def page_inv_def loops_def entries_def consistent_def)
next
  case (step w e env w')
  then show ?case using event_succeeds [of w e env] by auto
qed

section \<open>Properties\<close>

text \<open>The options of a page, for the witnesses.\<close>

definition small_options :: obj where
  "small_options = [(''responsive'', Bool True), (''animation'', Bool False)]"

lemma small_options_page: "page_options small_options"
  by (simp add: page_options_def small_options_def page_limits_def)

lemma blank_page_fresh: "fresh_page blank_page"
  by (simp add: fresh_page_def blank_page_def blank_ctx_def)

lemma blank_page_draw: "enabled blank_page (Draw Line 0 data small_options)"
  by (simp add: small_options_page) (simp add: blank_page_def blank_ctx_def)

text \<open>A page on which a chart was drawn.\<close>

lemma drawn_page:
  obtains w :: "nat world" where "reachable w" "handle plain_env (Draw Line 0 7 small_options) blank_page = Inr w"
proof -
  have r: "reachable (blank_page :: nat world)" by (rule reachable.start [OF blank_page_fresh])
  obtain w :: "nat world" where w: "handle plain_env (Draw Line 0 7 small_options) blank_page = Inr w"
    using event_succeeds [OF reachable_inv [OF r] blank_page_draw] by metis
  show ?thesis
    by (rule that [OF reachable.step [OF r blank_page_draw w] w])
qed






text \<open>A page whose chart is displayed.\<close>

definition shown_page :: "nat world" where
  "shown_page = blank_page\<lparr> ctxs := (\<lambda>_. blank_ctx)(0 := blank_ctx\<lparr> firstPass := Some 5, tpchart := ''Line'',
       ChartNewId := Some ''Line_1000'' \<rparr>), container := Some 0,
     jsGraphResize := [\<lparr> r_id = Some ''Line_1000'', r_tpchart = ''Line'', r_ctx = 0, r_data = 7, r_config = small_options \<rparr>] \<rparr>"

lemma shown_page_inv: "page_inv shown_page"
proof -
  have "''Line'' \<in> range chart_name" by (rule range_eqI [of _ _ Line]) simp
  then show ?thesis
    using small_options_page
    by (simp add: page_inv_def shown_page_def blank_page_def consistent_def loops_def entries_def) (simp add: blank_ctx_def)
qed


text \<open>
  The id of a context is the type of its chart and the millisecond of its first drawing, so two
  line charts drawn in the same millisecond have the same one.
\<close>

lemma init_ctx_id: "ChartNewId x = None \<Longrightarrow> ChartNewId (init_ctx env config x) = Some (tpchart x @ ''_'' @ getTime env)"
  by (simp add: init_ctx_def Let_def)

text \<open>An update of a displayed chart changes exactly the resize entries of the contexts that have the id
  of this chart: it also replaces the data of every other chart that was first drawn in the same
  millisecond, and a later resize of the window draws that chart with the wrong data.\<close>

theorem update_by_shared_id:
  assumes "page_inv w" "page_options op" "firstPass (ctxs w c) = Some 5"
  shows "\<exists>w'. handle env (Update c data op an rf) w = Inr w' \<and> length (jsGraphResize w') = length (jsGraphResize w)
     \<and> (\<forall>i < length (jsGraphResize w). r_ctx (jsGraphResize w' ! i) = r_ctx (jsGraphResize w ! i)
          \<and> r_data (jsGraphResize w' ! i) =
              (if ChartNewId (ctxs w (r_ctx (jsGraphResize w ! i))) = ChartNewId (ctxs w c) then data
               else r_data (jsGraphResize w ! i)))"
  using update_event [OF assms(1), of c data op an rf env] assms(2,3) by (auto simp: registry_after_def)

text \<open>Two charts drawn in the same millisecond.\<close>

definition twin_page :: "nat world" where
  "twin_page = blank_page\<lparr> ctxs := (\<lambda>_. blank_ctx)
       (0 := blank_ctx\<lparr> firstPass := Some 5, tpchart := ''Line'', ChartNewId := Some ''Line_1000'' \<rparr>,
        1 := blank_ctx\<lparr> firstPass := Some 5, tpchart := ''Line'', ChartNewId := Some ''Line_1000'' \<rparr>),
     container := Some 0,
     jsGraphResize :=
      [\<lparr> r_id = Some ''Line_1000'', r_tpchart = ''Line'', r_ctx = 0, r_data = 7, r_config = small_options \<rparr>,
       \<lparr> r_id = Some ''Line_1000'', r_tpchart = ''Line'', r_ctx = 1, r_data = 8, r_config = small_options \<rparr>] \<rparr>"

lemma twin_page_inv: "page_inv twin_page"
proof -
  have "''Line'' \<in> range chart_name" by (rule range_eqI [of _ _ Line]) simp
  then show ?thesis
    using small_options_page
    by (simp add: page_inv_def twin_page_def blank_page_def consistent_def loops_def entries_def) (simp add: blank_ctx_def)
qed

theorem update_by_shared_id_witness:
  "\<exists>w'. handle plain_env (Update 0 9 small_options False (Bool False)) twin_page = Inr w'
     \<and> r_ctx (jsGraphResize w' ! 1) = 1 \<and> r_data (jsGraphResize w' ! 1) = 9"
proof -
  have "firstPass (ctxs twin_page 0) = Some 5" "length (jsGraphResize twin_page) = 2"
      "r_ctx (jsGraphResize twin_page ! 1) = 1" "ChartNewId (ctxs twin_page 1) = ChartNewId (ctxs twin_page 0)"
    by (simp_all add: twin_page_def)
  with update_by_shared_id [OF twin_page_inv small_options_page, of 0 plain_env 9 False "Bool False"] show ?thesis
    by fastforce
qed

end
