(* ===== verification/InaeticsCommon.thy ===== *)
theory InaeticsCommon
  imports PageMachine
begin

text \<open>
  inaeticsCommon.js: polling of the coordinator, the options and the data of the charts.  A JSON
  response is a value of \<open>jsval\<close>; the data of a chart are the object that \<open>getData\<close> makes.

  \<open>new Date(value).toLocaleTimeString(...)\<close> depends on the locale data of the browser and is the
  argument \<open>locale_time\<close>.
\<close>

section \<open>Reading a JSON response\<close>

text \<open>\<open>v.k\<close>: a property of \<open>undefined\<close> or \<open>null\<close> cannot be read.\<close>

definition jget :: "jsval \<Rightarrow> string \<Rightarrow> js_error + jsval" where
  "jget v k =
     (case v of
        Obj ob \<Rightarrow> Inr (oget ob k)
      | Undef \<Rightarrow> Inl TypeError
      | Null \<Rightarrow> Inl TypeError
      | _ \<Rightarrow> Inr Undef)"

text \<open>\<open>v.length\<close> and \<open>v[i]\<close> for an index of one digit.\<close>

definition jlength :: "jsval \<Rightarrow> js_error + jsval" where
  "jlength v =
     (case v of
        Arr vs \<Rightarrow> Inr (NumF (of_nat (length vs)))
      | Str s \<Rightarrow> Inr (NumF (of_nat (length s)))
      | _ \<Rightarrow> jget v ''length'')"

definition jindex :: "jsval \<Rightarrow> nat \<Rightarrow> js_error + jsval" where
  "jindex v i =
     (case v of
        Arr vs \<Rightarrow> Inr (aget vs i)
      | Str s \<Rightarrow> Inr (if i < length s then Str [s ! i] else Undef)
      | _ \<Rightarrow> jget v [char_of (48 + i)])"

text \<open>
  The elements a loop over \<open>0 .. v.length - 1\<close> visits.  An object that has a property \<open>length\<close> of its
  own is not a response of the server and has no elements here.
\<close>

definition elements :: "jsval \<Rightarrow> js_error + jsval list" where
  "elements v =
     (case v of
        Arr vs \<Rightarrow> Inr vs
      | Str s \<Rightarrow> Inr (map (\<lambda>c. Str [c]) s)
      | Undef \<Rightarrow> Inl TypeError
      | Null \<Rightarrow> Inl TypeError
      | _ \<Rightarrow> Inr [])"

section \<open>inaeticsCommon.js\<close>

definition chartWidth :: real where
  "chartWidth = 450"

definition chartHeight :: real where
  "chartHeight = 350"

definition fmtChartJSPerso :: "(jsval \<Rightarrow> string) \<Rightarrow> obj \<Rightarrow> jsval \<Rightarrow> jsval \<Rightarrow> jsval" where
  "fmtChartJSPerso locale_time config value fmt =
     (if loose_eq fmt (Str ''DateTime'') then Str (locale_time value) else value)"

definition getChartOpts :: "obj \<Rightarrow> obj" where
  "getChartOpts stats =
     (let opts = obj_literal
            [(''canvasBorders'', Bool False), (''inGraphDataShow'', Bool False), (''responsive'', Bool True),
             (''animation'', Bool False), (''responsiveMinWidth'', NumF chartWidth),
             (''responsiveMaxWidth'', NumF chartWidth), (''responsiveMinHeight'', NumF chartHeight),
             (''responsiveMaxHeight'', NumF chartHeight), (''graphTitleFontSize'', NumF 16),
             (''pointDot'', Bool False), (''bezierCurve'', Bool False), (''rotateLabels'', NumF 60),
             (''datasetFill'', Bool True), (''yAxisUnitFontSize'', NumF 14),
             (''yAxisLabel'', oget stats ''type''), (''yAxisUnit'', oget stats ''unit''),
             (''fmtXLabel'', Str ''DateTime''), (''graphTitle'', oget stats ''displayName'')]
      in if loose_eq (oget stats ''type'') (Str ''utilization'')
         then oset ''scaleStepWidth'' (NumF 10) (oset ''scaleSteps'' (NumF 10)
                (oset ''scaleStartValue'' (NumF 0) (oset ''scaleOverride'' (Bool True) opts)))
         else opts)"

text \<open>\<open>stats.timestamps || [0]\<close> and \<open>stats.values && stats.values.length > 0 ? stats.values : [0]\<close>.\<close>

definition has_elements :: "jsval \<Rightarrow> bool" where
  "has_elements v = (to_bool v \<and> (case jlength v of Inr n \<Rightarrow> to_number n > 0 | Inl _ \<Rightarrow> False))"

definition getData :: "obj \<Rightarrow> obj" where
  "getData stats =
     (let timestamps = oget stats ''timestamps''; vals = oget stats ''values''
      in obj_literal
           [(''labels'', if to_bool timestamps then timestamps else Arr [NumF 0]),
            (''datasets'', Arr [Obj (obj_literal
               [(''fillColor'', Str ''rgba(151,187,205,0.5)''), (''strokeColor'', Str ''rgba(151,187,205,1)''),
                (''data'', if has_elements vals then vals else Arr [NumF 0])])])])"

definition to_upper :: "char \<Rightarrow> char" where
  "to_upper c = (let n = (of_char c :: nat) in if 97 \<le> n \<and> n \<le> 122 then char_of (n - 32) else c)"

text \<open>On letters of ASCII.\<close>

definition capitalizeFirstLetter :: "string \<Rightarrow> string" where
  "capitalizeFirstLetter s = (case s of [] \<Rightarrow> [] | c # r \<Rightarrow> to_upper c # r)"

text \<open>
  One answer to the request of \<open>getJSON\<close>: a response with its status, or a failure for which no
  handler is installed.  The callback returns the state it leaves and the exception it raises, if
  any.  The result is that state, the exception and whether a timer for the next request is set,
  which \<open>finally\<close> does also when the callback raises.
\<close>

datatype answer = Loaded nat jsval | Failed

type_synonym 's callback = "'s \<Rightarrow> jsval \<Rightarrow> 's \<times> js_error option"

definition getJSON :: "'s callback \<Rightarrow> jsnum \<Rightarrow> 's \<Rightarrow> answer \<Rightarrow> 's \<times> js_error option \<times> bool" where
  "getJSON callback ival s ans =
     (case ans of
        Failed \<Rightarrow> (s, None, False)
      | Loaded status response \<Rightarrow>
          (let (s', e) = (if status \<noteq> 200 then (s, None) else callback s response)
           in (s', e, ival > 0)))"

text \<open>The requests of one poll, each sent when the timer of the one before runs out; their number.\<close>

fun poll :: "'s callback \<Rightarrow> jsnum \<Rightarrow> 's \<Rightarrow> answer list \<Rightarrow> 's \<times> nat" where
  "poll callback ival s [] = (s, 0)"
| "poll callback ival s (a # as) =
     (let (s', e, timer) = getJSON callback ival s a
      in if timer then map_prod id Suc (poll callback ival s' as) else (s', 1))"

text \<open>\<open>postJSON\<close>: the requests a page has sent.\<close>

definition postJSON :: "string \<Rightarrow> string \<Rightarrow> (string \<times> string) list \<Rightarrow> (string \<times> string) list" where
  "postJSON url data sent = sent @ [(url, data)]"

text \<open>
  The statistic is an object: reading \<open>stats.timestamps\<close> of \<open>undefined\<close> raises, and any other value
  has none of the properties the scripts read.
\<close>

definition as_object :: "jsval \<Rightarrow> js_error + obj" where
  "as_object v = (case v of Obj ob \<Rightarrow> Inr ob | Undef \<Rightarrow> Inl TypeError | Null \<Rightarrow> Inl TypeError | _ \<Rightarrow> Inr [])"

text \<open>\<open>new Chart(ctx).Line(data, opts)\<close> and \<open>updateChart(ctx, data, opts, false, false)\<close>.\<close>

definition draw_line :: "obj env \<Rightarrow> nat \<Rightarrow> obj \<Rightarrow> obj \<Rightarrow> obj world \<Rightarrow> obj result" where
  "draw_line env c data opts w = handle env (Draw Line c data opts) w"

definition update_line :: "obj env \<Rightarrow> nat \<Rightarrow> obj \<Rightarrow> obj \<Rightarrow> obj world \<Rightarrow> obj result" where
  "update_line env c data opts w = handle env (Update c data opts False (Bool False)) w"

section \<open>The options of the charts\<close>

lemma oget_getChartOpts:
  "oget (getChartOpts st) ''responsive'' = Bool True"
  "oget (getChartOpts st) ''animation'' = Bool False"
  "oget (getChartOpts st) ''responsiveMinWidth'' = NumF (of_nat 450)"
  "oget (getChartOpts st) ''responsiveMaxWidth'' = NumF (of_nat 450)"
  "oget (getChartOpts st) ''responsiveMinHeight'' = NumF (of_nat 350)"
  "oget (getChartOpts st) ''responsiveMaxHeight'' = NumF (of_nat 350)"
  "oget (getChartOpts st) ''maintainAspectRatio'' = Undef"
  "oget (getChartOpts st) ''graphTitle'' = oget st ''displayName''"
  by (simp_all add: getChartOpts_def Let_def oget_obj_literal chartWidth_def chartHeight_def)

lemma wf_getChartOpts: "wf_obj (getChartOpts st)"
  by (simp add: getChartOpts_def Let_def)

lemma getChartOpts_limits: "k \<in> fst ` set page_limits \<Longrightarrow> k \<notin> fst ` set (getChartOpts st)"
  by (auto simp: page_limits_def getChartOpts_def Let_def keys_oset keys_obj_literal split: if_splits)

lemma getChartOpts_page: "page_options (getChartOpts st)"
proof (rule page_optionsI)
  fix k P assume "(k, P) \<in> set page_limits" "k \<in> fst ` set (getChartOpts st)"
  with getChartOpts_limits [of k st] show "P (oget (getChartOpts st) k)" by force
qed (simp_all add: wf_getChartOpts oget_getChartOpts)

lemma animated_opts_page: "page_options (oset ''animation'' (Bool True) (getChartOpts st))"
  by (rule page_options_oset [OF getChartOpts_page]) (simp_all add: page_limits_def)

lemma config_opts:
  assumes "wf_obj op"
  shows "oget (chart_config ct no_personal_options (Some op)) k =
     (if k \<in> fst ` set op then oget op k else oget (chart_config ct no_personal_options None) k)"
proof -
  have "wf_obj (chart_config ct no_personal_options None)"
    by (rule wf_chart_config [OF wf_no_personal]) simp
  moreover have "chart_config ct no_personal_options (Some op)
      = mergeChartConfig (chart_config ct no_personal_options None) op"
    by (simp add: chart_config_eq with_options_def)
  ultimately show ?thesis using cfg.get_merge [OF _ assms] by simp
qed

section \<open>Drawing and updating a line chart\<close>

text \<open>
  The contract between the charts and the scripts of the pages: on a page that satisfies the
  invariant, drawing on a fresh canvas of the document and updating succeed, keep the invariant
  and leave the canvases where they are.
\<close>

locale line_charts =
  fixes draw update :: "obj env \<Rightarrow> nat \<Rightarrow> obj \<Rightarrow> obj \<Rightarrow> 'w \<Rightarrow> js_error + 'w"
    and inv :: "'w \<Rightarrow> bool" and charts :: "'w \<Rightarrow> nat list" and doc :: "'w \<Rightarrow> nat \<Rightarrow> nat option"
  assumes draw_ok:
    "inv w \<Longrightarrow> c \<notin> set (charts w) \<Longrightarrow> doc w c \<noteq> None \<Longrightarrow> page_options op
       \<Longrightarrow> \<exists>w'. draw env c data op w = Inr w' \<and> inv w' \<and> charts w' = charts w @ [c] \<and> doc w' = doc w"
    and update_ok:
    "inv w \<Longrightarrow> page_options op
       \<Longrightarrow> \<exists>w'. update env c data op w = Inr w' \<and> inv w' \<and> charts w' = charts w \<and> doc w' = doc w"
begin

text \<open>Both pages draw a chart the first time and update it later.\<close>

lemma show_statistic:
  assumes "inv w" "\<not> old \<Longrightarrow> c \<notin> set (charts w) \<and> doc w c \<noteq> None"
  obtains w' where
    "(if old then update env c (getData st) (getChartOpts st) w else draw env c (getData st) (getChartOpts st) w) = Inr w'"
    "inv w'" "charts w' = charts w @ (if old then [] else [c])" "doc w' = doc w"
proof (cases old)
  case True
  with update_ok [OF assms(1) getChartOpts_page, of env c "getData st" st] that show ?thesis by auto
next
  case False
  with draw_ok [OF assms(1) _ _ getChartOpts_page, of c env "getData st" st] assms(2) that show ?thesis by auto
qed

text \<open>The statistics page animates the first drawing.\<close>

lemma show_animated:
  assumes "inv w" "c \<notin> set (charts w)" "doc w c \<noteq> None"
  obtains w' where
    "draw env c (getData st) (oset ''animation'' (Bool True) (getChartOpts st)) w = Inr w'"
    "inv w'" "charts w' = charts w @ [c]" "doc w' = doc w"
  using draw_ok [OF assms animated_opts_page, of env "getData st" st] that by auto

end

interpretation lines: line_charts draw_line update_line page_inv registered document
proof
  fix w :: "obj world" and c op env data
  assume "page_inv w" "c \<notin> set (registered w)" "document w c \<noteq> None" "page_options op"
  then show "\<exists>w'. draw_line env c data op w = Inr w' \<and> page_inv w' \<and> registered w' = registered w @ [c]
      \<and> document w' = document w"
    using draw_event [of w Line c data op env] page_inv_fresh [of w c]
    by (simp add: draw_line_def document_def del: handle.simps)
next
  fix w :: "obj world" and c op env data
  assume "page_inv w" "page_options op"
  then show "\<exists>w'. update_line env c data op w = Inr w' \<and> page_inv w' \<and> registered w' = registered w
      \<and> document w' = document w"
    using update_event [of w c data op False "Bool False" env]
    by (auto simp: update_line_def simp del: handle.simps)
qed

section \<open>Polling\<close>

text \<open>What a poll has done after the answers \<open>as\<close>: every response of status 200 went to the callback.\<close>

definition delivered :: "'s callback \<Rightarrow> 's \<Rightarrow> answer list \<Rightarrow> 's" where
  "delivered callback s as =
     foldl (\<lambda>s a. case a of Loaded status response \<Rightarrow> if status = 200 then fst (callback s response) else s
                          | Failed \<Rightarrow> s) s as"

text \<open>C27: As long as the server answers, polling goes on: every answer is asked for and every response of
  status 200 reaches the callback, even when the callback raises an exception; the first request
  that fails without an answer is the last one.\<close>

theorem polling_until_failure:
  assumes "0 < ival"
  shows "poll callback ival s as =
     (delivered callback s (takeWhile (\<lambda>a. a \<noteq> Failed) as),
      min (length as) (Suc (length (takeWhile (\<lambda>a. a \<noteq> Failed) as))))"
proof (induction "as" arbitrary: s)
  case (Cons a "as")
  show ?case
  proof (cases a)
    case (Loaded status response)
    with assms Cons.IH show ?thesis
      by (simp add: getJSON_def delivered_def split: prod.splits)
  qed (simp add: getJSON_def delivered_def)
qed (simp add: delivered_def)

text \<open>A callback that counts the responses and always raises.\<close>

definition faulty_callback :: "nat callback" where
  "faulty_callback n response = (Suc n, Some TypeError)"

theorem polling_until_failure_witness:
  "poll faulty_callback 1000 0 [Loaded 200 Null, Loaded 500 Null, Loaded 200 Null, Failed, Loaded 200 Null] = (2, 4)"
  using polling_until_failure [of 1000 faulty_callback 0 "[Loaded 200 Null, Loaded 500 Null, Loaded 200 Null, Failed, Loaded 200 Null]"]
  by (simp add: delivered_def faulty_callback_def)

end
