(* ===== verification/DashboardPage.thy ===== *)
theory DashboardPage
  imports InaeticsCommon
begin

text \<open>
  inaeticsDashboard.js: two utilisation charts, the system statistics with the slider, the
  cluster table.  The document is the part of it that the scripts touch: the canvases by id with
  their attribute \<open>hasData\<close>, the rows of the tables, the values given to the input fields, the
  requests that were posted.  An exception leaves only its kind.
\<close>

section \<open>The charts of the dashboard\<close>

record page =
  world_of :: "obj world"
  canvas :: "string \<Rightarrow> nat option"
  hasData :: "string set"

definition renderGraph :: "obj env \<Rightarrow> string \<Rightarrow> jsval \<Rightarrow> page \<Rightarrow> js_error + page" where
  "renderGraph env canvasId stats p =
     and_then (as_object stats) (\<lambda>st.
       (let data = getData st; opts = getChartOpts st
        in case canvas p canvasId of
             None \<Rightarrow> Inl TypeError
           | Some c \<Rightarrow>
               if canvasId \<in> hasData p
               then and_then (update_line env c data opts (world_of p)) (\<lambda>w. Inr (p\<lparr> world_of := w \<rparr>))
               else and_then (draw_line env c data opts (world_of p))
                      (\<lambda>w. Inr (p\<lparr> world_of := w, hasData := insert canvasId (hasData p) \<rparr>))))"

text \<open>The two charts, each drawn at a time of its own (\<open>envs\<close>).\<close>

definition renderUtilisationGraph :: "(nat \<Rightarrow> obj env) \<Rightarrow> jsval \<Rightarrow> page \<Rightarrow> js_error + page" where
  "renderUtilisationGraph envs stats p =
     (if \<not> to_bool stats then Inr p
      else
        and_then (jindex stats 0) (\<lambda>s0. and_then (jget s0 ''name'') (\<lambda>name.
          (let queueIdx = (if loose_eq name (Str ''queue'') then 0 else 1)
           in and_then (jindex stats queueIdx) (\<lambda>sq. and_then (renderGraph (envs 0) ''queue-utilisation'' sq p) (\<lambda>p1.
              and_then (jindex stats (1 - queueIdx)) (\<lambda>sd. renderGraph (envs 1) ''datastore-utilisation'' sd p1)))))))"

section \<open>The tables of the dashboard\<close>

record tables =
  sysStats :: "(string \<times> string) list"
  slider :: jsval
  sliderVal :: jsval
  clusterInfo :: "string list list"
  clusterText :: string
  utilisation :: string
  posts :: "(string \<times> string) list"

definition renderUtilisation :: "(jsnum \<Rightarrow> string) \<Rightarrow> jsval \<Rightarrow> tables \<Rightarrow> js_error + tables" where
  "renderUtilisation ns u t =
     and_then (jget u ''name'') (\<lambda>name. and_then (jget u ''value'') (\<lambda>value. and_then (jget u ''unit'') (\<lambda>unit.
       Inr (t\<lparr> utilisation := to_string ns name @ '' = '' @ to_string ns value @ '' '' @ to_string ns unit \<rparr>))))"

text \<open>\<open>textContent = v\<close>: \<open>null\<close> and \<open>undefined\<close> leave the element empty.\<close>

definition text_content :: "(jsnum \<Rightarrow> string) \<Rightarrow> jsval \<Rightarrow> string" where
  "text_content ns v = (if v = Null \<or> v = Undef then [] else to_string ns v)"

text \<open>\<open>tbody.insertRow(0)\<close> puts the row first, \<open>tbody.appendChild(tr)\<close> moves it to the end.\<close>

definition systemRow :: "(jsnum \<Rightarrow> string) \<Rightarrow> string \<times> jsval \<Rightarrow> tables \<Rightarrow> tables" where
  "systemRow ns kv t =
     (let t1 = (if fst kv = ''productionRate'' then t\<lparr> sliderVal := snd kv, slider := snd kv \<rparr> else t);
          row = (capitalizeFirstLetter (fst kv), text_content ns (snd kv));
          inserted = row # sysStats t1
      in t1\<lparr> sysStats := tl inserted @ [hd inserted] \<rparr>)"

definition renderSystemStats :: "(jsnum \<Rightarrow> string) \<Rightarrow> obj \<Rightarrow> tables \<Rightarrow> tables" where
  "renderSystemStats ns stats t = fold (systemRow ns) stats (t\<lparr> sysStats := [] \<rparr>)"

definition nbsp :: char where
  "nbsp = char_of (160 :: nat)"

text \<open>
  \<open>name.substring(0, name.indexOf('.'))\<close>, with \<open>-1\<close> when there is no dot; \<open>parseInt\<close> reads
  the number as it is printed.
\<close>

definition containerRow :: "(jsnum \<Rightarrow> string) \<Rightarrow> jsval \<Rightarrow> js_error + string list" where
  "containerRow ns cont =
     and_then (jget cont ''name'') (\<lambda>name.
       case name of
         Str s \<Rightarrow>
           and_then (jget cont ''cpuUsage'') (\<lambda>cpu. and_then (jget cont ''usedMem'') (\<lambda>mem.
             Inr [replicate 5 nbsp @ str_substring s 0 (case index_of ''.'' s of Some i \<Rightarrow> int i | None \<Rightarrow> - 1),
                  text_content ns cpu,
                  ns (parse_int_str (ns (to_number mem / Fin 1000000))) @ ''MB'']))
       | _ \<Rightarrow> Inl TypeError)"

fun rows_of :: "('a \<Rightarrow> js_error + 'b list) \<Rightarrow> 'a list \<Rightarrow> js_error + 'b list" where
  "rows_of f [] = Inr []"
| "rows_of f (x # xs) = and_then (f x) (\<lambda>r. and_then (rows_of f xs) (\<lambda>rs. Inr (r @ rs)))"

definition hostRows :: "(jsnum \<Rightarrow> string) \<Rightarrow> jsval \<Rightarrow> js_error + string list list" where
  "hostRows ns host =
     and_then (jget host ''ipAddress'') (\<lambda>ip. and_then (jget host ''containerList'') (\<lambda>cl. and_then (elements cl) (\<lambda>cs.
       and_then (rows_of (\<lambda>c. and_then (containerRow ns c) (\<lambda>r. Inr [r])) cs) (\<lambda>rows.
         Inr ([[text_content ns ip]] @ rows @ [[[nbsp]]])))))"

definition renderClusterInfo :: "(jsnum \<Rightarrow> string) \<Rightarrow> jsval \<Rightarrow> tables \<Rightarrow> js_error + tables" where
  "renderClusterInfo ns stats t =
     (let t0 = t\<lparr> clusterInfo := [], clusterText := [] \<rparr>
      in and_then (jlength stats) (\<lambda>len.
           if len = NumF 0 then Inr (t0\<lparr> clusterText := ''no info available'' \<rparr>)
           else and_then (elements stats) (\<lambda>hosts. and_then (rows_of (hostRows ns) hosts) (\<lambda>rows.
             Inr (t0\<lparr> clusterInfo := [''Name'', ''CPU'', ''Memory''] # rows \<rparr>)))))"

definition postAndUpdateUtilisation :: "(jsnum \<Rightarrow> string) \<Rightarrow> jsval \<Rightarrow> tables \<Rightarrow> tables" where
  "postAndUpdateUtilisation ns val t =
     t\<lparr> sliderVal := val, posts := postJSON ''/coordinator/utilisation'' (''value='' @ to_string ns val) (posts t) \<rparr>"

definition scaleProducer :: "(jsnum \<Rightarrow> string) \<Rightarrow> jsval \<Rightarrow> tables \<Rightarrow> tables" where
  "scaleProducer ns val t =
     t\<lparr> posts := postJSON ''/coordinator/scaleProducer'' (''value='' @ to_string ns val) (posts t) \<rparr>"

section \<open>The charts\<close>

text \<open>The canvases of the page are in the document, and those marked with \<open>hasData\<close> have a chart.\<close>

definition dash_inv :: "page \<Rightarrow> bool" where
  "dash_inv p =
     (page_inv (world_of p)
      \<and> (\<forall>id c. canvas p id = Some c \<longrightarrow>
           document (world_of p) c \<noteq> None \<and> (c \<in> set (registered (world_of p)) \<longleftrightarrow> id \<in> hasData p))
      \<and> (\<forall>i j c. canvas p i = Some c \<longrightarrow> canvas p j = Some c \<longrightarrow> i = j))"

lemma renderGraph_ok:
  assumes "dash_inv p" "canvas p canvasId = Some c"
  obtains p' where "renderGraph env canvasId (Obj st) p = Inr p'" "dash_inv p'" "canvas p' = canvas p"
    "hasData p' = insert canvasId (hasData p)"
proof -
  let ?old = "canvasId \<in> hasData p" and ?w = "world_of p"
  have "page_inv ?w" "\<not> ?old \<Longrightarrow> c \<notin> set (registered ?w) \<and> document ?w c \<noteq> None"
    using assms by (auto simp: dash_inv_def)
  then obtain w where w: "(if ?old then update_line env c (getData st) (getChartOpts st) ?w
        else draw_line env c (getData st) (getChartOpts st) ?w) = Inr w"
      "page_inv w" "registered w = registered ?w @ (if ?old then [] else [c])" "document w = document ?w"
    by (rule lines.show_statistic)
  define p' where "p' = p\<lparr> world_of := w, hasData := insert canvasId (hasData p) \<rparr>"
  have "dash_inv p'"
    using assms w(2-4) unfolding p'_def dash_inv_def by (auto split: if_splits)
  moreover have "renderGraph env canvasId (Obj st) p = Inr p'"
    using w(1) assms(2) by (cases ?old) (simp_all add: renderGraph_def as_object_def p'_def insert_absorb)
  ultimately show ?thesis using that [of p'] by (simp add: p'_def)
qed

text \<open>The page has the two canvases from the start; answers arrive, the window is resized, frames are played.\<close>

definition dash_start :: "page \<Rightarrow> bool" where
  "dash_start p =
     (fresh_page (world_of p) \<and> hasData p = {}
      \<and> (\<exists>a b. a \<noteq> b \<and> canvas p = [''queue-utilisation'' \<mapsto> a, ''datastore-utilisation'' \<mapsto> b]
           \<and> document (world_of p) a \<noteq> None \<and> document (world_of p) b \<noteq> None))"

inductive dash_reachable :: "page \<Rightarrow> bool" where
  start: "dash_start p \<Longrightarrow> dash_reachable p"
| answer: "dash_reachable p \<Longrightarrow> renderUtilisationGraph envs (Arr (Obj s0 # Obj s1 # rest)) p = Inr p' \<Longrightarrow> dash_reachable p'"
| browser: "dash_reachable p \<Longrightarrow> e = Resize \<or> e = Frame \<Longrightarrow> handle env e (world_of p) = Inr w
     \<Longrightarrow> dash_reachable (p\<lparr> world_of := w \<rparr>)"

definition both_canvases :: "page \<Rightarrow> bool" where
  "both_canvases p = (canvas p ''queue-utilisation'' \<noteq> None \<and> canvas p ''datastore-utilisation'' \<noteq> None)"

lemma renderUtilisationGraph_ok:
  assumes "dash_inv p" "both_canvases p"
  obtains p' where "renderUtilisationGraph envs (Arr (Obj s0 # Obj s1 # rest)) p = Inr p'" "dash_inv p'" "both_canvases p'"
    "hasData p' = {''queue-utilisation'', ''datastore-utilisation''} \<union> hasData p"
proof -
  from assms(2) obtain a b where ab: "canvas p ''queue-utilisation'' = Some a" "canvas p ''datastore-utilisation'' = Some b"
    by (auto simp: both_canvases_def)
  define q d where "q = (if loose_eq (oget s0 ''name'') (Str ''queue'') then s0 else s1)"
    and "d = (if loose_eq (oget s0 ''name'') (Str ''queue'') then s1 else s0)"
  obtain p1 where p1: "renderGraph (envs 0) ''queue-utilisation'' (Obj q) p = Inr p1" "dash_inv p1" "canvas p1 = canvas p"
      "hasData p1 = insert ''queue-utilisation'' (hasData p)"
    by (rule renderGraph_ok [OF assms(1) ab(1)])
  from p1(3) ab(2) have "canvas p1 ''datastore-utilisation'' = Some b" by simp
  with p1(2) obtain p2 where p2: "renderGraph (envs 1) ''datastore-utilisation'' (Obj d) p1 = Inr p2" "dash_inv p2"
      "canvas p2 = canvas p1" "hasData p2 = insert ''datastore-utilisation'' (hasData p1)"
    by (rule renderGraph_ok)
  have "renderUtilisationGraph envs (Arr (Obj s0 # Obj s1 # rest)) p = Inr p2"
    using p1(1) p2(1)
    by (cases "loose_eq (oget s0 ''name'') (Str ''queue'')")
      (simp_all add: renderUtilisationGraph_def jindex_def jget_def aget_def Let_def q_def d_def)
  with that p1 p2 assms(2) show ?thesis by (auto simp: both_canvases_def)
qed

lemma dash_reachable_inv:
  assumes "dash_reachable p"
  shows "dash_inv p \<and> both_canvases p"
  using assms
proof (induction rule: dash_reachable.induct)
  case (start p)
  then have "page_inv (world_of p)"
    by (auto simp: dash_start_def intro: reachable_inv reachable.start)
  moreover from start obtain a b where "a \<noteq> b" "canvas p = [''queue-utilisation'' \<mapsto> a, ''datastore-utilisation'' \<mapsto> b]"
      "document (world_of p) a \<noteq> None" "document (world_of p) b \<noteq> None" "hasData p = {}" "registered (world_of p) = []"
    by (auto simp: dash_start_def fresh_page_def registered_def)
  ultimately show ?case
    unfolding dash_inv_def both_canvases_def by (auto split: if_splits)
next
  case (answer p envs s0 s1 rest p')
  obtain q where "renderUtilisationGraph envs (Arr (Obj s0 # Obj s1 # rest)) p = Inr q" "dash_inv q" "both_canvases q"
    by (rule renderUtilisationGraph_ok [OF conjunct1 [OF answer.IH] conjunct2 [OF answer.IH]])
  with answer.hyps(2) show ?case by simp
next
  case (browser p e env w)
  have "enabled (world_of p) e" "new_charts e = []" "moved e (document (world_of p)) = document (world_of p)"
    using browser.hyps(2) by auto
  moreover have "page_inv (world_of p)" using browser.IH by (simp add: dash_inv_def)
  ultimately obtain w' where "handle env e (world_of p) = Inr w'" "page_inv w'" "registered w' = registered (world_of p)"
      "document w' = document (world_of p)"
    using event_succeeds [of "world_of p" e env] by (metis append_Nil2)
  with browser.hyps(3) have "page_inv w" "registered w = registered (world_of p)" "document w = document (world_of p)"
    by simp_all
  with browser.IH show ?case by (simp add: dash_inv_def both_canvases_def)
qed


definition first_dash :: page where
  "first_dash = \<lparr> world_of = blank_page, canvas = [''queue-utilisation'' \<mapsto> 0, ''datastore-utilisation'' \<mapsto> 1], hasData = {} \<rparr>"

lemma first_dash_reachable: "dash_reachable first_dash"
proof (rule dash_reachable.start)
  have "document (blank_page :: obj world) c \<noteq> None" for c
    by (simp add: document_def blank_page_def blank_ctx_def)
  then show "dash_start first_dash"
    unfolding dash_start_def first_dash_def using blank_page_fresh
    by (intro conjI exI [of _ "0 :: nat"] exI [of _ "1 :: nat"]) simp_all
qed


text \<open>The order in which the server reports the two statistics does not matter: the one named
  \<open>queue\<close> is drawn on the canvas of the queue in both cases.\<close>

theorem utilisation_order_irrelevant:
  assumes "oget q ''name'' = Str ''queue''" "\<not> loose_eq (oget d ''name'') (Str ''queue'')"
  shows "renderUtilisationGraph envs (Arr [Obj q, Obj d]) p = renderUtilisationGraph envs (Arr [Obj d, Obj q]) p"
  using assms by (simp add: renderUtilisationGraph_def jindex_def jget_def aget_def)

theorem utilisation_order_irrelevant_witness:
  "renderUtilisationGraph (\<lambda>_. plain_env) (Arr [Obj [(''name'', Str ''queue'')], Obj [(''name'', Str ''data-store'')]]) first_dash
   = renderUtilisationGraph (\<lambda>_. plain_env) (Arr [Obj [(''name'', Str ''data-store'')], Obj [(''name'', Str ''queue'')]]) first_dash"
  by (rule utilisation_order_irrelevant) simp_all

text \<open>C37: When the server reports fewer than two statistics the callback raises a \<open>TypeError\<close>.\<close>

theorem utilisation_needs_two:
  assumes "dash_reachable p" "length sts < 2"
  shows "renderUtilisationGraph envs (Arr (map Obj sts)) p = Inl TypeError"
proof (cases sts)
  case Nil
  then show ?thesis by (simp add: renderUtilisationGraph_def jindex_def jget_def)
next
  case (Cons st rest)
  with assms(2) have sts: "sts = [st]" by simp
  from dash_reachable_inv [OF assms(1)] obtain a where "dash_inv p" "canvas p ''queue-utilisation'' = Some a"
    by (auto simp: both_canvases_def)
  then obtain p1 where "renderGraph (envs 0) ''queue-utilisation'' (Obj st) p = Inr p1"
    by (rule renderGraph_ok)
  moreover have "renderGraph env cid Undef q = Inl TypeError" for env cid q
    by (simp add: renderGraph_def as_object_def)
  ultimately show ?thesis
    by (simp add: sts renderUtilisationGraph_def jindex_def jget_def aget_def Let_def)
qed

theorem utilisation_needs_two_witness:
  "renderUtilisationGraph (\<lambda>_. plain_env) (Arr [Obj [(''name'', Str ''queue'')]]) first_dash = Inl TypeError"
  using utilisation_needs_two [OF first_dash_reachable, of "[[(''name'', Str ''queue'')]]" "\<lambda>_. plain_env"] by simp

section \<open>The tables\<close>

lemma systemRow_effect:
  "sysStats (systemRow ns kv t) = sysStats t @ [(capitalizeFirstLetter (fst kv), text_content ns (snd kv))]"
  "slider (systemRow ns kv t) = (if fst kv = ''productionRate'' then snd kv else slider t)"
  "sliderVal (systemRow ns kv t) = (if fst kv = ''productionRate'' then snd kv else sliderVal t)"
  by (simp_all add: systemRow_def Let_def)

lemma fold_systemRow:
  "sysStats (fold (systemRow ns) stats t) = sysStats t @ map (\<lambda>(k, v). (capitalizeFirstLetter k, text_content ns v)) stats"
  "slider (fold (systemRow ns) stats t) = find_last (slider t) ''productionRate'' stats"
  "sliderVal (fold (systemRow ns) stats t) = find_last (sliderVal t) ''productionRate'' stats"
  by (induction stats arbitrary: t) (auto simp: systemRow_effect)

text \<open>The table of the system statistics has one row per property of the response, in its order and
  whatever the table showed before, and the slider follows the production rate when the
  response has one.\<close>

theorem system_table_rows:
  assumes "wf_obj stats"
  shows "sysStats (renderSystemStats ns stats t) = map (\<lambda>(k, v). (capitalizeFirstLetter k, text_content ns v)) stats
     \<and> slider (renderSystemStats ns stats t)
       = (if ''productionRate'' \<in> fst ` set stats then oget stats ''productionRate'' else slider t)
     \<and> sliderVal (renderSystemStats ns stats t)
       = (if ''productionRate'' \<in> fst ` set stats then oget stats ''productionRate'' else sliderVal t)"
  using assms by (simp add: renderSystemStats_def fold_systemRow find_last_wf)

definition empty_tables :: tables where
  "empty_tables = \<lparr> sysStats = [(''Old'', ''1'')], slider = Undef, sliderVal = Undef, clusterInfo = [], clusterText = [],
     utilisation = [], posts = [] \<rparr>"

theorem system_table_rows_witness:
  "sysStats (renderSystemStats (\<lambda>_. ''5'') [(''queue'', Str ''ok''), (''productionRate'', NumF 5)] empty_tables)
     = [(''Queue'', ''ok''), (''ProductionRate'', ''5'')]"
  using system_table_rows [of "[(''queue'', Str ''ok''), (''productionRate'', NumF 5)]" "\<lambda>_. ''5''" empty_tables]
  by (simp add: capitalizeFirstLetter_def to_upper_def text_content_def char_of_def bit_0)

text \<open>
  The response of the cluster as data: the hosts with their address and their containers (name,
  processor usage, used memory); and the rows it should give.
\<close>

definition container_json :: "string \<times> jsval \<times> jsval \<Rightarrow> jsval" where
  "container_json c = Obj [(''name'', Str (fst c)), (''cpuUsage'', fst (snd c)), (''usedMem'', snd (snd c))]"

definition host_json :: "jsval \<times> (string \<times> jsval \<times> jsval) list \<Rightarrow> jsval" where
  "host_json h = Obj [(''ipAddress'', fst h), (''containerList'', Arr (map container_json (snd h)))]"

text \<open>The part of a container name before its first dot; nothing when there is no dot.\<close>

definition short_name :: "string \<Rightarrow> string" where
  "short_name s = (if CHR ''.'' \<in> set s then takeWhile (\<lambda>c. c \<noteq> CHR ''.'') s else [])"

definition megabytes :: "(jsnum \<Rightarrow> string) \<Rightarrow> jsval \<Rightarrow> string" where
  "megabytes ns mem = ns (parse_int_str (ns (to_number mem / Fin 1000000))) @ ''MB''"

definition host_table :: "(jsnum \<Rightarrow> string) \<Rightarrow> jsval \<times> (string \<times> jsval \<times> jsval) list \<Rightarrow> string list list" where
  "host_table ns h =
     [text_content ns (fst h)]
     # map (\<lambda>(name, cpu, mem). [replicate 5 nbsp @ short_name name, text_content ns cpu, megabytes ns mem]) (snd h)
     @ [[[nbsp]]]"

lemma substring_to_dot:
  "str_substring s 0 (case index_of ''.'' s of Some i \<Rightarrow> int i | None \<Rightarrow> - 1) = short_name s"
proof (cases "CHR ''.'' \<in> set s")
  case True
  let ?n = "length (takeWhile (\<lambda>c. c \<noteq> CHR ''.'') s)"
  have "?n \<le> length s" by (rule length_takeWhile_le)
  then have "take ?n s = takeWhile (\<lambda>c. c \<noteq> CHR ''.'') s" by (metis takeWhile_eq_take)
  with True \<open>?n \<le> length s\<close> show ?thesis
    by (simp add: index_of_char_dropWhile str_substring_def Let_def short_name_def)
next
  case False
  then show ?thesis
    by (simp add: index_of_char_dropWhile str_substring_def Let_def short_name_def)
qed

lemma containerRow_json:
  "containerRow ns (container_json c) =
     Inr [replicate 5 nbsp @ short_name (fst c), text_content ns (fst (snd c)), megabytes ns (snd (snd c))]"
  by (simp add: containerRow_def container_json_def jget_def substring_to_dot [simplified] megabytes_def del: str_substring_def)

lemma rows_of_map:
  assumes "\<And>x. x \<in> set xs \<Longrightarrow> f (g x) = Inr (h x)"
  shows "rows_of f (map g xs) = Inr (concat (map h xs))"
  using assms by (induction xs) auto

lemma hostRows_json: "hostRows ns (host_json h) = Inr (host_table ns h)"
proof -
  have "rows_of (\<lambda>c. and_then (containerRow ns c) (\<lambda>r. Inr [r])) (map container_json (snd h))
      = Inr (concat (map (\<lambda>c. [[replicate 5 nbsp @ short_name (fst c), text_content ns (fst (snd c)), megabytes ns (snd (snd c))]]) (snd h)))"
    by (rule rows_of_map) (simp add: containerRow_json)
  then show ?thesis
    by (simp add: hostRows_def host_json_def jget_def elements_def host_table_def case_prod_unfold concat_map_singleton)
qed

text \<open>The cluster table is rebuilt from every response: the header, then for every host its address,
  one row per container and an empty row, in the order of the response; without hosts the page
  says so.  A container is shown by the part of its name before the first dot, and by nothing when
  its name has no dot.\<close>

theorem cluster_table:
  "renderClusterInfo ns (Arr (map host_json hosts)) t =
     Inr (if hosts = [] then t\<lparr> clusterInfo := [], clusterText := ''no info available'' \<rparr>
          else t\<lparr> clusterInfo := [''Name'', ''CPU'', ''Memory''] # concat (map (host_table ns) hosts), clusterText := [] \<rparr>)"
proof -
  have "rows_of (hostRows ns) (map host_json hosts) = Inr (concat (map (host_table ns) hosts))"
    by (rule rows_of_map) (simp add: hostRows_json)
  then show ?thesis
    by (simp add: renderClusterInfo_def jlength_def elements_def Let_def)
qed

end
