(* ===== verification/StatsPage.thy ===== *)
theory StatsPage
  imports InaeticsCommon
begin

text \<open>
  inaeticsStats.js: one chart for each statistic of the response.  The state of the page is the
  state of the charts, the children of the container of the statistics in document order and the
  number of the next canvas.
\<close>

section \<open>Rendering the statistics\<close>

text \<open>The children of the container, each with its id and its context; the number of the next context.\<close>

record stats_page =
  sp_world :: "obj world"
  children :: "(string \<times> nat) list"
  nextCanvas :: nat

text \<open>\<open>charts[j].id == name\<close> for the first \<open>j\<close>, with the chart taken out of \<open>charts\<close>.\<close>

fun take_chart :: "jsval \<Rightarrow> (string \<times> nat) list \<Rightarrow> (nat \<times> (string \<times> nat) list) option" where
  "take_chart name [] = None"
| "take_chart name (ch # charts) =
     (if loose_eq (Str (fst ch)) name then Some (snd ch, charts)
      else map_option (\<lambda>(c, rest). (c, ch # rest)) (take_chart name charts))"

text \<open>A new canvas in the container (element 0 of the document), with a context of its own.\<close>

definition new_canvas :: "string \<Rightarrow> stats_page \<Rightarrow> stats_page" where
  "new_canvas name p =
     p\<lparr> sp_world := upd_ctx (nextCanvas p) (\<lambda>x. x\<lparr> canvas_id := name, canvas_width := Fin chartWidth,
          canvas_height := Fin chartHeight, parentNode := Some 0 \<rparr>) (sp_world p),
        children := children p @ [(name, nextCanvas p)], nextCanvas := Suc (nextCanvas p) \<rparr>"

definition renderStat ::
  "obj env \<Rightarrow> jsval \<Rightarrow> (string \<times> nat) list \<Rightarrow> stats_page \<Rightarrow> js_error + ((string \<times> nat) list \<times> stats_page)" where
  "renderStat env stat charts p =
     and_then (as_object stat) (\<lambda>st.
       (let name = oget st ''name''; data = getData st; opts = getChartOpts st
        in case take_chart name charts of
             Some (c, rest) \<Rightarrow>
               and_then (update_line env c data opts (sp_world p)) (\<lambda>w. Inr (rest, p\<lparr> sp_world := w \<rparr>))
           | None \<Rightarrow>
               (let p1 = new_canvas (to_string (numstr env) name) p
                in and_then (draw_line env (nextCanvas p) data (oset ''animation'' (Bool True) opts) (sp_world p1))
                     (\<lambda>w. Inr (charts, p1\<lparr> sp_world := w \<rparr>)))))"

text \<open>The statistics in order, each at a time of its own (\<open>envs\<close>).\<close>

fun renderEach ::
  "(nat \<Rightarrow> obj env) \<Rightarrow> nat \<Rightarrow> jsval list \<Rightarrow> (string \<times> nat) list \<Rightarrow> stats_page
     \<Rightarrow> js_error + ((string \<times> nat) list \<times> stats_page)" where
  "renderEach envs i [] charts p = Inr (charts, p)"
| "renderEach envs i (stat # stats) charts p =
     and_then (renderStat (envs i) stat charts p) (\<lambda>(charts', p'). renderEach envs (Suc i) stats charts' p')"

text \<open>\<open>container.removeChild(charts[i])\<close>: the canvas leaves the document.\<close>

definition removeChild :: "string \<times> nat \<Rightarrow> stats_page \<Rightarrow> stats_page" where
  "removeChild ch p =
     p\<lparr> sp_world := upd_ctx (snd ch) (\<lambda>x. x\<lparr> parentNode := None \<rparr>) (sp_world p), children := remove1 ch (children p) \<rparr>"

definition renderStats :: "(nat \<Rightarrow> obj env) \<Rightarrow> jsval \<Rightarrow> stats_page \<Rightarrow> js_error + stats_page" where
  "renderStats envs stats p =
     (if \<not> to_bool stats then Inr p
      else
        and_then (elements stats) (\<lambda>sts. and_then (renderEach envs 0 sts (children p) p)
          (\<lambda>(charts, p'). Inr (fold removeChild charts p'))))"

section \<open>The invariant of the page\<close>

text \<open>The canvases of the page have charts; canvases that will be made later have none.\<close>

definition stats_inv :: "stats_page \<Rightarrow> bool" where
  "stats_inv p =
     (page_inv (sp_world p) \<and> (\<forall>c \<in> set (registered (sp_world p)). c < nextCanvas p)
      \<and> snd ` set (children p) \<subseteq> set (registered (sp_world p)) \<and> distinct (map snd (children p)))"

lemma stats_invD:
  assumes "stats_inv p"
  shows "page_inv (sp_world p)" "nextCanvas p \<le> c \<Longrightarrow> c \<notin> set (registered (sp_world p))"
    "ch \<in> set (children p) \<Longrightarrow> snd ch \<in> set (registered (sp_world p))"
    "distinct (map snd (children p))" "distinct (children p)"
  using assms by (auto simp: stats_inv_def distinct_map)

lemma stats_inv_world:
  assumes "stats_inv p" "page_inv w" "registered w = registered (sp_world p)"
  shows "stats_inv (p\<lparr> sp_world := w \<rparr>)"
  using assms by (simp add: stats_inv_def)

lemma page_inv_move: "page_inv w \<Longrightarrow> page_inv (upd_ctx c (\<lambda>x. x\<lparr> parentNode := parent \<rparr>) w)"
  using event_succeeds [of w "Move c parent" "undefined"] by simp

lemma registered_upd [simp]: "registered (upd_ctx c f w) = registered w"
  by (simp add: registered_def upd_ctx_def)

lemma new_canvas_world:
  assumes "stats_inv p"
  shows "page_inv (sp_world (new_canvas name p))" "registered (sp_world (new_canvas name p)) = registered (sp_world p)"
    "document (sp_world (new_canvas name p)) (nextCanvas p) = Some 0"
proof -
  show "page_inv (sp_world (new_canvas name p))"
    using stats_invD(1) [OF assms] by (auto simp: new_canvas_def page_inv_def loops_def entries_def)
qed (simp_all add: new_canvas_def document_def)

section \<open>One statistic\<close>

lemma take_chart_Str:
  assumes "distinct (map fst charts)"
  shows "n \<notin> fst ` set charts \<Longrightarrow> take_chart (Str n) charts = None"
    and "n \<in> fst ` set charts \<Longrightarrow> \<exists>c. (n, c) \<in> set charts \<and> take_chart (Str n) charts = Some (c, filter (\<lambda>ch. fst ch \<noteq> n) charts)"
  using assms
proof (induction charts)
  case (Cons ch charts)
  { case 1
    with Cons.IH(1) show ?case by auto
  next
    case 2
    show ?case
    proof (cases "fst ch = n")
      case True
      with 2(2) have "filter (\<lambda>ch. fst ch \<noteq> n) charts = charts"
        by (auto simp: filter_id_conv rev_image_eqI)
      with True show ?thesis by (cases ch) auto
    next
      case False
      with 2 Cons.IH(2) show ?thesis by auto
    qed }
qed simp_all

text \<open>A statistic whose chart is there: the chart is updated, the document stays as it is.\<close>

lemma renderStat_old:
  assumes "stats_inv p" "oget st ''name'' = name" "take_chart name charts = Some (c, rest)"
  obtains p' where "renderStat env (Obj st) charts p = Inr (rest, p')" "stats_inv p'" "children p' = children p"
    "nextCanvas p' = nextCanvas p" "registered (sp_world p') = registered (sp_world p)"
proof -
  obtain w where w: "update_line env c (getData st) (getChartOpts st) (sp_world p) = Inr w" "page_inv w"
      "registered w = registered (sp_world p)"
    using lines.show_statistic [of "sp_world p" True c env st] stats_invD(1) [OF assms(1)] by auto
  with assms that [of "p\<lparr> sp_world := w \<rparr>"] stats_inv_world [OF assms(1)] show ?thesis
    by (simp add: renderStat_def as_object_def Let_def)
qed

text \<open>A new statistic: a canvas is added at the end and its chart is drawn.\<close>

lemma renderStat_new:
  assumes "stats_inv p" "oget st ''name'' = name" "take_chart name charts = None"
  obtains p' where "renderStat env (Obj st) charts p = Inr (charts, p')" "stats_inv p'"
    "children p' = children p @ [(to_string (numstr env) name, nextCanvas p)]" "nextCanvas p' = Suc (nextCanvas p)"
    "registered (sp_world p') = registered (sp_world p) @ [nextCanvas p]"
proof -
  let ?p1 = "new_canvas (to_string (numstr env) name) p" and ?c = "nextCanvas p"
  note n = new_canvas_world [OF assms(1), of "to_string (numstr env) name"]
  have fresh: "?c \<notin> set (registered (sp_world ?p1))"
    using stats_invD(2) [OF assms(1), of ?c] n(2) by simp
  have doc: "document (sp_world ?p1) ?c \<noteq> None" using n(3) by simp
  obtain w where w: "draw_line env ?c (getData st) (oset ''animation'' (Bool True) (getChartOpts st)) (sp_world ?p1) = Inr w"
      "page_inv w" "registered w = registered (sp_world ?p1) @ [?c]"
    by (rule lines.show_animated [OF n(1) fresh doc])
  have "?c \<notin> snd ` set (children p)"
    using stats_invD(2) [OF assms(1), of ?c] stats_invD(3) [OF assms(1)] by force
  then have "stats_inv (?p1\<lparr> sp_world := w \<rparr>)"
    using assms(1) w(2) w(3) [unfolded n(2)] by (auto simp: stats_inv_def new_canvas_def less_Suc_eq)
  with assms w(1) w(3) [unfolded n(2)] that [of "?p1\<lparr> sp_world := w \<rparr>"] show ?thesis
    by (simp add: renderStat_def as_object_def Let_def) (simp add: new_canvas_def)
qed

section \<open>All statistics\<close>

text \<open>
  The charts a page shows, as a specification: those of the statistics it has, in their order,
  then new ones on the next canvases.
\<close>

definition shown :: "string list \<Rightarrow> (string \<times> nat) list \<Rightarrow> nat \<Rightarrow> (string \<times> nat) list" where
  "shown ns charts k =
     (let new = filter (\<lambda>n. n \<notin> fst ` set charts) ns in zip new [k..<k + length new])"

lemma shown_Cons:
  "n \<notin> fst ` set charts \<Longrightarrow> shown (n # ns) charts k = (n, k) # shown ns charts (Suc k)"
  "n \<in> fst ` set charts \<Longrightarrow> shown (n # ns) charts k = shown ns charts k"
  by (simp_all add: shown_def Let_def upt_rec)

lemma shown_cong: "(\<And>n. n \<in> set ns \<Longrightarrow> n \<in> fst ` set a \<longleftrightarrow> n \<in> fst ` set b) \<Longrightarrow> shown ns a k = shown ns b k"
  unfolding shown_def Let_def by (metis (mono_tags, lifting) filter_cong)

lemma renderEach_statistics:
  assumes "stats_inv p" "map (\<lambda>st. oget st ''name'') sts = map Str ns" "distinct ns" "distinct (map fst charts)"
  shows "\<exists>p'. renderEach envs i (map Obj sts) charts p = Inr (filter (\<lambda>ch. fst ch \<notin> set ns) charts, p') \<and> stats_inv p'
           \<and> children p' = children p @ shown ns charts (nextCanvas p)
           \<and> set (registered (sp_world p)) \<subseteq> set (registered (sp_world p'))"
  using assms
proof (induction sts arbitrary: ns charts p i)
  case Nil
  then show ?case by (simp add: shown_def)
next
  case (Cons st sts)
  then obtain n ns' where ns: "ns = n # ns'" "oget st ''name'' = Str n" "map (\<lambda>st. oget st ''name'') sts = map Str ns'"
      "distinct ns'" "n \<notin> set ns'" by (cases ns) auto
  show ?case
  proof (cases "n \<in> fst ` set charts")
    case True
    let ?rest = "filter (\<lambda>ch. fst ch \<noteq> n) charts"
    obtain c where "take_chart (Str n) charts = Some (c, ?rest)"
      using take_chart_Str(2) [OF Cons.prems(4) True] by blast
    from renderStat_old [OF Cons.prems(1) ns(2) this, of "envs i"]
    obtain p1 where p1: "renderStat (envs i) (Obj st) charts p = Inr (?rest, p1)" "stats_inv p1" "children p1 = children p"
        "nextCanvas p1 = nextCanvas p" "registered (sp_world p1) = registered (sp_world p)" by blast
    have "shown ns' ?rest k = shown ns' charts k" for k
      using ns(5) by (intro shown_cong) force
    with Cons.IH [OF p1(2) ns(3,4) distinct_map_filter [OF Cons.prems(4)], of "Suc i" "\<lambda>ch. fst ch \<noteq> n"] p1 True show ?thesis
      by (auto simp: ns(1) shown_Cons conj_commute intro!: arg_cong [where f = "\<lambda>P. filter P charts"])
  next
    case False
    obtain p1 where p1: "renderStat (envs i) (Obj st) charts p = Inr (charts, p1)" "stats_inv p1"
        "children p1 = children p @ [(n, nextCanvas p)]" "nextCanvas p1 = Suc (nextCanvas p)"
        "registered (sp_world p1) = registered (sp_world p) @ [nextCanvas p]"
      using renderStat_new [OF Cons.prems(1) ns(2) take_chart_Str(1) [OF Cons.prems(4) False], of "envs i"] by auto
    moreover have "filter (\<lambda>ch. fst ch \<notin> set ns) charts = filter (\<lambda>ch. fst ch \<notin> set ns') charts"
      using False by (intro filter_cong) (auto simp: ns(1))
    ultimately show ?thesis
      using Cons.IH [OF p1(2) ns(3,4) Cons.prems(4), of "Suc i"] False
      by (auto simp: shown_Cons ns(1))
  qed
qed

lemma removeChild_inv:
  assumes "stats_inv p"
  shows "stats_inv (removeChild ch p)" "registered (sp_world (removeChild ch p)) = registered (sp_world p)"
proof -
  have "set (remove1 ch (children p)) \<subseteq> set (children p)" by (rule set_remove1_subset)
  with assms show "stats_inv (removeChild ch p)"
    using page_inv_move [OF stats_invD(1) [OF assms]]
    by (auto simp: stats_inv_def removeChild_def distinct_map intro: inj_on_subset)
qed (simp add: removeChild_def)

lemma fold_removeChild:
  "stats_inv p \<Longrightarrow> stats_inv (fold removeChild chs p)
     \<and> registered (sp_world (fold removeChild chs p)) = registered (sp_world p)
     \<and> children (fold removeChild chs p) = filter (\<lambda>ch. ch \<notin> set chs) (children p)"
proof (induction chs arbitrary: p)
  case (Cons ch chs)
  have "children (removeChild ch p) = filter (\<lambda>x. x \<noteq> ch) (children p)"
    using stats_invD(5) [OF Cons.prems] by (simp add: removeChild_def distinct_remove1_removeAll removeAll_filter_not_eq eq_commute)
  with Cons.IH [OF removeChild_inv(1) [OF Cons.prems]] removeChild_inv(2) [OF Cons.prems] show ?case
    by (auto intro!: filter_cong)
qed simp

lemma fst_shown: "fst ` set (shown ns charts k) \<subseteq> set ns"
  by (auto simp: shown_def Let_def dest: set_zip_leftD)

lemma renderStats_statistics:
  assumes "stats_inv p" "map (\<lambda>st. oget st ''name'') sts = map Str ns" "distinct ns" "distinct (map fst (children p))"
  shows "\<exists>p'. renderStats envs (Arr (map Obj sts)) p = Inr p' \<and> stats_inv p'
           \<and> children p' = filter (\<lambda>ch. fst ch \<in> set ns) (children p) @ shown ns (children p) (nextCanvas p)
           \<and> set (registered (sp_world p)) \<subseteq> set (registered (sp_world p'))"
proof -
  let ?old = "filter (\<lambda>ch. fst ch \<notin> set ns) (children p)"
  obtain q where q: "renderEach envs 0 (map Obj sts) (children p) p = Inr (?old, q)" "stats_inv q"
      "children q = children p @ shown ns (children p) (nextCanvas p)"
      "set (registered (sp_world p)) \<subseteq> set (registered (sp_world q))"
    using renderEach_statistics [OF assms] by blast
  have "filter (\<lambda>ch. ch \<notin> set ?old) (children q)
      = filter (\<lambda>ch. fst ch \<in> set ns) (children p) @ shown ns (children p) (nextCanvas p)"
  proof -
    have "filter (\<lambda>ch. ch \<notin> set ?old) (children p) = filter (\<lambda>ch. fst ch \<in> set ns) (children p)"
      by (rule filter_cong) auto
    moreover have "filter (\<lambda>ch. ch \<notin> set ?old) (shown ns (children p) k) = shown ns (children p) k" for k
      using fst_shown [of ns "children p" k] by (auto simp: filter_id_conv)
    ultimately show ?thesis unfolding q(3) filter_append by simp
  qed
  with q fold_removeChild [OF q(2), of ?old] show ?thesis
    by (simp add: renderStats_def elements_def)
qed

section \<open>The page over time\<close>

text \<open>A response of the server: an array of objects with a name each.\<close>

definition response_names :: "jsval \<Rightarrow> string list option" where
  "response_names v =
     (case v of
        Arr vs \<Rightarrow>
          those (map (\<lambda>x. case x of Obj st \<Rightarrow> (case oget st ''name'' of Str n \<Rightarrow> Some n | _ \<Rightarrow> None) | _ \<Rightarrow> None) vs)
      | _ \<Rightarrow> None)"

lemma response_namesE:
  assumes "response_names v = Some ns"
  obtains sts where "v = Arr (map Obj sts)" "map (\<lambda>st. oget st ''name'') sts = map Str ns"
proof -
  have "\<exists>sts. vs = map Obj sts \<and> map (\<lambda>st. oget st ''name'') sts = map Str ns"
    if "response_names (Arr vs) = Some ns" for vs
    using that
  proof (induction vs arbitrary: ns)
    case (Cons v vs)
    then obtain st n ns' where v: "v = Obj st" "oget st ''name'' = Str n" "response_names (Arr vs) = Some ns'" "ns = n # ns'"
      by (auto simp: response_names_def split: jsval.splits option.splits)
    with Cons.IH [of ns'] obtain sts where "vs = map Obj sts" "map (\<lambda>st. oget st ''name'') sts = map Str ns'" by auto
    with v show ?case by (intro exI [of _ "st # sts"]) simp
  qed (simp add: response_names_def)
  with assms that show ?thesis
    by (cases v) (auto simp: response_names_def)
qed

text \<open>Answers of the poll arrive, the window is resized, frames are played.\<close>

inductive stats_reachable :: "stats_page \<Rightarrow> bool" where
  start: "fresh_page w \<Longrightarrow> stats_reachable \<lparr> sp_world = w, children = [], nextCanvas = 0 \<rparr>"
| answer: "stats_reachable p \<Longrightarrow> response_names v = Some ns \<Longrightarrow> distinct ns \<Longrightarrow> renderStats envs v p = Inr p'
     \<Longrightarrow> stats_reachable p'"
| browser: "stats_reachable p \<Longrightarrow> e = Resize \<or> e = Frame \<Longrightarrow> handle env e (sp_world p) = Inr w
     \<Longrightarrow> stats_reachable (p\<lparr> sp_world := w \<rparr>)"

lemma distinct_shown:
  assumes "distinct (map fst charts)" "distinct ns"
  shows "distinct (map fst (filter (\<lambda>ch. fst ch \<in> set ns) charts @ shown ns charts k))"
  using assms by (auto simp: shown_def Let_def distinct_map_filter dest!: set_zip_leftD)

lemma renderStats_response:
  assumes "stats_inv p" "distinct (map fst (children p))" "response_names v = Some ns" "distinct ns"
  obtains p' where "renderStats envs v p = Inr p'" "stats_inv p'" "distinct (map fst (children p'))"
    "children p' = filter (\<lambda>ch. fst ch \<in> set ns) (children p) @ shown ns (children p) (nextCanvas p)"
    "set (registered (sp_world p)) \<subseteq> set (registered (sp_world p'))"
proof -
  obtain sts where "v = Arr (map Obj sts)" "map (\<lambda>st. oget st ''name'') sts = map Str ns"
    by (rule response_namesE [OF assms(3)])
  with renderStats_statistics [OF assms(1) _ assms(4,2), of sts envs] distinct_shown [OF assms(2,4)] that show ?thesis
    by metis
qed

lemma stats_reachable_inv:
  assumes "stats_reachable p"
  shows "stats_inv p \<and> distinct (map fst (children p))"
  using assms
proof (induction rule: stats_reachable.induct)
  case (start w)
  then have "page_inv w" by (rule reachable_inv [OF reachable.start])
  with start show ?case by (simp add: stats_inv_def fresh_page_def registered_def)
next
  case (answer p v ns envs p')
  obtain q where "renderStats envs v p = Inr q" "stats_inv q" "distinct (map fst (children q))"
    using renderStats_response [OF conjunct1 [OF answer.IH] conjunct2 [OF answer.IH] answer.hyps(2,3), of envs] by blast
  with answer.hyps(4) show ?case by simp
next
  case (browser p e env w)
  have "enabled (sp_world p) e" "new_charts e = []" using browser.hyps(2) by auto
  moreover have "page_inv (sp_world p)" using browser.IH stats_invD(1) by blast
  ultimately obtain w' where "handle env e (sp_world p) = Inr w'" "page_inv w'" "registered w' = registered (sp_world p)"
    using event_succeeds [of "sp_world p" e env] by (metis append_Nil2)
  with browser.hyps(3) have "page_inv w" "registered w = registered (sp_world p)" by simp_all
  with browser show ?case by (simp add: stats_inv_world)
qed

section \<open>Properties\<close>


text \<open>A first response, for the witnesses.\<close>

definition first_stats :: stats_page where
  "first_stats = \<lparr> sp_world = blank_page, children = [], nextCanvas = 0 \<rparr>"

definition two_stats :: jsval where
  "two_stats = Arr [Obj [(''name'', Str ''queue''), (''values'', Arr [NumF 1, NumF 2])], Obj [(''name'', Str ''rate'')]]"

lemma two_stats_names: "response_names two_stats = Some [''queue'', ''rate'']" "distinct [''queue'', ''rate'']"
  by (simp_all add: response_names_def two_stats_def)

lemma first_stats_reachable: "stats_reachable first_stats"
  unfolding first_stats_def by (rule stats_reachable.start [OF blank_page_fresh])


text \<open>Rendering a response that names the same statistics again, in any order, neither adds, removes
  nor moves a canvas.\<close>

theorem stats_page_stable:
  assumes "stats_reachable p" "response_names v = Some ns" "distinct ns" "set ns = set (map fst (children p))"
  shows "\<exists>p'. renderStats envs v p = Inr p' \<and> children p' = children p"
proof -
  have "filter (\<lambda>ch. fst ch \<in> set ns) (children p) = children p"
    using assms(4) by (auto simp: filter_id_conv)
  moreover have "shown ns (children p) k = []" for k
    using assms(4) by (auto simp: shown_def Let_def filter_empty_conv)
  ultimately show ?thesis
    using renderStats_response [OF _ _ assms(2,3), of p envs] stats_reachable_inv [OF assms(1)] by (metis append_Nil2)
qed

lemma two_stats_page:
  obtains p where "stats_reachable p" "renderStats (\<lambda>_. plain_env) two_stats first_stats = Inr p"
    "children p = [(''queue'', 0), (''rate'', 1)]"
proof -
  have "stats_inv first_stats" "distinct (map fst (children first_stats))"
    using stats_reachable_inv [OF first_stats_reachable] by auto
  then obtain p where p: "renderStats (\<lambda>_. plain_env) two_stats first_stats = Inr p"
      "children p = filter (\<lambda>ch. fst ch \<in> set [''queue'', ''rate'']) (children first_stats)
         @ shown [''queue'', ''rate''] (children first_stats) (nextCanvas first_stats)"
    by (rule renderStats_response [OF _ _ two_stats_names])
  with that [of p] stats_reachable.answer [OF first_stats_reachable two_stats_names p(1)] show ?thesis
    by (simp add: first_stats_def shown_def)
qed

theorem stats_page_stable_witness:
  "\<exists>p p'. renderStats (\<lambda>_. plain_env) two_stats first_stats = Inr p
     \<and> renderStats (\<lambda>_. plain_env) two_stats p = Inr p' \<and> children p' = children p"
proof -
  obtain p where p: "stats_reachable p" "renderStats (\<lambda>_. plain_env) two_stats first_stats = Inr p"
      "children p = [(''queue'', 0), (''rate'', 1)]"
    by (rule two_stats_page)
  then have "set [''queue'', ''rate''] = set (map fst (children p))" by simp
  from stats_page_stable [OF p(1) two_stats_names this, of "\<lambda>_. plain_env"] p(2) show ?thesis by blast
qed





end
