(* ===== verification/ChartScale.thy ===== *)
theory ChartScale
  imports ChartHelpers "HOL-Library.Monad_Syntax"
begin

text \<open>
  The scale of a chart: \<open>calculateScale\<close> with its loops, \<open>roundScale\<close>, \<open>populateLabels\<close>,
  \<open>getDecimalPlaces\<close>, the scale that the options override, the choice of a logarithmic scale,
  and the position of a value on a scale (\<open>calculateOffset\<close>).

  The value that \<open>Math.log(val) / Math.LN10\<close> has in the browser is the argument \<open>lg\<close>, since the
  standard leaves its last digits to the implementation.  A label template is evaluated by code that
  \<open>tmpl\<close> builds at run time; its result is the argument \<open>tmpl\<close>.  A loop that does not end has the
  value \<open>None\<close>.
\<close>

record scale =
  s_steps :: jsnum
  s_stepValue :: jsnum
  s_graphMin :: jsnum
  s_labels :: "string list"
  s_maxValue :: jsnum

section \<open>Magnitudes and rounding\<close>

definition calculateOrderOfMagnitude :: "(jsnum \<Rightarrow> jsnum) \<Rightarrow> jsnum \<Rightarrow> jsnum" where
  "calculateOrderOfMagnitude lg val = (if num_eq val 0 then 0 else math_floor (lg val))"

text \<open>\<open>Math.pow(10, n)\<close> for the magnitudes, which are integers.\<close>

definition pow10 :: "jsnum \<Rightarrow> jsnum" where
  "pow10 n = pow_int 10 n"

definition roundScale :: "(jsnum \<Rightarrow> string) \<Rightarrow> obj \<Rightarrow> jsnum \<Rightarrow> jsnum" where
  "roundScale ns config value =
     (let sscl = to_string ns (oget config ''yAxisMinimumInterval'');
          scldec = (case index_of ''.'' sscl of
                      Some i \<Rightarrow> if i > 0 then length (drop i sscl) else 0
                    | None \<Rightarrow> 0)
      in math_round (value * pow10 (Fin (of_nat scldec))) / pow10 (Fin (of_nat scldec)))"

text \<open>
  \<open>getDecimalPlaces\<close>: the regular expression \<open>(?:\.(\d+))?(?:[eE]([+-]?\d+))?$\<close> at the first
  position where it matches up to the end.
\<close>

definition match_fraction :: "string \<Rightarrow> string \<times> string" where
  "match_fraction s =
     (if s \<noteq> [] \<and> hd s = CHR ''.'' \<and> takeWhile is_digit (tl s) \<noteq> []
      then (takeWhile is_digit (tl s), dropWhile is_digit (tl s)) else ([], s))"

definition match_exponent :: "string \<Rightarrow> string option" where
  "match_exponent s =
     (case s of
        [] \<Rightarrow> Some []
      | e # r \<Rightarrow>
          (let ds = (if r \<noteq> [] \<and> hd r \<in> {CHR ''+'', CHR ''-''} then tl r else r)
           in if e \<in> {CHR ''e'', CHR ''E''} \<and> ds \<noteq> [] \<and> list_all is_digit ds then Some r else None))"

fun decimal_match :: "string \<Rightarrow> string \<times> string" where
  "decimal_match s =
     (case match_exponent (snd (match_fraction s)) of
        Some e \<Rightarrow> (fst (match_fraction s), e)
      | None \<Rightarrow> (case s of [] \<Rightarrow> ([], []) | _ # r \<Rightarrow> decimal_match r))"

declare decimal_match.simps [simp del]

definition getDecimalPlaces :: "(jsnum \<Rightarrow> string) \<Rightarrow> jsnum \<Rightarrow> jsnum" where
  "getDecimalPlaces ns num =
     (let (frac, ex) = decimal_match (ns num)
      in math_max 0 (Fin (of_nat (length frac)) - (if ex = [] then 0 else str_to_num ex)))"

text \<open>\<open>1 * x.toFixed(d)\<close>: the multiple of \<open>10^-d\<close> next to \<open>x\<close>, halves away from zero.\<close>

definition to_fixed :: "nat \<Rightarrow> jsnum \<Rightarrow> jsnum" where
  "to_fixed d x =
     (case x of
        Fin r \<Rightarrow>
          if \<bar>r\<bar> \<ge> 10 ^ 21 then x
          else Fin (sgn r * (of_int \<lfloor>\<bar>r\<bar> * 10 ^ d + 1 / 2\<rfloor> / 10 ^ d))
      | _ \<Rightarrow> x)"

definition fixed_label :: "(jsnum \<Rightarrow> string) \<Rightarrow> jsnum \<Rightarrow> jsnum \<Rightarrow> js_error + jsnum" where
  "fixed_label ns value unit =
     (case getDecimalPlaces ns unit of
        Fin d \<Rightarrow> if 0 \<le> d \<and> d \<le> 100 then Inr (to_fixed (nat \<lfloor>d\<rfloor>) value) else Inl RangeError
      | PInf \<Rightarrow> Inl RangeError
      | NInf \<Rightarrow> Inl RangeError
      | NaN \<Rightarrow> Inr (to_fixed 0 value))"

text \<open>The values that the labels of a scale show, from the bottom up.\<close>

fun collect :: "(nat \<Rightarrow> js_error + 'a) \<Rightarrow> nat list \<Rightarrow> js_error + 'a list" where
  "collect f [] = Inr []"
| "collect f (i # is) =
     (case f i of Inl e \<Rightarrow> Inl e
      | Inr x \<Rightarrow> (case collect f is of Inl e \<Rightarrow> Inl e | Inr xs \<Rightarrow> Inr (x # xs)))"

text \<open>The values of \<open>i\<close> in \<open>for (i = 0; i < numberOfSteps + 1; i++)\<close>.\<close>

definition label_indices :: "jsnum \<Rightarrow> nat list option" where
  "label_indices numberOfSteps =
     (case numberOfSteps + 1 of Fin r \<Rightarrow> Some [0..<nat \<lceil>r\<rceil>] | PInf \<Rightarrow> None | _ \<Rightarrow> Some [])"

definition populateLabels ::
  "(jsnum \<Rightarrow> string) \<Rightarrow> (obj \<Rightarrow> jsval \<Rightarrow> jsval \<Rightarrow> jsval) \<Rightarrow> (string \<Rightarrow> jsval \<Rightarrow> string) \<Rightarrow> nat \<Rightarrow> obj \<Rightarrow> jsval
     \<Rightarrow> jsnum \<Rightarrow> jsnum \<Rightarrow> jsnum \<Rightarrow> (js_error + string list) option" where
  "populateLabels ns perso tmpl axis config labelTemplateString numberOfSteps graphMin stepValue =
     (let logarithmic = oget config (if axis = 2 then ''logarithmic2'' else ''logarithmic'');
          fmtYLabel = oget config (if axis = 2 then ''fmtYLabel2'' else ''fmtYLabel'');
          show = (\<lambda>v. tmpl (to_string ns labelTemplateString) (fmtChartJS ns perso config (Num v) fmtYLabel))
      in if \<not> to_bool labelTemplateString then Some (Inr [])
         else if \<not> to_bool logarithmic then
           map_option
             (collect (\<lambda>i. map_sum id show (fixed_label ns (graphMin + stepValue * Fin (of_nat i)) stepValue)))
             (label_indices numberOfSteps)
         else
           map_option
             (collect (\<lambda>i. let value = graphMin * Fin (10 ^ i) in map_sum id show (fixed_label ns value value)))
             (label_indices numberOfSteps))"

section \<open>The loops of calculateScale\<close>

text \<open>\<open>while (graphMin > minValue) graphMin = graphMin - yAxisMinimumInterval\<close>\<close>

partial_function (option) lower_to :: "jsnum \<Rightarrow> jsnum \<Rightarrow> jsnum \<Rightarrow> jsnum option" where
  "lower_to minValue y g = (if g > minValue then lower_to minValue y (g - y) else Some g)"

partial_function (option) raise_to :: "jsnum \<Rightarrow> jsnum \<Rightarrow> jsnum \<Rightarrow> jsnum option" where
  "raise_to maxValue y g = (if g < maxValue then raise_to maxValue y (g + y) else Some g)"

text \<open>
  The loop that halves or doubles the step until the number of steps is between \<open>minSteps\<close> and
  \<open>maxSteps\<close>; a minimum interval \<open>y\<close> (\<open>None\<close> when the option is not a number) stops the halving.
\<close>

partial_function (option) fit_steps ::
    "jsnum option \<Rightarrow> jsnum \<Rightarrow> jsnum \<Rightarrow> jsnum \<Rightarrow> jsnum \<Rightarrow> jsnum \<Rightarrow> (jsnum \<times> jsnum) option" where
  "fit_steps y minSteps maxSteps graphRange stepValue numberOfSteps =
     (if numberOfSteps < minSteps \<or> numberOfSteps > maxSteps then
        if numberOfSteps < minSteps then
          (if (case y of Some iv \<Rightarrow> stepValue / 2 < iv | None \<Rightarrow> False)
           then Some (stepValue, numberOfSteps)
           else fit_steps y minSteps maxSteps graphRange (stepValue / 2) (math_round (graphRange / (stepValue / 2))))
        else fit_steps y minSteps maxSteps graphRange (stepValue * 2) (math_round (graphRange / (stepValue * 2)))
      else Some (stepValue, numberOfSteps))"

text \<open>\<open>while (graphMin + stepValue < minValue && numberOfSteps >= 3) ...\<close>\<close>

partial_function (option) trim_bottom ::
    "jsnum \<Rightarrow> jsnum \<Rightarrow> jsnum \<Rightarrow> jsnum \<Rightarrow> (jsnum \<times> jsnum) option" where
  "trim_bottom minValue stepValue graphMin n =
     (if graphMin + stepValue < minValue \<and> n \<ge> 3
      then trim_bottom minValue stepValue (graphMin + stepValue) (n - 1) else Some (graphMin, n))"

partial_function (option) trim_top :: "jsnum \<Rightarrow> jsnum \<Rightarrow> jsnum \<Rightarrow> jsnum \<Rightarrow> jsnum option" where
  "trim_top maxValue stepValue graphMin n =
     (if graphMin + (n - 1) * stepValue \<ge> maxValue \<and> n \<ge> 3
      then trim_top maxValue stepValue graphMin (n - 1) else Some n)"

section \<open>calculateScale\<close>

text \<open>\<open>typeof yAxisMinimumInterval == "number"\<close>\<close>

definition minimum_interval :: "obj \<Rightarrow> nat \<Rightarrow> jsnum option" where
  "minimum_interval config axis =
     (case oget config (if axis = 2 then ''yAxisMinimumInterval2'' else ''yAxisMinimumInterval'') of
        Num y \<Rightarrow> Some y | _ \<Rightarrow> None)"

text \<open>The lower and upper end of a linear scale.\<close>

definition magnitude_floor :: "jsnum \<Rightarrow> jsnum \<Rightarrow> jsnum \<Rightarrow> jsnum" where
  "magnitude_floor zero p v = (if math_abs v > zero then math_floor (v / (1 * p)) * p else 0)"

definition magnitude_ceil :: "jsnum \<Rightarrow> jsnum \<Rightarrow> jsnum \<Rightarrow> jsnum" where
  "magnitude_ceil zero p v = (if math_abs v > zero then math_ceil (v / (1 * p)) * p else 0)"

definition off_interval :: "jsnum \<Rightarrow> jsnum \<Rightarrow> jsnum \<Rightarrow> bool" where
  "off_interval zero y v = (js_mod v y > zero \<and> js_mod v y < y - zero)"

definition linear_ends ::
  "(jsnum \<Rightarrow> string) \<Rightarrow> obj \<Rightarrow> jsnum option \<Rightarrow> jsnum \<Rightarrow> jsnum \<Rightarrow> jsnum \<Rightarrow> jsnum \<Rightarrow> (jsnum \<times> jsnum) option" where
  "linear_ends ns config iv zero p minValue maxValue =
     (let graphMin = magnitude_floor zero p minValue; graphMax = magnitude_ceil zero p maxValue
      in case iv of
           None \<Rightarrow> Some (graphMin, graphMax)
         | Some y \<Rightarrow>
             if graphMax \<ge> 0 then
               do { g \<leftarrow> lower_to minValue y (graphMin - js_mod graphMin y);
                    h \<leftarrow> raise_to maxValue y
                      (if off_interval zero y graphMax
                       then roundScale ns config ((1 + math_floor (graphMax / y)) * y) else graphMax);
                    Some (g, h) }
             else Some (graphMin, graphMax))"

text \<open>The adjustment of the step to the minimum interval.\<close>

definition step_on_interval ::
  "(jsnum \<Rightarrow> string) \<Rightarrow> obj \<Rightarrow> jsnum option \<Rightarrow> jsnum \<Rightarrow> jsnum \<Rightarrow> jsnum \<times> jsnum \<Rightarrow> jsnum \<times> jsnum" where
  "step_on_interval ns config iv zero graphRange sn =
     (case iv of
        None \<Rightarrow> sn
      | Some y \<Rightarrow>
          (let (s, n) = (if fst sn < y then (y, math_ceil (graphRange / y)) else sn)
           in if off_interval zero y s
              then (let s' = (if js_mod (2 * s) y < zero \<or> js_mod (2 * s) y > y - zero then 2 * s
                              else roundScale ns config ((1 + math_floor (s / y)) * y))
                    in (s', math_ceil (graphRange / s')))
              else (s, n)))"

definition linear_scale ::
  "(jsnum \<Rightarrow> jsnum) \<Rightarrow> (jsnum \<Rightarrow> string) \<Rightarrow> obj \<Rightarrow> nat \<Rightarrow> jsnum \<Rightarrow> jsnum \<Rightarrow> jsnum \<Rightarrow> jsnum
     \<Rightarrow> (jsnum \<times> jsnum \<times> jsnum) option" where
  "linear_scale lg ns config axis maxSteps minSteps maxValue minValue =
     (let iv = minimum_interval config axis; zero = to_number (oget config ''zeroValue'');
          p = pow10 (calculateOrderOfMagnitude lg (maxValue - minValue));
          maximized = (\<lambda>side. loose_eq (oget config ''graphMaximized'') (Bool True)
                         \<or> loose_eq (oget config ''graphMaximized'') (Str side))
      in do { (graphMin, graphMax) \<leftarrow> linear_ends ns config iv zero p minValue maxValue;
              let graphRange = graphMax - graphMin;
              sn \<leftarrow> fit_steps iv minSteps maxSteps graphRange p (math_round (graphRange / p));
              let (stepValue, n) = step_on_interval ns config iv zero graphRange sn;
              (graphMin', n') \<leftarrow> (if maximized ''bottom'' \<or> oget config ''graphMin'' \<noteq> Undef
                                   then trim_bottom minValue stepValue graphMin n else Some (graphMin, n));
              n'' \<leftarrow> (if maximized ''top'' \<or> oget config ''graphMax'' \<noteq> Undef
                       then trim_top maxValue stepValue graphMin' n' else Some n');
              Some (graphMin', stepValue, n'') })"

definition log_scale :: "(jsnum \<Rightarrow> jsnum) \<Rightarrow> jsnum \<Rightarrow> jsnum \<Rightarrow> jsnum \<times> jsnum \<times> jsnum \<times> jsnum" where
  "log_scale lg maxValue0 minValue0 =
     (let maxValue = (if num_eq minValue0 maxValue0 then maxValue0 + 1 else maxValue0);
          minValue = (if num_eq minValue0 0 then Fin (1 / 100) else minValue0);
          minMag = calculateOrderOfMagnitude lg minValue;
          maxMag = calculateOrderOfMagnitude lg maxValue + 1
      in (pow10 minMag, pow10 (maxMag - minMag), maxMag - minMag, maxValue))"

text \<open>The labels are made for axis 1, whatever the axis is.\<close>

definition calculateScale ::
  "(jsnum \<Rightarrow> jsnum) \<Rightarrow> (jsnum \<Rightarrow> string) \<Rightarrow> (obj \<Rightarrow> jsval \<Rightarrow> jsval \<Rightarrow> jsval) \<Rightarrow> (string \<Rightarrow> jsval \<Rightarrow> string)
     \<Rightarrow> nat \<Rightarrow> obj \<Rightarrow> jsnum \<Rightarrow> jsnum \<Rightarrow> jsnum \<Rightarrow> jsnum \<Rightarrow> jsval \<Rightarrow> (js_error + scale) option" where
  "calculateScale lg ns perso tmpl axis config maxSteps minSteps maxValue minValue labelTemplateString =
     (let logarithmic = oget config (if axis = 2 then ''logarithmic2'' else ''logarithmic'')
      in do { (graphMin, stepValue, n, maxValue') \<leftarrow>
                (if \<not> to_bool logarithmic
                 then map_option (\<lambda>(g, s, n). (g, s, n, maxValue))
                        (linear_scale lg ns config axis maxSteps minSteps maxValue minValue)
                 else Some (log_scale lg maxValue minValue));
              labels \<leftarrow> populateLabels ns perso tmpl 1 config labelTemplateString n graphMin stepValue;
              Some (map_sum id (\<lambda>ls. \<lparr> s_steps = n, s_stepValue = stepValue, s_graphMin = graphMin,
                                        s_labels = ls, s_maxValue = maxValue' \<rparr>) labels) })"

section \<open>The position of a value\<close>

definition HorizontalCalculateOffset :: "jsnum \<Rightarrow> scale \<Rightarrow> jsnum \<Rightarrow> jsnum" where
  "HorizontalCalculateOffset val calculatedScale scaleHop =
     (let outerValue = s_steps calculatedScale * s_stepValue calculatedScale;
          adjustedValue = val - s_graphMin calculatedScale;
          scalingFactor = CapValue (adjustedValue / outerValue) (NumF 1) (NumF 0)
      in (scaleHop * s_steps calculatedScale) * scalingFactor)"

definition calculateOffset :: "(jsnum \<Rightarrow> jsnum) \<Rightarrow> jsval \<Rightarrow> jsnum \<Rightarrow> scale \<Rightarrow> jsnum \<Rightarrow> jsnum" where
  "calculateOffset lg logarithmic val calculatedScale scaleHop =
     (if \<not> to_bool logarithmic then
        (let outerValue = s_steps calculatedScale * s_stepValue calculatedScale;
             adjustedValue = val - s_graphMin calculatedScale;
             scalingFactor = CapValue (adjustedValue / outerValue) (NumF 1) (NumF 0)
         in (scaleHop * s_steps calculatedScale) * scalingFactor)
      else CapValue (lg val * scaleHop - lg (s_graphMin calculatedScale) * scaleHop) Undef (NumF 0))"

section \<open>The scale that the options choose\<close>

text \<open>
  A logarithmic scale is given up when the data are not positive, when it is only wanted for
  data over several magnitudes (\<open>'fuzzy'\<close>), and when the scale is overridden.
\<close>

definition choose_logarithmic :: "(jsnum \<Rightarrow> jsnum) \<Rightarrow> string \<Rightarrow> string \<Rightarrow> jsnum \<Rightarrow> jsnum \<Rightarrow> obj \<Rightarrow> obj" where
  "choose_logarithmic lg logKey overrideKey maxValue minValue config =
     (let config1 = (if oget config logKey \<noteq> Bool False \<and> minValue \<le> 0
                     then oset logKey (Bool False) config else config);
          oom = calculateOrderOfMagnitude lg;
          orderOfMagnitude = oom (pow10 (oom maxValue + 1)) - oom (pow10 (oom minValue))
      in if loose_eq (oget config1 logKey) (Str ''fuzzy'') \<and> orderOfMagnitude < 4 \<or> to_bool (oget config1 overrideKey)
         then oset logKey (Bool False) config1 else config1)"

text \<open>The scale given by the options \<open>scaleStartValue\<close>, \<open>scaleSteps\<close> and \<open>scaleStepWidth\<close>.\<close>

definition override_scale ::
  "(string \<Rightarrow> string \<Rightarrow> int \<Rightarrow> int \<Rightarrow> jsval) \<Rightarrow> (jsnum \<Rightarrow> string) \<Rightarrow> (obj \<Rightarrow> jsval \<Rightarrow> jsval \<Rightarrow> jsval)
     \<Rightarrow> (string \<Rightarrow> jsval \<Rightarrow> string) \<Rightarrow> nat \<Rightarrow> string \<Rightarrow> obj \<Rightarrow> jsval \<Rightarrow> (js_error + scale) option" where
  "override_scale call ns perso tmpl axis suffix config labelTemplateString =
     (let opt = (\<lambda>ref key. setOptionValue call 1 (ref @ suffix) Undef (oget config (key @ suffix)) (- 1) (- 1))
      in case (opt ''SCALESTARTVALUE'' ''scaleStartValue'', opt ''SCALESTEPS'' ''scaleSteps'',
               opt ''SCALESTEPWIDTH'' ''scaleStepWidth'') of
           (Inr start, Inr steps, Inr width) \<Rightarrow>
             map_option
               (map_sum id (\<lambda>ls. \<lparr> s_steps = to_number steps, s_stepValue = to_number width,
                                   s_graphMin = to_number start, s_labels = ls,
                                   s_maxValue = to_number start + to_number steps * to_number width \<rparr>))
               (populateLabels ns perso tmpl axis config labelTemplateString (to_number steps) (to_number start)
                  (to_number width))
         | _ \<Rightarrow> Some (Inl TypeError))"

section \<open>The step loop\<close>

text \<open>The number of steps of size \<open>s\<close> that the range \<open>R\<close> is rounded to.\<close>

abbreviation nsteps :: "real \<Rightarrow> real \<Rightarrow> int" where
  "nsteps R s \<equiv> \<lfloor>R / s + 1 / 2\<rfloor>"

abbreviation fit :: "jsnum option \<Rightarrow> int \<Rightarrow> int \<Rightarrow> real \<Rightarrow> real \<Rightarrow> (jsnum \<times> jsnum) option" where
  "fit iv mn mx R s \<equiv> fit_steps iv (Fin (of_int mn)) (Fin (of_int mx)) (Fin R) (Fin s) (Fin (of_int (nsteps R s)))"

lemma fit_stop:
  assumes "mn \<le> nsteps R s" "nsteps R s \<le> mx"
  shows "fit iv mn mx R s = Some (Fin s, Fin (of_int (nsteps R s)))"
  using assms by (subst fit_steps.simps) simp

lemma fit_halve:
  assumes "nsteps R s < mn" "0 < s"
  shows "fit iv mn mx R s =
     (if (case iv of Some y \<Rightarrow> Fin (s / 2) < y | None \<Rightarrow> False) then Some (Fin s, Fin (of_int (nsteps R s)))
      else fit iv mn mx R (s / 2))"
  using assms by (subst fit_steps.simps) (simp split: option.splits)

lemma fit_double:
  assumes "mx < nsteps R s" "mn \<le> nsteps R s" "0 < s"
  shows "fit iv mn mx R s = fit iv mn mx R (s * 2)"
  using assms by (subst fit_steps.simps) simp

text \<open>Halving: the number of steps never jumps over the allowed range.\<close>

lemma fit_up:
  assumes "2 * mn \<le> mx + 1" "0 < R"
  shows "0 < s \<Longrightarrow> nsteps R s \<le> mx \<Longrightarrow> of_int mn \<le> R / s * 2 ^ k
     \<Longrightarrow> \<exists>j. fit iv mn mx R s = Some (Fin (s / 2 ^ j), Fin (of_int (nsteps R (s / 2 ^ j))))
            \<and> nsteps R (s / 2 ^ j) \<le> mx \<and> (iv = None \<longrightarrow> mn \<le> nsteps R (s / 2 ^ j))"
proof (induction k arbitrary: s)
  case 0
  then have "mn \<le> nsteps R s" by (simp add: le_floor_iff)
  with 0 fit_stop [of mn R s mx iv] show ?case by (intro exI [of _ 0]) simp
next
  case (Suc k)
  show ?case
  proof (cases "nsteps R s < mn")
    case False
    with Suc.prems fit_stop [of mn R s mx iv] show ?thesis by (intro exI [of _ 0]) simp
  next
    case True
    then have "R / s + 1 / 2 < of_int mn" by (simp add: floor_less_iff)
    moreover have "R / (s / 2) = 2 * (R / s)" by simp
    ultimately have "R / (s / 2) + 1 / 2 < of_int (2 * mn)" by simp
    then have le: "nsteps R (s / 2) \<le> mx" using assms(1) by (simp add: floor_less_iff floor_le_iff)
    have "of_int mn \<le> R / (s / 2) * 2 ^ k" using Suc.prems(3) by simp
    with Suc.IH [of "s / 2"] le Suc.prems(1) obtain j where
      j: "fit iv mn mx R (s / 2) = Some (Fin (s / 2 / 2 ^ j), Fin (of_int (nsteps R (s / 2 / 2 ^ j))))"
      "nsteps R (s / 2 / 2 ^ j) \<le> mx" "iv = None \<longrightarrow> mn \<le> nsteps R (s / 2 / 2 ^ j)" by auto
    have e: "s / 2 / 2 ^ j = s / 2 ^ Suc j" by simp
    show ?thesis
    proof (cases "case iv of Some y \<Rightarrow> Fin (s / 2) < y | None \<Rightarrow> False")
      case stop: True
      with True Suc.prems fit_halve [OF True, of iv mx] show ?thesis
        by (intro exI [of _ 0]) (simp split: option.splits)
    next
      case False
      with j fit_halve [OF True Suc.prems(1), of iv mx] show ?thesis
        unfolding e by (intro exI [of _ "Suc j"]) simp
    qed
  qed
qed

lemma fit_down:
  assumes "2 * mn \<le> mx + 1" "0 \<le> mx"
  shows "0 < s \<Longrightarrow> mn \<le> nsteps R s \<Longrightarrow> R / s / 2 ^ k < of_int mx + 1 / 2
     \<Longrightarrow> \<exists>j. fit iv mn mx R s = Some (Fin (s * 2 ^ j), Fin (of_int (nsteps R (s * 2 ^ j))))
            \<and> mn \<le> nsteps R (s * 2 ^ j) \<and> nsteps R (s * 2 ^ j) \<le> mx"
proof (induction k arbitrary: s)
  case 0
  then have "nsteps R s \<le> mx" by (simp add: floor_le_iff)
  with 0 fit_stop [of mn R s mx iv] show ?case by (intro exI [of _ 0]) simp
next
  case (Suc k)
  show ?case
  proof (cases "mx < nsteps R s")
    case False
    with Suc.prems fit_stop [of mn R s mx iv] show ?thesis by (intro exI [of _ 0]) simp
  next
    case True
    then have "mx + 1 \<le> nsteps R s" by simp
    then have "of_int (mx + 1) \<le> R / s + 1 / 2" by (simp only: le_floor_iff)
    moreover have "R / (s * 2) = R / s / 2" by simp
    moreover have "real_of_int (2 * mn) \<le> real_of_int (mx + 1)" using assms(1) by (simp only: of_int_le_iff)
    ultimately have "of_int mn \<le> R / (s * 2) + 1 / 2" by simp
    then have "mn \<le> nsteps R (s * 2)" by (simp add: le_floor_iff)
    moreover have "R / (s * 2) / 2 ^ k < of_int mx + 1 / 2" using Suc.prems(3) by simp
    ultimately obtain j where "fit iv mn mx R (s * 2) = Some (Fin (s * 2 * 2 ^ j), Fin (of_int (nsteps R (s * 2 * 2 ^ j))))"
      "mn \<le> nsteps R (s * 2 * 2 ^ j)" "nsteps R (s * 2 * 2 ^ j) \<le> mx"
      using Suc.IH [of "s * 2"] Suc.prems(1) by auto
    moreover have "s * 2 * 2 ^ j = s * 2 ^ Suc j" by simp
    ultimately show ?thesis
      using fit_double [OF True Suc.prems(2,1), of iv] by (intro exI [of _ "Suc j"]) simp
  qed
qed

lemma fit_ends:
  assumes "2 * mn \<le> mx + 1" "0 \<le> mx" "0 < R" "0 < s"
  shows "\<exists>s' n. fit iv mn mx R s = Some (Fin s', Fin (of_int n)) \<and> 0 < s' \<and> n = nsteps R s' \<and> n \<le> mx
           \<and> (iv = None \<longrightarrow> mn \<le> n)"
proof (cases "nsteps R s \<le> mx")
  case True
  have "0 < R / s" using assms by simp
  obtain k where "of_int mn / (R / s) < 2 ^ k" using real_arch_pow [of 2 "of_int mn / (R / s)"] by auto
  then have "of_int mn \<le> R / s * 2 ^ k" using assms(3,4) by (simp add: field_simps)
  from fit_up [OF assms(1,3,4) True this, of iv] assms(4) show ?thesis by fastforce
next
  case False
  obtain k where "R / s / (1 / 2) < 2 ^ k" using real_arch_pow [of 2 "R / s / (1 / 2)"] by auto
  then have "R / s / 2 ^ k < 1 / 2" using assms(4) by (simp add: field_simps)
  moreover have "real_of_int mx \<ge> 0" using assms(2) by simp
  ultimately have k: "R / s / 2 ^ k < of_int mx + 1 / 2" by linarith
  have "mn \<le> nsteps R s" using False assms(1,2) by linarith
  from fit_down [OF assms(1,2,4) this k, of iv] assms(4) show ?thesis by fastforce
qed

text \<open>A range that is a multiple of the first step stays a multiple of every halved step.\<close>

lemma nsteps_exact:
  assumes "R = of_int m * s" "0 < s"
  shows "of_int (nsteps R (s / 2 ^ j)) * (s / 2 ^ j) = R"
proof -
  have "R / (s / 2 ^ j) = of_int (m * 2 ^ j)" using assms by simp
  then have "nsteps R (s / 2 ^ j) = m * 2 ^ j" by (simp only: floor_unique)
  with assms show ?thesis by simp
qed

section \<open>The linear scale covers the data\<close>

text \<open>
  A linear scale without the options that change its ends: no minimum interval, not maximized,
  no forced ends; values up to \<open>z\<close> count as zero.
\<close>

definition plain_scale :: "obj \<Rightarrow> nat \<Rightarrow> real \<Rightarrow> bool" where
  "plain_scale config axis z =
     (\<not> to_bool (oget config (if axis = 2 then ''logarithmic2'' else ''logarithmic''))
      \<and> minimum_interval config axis = None \<and> oget config ''zeroValue'' = NumF z \<and> 0 \<le> z
      \<and> oget config ''graphMaximized'' = Bool False \<and> oget config ''graphMin'' = Undef \<and> oget config ''graphMax'' = Undef)"

lemma magnitude_floor_Fin:
  assumes "0 < p" "0 \<le> z"
  shows "\<exists>f. magnitude_floor (Fin z) (Fin p) (Fin v) = Fin (of_int f * p) \<and> of_int f * p \<le> v + z
           \<and> (z < \<bar>v\<bar> \<longrightarrow> f = \<lfloor>v / p\<rfloor>) \<and> (\<bar>v\<bar> \<le> z \<longrightarrow> f = 0)"
proof (cases "z < \<bar>v\<bar>")
  case True
  have "of_int \<lfloor>v / p\<rfloor> * p \<le> v" using assms(1) by (simp flip: pos_le_divide_eq)
  with True assms show ?thesis by (simp add: magnitude_floor_def)
next
  case False
  then show ?thesis by (intro exI [of _ 0]) (simp add: magnitude_floor_def abs_le_iff)
qed

lemma magnitude_ceil_Fin:
  assumes "0 < p" "0 \<le> z"
  shows "\<exists>g. magnitude_ceil (Fin z) (Fin p) (Fin v) = Fin (of_int g * p) \<and> v - z \<le> of_int g * p
           \<and> (z < \<bar>v\<bar> \<longrightarrow> g = \<lceil>v / p\<rceil>) \<and> (\<bar>v\<bar> \<le> z \<longrightarrow> g = 0)"
proof (cases "z < \<bar>v\<bar>")
  case True
  have "v \<le> of_int \<lceil>v / p\<rceil> * p" using assms(1) by (simp flip: pos_divide_le_eq)
  with True assms show ?thesis by (simp add: magnitude_ceil_def)
next
  case False
  then show ?thesis by (intro exI [of _ 0]) (simp add: magnitude_ceil_def abs_le_iff)
qed

text \<open>The two ends are multiples of the magnitude, at most eleven apart and never equal.\<close>

lemma ends_apart:
  fixes a b p z :: real
  assumes "0 < p" "0 \<le> z" "z \<le> p" "2 * z < b - a" "b - a \<le> 10 * p"
    and f: "z < \<bar>a\<bar> \<longrightarrow> f = \<lfloor>a / p\<rfloor>" "\<bar>a\<bar> \<le> z \<longrightarrow> f = 0"
    and g: "z < \<bar>b\<bar> \<longrightarrow> g = \<lceil>b / p\<rceil>" "\<bar>b\<bar> \<le> z \<longrightarrow> g = 0"
  shows "f < g" "g - f \<le> 11"
proof -
  have d: "b / p - a / p \<le> 10" "a / p < b / p" "\<bar>x\<bar> \<le> z \<Longrightarrow> \<bar>x / p\<bar> \<le> 1" for x
    using assms by (simp_all add: field_simps abs_if split: if_splits)
  consider "\<bar>a\<bar> \<le> z" "z < b" | "\<bar>b\<bar> \<le> z" "a < - z" | "z < \<bar>a\<bar>" "z < \<bar>b\<bar>"
    using assms(2,4) by linarith
  then have "f < g \<and> g - f \<le> 11"
  proof cases
    case 1
    have "0 < b / p" using 1 assms(1,2) by simp
    moreover have "b / p \<le> 11" using d(1) d(3) [OF 1(1)] by linarith
    moreover have "f = 0" "g = \<lceil>b / p\<rceil>" using 1 f g assms(2) by auto
    ultimately show ?thesis by (simp add: ceiling_le_iff)
  next
    case 2
    have "a / p < 0" using 2 assms(1,2) by (simp add: divide_neg_pos)
    moreover have "- 11 \<le> a / p" using d(1) d(3) [OF 2(1)] by linarith
    moreover have "g = 0" "f = \<lfloor>a / p\<rfloor>" using 2 f g assms(2) by auto
    ultimately show ?thesis by linarith
  next
    case 3
    then have fg: "f = \<lfloor>a / p\<rfloor>" "g = \<lceil>b / p\<rceil>" using f g by auto
    show ?thesis unfolding fg using d(1,2) by linarith
  qed
  then show "f < g" "g - f \<le> 11" by simp_all
qed

lemma side_names: "str_to_num ''bottom'' = NaN" "str_to_num ''top'' = NaN" "str_to_num ''fuzzy'' = NaN"
  by (simp_all add: str_to_num_def str_trim_def is_space_def parse_unsigned_def is_digit_def)

lemma linear_scale_plain:
  assumes "plain_scale config axis z" "lg (Fin (b - a)) = Fin l" "p = 10 powi \<lfloor>l\<rfloor>"
    and "2 * z < b - a" "z \<le> p" "b - a \<le> 10 * p" "11 \<le> mx" "2 * mn \<le> mx + 1"
  shows "\<exists>g s n. linear_scale lg ns config axis (Fin (of_int mx)) (Fin (of_int mn)) (Fin b) (Fin a)
            = Some (Fin g, Fin s, Fin (of_int n)) \<and> 0 < s \<and> mn \<le> n \<and> n \<le> mx \<and> g \<le> a + z \<and> b - z \<le> g + of_int n * s"
proof -
  have z: "0 \<le> z" and p: "0 < p" using assms(1,3) by (simp_all add: plain_scale_def)
  obtain f where f: "magnitude_floor (Fin z) (Fin p) (Fin a) = Fin (of_int f * p)" "of_int f * p \<le> a + z"
      "z < \<bar>a\<bar> \<longrightarrow> f = \<lfloor>a / p\<rfloor>" "\<bar>a\<bar> \<le> z \<longrightarrow> f = 0"
    using magnitude_floor_Fin [OF p z] by blast
  obtain g where g: "magnitude_ceil (Fin z) (Fin p) (Fin b) = Fin (of_int g * p)" "b - z \<le> of_int g * p"
      "z < \<bar>b\<bar> \<longrightarrow> g = \<lceil>b / p\<rceil>" "\<bar>b\<bar> \<le> z \<longrightarrow> g = 0"
    using magnitude_ceil_Fin [OF p z] by blast
  note apart = ends_apart [OF p z assms(5,4,6) f(3,4) g(3,4)]
  define R where "R = of_int g * p - of_int f * p"
  have R: "R = of_int (g - f) * p" "0 < R" using apart(1) p by (simp_all add: R_def left_diff_distrib)
  have mag: "pow10 (calculateOrderOfMagnitude lg (Fin (b - a))) = Fin p"
    using assms(2,3,4) z by (simp add: pow10_def calculateOrderOfMagnitude_def)
  have first: "nsteps R p \<le> mx" using nsteps_exact [OF R(1) p, of 0] p apart(2) assms(7) R(1)
    by (simp add: floor_le_iff)
  have "0 < R / p" using R(2) p by simp
  obtain k where "of_int mn / (R / p) < 2 ^ k" using real_arch_pow [of 2 "of_int mn / (R / p)"] by auto
  then have k: "of_int mn \<le> R / p * 2 ^ k" using R(2) p by (simp add: field_simps)
  obtain j where j: "fit None mn mx R p = Some (Fin (p / 2 ^ j), Fin (of_int (nsteps R (p / 2 ^ j))))"
      "nsteps R (p / 2 ^ j) \<le> mx" "mn \<le> nsteps R (p / 2 ^ j)"
    using fit_up [OF assms(8) R(2) p first k, of None] by auto
  have "linear_scale lg ns config axis (Fin (of_int mx)) (Fin (of_int mn)) (Fin b) (Fin a)
      = Some (Fin (of_int f * p), Fin (p / 2 ^ j), Fin (of_int (nsteps R (p / 2 ^ j))))"
    using assms(1) j(1) f(1) g(1) mag p
    by (simp add: linear_scale_def plain_scale_def Let_def linear_ends_def step_on_interval_def side_names flip: R_def)
  moreover have "b - z \<le> of_int f * p + of_int (nsteps R (p / 2 ^ j)) * (p / 2 ^ j)"
    using nsteps_exact [OF R(1) p, of j] g(2) by (simp add: R_def)
  ultimately show ?thesis using f(2) j(2,3) p by (auto intro!: exI)
qed

section \<open>Properties\<close>

lemma collect_error:
  assumes "\<And>i e. f i = Inl e \<Longrightarrow> e = RangeError"
  shows "collect f is = Inl e \<Longrightarrow> e = RangeError"
  by (induction "is") (auto split: sum.splits dest: assms)

lemma fixed_label_error: "fixed_label ns v u = Inl e \<Longrightarrow> e = RangeError"
  by (auto simp: fixed_label_def split: jsnum.splits if_splits)

lemma populateLabels_ends:
  "\<exists>r. populateLabels ns perso tmpl axis config lt (Fin (of_int n)) g s = Some r \<and> (\<forall>e. r = Inl e \<longrightarrow> e = RangeError)"
proof -
  have "e = RangeError" if "map_sum id h (fixed_label ns v u) = Inl e" for e v u and h :: "jsnum \<Rightarrow> string"
    using that fixed_label_error [of ns v u] by (cases "fixed_label ns v u") auto
  then show ?thesis
    by (auto simp: populateLabels_def Let_def label_indices_def dest!: collect_error [rotated])
qed

text \<open>C6: For data between \<open>a\<close> and \<open>b\<close> on a chart with room for eleven labels, \<open>calculateScale\<close> returns, the
  number of steps is one the chart has room for, and the scale covers all data (up to the amount
  \<open>z\<close> that counts as zero): no value is drawn outside the chart.\<close>

theorem scale_covers_data:
  assumes "plain_scale config axis z" "lg (Fin (b - a)) = Fin l" "p = 10 powi \<lfloor>l\<rfloor>"
    and "2 * z < b - a" "z \<le> p" "b - a \<le> 10 * p" "11 \<le> mx" "2 * mn \<le> mx + 1"
  shows "\<exists>r. calculateScale lg ns perso tmpl axis config (Fin (of_int mx)) (Fin (of_int mn)) (Fin b) (Fin a) lt = Some r
     \<and> (case r of Inl e \<Rightarrow> e = RangeError
        | Inr sc \<Rightarrow> \<exists>g s n. s_graphMin sc = Fin g \<and> s_stepValue sc = Fin s \<and> s_steps sc = Fin (of_int n) \<and> 0 < s
             \<and> mn \<le> n \<and> n \<le> mx \<and> g \<le> a + z \<and> b - z \<le> g + of_int n * s)"
proof -
  obtain g s n where sc: "linear_scale lg ns config axis (Fin (of_int mx)) (Fin (of_int mn)) (Fin b) (Fin a)
      = Some (Fin g, Fin s, Fin (of_int n))" "0 < s" "mn \<le> n" "n \<le> mx" "g \<le> a + z" "b - z \<le> g + of_int n * s"
    using linear_scale_plain [of config axis z lg b a l p mx mn ns] assms by blast
  obtain r where r: "populateLabels ns perso tmpl 1 config lt (Fin (of_int n)) (Fin g) (Fin s) = Some r"
      "\<forall>e. r = Inl e \<longrightarrow> e = RangeError"
    using populateLabels_ends by blast
  have "\<not> to_bool (oget config (if axis = 2 then ''logarithmic2'' else ''logarithmic''))"
    using assms(1) by (simp add: plain_scale_def)
  with sc r show ?thesis
    by (cases r) (simp_all add: calculateScale_def Let_def)
qed

definition plain_config :: obj where
  "plain_config = [(''zeroValue'', NumF 0), (''graphMaximized'', Bool False), (''logarithmic'', Bool False)]"

theorem scale_covers_data_witness:
  "\<exists>r. calculateScale (\<lambda>_. Fin 1) (\<lambda>_. []) (\<lambda>_ v _. v) (\<lambda>_ _. []) 1 plain_config
        (Fin (of_int 20)) (Fin (of_int 5)) (Fin 73) (Fin 3) (Str []) = Some r
     \<and> (case r of Inl e \<Rightarrow> e = RangeError
        | Inr sc \<Rightarrow> \<exists>g s n. s_graphMin sc = Fin g \<and> s_stepValue sc = Fin s \<and> s_steps sc = Fin (of_int n) \<and> 0 < s
             \<and> 5 \<le> n \<and> n \<le> 20 \<and> g \<le> 3 + 0 \<and> 73 - 0 \<le> g + of_int n * s)"
  by (rule scale_covers_data [where l = 1 and p = 10])
    (simp_all add: plain_scale_def plain_config_def minimum_interval_def)

text \<open>C25: The loop that adapts the step always ends for the numbers of steps that the charts ask for
  (twice the minimum exceeds the maximum by at most one), with a minimum interval or without, and
  the number of steps it chooses fits the chart.\<close>

theorem step_loop_terminates:
  assumes "2 * mn \<le> mx + 1" "0 \<le> mx" "0 < R" "0 < s"
  shows "\<exists>s' n. fit_steps iv (Fin (of_int mn)) (Fin (of_int mx)) (Fin R) (Fin s) (math_round (Fin R / Fin s))
             = Some (Fin s', Fin (of_int n)) \<and> 0 < s' \<and> n \<le> mx \<and> (iv = None \<longrightarrow> mn \<le> n)"
  using fit_ends [OF assms, of iv] assms(4) by auto

theorem step_loop_terminates_witness:
  "\<exists>s' n. fit_steps (Some (Fin 5)) (Fin (of_int 5)) (Fin (of_int 9)) (Fin 300) (Fin 100) (math_round (Fin 300 / Fin 100))
     = Some (Fin s', Fin (of_int n)) \<and> 0 < s' \<and> n \<le> 9 \<and> (Some (Fin 5) = None \<longrightarrow> 5 \<le> n)"
  by (rule step_loop_terminates) simp_all


text \<open>On a linear scale the offset of a value is its distance from the bottom in steps times the height
  of a step, cut at the bottom and at the top of the chart: it is never outside the chart, and a
  larger value is never drawn below a smaller one.\<close>

theorem calculateOffset_linear:
  assumes "s_steps sc = Fin n" "s_stepValue sc = Fin s" "s_graphMin sc = Fin g" "0 < n" "0 < s" "0 \<le> h" "\<not> to_bool logarithmic"
  shows "\<exists>off. (\<forall>x. calculateOffset lg logarithmic (Fin x) sc (Fin h) = Fin (off x))
     \<and> (\<forall>x. 0 \<le> off x \<and> off x \<le> h * n) \<and> mono off
     \<and> (\<forall>x. g \<le> x \<and> x \<le> g + n * s \<longrightarrow> off x = (x - g) / s * h)"
proof -
  define off where "off x = h * n * (if (x - g) / (n * s) > 1 then 1 else if (x - g) / (n * s) < 0 then 0 else (x - g) / (n * s))" for x
  have "calculateOffset lg logarithmic (Fin x) sc (Fin h) = Fin (off x)" for x
    using assms by (simp add: calculateOffset_def Let_def CapValue_Fin off_def)
  moreover have "0 \<le> off x \<and> off x \<le> h * n" for x
  proof -
    have "0 \<le> h * n" using assms by simp
    then show ?thesis by (auto simp: off_def mult_left_le)
  qed
  moreover have "mono off"
  proof (rule monoI)
    fix x y :: real
    assume "x \<le> y"
    then have "(x - g) / (n * s) \<le> (y - g) / (n * s)" using assms(4,5) by (simp add: divide_right_mono)
    then show "off x \<le> off y" unfolding off_def using assms(4,6) by (intro mult_left_mono) auto
  qed
  moreover have "off x = (x - g) / s * h" if "g \<le> x \<and> x \<le> g + n * s" for x
    using that assms(4,5) by (auto simp: off_def field_simps)
  ultimately show ?thesis by blast
qed

theorem calculateOffset_linear_witness:
  "let sc = \<lparr> s_steps = Fin 10, s_stepValue = Fin 10, s_graphMin = Fin 0, s_labels = [], s_maxValue = Fin 100 \<rparr> in
   \<exists>off. (\<forall>x. calculateOffset (\<lambda>_. NaN) (Bool False) (Fin x) sc (Fin 25) = Fin (off x))
     \<and> (\<forall>x. 0 \<le> off x \<and> off x \<le> 25 * 10) \<and> mono off \<and> (\<forall>x. 0 \<le> x \<and> x \<le> 0 + 10 * 10 \<longrightarrow> off x = (x - 0) / 10 * 25)"
  unfolding Let_def by (rule calculateOffset_linear) simp_all

text \<open>A chart only keeps a logarithmic scale for data that are all positive, and never together with an
  overridden scale.\<close>

theorem logarithmic_needs_positive:
  assumes "to_bool (oget (choose_logarithmic lg logKey overrideKey maxValue minValue config) logKey)"
    and "logKey \<noteq> overrideKey"
  shows "\<not> minValue \<le> 0 \<and> \<not> to_bool (oget config overrideKey)"
  using assms by (auto simp: choose_logarithmic_def Let_def split: if_splits)

theorem logarithmic_needs_positive_witness:
  "\<not> Fin 5 \<le> 0 \<and> \<not> to_bool (oget [(''logarithmic'', Bool True)] ''scaleOverride'')"
  by (rule logarithmic_needs_positive [where lg = "\<lambda>_. Fin 1" and logKey = "''logarithmic''" and maxValue = "Fin 7"])
    (simp_all add: choose_logarithmic_def Let_def side_names)

end
