(* ===== verification/StatData.thy ===== *)
theory StatData
  imports ChartScale Easing
begin

text \<open>
  The data of annotations: \<open>initPassVariableData_part1\<close> computes for every segment or value its total,
  share, angle and neighbours, \<open>initPassVariableData_part2\<close> adds the positions at which it is drawn.
  An entry of \<open>statData\<close> is an object with the property names of the source; its references to the
  whole data and to the configuration are left out.

  A segment and a data set are objects of the page.  An array that the source fills by index is a
  function of the index; every element is given its initial value before it is read.
\<close>

type_synonym perso = "obj \<Rightarrow> jsval \<Rightarrow> jsval \<Rightarrow> jsval"

abbreviation nvalue :: "obj \<Rightarrow> jsnum" where
  "nvalue d \<equiv> to_number (oget d ''value'')"

abbreviation IntV :: "int \<Rightarrow> jsval" where
  "IntV n \<equiv> NumF (of_int n)"

text \<open>\<open>typeof title == "string" ? title.trim() : ""\<close>\<close>

definition title_text :: "obj \<Rightarrow> jsval" where
  "title_text d = (case oget d ''title'' of Str s \<Rightarrow> Str (str_trim s) | _ \<Rightarrow> Str [])"

text \<open>A value as the option \<open>key\<close> formats it, and a percentage.\<close>

definition fmt_by :: "(jsnum \<Rightarrow> string) \<Rightarrow> perso \<Rightarrow> obj \<Rightarrow> string \<Rightarrow> jsval \<Rightarrow> jsval" where
  "fmt_by ns perso config key v = fmtChartJS ns perso config v (oget config key)"

definition pct_by :: "(jsnum \<Rightarrow> string) \<Rightarrow> perso \<Rightarrow> obj \<Rightarrow> string \<Rightarrow> jsnum \<Rightarrow> jsval" where
  "pct_by ns perso config key v =
     roundToWithThousands ns perso config (fmt_by ns perso config key (Num v)) (oget config ''roundPct'')"

section \<open>Segments: PolarArea, Pie and Doughnut\<close>

definition two_pi :: jsnum where
  "two_pi = PI * 2"

definition start_angle :: "jsnum \<Rightarrow> jsnum" where
  "start_angle degrees = js_mod (js_mod (degrees * (PI / 180) + 2 * PI) (2 * PI) + 2 * PI) (2 * PI)"

record seg_totals =
  sg_first :: int
  sg_last :: int
  sg_count :: nat
  sg_total :: jsnum
  sg_max :: jsnum
  sg_min :: jsnum

definition seg_total :: "string \<Rightarrow> nat \<times> obj \<Rightarrow> seg_totals \<Rightarrow> seg_totals" where
  "seg_total tp p t =
     (let (i, d) = p; v = oget d ''value''
      in if tp \<noteq> ''PolarArea'' \<and> to_number v < 0 then t
         else if v \<noteq> Undef
         then t\<lparr> sg_first := (if sg_first t = - 1 then int i else sg_first t),
                 sg_max := math_max (sg_max t) (to_number v), sg_min := math_min (sg_min t) (to_number v),
                 sg_count := Suc (sg_count t), sg_total := sg_total t + to_number v, sg_last := int i \<rparr>
         else t)"

definition segment_totals :: "string \<Rightarrow> obj list \<Rightarrow> seg_totals" where
  "segment_totals tp data =
     fold (seg_total tp) (enumerate 0 data)
       \<lparr> sg_first = - 1, sg_last = - 1, sg_count = 0, sg_total = 0, sg_max = - MAX_VALUE, sg_min = MAX_VALUE \<rparr>"

definition segment_angle :: "string \<Rightarrow> seg_totals \<Rightarrow> jsnum \<Rightarrow> jsnum" where
  "segment_angle tp t v =
     (let a = (if tp = ''PolarArea'' then (if sg_count t > 0 then two_pi / Fin (of_nat (sg_count t)) else 0)
               else v / sg_total t * two_pi)
      in if a \<ge> two_pi then two_pi - Fin (1 / 1000) else a)"

record seg_loop =
  sl_cum :: jsnum
  sl_angle :: jsnum
  sl_real :: jsnum
  sl_prev :: int
  sl_prevMissing :: int
  sl_result :: "obj list"

definition segment_entry ::
  "(jsnum \<Rightarrow> string) \<Rightarrow> perso \<Rightarrow> obj \<Rightarrow> seg_totals \<Rightarrow> jsnum \<Rightarrow> nat \<Rightarrow> obj \<Rightarrow> jsnum \<Rightarrow> jsnum \<Rightarrow> seg_loop \<Rightarrow> obj" where
  "segment_entry ns perso config t startAngle i d ang cum st =
     (let v = nvalue d; fmt = fmt_by ns perso config; pct = 100 * v / sg_total t
      in obj_literal
        [(''v1'', fmt ''fmtV1'' (title_text d)), (''v2'', fmt ''fmtV2'' (Num v)), (''v3'', fmt ''fmtV3'' (Num cum)),
         (''v4'', fmt ''fmtV4'' (Num (sg_total t))), (''v5'', fmt ''fmtV5'' (Num ang)),
         (''v6'', pct_by ns perso config ''fmtV6'' pct), (''v7'', NumF 0), (''v8'', NumF 0), (''v9'', NumF 0), (''v10'', NumF 0),
         (''v11'', fmt ''fmtV11'' (Num (sl_angle st - ang))), (''v12'', fmt ''fmtV12'' (Num (sl_angle st))),
         (''v13'', fmt ''fmtV13'' (IntV (int i))), (''lgtxt'', title_text d), (''datavalue'', Num v), (''cumvalue'', Num cum),
         (''totvalue'', Num (sg_total t)), (''segmentAngle'', Num ang), (''firstAngle'', Num startAngle),
         (''pctvalue'', Num pct), (''startAngle'', Num (sl_angle st)), (''realStartAngle'', Num (sl_real st)),
         (''endAngle'', Num (sl_angle st + ang)), (''maxvalue'', Num (sg_max t)), (''minvalue'', Num (sg_min t)),
         (''i'', IntV (int i)), (''firstNotMissing'', IntV (sg_first t)), (''lastNotMissing'', IntV (sg_last t)),
         (''prevNotMissing'', IntV (sl_prev st)), (''prevMissing'', IntV (sl_prevMissing st)), (''nextNotMissing'', IntV (- 1)),
         (''radiusOffset'', NumF 0), (''midPosX'', NumF 0), (''midPosY'', NumF 0), (''int_radius'', NumF 0), (''ext_radius'', NumF 0)])"

definition missing_segment :: "seg_totals \<Rightarrow> nat \<Rightarrow> obj \<Rightarrow> seg_loop \<Rightarrow> obj" where
  "missing_segment t i d st =
     obj_literal
       [(''v1'', title_text d), (''maxvalue'', Num (sg_max t)), (''minvalue'', Num (sg_min t)), (''i'', IntV (int i)),
        (''firstNotMissing'', IntV (sg_first t)), (''lastNotMissing'', IntV (sg_last t)), (''prevNotMissing'', IntV (sl_prev st))]"

text \<open>\<open>result[k].key = v\<close> for the entry \<open>k\<close> that the code looks up.\<close>

definition set_entry :: "int \<Rightarrow> string \<Rightarrow> jsval \<Rightarrow> obj list \<Rightarrow> obj list" where
  "set_entry k key v res = res[nat k := oset key v (res ! nat k)]"

definition counted :: "string \<Rightarrow> obj \<Rightarrow> bool" where
  "counted tp d = (oget d ''value'' \<noteq> Undef \<and> (tp = ''PolarArea'' \<or> nvalue d \<ge> 0))"

definition seg_step ::
  "(jsnum \<Rightarrow> string) \<Rightarrow> perso \<Rightarrow> obj \<Rightarrow> string \<Rightarrow> seg_totals \<Rightarrow> jsnum \<Rightarrow> nat \<times> obj \<Rightarrow> seg_loop \<Rightarrow> seg_loop" where
  "seg_step ns perso config tp t startAngle p st =
     (let (i, d) = p
      in if counted tp d then
           (let ang = segment_angle tp t (nvalue d); cum = sl_cum st + nvalue d;
                res = sl_result st @ [segment_entry ns perso config t startAngle i d ang cum st]
            in st\<lparr> sl_cum := cum, sl_angle := sl_angle st + ang, sl_real := sl_real st - ang,
                   sl_result := (if sl_prev st \<noteq> - 1 then set_entry (sl_prev st) ''nextNotMissing'' (IntV (int i)) res else res),
                   sl_prev := int i \<rparr>)
         else st\<lparr> sl_result := sl_result st @ [missing_segment t i d st], sl_prevMissing := int i \<rparr>)"

definition initPassVariableData_segments ::
  "(jsnum \<Rightarrow> string) \<Rightarrow> perso \<Rightarrow> obj \<Rightarrow> string \<Rightarrow> obj list \<Rightarrow> obj list" where
  "initPassVariableData_segments ns perso config tp data =
     (let cumulativeAngle = start_angle (- to_number (oget config ''startAngle''));
          realCumulativeAngle = start_angle (to_number (oget config ''startAngle''))
      in sl_result (fold (seg_step ns perso config tp (segment_totals tp data) cumulativeAngle) (enumerate 0 data)
           \<lparr> sl_cum = 0, sl_angle = cumulativeAngle, sl_real = realCumulativeAngle, sl_prev = - 1, sl_prevMissing = - 1,
             sl_result = [] \<rparr>))"

section \<open>Values: Line, Radar and the bars\<close>

definition dvalues :: "obj \<Rightarrow> jsval list" where
  "dvalues ds = (case oget ds ''data'' of Arr vs \<Rightarrow> vs | _ \<Rightarrow> [])"

definition drawn_as :: "string \<Rightarrow> obj \<Rightarrow> string" where
  "drawn_as tp ds = tpdraw tp (oget ds ''type'')"

definition axis_index :: "obj \<Rightarrow> nat" where
  "axis_index ds = (if loose_eq (oget ds ''axis'') (NumF 2) then 0 else 1)"

text \<open>A data set that is shorter than the labels (or than its own positions) is filled up with \<open>undefined\<close>.\<close>

definition pad_dataset :: "string \<Rightarrow> jsval list \<Rightarrow> obj \<Rightarrow> obj" where
  "pad_dataset tp labels ds =
     (let n = (if oget ds ''xPos'' \<noteq> Undef \<and> drawn_as tp ds = ''Line''
               then (case oget ds ''xPos'' of Arr xs \<Rightarrow> length xs | Str s \<Rightarrow> length s | _ \<Rightarrow> 0) else length labels);
          vs = dvalues ds
      in oset ''data'' (Arr (vs @ replicate (n - length vs) Undef)) ds)"

record val_totals =
  vt_tot :: "nat \<Rightarrow> nat \<Rightarrow> jsnum"
  vt_max :: "nat \<Rightarrow> nat \<Rightarrow> jsnum"
  vt_min :: "nat \<Rightarrow> nat \<Rightarrow> jsnum"
  vt_lmax :: "nat \<Rightarrow> nat \<Rightarrow> jsnum"
  vt_lmin :: "nat \<Rightarrow> nat \<Rightarrow> jsnum"
  vt_firsti :: "nat \<Rightarrow> int"
  vt_lasti :: "nat \<Rightarrow> int"
  vt_firstj :: "nat \<Rightarrow> int"
  vt_lastj :: "nat \<Rightarrow> int"
  vt_grand :: jsnum

definition no_totals :: val_totals where
  "no_totals =
     \<lparr> vt_tot = (\<lambda>_ _. 0), vt_max = (\<lambda>_ _. - MAX_VALUE), vt_min = (\<lambda>_ _. MAX_VALUE), vt_lmax = (\<lambda>_ _. - MAX_VALUE),
       vt_lmin = (\<lambda>_ _. MAX_VALUE), vt_firsti = (\<lambda>_. - 1), vt_lasti = (\<lambda>_. - 1), vt_firstj = (\<lambda>_. - 1),
       vt_lastj = (\<lambda>_. - 1), vt_grand = 0 \<rparr>"

text \<open>\<open>a[x][y] = v\<close>\<close>

definition upd2 :: "nat \<Rightarrow> nat \<Rightarrow> 'a \<Rightarrow> (nat \<Rightarrow> nat \<Rightarrow> 'a) \<Rightarrow> nat \<Rightarrow> nat \<Rightarrow> 'a" where
  "upd2 x y v f = f(x := (f x)(y := v))"

definition val_total :: "nat \<Rightarrow> nat \<Rightarrow> nat \<times> jsval \<Rightarrow> val_totals \<Rightarrow> val_totals" where
  "val_total ax i p t =
     (let (j, v) = p; x = to_number v
      in if v = Undef then t
         else t\<lparr> vt_grand := vt_grand t + x,
                 vt_firsti := (vt_firsti t)(i := (if vt_firsti t i = - 1 then int j else vt_firsti t i)),
                 vt_lasti := (vt_lasti t)(i := int j),
                 vt_firstj := (vt_firstj t)(j := (if vt_firstj t j = - 1 then int i else vt_firstj t j)),
                 vt_lastj := (vt_lastj t)(j := int i),
                 vt_tot := upd2 ax j (vt_tot t ax j + x) (vt_tot t),
                 vt_max := upd2 ax j (math_max (vt_max t ax j) x) (vt_max t),
                 vt_min := upd2 ax j (math_min (vt_min t ax j) x) (vt_min t),
                 vt_lmax := upd2 ax i (math_max (vt_lmax t ax i) x) (vt_lmax t),
                 vt_lmin := upd2 ax i (math_min (vt_lmin t ax i) x) (vt_lmin t) \<rparr>)"

definition dataset_total :: "nat \<times> obj \<Rightarrow> val_totals \<Rightarrow> val_totals" where
  "dataset_total p t = (let (i, ds) = p in fold (val_total (axis_index ds) i) (enumerate 0 (dvalues ds)) t)"

definition value_totals :: "obj list \<Rightarrow> val_totals" where
  "value_totals datasets = fold dataset_total (enumerate 0 datasets) no_totals"

text \<open>The second text of a value: its own position, else the label.\<close>

definition label_text :: "jsval list \<Rightarrow> obj \<Rightarrow> nat \<Rightarrow> jsval" where
  "label_text labels ds j =
     (let own = (case oget ds ''xPos'' of Arr xs \<Rightarrow> if aget xs j \<noteq> Undef then aget xs j else Str [] | _ \<Rightarrow> Str []);
          text = (if loose_eq own (Str []) \<and> aget labels j \<noteq> Undef then aget labels j else own)
      in case text of Str s \<Rightarrow> Str (str_trim s) | _ \<Rightarrow> text)"

record val_loop =
  vl_cum :: "nat \<Rightarrow> nat \<Rightarrow> jsnum"
  vl_prevpos :: "nat \<Rightarrow> nat \<Rightarrow> int"
  vl_prev :: int
  vl_prevMissing :: int
  vl_result :: "nat \<Rightarrow> nat \<Rightarrow> obj"

abbreviation is_bar :: "string \<Rightarrow> bool" where
  "is_bar k \<equiv> k \<in> {''Bar'', ''StackedBar'', ''HorizontalBar'', ''HorizontalStackedBar''}"

text \<open>The properties that all values have.\<close>

definition value_common ::
  "val_totals \<Rightarrow> obj \<Rightarrow> jsval list \<Rightarrow> nat \<Rightarrow> nat \<Rightarrow> jsnum \<Rightarrow> jsnum \<Rightarrow> (string \<times> jsval) list" where
  "value_common t ds labels i j x cum =
     (let ax = axis_index ds
      in [(''lgtxt'', title_text ds), (''lgtxt2'', label_text labels ds j), (''datavalue'', Num x),
          (''cumvalue'', Num cum), (''totvalue'', Num (vt_tot t ax j)), (''pctvalue'', Num (100 * x / vt_tot t ax j)),
          (''pctvalueT'', Num (100 * x / vt_grand t)), (''maxvalue'', Num (vt_max t ax j)), (''minvalue'', Num (vt_min t ax j)),
          (''lmaxvalue'', Num (vt_lmax t ax i)), (''lminvalue'', Num (vt_lmin t ax i)), (''grandtotal'', Num (vt_grand t)),
          (''nextNotMissing'', IntV (- 1)), (''j'', IntV (int j)), (''i'', IntV (int i))])"

definition bar_entry ::
  "(jsnum \<Rightarrow> string) \<Rightarrow> perso \<Rightarrow> obj \<Rightarrow> val_totals \<Rightarrow> obj \<Rightarrow> jsval list \<Rightarrow> nat \<Rightarrow> nat \<Rightarrow> jsnum \<Rightarrow> jsnum \<Rightarrow> obj" where
  "bar_entry ns perso config t ds labels i j x cum =
     (let fmt = fmt_by ns perso config; ax = axis_index ds
      in obj_literal
        ([(''v1'', fmt ''fmtV1'' (title_text ds)), (''v2'', fmt ''fmtV2'' (label_text labels ds j)), (''v3'', fmt ''fmtV3'' (Num x)),
          (''v4'', fmt ''fmtV4'' (Num cum)), (''v5'', fmt ''fmtV5'' (Num (vt_tot t ax j))),
          (''v6'', pct_by ns perso config ''fmtV6'' (100 * x / vt_tot t ax j)),
          (''v6T'', pct_by ns perso config ''fmtV6T'' (100 * x / vt_grand t)),
          (''v11'', fmt ''fmtV11'' (IntV (int i))), (''v12'', fmt ''fmtV12'' (IntV (int j)))]
         @ value_common t ds labels i j x cum
         @ [(''firstNotMissing'', IntV (vt_firstj t j)), (''lastNotMissing'', IntV (vt_lastj t j))]))"

definition line_entry ::
  "(jsnum \<Rightarrow> string) \<Rightarrow> perso \<Rightarrow> obj \<Rightarrow> val_totals \<Rightarrow> obj \<Rightarrow> jsval list \<Rightarrow> nat \<Rightarrow> nat \<Rightarrow> jsnum \<Rightarrow> jsnum \<Rightarrow> obj" where
  "line_entry ns perso config t ds labels i j x cum =
     (let fmt = fmt_by ns perso config; ax = axis_index ds
      in obj_literal
        ([(''v1'', fmt ''fmtV1'' (title_text ds)), (''v2'', fmt ''fmtV2'' (label_text labels ds j)), (''v3'', fmt ''fmtV3'' (Num x)),
          (''v5'', fmt ''fmtV5'' (Num x)), (''v6'', fmt ''fmtV6'' (Num (vt_max t ax j))), (''v7'', fmt ''fmtV7'' (Num (vt_tot t ax j))),
          (''v8'', pct_by ns perso config ''fmtV8'' (100 * x / vt_tot t ax j)),
          (''v8T'', pct_by ns perso config ''fmtV8T'' (100 * x / vt_grand t)),
          (''v11'', fmt ''fmtV11'' (IntV (int i))), (''v12'', fmt ''fmtV12'' (IntV (int j)))]
         @ value_common t ds labels i j x cum
         @ [(''diffnext'', Num x), (''firstNotMissing'', IntV (vt_firsti t i)), (''lastNotMissing'', IntV (vt_lasti t i))]))"

definition missing_value :: "val_totals \<Rightarrow> string \<Rightarrow> obj \<Rightarrow> nat \<Rightarrow> nat \<Rightarrow> val_loop \<Rightarrow> obj" where
  "missing_value t kind ds i j st =
     (let ax = axis_index ds
      in obj_literal
        [(''v1'', title_text ds), (''lmaxvalue'', Num (vt_lmax t ax i)), (''lminvalue'', Num (vt_lmin t ax i)),
         (''firstNotMissing'', IntV (if is_bar kind then vt_firstj t j else vt_firsti t i)),
         (''lastNotMissing'', IntV (if is_bar kind then vt_lastj t j else vt_lasti t i)),
         (''prevNotMissing'', IntV (vl_prev st)), (''prevMissing'', IntV (vl_prevMissing st)), (''grandtotal'', Num (vt_grand t))])"

text \<open>
  The differences between a line and the line before it on the same axis: \<open>diffprev\<close> of the
  new value, \<open>diffnext\<close> of the old one.
\<close>

definition link_lines ::
  "(jsnum \<Rightarrow> string) \<Rightarrow> perso \<Rightarrow> obj \<Rightarrow> nat \<Rightarrow> nat \<Rightarrow> nat \<Rightarrow> jsnum \<Rightarrow> val_loop \<Rightarrow> val_loop" where
  "link_lines ns perso config ax i j x st =
     (let k = vl_prevpos st ax j; res = vl_result st
      in if k \<ge> 0 then
           (let old = to_number (oget (res (nat k) j) ''datavalue'');
                e = oset ''diffprev'' (Num (x - old)) (oset ''v4'' (fmt_by ns perso config ''fmtV4'' (Num (x - old))) (res i j));
                o' = oset ''v5'' (Num (old - x)) (oset ''diffnext'' (Num (old - x)) (res (nat k) j))
            in st\<lparr> vl_result := upd2 (nat k) j o' (upd2 i j e res), vl_prevpos := upd2 ax j (int i) (vl_prevpos st) \<rparr>)
         else st\<lparr> vl_result := upd2 i j (oset ''v4'' (Num x) (res i j)) res, vl_prevpos := upd2 ax j (int i) (vl_prevpos st) \<rparr>)"

text \<open>\<open>for (k = prevnotemptyj; k < j; k++) result[i][k].nextNotMissing = j\<close>\<close>

definition set_next :: "nat \<Rightarrow> nat \<Rightarrow> int \<Rightarrow> (nat \<Rightarrow> nat \<Rightarrow> obj) \<Rightarrow> nat \<Rightarrow> nat \<Rightarrow> obj" where
  "set_next i j prev res =
     (if prev = - 1 then res
      else res(i := (\<lambda>k. if prev \<le> int k \<and> k < j then oset ''nextNotMissing'' (IntV (int j)) (res i k) else res i k)))"

definition val_step ::
  "(jsnum \<Rightarrow> string) \<Rightarrow> perso \<Rightarrow> obj \<Rightarrow> string \<Rightarrow> jsval list \<Rightarrow> val_totals \<Rightarrow> nat \<Rightarrow> obj \<Rightarrow> nat \<times> jsval \<Rightarrow> val_loop \<Rightarrow> val_loop" where
  "val_step ns perso config tp labels t i ds p st =
     (let (j, v) = p; ax = axis_index ds; kind = drawn_as tp ds; x = to_number v
      in if v \<noteq> Undef then
           (let cum = vl_cum st ax j + x;
                neighbours = (\<lambda>e. oset ''prevMissing'' (IntV (vl_prevMissing st)) (oset ''prevNotMissing'' (IntV (vl_prev st)) e));
                st1 = st\<lparr> vl_cum := upd2 ax j cum (vl_cum st) \<rparr>;
                st2 = (if is_bar kind then
                         (let e = neighbours (bar_entry ns perso config t ds labels i j x cum);
                              e' = (if num_eq x 0 \<and> kind \<in> {''HorizontalStackedBar'', ''StackedBar''} then oset ''v3'' (Str []) e else e)
                          in st1\<lparr> vl_result := upd2 i j e' (vl_result st1) \<rparr>)
                       else if kind \<in> {''Line'', ''Radar''} then
                         link_lines ns perso config ax i j x
                           (st1\<lparr> vl_result := upd2 i j (neighbours (line_entry ns perso config t ds labels i j x cum)) (vl_result st1) \<rparr>)
                       else st1)
            in st2\<lparr> vl_result := set_next i j (vl_prev st) (vl_result st2), vl_prev := int j \<rparr>)
         else
           (let st1 = st\<lparr> vl_prevMissing := int j \<rparr>
            in if is_bar kind \<or> kind \<in> {''Line'', ''Radar''}
               then st1\<lparr> vl_result := upd2 i j (missing_value t kind ds i j st1) (vl_result st1) \<rparr> else st1))"

definition dataset_step ::
  "(jsnum \<Rightarrow> string) \<Rightarrow> perso \<Rightarrow> obj \<Rightarrow> string \<Rightarrow> jsval list \<Rightarrow> val_totals \<Rightarrow> nat \<times> obj \<Rightarrow> val_loop \<Rightarrow> val_loop" where
  "dataset_step ns perso config tp labels t p st =
     (let (i, ds) = p
      in fold (val_step ns perso config tp labels t i ds) (enumerate 0 (dvalues ds))
           (st\<lparr> vl_prev := - 1, vl_prevMissing := - 1 \<rparr>))"

definition initPassVariableData_values ::
  "(jsnum \<Rightarrow> string) \<Rightarrow> perso \<Rightarrow> obj \<Rightarrow> string \<Rightarrow> jsval list \<Rightarrow> obj list \<Rightarrow> obj list \<times> (nat \<Rightarrow> nat \<Rightarrow> obj)" where
  "initPassVariableData_values ns perso config tp labels datasets =
     (let padded = map (pad_dataset tp labels) datasets; t = value_totals padded
      in (padded,
          vl_result (fold (dataset_step ns perso config tp labels t) (enumerate 0 padded)
            \<lparr> vl_cum = (\<lambda>_ _. 0), vl_prevpos = (\<lambda>_ _. - 1), vl_prev = - 1, vl_prevMissing = - 1, vl_result = (\<lambda>_ _. []) \<rparr>)))"

section \<open>The segments of a circle\<close>

fun fin_val :: "jsnum \<Rightarrow> real" where
  "fin_val (Fin r) = r"
| "fin_val _ = 0"

definition counted_value :: "string \<Rightarrow> obj \<Rightarrow> real" where
  "counted_value tp d = (if counted tp d then fin_val (nvalue d) else 0)"

text \<open>The share of a segment in the circle: equal shares in a polar chart, in proportion otherwise.\<close>

definition seg_share :: "string \<Rightarrow> obj list \<Rightarrow> obj \<Rightarrow> real" where
  "seg_share tp data d =
     (if \<not> counted tp d then 0
      else if tp = ''PolarArea'' then 1 / of_nat (length (filter (counted tp) data))
      else counted_value tp d / sum_list (map (counted_value tp) data))"

definition finite_segments :: "obj list \<Rightarrow> bool" where
  "finite_segments data = (\<forall>d \<in> set data. oget d ''value'' \<noteq> Undef \<longrightarrow> is_fin (nvalue d))"

lemma enumerate_snoc: "enumerate 0 (xs @ [x]) = enumerate 0 xs @ [(length xs, x)]"
  by (simp add: enumerate_append_eq)

lemma segment_totals_sum:
  assumes "finite_segments data"
  shows "sg_total (segment_totals tp data) = Fin (sum_list (map (counted_value tp) data))
     \<and> sg_count (segment_totals tp data) = length (filter (counted tp) data)"
  using assms
proof (induction data rule: rev_induct)
  case Nil
  then show ?case by (simp add: segment_totals_def zero_jsnum_def)
next
  case (snoc d data)
  let ?t = "segment_totals tp data"
  have step: "segment_totals tp (data @ [d]) = seg_total tp (length data, d) ?t"
    by (simp add: segment_totals_def enumerate_snoc)
  have "oget d ''value'' = Undef \<or> (\<exists>x. nvalue d = Fin x)"
    using snoc.prems by (auto simp: finite_segments_def elim: is_finE)
  then show ?case
    using snoc unfolding step
    by (auto simp: seg_total_def Let_def counted_def counted_value_def finite_segments_def not_le zero_jsnum_def)
qed

lemma set_entry_other:
  "key' \<noteq> key \<Longrightarrow> oget (set_entry k key v res ! i) key' = oget (res ! i) key'"
proof (cases "i = nat k")
  case True
  assume "key' \<noteq> key"
  with True show ?thesis
    by (cases "i < length res") (simp_all add: set_entry_def list_update_beyond)
qed (simp add: set_entry_def)

lemma length_set_entry [simp]: "length (set_entry k key v res) = length res"
  by (simp add: set_entry_def)

lemma segment_angle_share:
  assumes "sg_total t = Fin T" "sg_count t = n" "tp = ''PolarArea'' \<or> T \<noteq> 0" "tp \<noteq> ''PolarArea'' \<or> n > 0"
    and "a = (if tp = ''PolarArea'' then 1 / of_nat n else x / T)" "a < 1"
  shows "segment_angle tp t (Fin x) = Fin (2 * pi * a)"
proof -
  have tp: "two_pi = Fin (2 * pi)" by (simp add: two_pi_def PI_def numeral_jsnum)
  have "2 * pi * a < 2 * pi" using assms(6) by simp
  with assms show ?thesis
    by (auto simp: segment_angle_def Let_def tp field_simps)
qed

text \<open>What the loop over the segments has computed after the segments \<open>ds\<close>.\<close>

definition segments_done :: "string \<Rightarrow> obj list \<Rightarrow> real \<Rightarrow> obj list \<Rightarrow> seg_loop \<Rightarrow> bool" where
  "segments_done tp data s ds st =
     (let turn = (\<lambda>ds. s + 2 * pi * sum_list (map (seg_share tp data) ds));
          sum = (\<lambda>ds. sum_list (map (counted_value tp) ds))
      in sl_angle st = Fin (turn ds) \<and> sl_cum st = Fin (sum ds) \<and> length (sl_result st) = length ds
         \<and> (\<forall>i < length ds. counted tp (ds ! i) \<longrightarrow>
              oget (sl_result st ! i) ''startAngle'' = NumF (turn (take i ds))
              \<and> oget (sl_result st ! i) ''endAngle'' = NumF (turn (take (Suc i) ds))
              \<and> oget (sl_result st ! i) ''segmentAngle'' = NumF (2 * pi * seg_share tp data (ds ! i))
              \<and> oget (sl_result st ! i) ''firstAngle'' = NumF s
              \<and> oget (sl_result st ! i) ''cumvalue'' = NumF (sum (take (Suc i) ds))))"

lemma oget_segment_entry:
  "oget (segment_entry ns perso config t sa i d ang cum st) ''startAngle'' = Num (sl_angle st)"
  "oget (segment_entry ns perso config t sa i d ang cum st) ''endAngle'' = Num (sl_angle st + ang)"
  "oget (segment_entry ns perso config t sa i d ang cum st) ''segmentAngle'' = Num ang"
  "oget (segment_entry ns perso config t sa i d ang cum st) ''cumvalue'' = Num cum"
  "oget (segment_entry ns perso config t sa i d ang cum st) ''totvalue'' = Num (sg_total t)"
  "oget (segment_entry ns perso config t sa i d ang cum st) ''firstAngle'' = Num sa"
  "oget (segment_entry ns perso config t sa i d ang cum st) ''pctvalue'' = Num (100 * nvalue d / sg_total t)"
  unfolding segment_entry_def Let_def oget_obj_literal by (simp_all del: numeral_jsnum)

lemma segments_done_snoc:
  assumes "segments_done tp data s ds st" "counted tp d \<Longrightarrow> nvalue d = Fin x"
    and "counted tp d \<Longrightarrow> segment_angle tp t (Fin x) = Fin (2 * pi * seg_share tp data d)"
  shows "segments_done tp data s (ds @ [d]) (seg_step ns perso config tp t (Fin s) (length ds, d) st)"
proof -
  define st' where "st' = seg_step ns perso config tp t (Fin s) (length ds, d) st"
  let ?ang = "segment_angle tp t (nvalue d)" and ?cum = "sl_cum st + nvalue d"
  define entry where "entry = (if counted tp d then segment_entry ns perso config t (Fin s) (length ds) d ?ang ?cum st
      else missing_segment t (length ds) d st)"
  have len: "length (sl_result st) = length ds" using assms(1) by (simp add: segments_done_def Let_def)
  have res: "oget (sl_result st' ! i) key = oget ((sl_result st @ [entry]) ! i) key" if "key \<noteq> ''nextNotMissing''" for i key
    using that by (simp add: st'_def seg_step_def Let_def entry_def set_entry_other)
  have len': "length (sl_result st') = Suc (length ds)"
    using len by (simp add: st'_def seg_step_def Let_def)
  have sums: "sl_angle st' = Fin (s + 2 * pi * sum_list (map (seg_share tp data) (ds @ [d])))"
      "sl_cum st' = Fin (sum_list (map (counted_value tp) (ds @ [d])))"
    using assms by (auto simp: segments_done_def Let_def st'_def seg_step_def seg_share_def counted_value_def algebra_simps)
  have new: "oget entry ''startAngle'' = Num (sl_angle st)" "oget entry ''endAngle'' = Num (sl_angle st')"
      "oget entry ''segmentAngle'' = NumF (2 * pi * seg_share tp data d)" "oget entry ''cumvalue'' = Num (sl_cum st')"
      "oget entry ''firstAngle'' = NumF s"
    if "counted tp d"
    using that assms(2,3) by (simp_all add: entry_def oget_segment_entry st'_def seg_step_def Let_def)
  have "segments_done tp data s (ds @ [d]) st'"
    unfolding segments_done_def Let_def
  proof (intro conjI allI impI)
    fix i assume "i < length (ds @ [d])" "counted tp ((ds @ [d]) ! i)"
    then consider "i < length ds" "counted tp (ds ! i)" | "i = length ds" "counted tp d"
      by (auto simp: nth_append less_Suc_eq)
    then have "oget (sl_result st' ! i) ''startAngle'' = NumF (s + 2 * pi * sum_list (map (seg_share tp data) (take i (ds @ [d]))))
        \<and> oget (sl_result st' ! i) ''endAngle'' = NumF (s + 2 * pi * sum_list (map (seg_share tp data) (take (Suc i) (ds @ [d]))))
        \<and> oget (sl_result st' ! i) ''segmentAngle'' = NumF (2 * pi * seg_share tp data ((ds @ [d]) ! i))
        \<and> oget (sl_result st' ! i) ''firstAngle'' = NumF s
        \<and> oget (sl_result st' ! i) ''cumvalue'' = NumF (sum_list (map (counted_value tp) (take (Suc i) (ds @ [d]))))"
      using assms(1) len new sums by cases (simp_all add: res nth_append segments_done_def Let_def)
    then show "oget (sl_result st' ! i) ''startAngle'' = NumF (s + 2 * pi * sum_list (map (seg_share tp data) (take i (ds @ [d]))))"
      "oget (sl_result st' ! i) ''endAngle'' = NumF (s + 2 * pi * sum_list (map (seg_share tp data) (take (Suc i) (ds @ [d]))))"
      "oget (sl_result st' ! i) ''segmentAngle'' = NumF (2 * pi * seg_share tp data ((ds @ [d]) ! i))"
      "oget (sl_result st' ! i) ''firstAngle'' = NumF s"
      "oget (sl_result st' ! i) ''cumvalue'' = NumF (sum_list (map (counted_value tp) (take (Suc i) (ds @ [d]))))"
      by blast+
  qed (use sums len' in simp_all)
  then show ?thesis by (simp add: st'_def)
qed


lemma js_mod_positive:
  assumes "0 < b"
  shows "\<exists>r. js_mod (Fin a) (Fin b) = Fin r \<and> - b < r \<and> r < b \<and> (0 \<le> a \<longrightarrow> 0 \<le> r)"
proof -
  let ?q = "a / b"
  have "a - b * trunc ?q = b * (?q - trunc ?q)" using assms by (simp add: field_simps)
  moreover have "- 1 < ?q - trunc ?q \<and> ?q - trunc ?q < 1 \<and> (0 \<le> ?q \<longrightarrow> 0 \<le> ?q - trunc ?q)"
    unfolding trunc_def by (simp split: if_splits) linarith
  ultimately have "- b < a - b * trunc ?q \<and> a - b * trunc ?q < b \<and> (0 \<le> a \<longrightarrow> 0 \<le> a - b * trunc ?q)"
    using assms by (metis (no_types, opaque_lifting) divide_nonneg_pos mult.right_neutral mult_less_cancel_left_pos
        mult_minus_right mult_nonneg_nonneg less_imp_le)
  with assms show ?thesis by simp
qed

lemma start_angle_range: "\<exists>s. start_angle (Fin deg) = Fin s \<and> 0 \<le> s \<and> s < 2 * pi"
proof -
  have tp: "2 * PI = Fin (2 * pi)" by (simp add: PI_def)
  obtain r where r: "js_mod (Fin (deg * (pi / 180) + 2 * pi)) (Fin (2 * pi)) = Fin r" "- (2 * pi) < r"
    using js_mod_positive [of "2 * pi"] by fastforce
  obtain s where "js_mod (Fin (r + 2 * pi)) (Fin (2 * pi)) = Fin s" "s < 2 * pi" "0 \<le> s"
    using js_mod_positive [of "2 * pi" "r + 2 * pi"] r(2) by fastforce
  with r(1) show ?thesis
    unfolding start_angle_def tp by (simp add: PI_def del: js_mod.simps)
qed

lemma shares_sum:
  assumes "\<exists>d \<in> set data. counted tp d" "tp = ''PolarArea'' \<or> 0 < sum_list (map (counted_value tp) data)"
  shows "sum_list (map (seg_share tp data) data) = 1"
proof (cases "tp = ''PolarArea''")
  case True
  let ?n = "length (filter (counted tp) data)"
  have "sum_list (map (\<lambda>d. if counted tp d then c else 0) ds) = of_nat (length (filter (counted tp) ds)) * c" for c :: real and ds
    by (induction ds) (simp_all add: algebra_simps)
  moreover have "seg_share tp data = (\<lambda>d. if counted tp d then 1 / of_nat ?n else 0)"
    using True by (auto simp: seg_share_def fun_eq_iff)
  moreover have "?n \<noteq> 0" using assms(1) by (auto simp: filter_empty_conv)
  ultimately show ?thesis by simp
next
  case False
  let ?T = "sum_list (map (counted_value tp) data)"
  have "seg_share tp data = (\<lambda>d. counted_value tp d / ?T)"
    using False by (auto simp: seg_share_def counted_value_def fun_eq_iff)
  moreover have "sum_list (map (\<lambda>d. counted_value tp d / c) ds) = sum_list (map (counted_value tp) ds) / c" for c ds
    by (induction ds) (simp_all add: add_divide_distrib)
  ultimately show ?thesis using assms(2) False by simp
qed

lemma segments_computed:
  assumes "finite_segments data" "tp = ''PolarArea'' \<or> 0 < sum_list (map (counted_value tp) data)"
    and "\<forall>d \<in> set data. seg_share tp data d < 1" "set ds \<subseteq> set data"
  shows "segments_done tp data s ds
     (fold (seg_step ns perso config tp (segment_totals tp data) (Fin s)) (enumerate 0 ds)
        \<lparr> sl_cum = 0, sl_angle = Fin s, sl_real = r, sl_prev = - 1, sl_prevMissing = - 1, sl_result = [] \<rparr>)"
  using assms(4)
proof (induction ds rule: rev_induct)
  case Nil
  show ?case by (simp add: segments_done_def zero_jsnum_def)
next
  case (snoc d ds)
  note tot = segment_totals_sum [OF assms(1), of tp]
  have d: "d \<in> set data" using snoc.prems by simp
  have "oget d ''value'' \<noteq> Undef \<longrightarrow> is_fin (nvalue d)" using assms(1) d by (simp add: finite_segments_def)
  then obtain x where x: "counted tp d \<Longrightarrow> nvalue d = Fin x" by (auto simp: counted_def elim: is_finE)
  have "segment_angle tp (segment_totals tp data) (Fin x) = Fin (2 * pi * seg_share tp data d)" if "counted tp d"
  proof (rule segment_angle_share [OF conjunct1 [OF tot] conjunct2 [OF tot]])
    show "tp \<noteq> ''PolarArea'' \<or> 0 < length (filter (counted tp) data)" using that d by (auto simp: filter_empty_conv)
  qed (use assms(2,3) d that x in \<open>auto simp: seg_share_def counted_value_def\<close>)
  with snoc x show ?case
    by (auto simp: enumerate_snoc intro: segments_done_snoc)
qed

lemma segments_placed:
  assumes "finite_segments data" "\<exists>d \<in> set data. counted tp d" "tp = ''PolarArea'' \<or> 0 < sum_list (map (counted_value tp) data)"
    and "\<forall>d \<in> set data. seg_share tp data d < 1" "to_number (oget config ''startAngle'') = Fin deg"
    and "res = initPassVariableData_segments ns perso config tp data"
  shows "\<exists>s st. 0 \<le> s \<and> s < 2 * pi \<and> sum_list (map (seg_share tp data) data) = 1 \<and> segments_done tp data s data st \<and> res = sl_result st"
proof -
  obtain s where s: "start_angle (Fin (- deg)) = Fin s" "0 \<le> s" "s < 2 * pi" using start_angle_range by blast
  let ?st = "fold (seg_step ns perso config tp (segment_totals tp data) (Fin s)) (enumerate 0 data)
        \<lparr> sl_cum = 0, sl_angle = Fin s, sl_real = start_angle (Fin deg), sl_prev = - 1, sl_prevMissing = - 1, sl_result = [] \<rparr>"
  have "segments_done tp data s data ?st" by (rule segments_computed [OF assms(1,3,4) subset_refl])
  moreover have "res = sl_result ?st" using assms(5,6) s(1) by (simp add: initPassVariableData_segments_def Let_def)
  ultimately show ?thesis using s(2,3) shares_sum [OF assms(2,3)] by blast
qed

text \<open>C22: The segments of a pie, doughnut or polar chart fill the circle: the first one starts at the start
  angle of the options, each segment starts where the one before ends and takes its share of the
  circle (of the number of segments in a polar chart, of the total of the values otherwise), the
  shares add up to one, and the cumulated values end at the total.\<close>

theorem segments_fill_circle:
  assumes "finite_segments data" "\<exists>d \<in> set data. counted tp d" "tp = ''PolarArea'' \<or> 0 < sum_list (map (counted_value tp) data)"
    and "\<forall>d \<in> set data. seg_share tp data d < 1" "to_number (oget config ''startAngle'') = Fin deg"
    and "res = initPassVariableData_segments ns perso config tp data"
  shows "\<exists>s. 0 \<le> s \<and> s < 2 * pi \<and> length res = length data \<and> sum_list (map (seg_share tp data) data) = 1
     \<and> (\<forall>i < length data. counted tp (data ! i) \<longrightarrow>
          oget (res ! i) ''startAngle'' = NumF (s + 2 * pi * sum_list (map (seg_share tp data) (take i data)))
          \<and> oget (res ! i) ''endAngle'' = NumF (s + 2 * pi * sum_list (map (seg_share tp data) (take (Suc i) data)))
          \<and> oget (res ! i) ''cumvalue'' = NumF (sum_list (map (counted_value tp) (take (Suc i) data))))"
  using segments_placed [OF assms] by (auto simp: segments_done_def Let_def)

definition pie_data :: "obj list" where
  "pie_data = [[(''value'', NumF 30)], [(''title'', Str ''gap'')], [(''value'', NumF 10)]]"

theorem segments_fill_circle_witness:
  "oget (initPassVariableData_segments (\<lambda>_. []) (\<lambda>_ v _. v) [(''startAngle'', NumF 0)] ''Pie'' pie_data ! 2) ''cumvalue'' = NumF 40"
proof -
  have "finite_segments pie_data" "\<exists>d \<in> set pie_data. counted ''Pie'' d"
      "''Pie'' = ''PolarArea'' \<or> 0 < sum_list (map (counted_value ''Pie'') pie_data)"
      "\<forall>d \<in> set pie_data. seg_share ''Pie'' pie_data d < 1" "to_number (oget [(''startAngle'', NumF 0)] ''startAngle'') = Fin 0"
    by (simp_all add: pie_data_def finite_segments_def counted_def counted_value_def seg_share_def zero_jsnum_def)
  from segments_fill_circle [OF this refl, of "\<lambda>_. []" "\<lambda>_ v _. v"] show ?thesis
    by (auto simp: pie_data_def counted_def counted_value_def zero_jsnum_def dest!: spec [of _ "2 :: nat"])
qed

section \<open>Totals and percentages of the values\<close>

definition cell :: "nat \<Rightarrow> nat \<Rightarrow> obj \<Rightarrow> real" where
  "cell a j ds = (if axis_index ds = a \<and> aget (dvalues ds) j \<noteq> Undef then fin_val (to_number (aget (dvalues ds) j)) else 0)"

definition column :: "nat \<Rightarrow> nat \<Rightarrow> obj list \<Rightarrow> real" where
  "column a j datasets = sum_list (map (cell a j) datasets)"

definition finite_dataset :: "obj \<Rightarrow> bool" where
  "finite_dataset ds = (\<forall>v \<in> set (dvalues ds). v \<noteq> Undef \<longrightarrow> is_fin (to_number v))"

lemma finite_dataset_cell: "finite_dataset ds \<Longrightarrow> aget (dvalues ds) j \<noteq> Undef \<Longrightarrow> \<exists>x. to_number (aget (dvalues ds) j) = Fin x"
  by (auto simp: finite_dataset_def aget_def elim!: is_finE split: if_splits)

lemma upd2_apply [simp]: "upd2 x y v f a b = (if a = x \<and> b = y then v else f a b)"
  by (simp add: upd2_def)

lemma val_total_tot:
  "vt_tot (val_total ax i (j, v) t) a k =
     (if v \<noteq> Undef \<and> a = ax \<and> k = j then vt_tot t ax j + to_number v else vt_tot t a k)"
  by (simp add: val_total_def Let_def)

lemma fold_val_total_tot:
  "vt_tot (fold (val_total ax i) (enumerate 0 vs) t) a k =
     (if a = ax \<and> aget vs k \<noteq> Undef then vt_tot t ax k + to_number (aget vs k) else vt_tot t a k)"
proof (induction vs rule: rev_induct)
  case (snoc v vs)
  then show ?case
    by (auto simp: enumerate_snoc val_total_tot aget_def nth_append less_Suc_eq)
qed (simp add: aget_def)

lemma dataset_total_tot:
  assumes "finite_dataset ds" "\<And>a k. vt_tot t a k = Fin (f a k)"
  shows "vt_tot (dataset_total (i, ds) t) a k = Fin (f a k + cell a k ds)"
proof -
  show ?thesis
    using assms(2) finite_dataset_cell [OF assms(1), of k] by (auto simp: dataset_total_def fold_val_total_tot cell_def)
qed

lemma value_totals_tot:
  assumes "\<forall>ds \<in> set datasets. finite_dataset ds"
  shows "vt_tot (value_totals datasets) a k = Fin (column a k datasets)"
  using assms unfolding value_totals_def
proof (induction datasets arbitrary: a k rule: rev_induct)
  case Nil
  then show ?case by (simp add: no_totals_def column_def zero_jsnum_def)
next
  case (snoc ds datasets)
  then show ?case
    by (simp add: enumerate_snoc dataset_total_tot [where f = "\<lambda>a k. column a k datasets"] column_def)
qed

text \<open>The properties of an entry that no later step changes.\<close>

definition stable :: "string \<Rightarrow> bool" where
  "stable key = (key \<notin> {''nextNotMissing'', ''diffnext'', ''diffprev'', ''v3'', ''v4'', ''v5''})"

definition value_kind :: "string \<Rightarrow> bool" where
  "value_kind k = (is_bar k \<or> k \<in> {''Line'', ''Radar''})"

lemma stable_keys: "stable ''cumvalue''" "stable ''pctvalue''" "stable ''datavalue''" "stable ''totvalue''"
  by (simp_all add: stable_def)

lemma link_lines_stable: "stable key \<Longrightarrow> oget (vl_result (link_lines ns perso config ax i j x st) i' j') key = oget (vl_result st i' j') key"
  by (auto simp: link_lines_def Let_def stable_def)

lemma link_lines_cum: "vl_cum (link_lines ns perso config ax i j x st) = vl_cum st"
  by (simp add: link_lines_def Let_def)

lemma set_next_stable: "stable key \<Longrightarrow> oget (set_next i j k res i' j') key = oget (res i' j') key"
  by (auto simp: set_next_def stable_def)

lemma val_step_frame:
  assumes "stable key" "i' \<noteq> i \<or> j' \<noteq> j"
  shows "oget (vl_result (val_step ns perso config tp labels t i ds (j, v) st) i' j') key = oget (vl_result st i' j') key"
  using assms by (auto simp: val_step_def Let_def set_next_stable link_lines_stable)

lemma val_step_cum:
  "vl_cum (val_step ns perso config tp labels t i ds (j, v) st) =
     (if v \<noteq> Undef then upd2 (axis_index ds) j (vl_cum st (axis_index ds) j + to_number v) (vl_cum st) else vl_cum st)"
  by (simp add: val_step_def Let_def link_lines_cum)

lemma oget_entries:
  "oget (bar_entry ns perso config t ds labels i j x cum) ''cumvalue'' = Num cum"
  "oget (line_entry ns perso config t ds labels i j x cum) ''cumvalue'' = Num cum"
  "oget (bar_entry ns perso config t ds labels i j x cum) ''pctvalue'' = Num (100 * x / vt_tot t (axis_index ds) j)"
  "oget (line_entry ns perso config t ds labels i j x cum) ''pctvalue'' = Num (100 * x / vt_tot t (axis_index ds) j)"
  unfolding bar_entry_def line_entry_def value_common_def Let_def oget_obj_literal
  by (simp_all del: numeral_jsnum)

lemma val_step_entry:
  assumes "v \<noteq> Undef" "value_kind (drawn_as tp ds)"
  shows "oget (vl_result (val_step ns perso config tp labels t i ds (j, v) st) i j) ''cumvalue''
           = Num (vl_cum st (axis_index ds) j + to_number v)"
    "oget (vl_result (val_step ns perso config tp labels t i ds (j, v) st) i j) ''pctvalue''
           = Num (100 * to_number v / vt_tot t (axis_index ds) j)"
  using assms
  by (auto simp: val_step_def Let_def set_next_stable link_lines_stable stable_keys oget_entries value_kind_def
      simp del: numeral_jsnum)

text \<open>One data set.\<close>

lemma dataset_step_effect:
  assumes "value_kind (drawn_as tp ds)" "st' = dataset_step ns perso config tp labels t (i, ds) st"
  shows "vl_cum st' a k = (if a = axis_index ds \<and> aget (dvalues ds) k \<noteq> Undef
           then vl_cum st a k + to_number (aget (dvalues ds) k) else vl_cum st a k)"
    and "i' \<noteq> i \<Longrightarrow> stable key \<Longrightarrow> oget (vl_result st' i' j') key = oget (vl_result st i' j') key"
    and "aget (dvalues ds) j \<noteq> Undef \<Longrightarrow>
           oget (vl_result st' i j) ''cumvalue'' = Num (vl_cum st (axis_index ds) j + to_number (aget (dvalues ds) j))
           \<and> oget (vl_result st' i j) ''pctvalue'' = Num (100 * to_number (aget (dvalues ds) j) / vt_tot t (axis_index ds) j)"
proof -
  define go where "go vs = fold (val_step ns perso config tp labels t i ds) (enumerate 0 vs) (st\<lparr> vl_prev := - 1, vl_prevMissing := - 1 \<rparr>)" for vs
  have st': "st' = go (dvalues ds)" using assms(2) by (simp add: dataset_step_def go_def)
  have go_snoc: "go (vs @ [v]) = val_step ns perso config tp labels t i ds (length vs, v) (go vs)" for vs v
    by (simp add: go_def enumerate_snoc)
  have cum: "vl_cum (go vs) a k = (if a = axis_index ds \<and> aget vs k \<noteq> Undef then vl_cum st a k + to_number (aget vs k)
      else vl_cum st a k)" for vs a k
  proof (induction vs rule: rev_induct)
    case (snoc v vs)
    then show ?case by (auto simp: go_snoc val_step_cum aget_def nth_append less_Suc_eq)
  qed (simp add: go_def aget_def)
  then show "vl_cum st' a k = (if a = axis_index ds \<and> aget (dvalues ds) k \<noteq> Undef
      then vl_cum st a k + to_number (aget (dvalues ds) k) else vl_cum st a k)" by (simp add: st')
  have "oget (vl_result (go vs) i' j') key = oget (vl_result st i' j') key" if "i' \<noteq> i" "stable key" for vs i' j' key
    by (induction vs rule: rev_induct) (use that in \<open>simp_all add: go_snoc val_step_frame go_def [of "[]"]\<close>)
  then show "i' \<noteq> i \<Longrightarrow> stable key \<Longrightarrow> oget (vl_result st' i' j') key = oget (vl_result st i' j') key"
    by (simp add: st')
  have "aget vs j \<noteq> Undef \<Longrightarrow>
      oget (vl_result (go vs) i j) ''cumvalue'' = Num (vl_cum st (axis_index ds) j + to_number (aget vs j))
      \<and> oget (vl_result (go vs) i j) ''pctvalue'' = Num (100 * to_number (aget vs j) / vt_tot t (axis_index ds) j)" for vs
  proof (induction vs rule: rev_induct)
    case (snoc v vs)
    show ?case
    proof (cases "j = length vs")
      case True
      with snoc.prems assms(1) show ?thesis
        by (simp add: go_snoc val_step_entry cum aget_def)
    next
      case False
      with snoc.prems have "aget vs j \<noteq> Undef" "aget (vs @ [v]) j = aget vs j" by (auto simp: aget_def nth_append split: if_splits)
      with snoc.IH False show ?thesis by (simp add: go_snoc val_step_frame stable_keys)
    qed
  qed (simp add: aget_def)
  then show "aget (dvalues ds) j \<noteq> Undef \<Longrightarrow>
      oget (vl_result st' i j) ''cumvalue'' = Num (vl_cum st (axis_index ds) j + to_number (aget (dvalues ds) j))
      \<and> oget (vl_result st' i j) ''pctvalue'' = Num (100 * to_number (aget (dvalues ds) j) / vt_tot t (axis_index ds) j)"
    by (simp add: st')
qed

text \<open>Filling a data set up changes none of its values.\<close>

lemma aget_pad [simp]: "aget (vs @ replicate n Undef) j = aget vs j"
  by (auto simp: aget_def nth_append)

lemma pad_dataset_same:
  "aget (dvalues (pad_dataset tp labels ds)) j = aget (dvalues ds) j" "axis_index (pad_dataset tp labels ds) = axis_index ds"
  "drawn_as tp (pad_dataset tp labels ds) = drawn_as tp ds" "cell a j (pad_dataset tp labels ds) = cell a j ds"
  "finite_dataset ds \<Longrightarrow> finite_dataset (pad_dataset tp labels ds)"
proof -
  show v: "aget (dvalues (pad_dataset tp labels ds)) j = aget (dvalues ds) j" for j
    unfolding dvalues_def [of "pad_dataset tp labels ds"] by (simp add: pad_dataset_def Let_def)
  show ax: "axis_index (pad_dataset tp labels ds) = axis_index ds" by (simp add: axis_index_def pad_dataset_def Let_def)
  show "drawn_as tp (pad_dataset tp labels ds) = drawn_as tp ds" by (simp add: drawn_as_def pad_dataset_def Let_def)
  show "cell a j (pad_dataset tp labels ds) = cell a j ds" by (simp add: cell_def v ax)
  show "finite_dataset (pad_dataset tp labels ds)" if "finite_dataset ds"
    using that unfolding finite_dataset_def dvalues_def [of "pad_dataset tp labels ds"] by (auto simp: pad_dataset_def Let_def)
qed

lemma column_pad: "column a j (map (pad_dataset tp labels) datasets) = column a j datasets"
  by (simp add: column_def comp_def pad_dataset_same)

text \<open>All data sets: the cumulated values and the percentages.\<close>

lemma values_computed:
  assumes "\<forall>ds \<in> set datasets. finite_dataset ds \<and> value_kind (drawn_as tp ds)"
    and "st = fold (dataset_step ns perso config tp labels t) (enumerate 0 datasets)
      \<lparr> vl_cum = (\<lambda>_ _. 0), vl_prevpos = (\<lambda>_ _. - 1), vl_prev = - 1, vl_prevMissing = - 1, vl_result = (\<lambda>_ _. []) \<rparr>"
  shows "(\<forall>a k. vl_cum st a k = Fin (column a k datasets))
     \<and> (\<forall>i j. i < length datasets \<and> aget (dvalues (datasets ! i)) j \<noteq> Undef \<longrightarrow>
          oget (vl_result st i j) ''cumvalue'' = NumF (column (axis_index (datasets ! i)) j (take (Suc i) datasets))
          \<and> oget (vl_result st i j) ''pctvalue''
              = Num (100 * to_number (aget (dvalues (datasets ! i)) j) / vt_tot t (axis_index (datasets ! i)) j))"
  using assms
proof (induction datasets arbitrary: st rule: rev_induct)
  case Nil
  then show ?case by (simp add: column_def zero_jsnum_def)
next
  case (snoc ds datasets)
  define st0 where "st0 = fold (dataset_step ns perso config tp labels t) (enumerate 0 datasets)
      \<lparr> vl_cum = (\<lambda>_ _. 0), vl_prevpos = (\<lambda>_ _. - 1), vl_prev = - 1, vl_prevMissing = - 1, vl_result = (\<lambda>_ _. []) \<rparr>"
  have st: "st = dataset_step ns perso config tp labels t (length datasets, ds) st0"
    using snoc.prems(2) by (simp add: enumerate_snoc st0_def)
  have k: "value_kind (drawn_as tp ds)" and f: "finite_dataset ds" using snoc.prems(1) by simp_all
  note IH = snoc.IH [OF _ st0_def] and step = dataset_step_effect [OF k st]
  have IHc: "vl_cum st0 a j = Fin (column a j datasets)" for a j using IH snoc.prems(1) by simp
  note fin = finite_dataset_cell [OF f]
  have cum: "vl_cum st a j = Fin (column a j (datasets @ [ds]))" for a j
    using fin [of j] by (auto simp: step(1) IHc column_def cell_def)
  have "oget (vl_result st i j) ''cumvalue'' = NumF (column (axis_index ((datasets @ [ds]) ! i)) j (take (Suc i) (datasets @ [ds])))
      \<and> oget (vl_result st i j) ''pctvalue''
          = Num (100 * to_number (aget (dvalues ((datasets @ [ds]) ! i)) j) / vt_tot t (axis_index ((datasets @ [ds]) ! i)) j)"
    if "i < length (datasets @ [ds])" "aget (dvalues ((datasets @ [ds]) ! i)) j \<noteq> Undef" for i j
  proof (cases "i = length datasets")
    case True
    with that(2) fin [of j] step(3) [of j] show ?thesis
      by (auto simp: IHc column_def cell_def simp del: numeral_jsnum)
  next
    case False
    with that IH snoc.prems(1) show ?thesis
      by (simp add: step(2) stable_keys nth_append del: numeral_jsnum)
  qed
  with cum show ?case by blast
qed

text \<open>For bar, line and radar charts the cumulated value of an entry is the sum of the data sets up to it
  on the same axis, and the percentages of all values at a position of an axis add up to 100 when
  their total is not zero; filling short data sets up with missing values changes neither.\<close>

theorem percentages_add_up:
  assumes "\<forall>ds \<in> set datasets. finite_dataset ds \<and> value_kind (drawn_as tp ds)" "column a j datasets \<noteq> 0"
    and "(padded, res) = initPassVariableData_values ns perso config tp labels datasets"
  shows "sum_list (map (\<lambda>i. if axis_index (datasets ! i) = a \<and> aget (dvalues (datasets ! i)) j \<noteq> Undef
             then fin_val (to_number (oget (res i j) ''pctvalue'')) else 0) [0..<length datasets]) = 100
     \<and> (\<forall>i < length datasets. axis_index (datasets ! i) = a \<and> aget (dvalues (datasets ! i)) j \<noteq> Undef \<longrightarrow>
          oget (res i j) ''cumvalue'' = NumF (column a j (take (Suc i) datasets)))"
proof -
  let ?pad = "map (pad_dataset tp labels) datasets"
  have ok: "\<forall>ds \<in> set ?pad. finite_dataset ds \<and> value_kind (drawn_as tp ds)"
    using assms(1) by (simp add: pad_dataset_same)
  define t where "t = value_totals ?pad"
  have tot: "vt_tot t a k = Fin (column a k datasets)" for k
    using value_totals_tot [of ?pad a k] ok by (simp add: t_def column_pad)
  define st where "st = fold (dataset_step ns perso config tp labels t) (enumerate 0 ?pad)
      \<lparr> vl_cum = (\<lambda>_ _. 0), vl_prevpos = (\<lambda>_ _. - 1), vl_prev = - 1, vl_prevMissing = - 1, vl_result = (\<lambda>_ _. []) \<rparr>"
  have res: "res = vl_result st"
    using assms(3) by (simp add: initPassVariableData_values_def Let_def st_def t_def)
  have entry: "oget (res i j) ''cumvalue'' = NumF (column a j (take (Suc i) datasets))
      \<and> fin_val (to_number (oget (res i j) ''pctvalue'')) = 100 * cell a j (datasets ! i) / column a j datasets"
    if "i < length datasets" "axis_index (datasets ! i) = a" "aget (dvalues (datasets ! i)) j \<noteq> Undef" for i
  proof -
    have "finite_dataset (datasets ! i)" using assms(1) that(1) by simp
    from finite_dataset_cell [OF this that(3)]
    obtain x where x: "to_number (aget (dvalues (datasets ! i)) j) = Fin x" ..
    have "oget (res i j) ''cumvalue'' = NumF (column a j (take (Suc i) ?pad))"
        "oget (res i j) ''pctvalue'' = Num (100 * Fin x / Fin (column a j datasets))"
      using values_computed [OF ok st_def] that x tot [of j] by (simp_all add: pad_dataset_same res del: numeral_jsnum)
    moreover have "column a j (take (Suc i) ?pad) = column a j (take (Suc i) datasets)"
      using column_pad [of a j tp labels "take (Suc i) datasets"] by (simp add: take_map)
    ultimately show ?thesis using that x assms(2) by (simp add: cell_def)
  qed
  have "(\<lambda>i. if axis_index (datasets ! i) = a \<and> aget (dvalues (datasets ! i)) j \<noteq> Undef
             then fin_val (to_number (oget (res i j) ''pctvalue'')) else 0) i
      = 100 / column a j datasets * cell a j (datasets ! i)" if "i < length datasets" for i
    using that entry [of i] by (auto simp: cell_def)
  then have "sum_list (map (\<lambda>i. if axis_index (datasets ! i) = a \<and> aget (dvalues (datasets ! i)) j \<noteq> Undef
             then fin_val (to_number (oget (res i j) ''pctvalue'')) else 0) [0..<length datasets])
      = sum_list (map (\<lambda>i. 100 / column a j datasets * cell a j (datasets ! i)) [0..<length datasets])"
    by (intro arg_cong [where f = sum_list] map_cong) auto
  also have "\<dots> = 100 / column a j datasets * sum_list (map (\<lambda>i. cell a j (datasets ! i)) [0..<length datasets])"
    by (rule sum_list_const_mult)
  also have "map (\<lambda>i. cell a j (datasets ! i)) [0..<length datasets] = map (cell a j) datasets"
    by (rule nth_equalityI) simp_all
  finally show ?thesis
    using assms(2) entry by (simp add: column_def)
qed

definition bar_data :: "obj list" where
  "bar_data = [[(''data'', Arr [NumF 1, NumF 6])], [(''data'', Arr [NumF 3])]]"

theorem percentages_add_up_witness:
  "let res = snd (initPassVariableData_values (\<lambda>_. []) (\<lambda>_ v _. v) [] ''StackedBar'' [Str ''a'', Str ''b''] bar_data)
   in oget (res 1 0) ''cumvalue'' = NumF 4
      \<and> fin_val (to_number (oget (res 0 0) ''pctvalue'')) + fin_val (to_number (oget (res 1 0) ''pctvalue'')) = 100"
proof -
  have *: "\<forall>ds \<in> set bar_data. finite_dataset ds \<and> value_kind (drawn_as ''StackedBar'' ds)" "column 1 0 bar_data \<noteq> 0"
    by (simp_all add: bar_data_def finite_dataset_def dvalues_def value_kind_def drawn_as_def tpdraw_def column_def
        cell_def axis_index_def aget_def)
  from percentages_add_up [OF *, of _ _ "\<lambda>_. []" "\<lambda>_ v _. v" "[]" "[Str ''a'', Str ''b'']", OF surjective_pairing [symmetric]]
  show ?thesis
    by (auto simp: Let_def bar_data_def dvalues_def column_def cell_def axis_index_def aget_def dest!: spec [of _ "1 :: nat"])
qed

end
