(* ===== verification/StatPositions.thy ===== *)
theory StatPositions
  imports StatData
begin

text \<open>
  \<open>initPassVariableData_part2\<close>: the positions at which segments, points and bars are drawn, from the
  measures the chart has computed (\<open>othervars\<close>) and its scale.  The functions extend the entries
  that \<open>initPassVariableData_part1\<close> made.
\<close>

record othervars =
  ov_midPosX :: jsnum
  ov_midPosY :: jsnum
  ov_int_radius :: jsnum
  ov_ext_radius :: jsnum
  ov_maxSize :: jsnum
  ov_xAxisPosY :: jsnum
  ov_yAxisPosX :: jsnum
  ov_valueHop :: jsnum
  ov_nbValueHop :: jsnum
  ov_barWidth :: jsnum
  ov_availableHeight :: jsnum
  ov_scale :: scale
  ov_scaleHop :: jsnum
  ov_zeroY :: jsnum
  ov_logarithmic :: jsval
  ov_scale2 :: scale
  ov_scaleHop2 :: jsnum
  ov_zeroY2 :: jsnum
  ov_logarithmic2 :: jsval

text \<open>The scales of a context and \<open>Math.ceil(ctx.chartSpaceScale * config.key)\<close>.\<close>

record ctx_scales =
  sc_space :: jsnum
  sc_line :: jsnum

definition scaled :: "jsnum \<Rightarrow> obj \<Rightarrow> string \<Rightarrow> jsnum" where
  "scaled s config key = math_ceil (s * to_number (oget config key))"

definition num_at :: "obj \<Rightarrow> string \<Rightarrow> jsnum" where
  "num_at e key = to_number (oget e key)"

section \<open>Segments\<close>

definition place_segment ::
  "(jsnum \<Rightarrow> jsnum) \<Rightarrow> (jsnum \<Rightarrow> string) \<Rightarrow> perso \<Rightarrow> obj \<Rightarrow> string \<Rightarrow> othervars \<Rightarrow> obj \<Rightarrow> obj \<Rightarrow> obj" where
  "place_segment lg ns perso config tp ov d e =
     (let fmt = fmt_by ns perso config;
          radius = (if tp = ''PolarArea'' then calculateOffset lg (oget config ''logarithmic'') (nvalue d) (ov_scale ov) (ov_scaleHop ov)
                    else ov_ext_radius ov)
      in copy_attrs e
        [(''v7'', fmt ''fmtV7'' (Num (ov_midPosX ov))), (''v8'', fmt ''fmtV8'' (Num (ov_midPosY ov))),
         (''v9'', fmt ''fmtV9'' (Num (ov_int_radius ov))), (''v10'', fmt ''fmtV10'' (Num radius)), (''radiusOffset'', Num radius),
         (''midPosX'', Num (ov_midPosX ov)), (''midPosY'', Num (ov_midPosY ov)), (''int_radius'', Num (ov_int_radius ov)),
         (''ext_radius'', Num (ov_ext_radius ov))])"

definition initPassVariableData_part2_segments ::
  "(jsnum \<Rightarrow> jsnum) \<Rightarrow> (jsnum \<Rightarrow> string) \<Rightarrow> perso \<Rightarrow> obj \<Rightarrow> string \<Rightarrow> othervars \<Rightarrow> obj list \<Rightarrow> obj list \<Rightarrow> obj list" where
  "initPassVariableData_part2_segments lg ns perso config tp ov data statData =
     map2 (place_segment lg ns perso config tp ov) data statData"

section \<open>Points of a line\<close>

text \<open>
  The horizontal position of a value: by its own \<open>xPos\<close> between \<open>xBegin\<close> and \<open>xEnd\<close> (or the first and
  the last label), else by its index.  The recursive call for a position between two values leaves out
  the position of the axis, so its result is NaN.
\<close>

definition xPos :: "obj \<Rightarrow> obj \<Rightarrow> jsval list \<Rightarrow> obj \<Rightarrow> nat \<Rightarrow> jsnum \<Rightarrow> jsnum \<Rightarrow> jsnum \<Rightarrow> jsnum" where
  "xPos config data labels ds iteration yAxisPosX valueHop nbValueHop =
     (let it = Fin (of_nat iteration); zero = to_number (oget config ''zeroValue''); idx = math_floor (it + zero);
          own = (case (oget ds ''xPos'', idx) of (Arr xs, Fin k) \<Rightarrow> if 0 \<le> k then aget xs (nat \<lfloor>k\<rfloor>) else Undef | _ \<Rightarrow> Undef);
          width = valueHop * nbValueHop;
          deb = (if oget data ''xBegin'' \<noteq> Undef then to_number (oget data ''xBegin'') else to_number (aget labels 0));
          fin0 = (if oget data ''xEnd'' \<noteq> Undef then to_number (oget data ''xEnd'')
                  else if labels = [] then NaN else to_number (last labels));
          fin = (if fin0 \<le> deb then deb + 100 else fin0)
      in if own \<noteq> Undef \<and> to_number own \<ge> deb \<and> to_number own \<le> fin
         then (let p1 = yAxisPosX + width * ((to_number own - deb) / (fin - deb));
                   p2 = (if math_abs (it - idx) > zero then NaN else p1)
               in p1 + (it - idx) * (p2 - p1))
         else yAxisPosX + valueHop * it)"

text \<open>\<open>e0\<close> is the entry of the first value of the data set, whose extremes are used for all of them.\<close>

definition place_point ::
  "(jsnum \<Rightarrow> jsnum) \<Rightarrow> obj \<Rightarrow> string \<Rightarrow> obj \<Rightarrow> jsval list \<Rightarrow> othervars \<Rightarrow> obj \<Rightarrow> nat \<Rightarrow> jsval \<Rightarrow> obj \<Rightarrow> obj \<Rightarrow> obj" where
  "place_point lg config tp data labels ov ds j v e0 e =
     (let second = (axis_index ds = 0);
          hop = (if second then ov_scaleHop2 ov else ov_scaleHop ov); zero = (if second then ov_zeroY2 ov else ov_zeroY ov);
          sc = (if second then ov_scale2 ov else ov_scale ov); logar = (if second then ov_logarithmic2 ov else ov_logarithmic ov);
          half = (if tp = ''Bar'' then ov_valueHop ov / 2 else 0);
          x = xPos config data labels ds j (ov_yAxisPosX ov) (ov_valueHop ov) (ov_nbValueHop ov) + half;
          yAxisPos = ov_xAxisPosY ov - zero;
          e1 = copy_attrs e
            [(''xAxisPosY'', Num (ov_xAxisPosY ov)), (''yAxisPosX'', Num (ov_yAxisPosX ov + half)), (''valueHop'', Num (ov_valueHop ov)),
             (''nbValueHop'', Num (ov_nbValueHop ov)), (''scaleHop'', Num hop), (''zeroY'', Num zero), (''logarithmic'', logar),
             (''xPos'', Num x), (''yAxisPos'', Num yAxisPos),
             (''lmaxvalue_offset'', Num (calculateOffset lg logar (num_at e0 ''lmaxvalue'') sc hop - zero)),
             (''lminvalue_offset'', Num (calculateOffset lg logar (num_at e0 ''lminvalue'') sc hop - zero))];
          offset = calculateOffset lg logar (to_number v) sc hop - zero;
          e2 = (if v \<noteq> Undef then copy_attrs e1 [(''yPosOffset'', Num offset), (''posY'', Num (yAxisPos - offset))] else e1)
      in copy_attrs e2
           [(''posX'', Num x), (''v9'', Num x), (''v10'', oget e2 ''posY''), (''annotateStartPosX'', Num x), (''annotateEndPosX'', Num x),
            (''annotateStartPosY'', Num (ov_xAxisPosY ov)), (''annotateEndPosY'', Num (ov_xAxisPosY ov - ov_availableHeight ov)),
            (''D1A'', Undef), (''D1B'', Undef)])"

section \<open>Points of a radar\<close>

text \<open>
  \<open>n\<close> is the number of values of the first data set; \<open>first\<close> is the entry of the first data set at the
  same position, from which \<open>calculated_offset_max\<close> is taken for every position but 0.
\<close>

definition place_radar ::
  "(jsnum \<Rightarrow> jsnum) \<Rightarrow> obj \<Rightarrow> othervars \<Rightarrow> nat \<Rightarrow> obj \<Rightarrow> nat \<Rightarrow> jsval \<Rightarrow> obj \<Rightarrow> obj" where
  "place_radar lg config ov n first j v e =
     (let logar = oget config ''logarithmic'';
          rotationDegree = 2 * PI / Fin (of_nat n);
          direction = to_number (oget config ''startAngle'') * PI / 180 - Fin (of_nat j) * rotationDegree;
          offset = calculateOffset lg logar (to_number v) (ov_scale ov) (ov_scaleHop ov);
          offsetX = math_cos direction * offset; offsetY = math_sin direction * offset;
          endX = ov_midPosX ov + math_cos direction * ov_maxSize ov; endY = ov_midPosY ov - math_sin direction * ov_maxSize ov;
          zero = to_number (oget config ''zeroValue'');
          slope = (ov_midPosY ov - endY) / (ov_midPosX ov - endX)
      in copy_attrs e
        ([(''midPosX'', Num (ov_midPosX ov)), (''midPosY'', Num (ov_midPosY ov)), (''int_radius'', NumF 0),
          (''ext_radius'', Num (ov_maxSize ov)), (''radiusOffset'', Num (ov_maxSize ov)), (''calculated_offset'', Num offset),
          (''offsetX'', Num offsetX), (''offsetY'', Num offsetY), (''v9'', Num (ov_midPosX ov + offsetX)),
          (''v10'', Num (ov_midPosY ov - offsetY)), (''posX'', Num (ov_midPosX ov + offsetX)), (''posY'', Num (ov_midPosY ov - offsetY)),
          (''calculated_offset_max'',
             if j = 0 then Num (calculateOffset lg logar (num_at e ''lmaxvalue'') (ov_scale ov) (ov_scaleHop ov))
             else oget first ''calculated_offset_max''),
          (''annotateStartPosX'', Num (ov_midPosX ov)), (''annotateEndPosX'', Num endX),
          (''annotateStartPosY'', Num (ov_midPosY ov)), (''annotateEndPosY'', Num endY)]
         @ (if math_abs (ov_midPosX ov - endX) < zero
            then [(''D1A'', Undef), (''D1B'', Undef), (''D2A'', NumF 0)]
            else [(''D1A'', Num slope), (''D1B'', Num (- slope * ov_midPosX ov + ov_midPosY ov)),
                  (''D2A'', if math_abs slope \<ge> zero then Num (- (1 / slope)) else Undef)])))"

section \<open>Bars\<close>

text \<open>The corners of a bar and their copies for the annotations.\<close>

definition bar_box :: "jsnum \<Rightarrow> jsnum \<Rightarrow> jsnum \<Rightarrow> jsnum \<Rightarrow> (string \<times> jsval) list" where
  "bar_box left lower right upper =
     [(''xPosLeft'', Num left), (''yPosBottom'', Num lower), (''xPosRight'', Num right), (''yPosTop'', Num upper),
      (''v7'', Num left), (''v8'', Num lower), (''v9'', Num right), (''v10'', Num upper)]"

text \<open>\<open>realbars\<close> counts the data sets before this one that are drawn as bars.\<close>

definition place_bar ::
  "(jsnum \<Rightarrow> jsnum) \<Rightarrow> obj \<Rightarrow> ctx_scales \<Rightarrow> othervars \<Rightarrow> nat \<Rightarrow> obj \<Rightarrow> nat \<Rightarrow> jsval \<Rightarrow> obj \<Rightarrow> obj" where
  "place_bar lg config cs ov realbars ds j v e =
     (let n = Fin (of_nat realbars); second = (axis_index ds = 0);
          left = ov_yAxisPosX ov + scaled (sc_space cs) config ''barValueSpacing'' + ov_valueHop ov * Fin (of_nat j)
                 + ov_barWidth ov * n + scaled (sc_space cs) config ''barDatasetSpacing'' * n
                 + scaled (sc_line cs) config ''barStrokeWidth'' * n;
          zero = (if second then ov_zeroY2 ov else ov_zeroY ov);
          lower = ov_xAxisPosY ov - zero;
          height = (if second
                    then calculateOffset lg (oget config ''logarithmic2'') (to_number v) (ov_scale2 ov) (ov_scaleHop2 ov) - zero
                    else calculateOffset lg (oget config ''logarithmic'') (to_number v) (ov_scale ov) (ov_scaleHop ov) - zero);
          upper = lower - height + scaled (sc_line cs) config ''barStrokeWidth'' / 2
      in copy_attrs e (bar_box left lower (left + ov_barWidth ov) upper @ [(''barHeight'', Num height)]))"

definition place_horizontal_bar ::
  "(jsnum \<Rightarrow> jsnum) \<Rightarrow> obj \<Rightarrow> ctx_scales \<Rightarrow> othervars \<Rightarrow> nat \<Rightarrow> nat \<Rightarrow> jsval \<Rightarrow> obj \<Rightarrow> obj" where
  "place_horizontal_bar lg config cs ov i j v e =
     (let n = Fin (of_nat i);
          left = ov_yAxisPosX ov + ov_zeroY ov;
          upper = ov_xAxisPosY ov + scaled (sc_space cs) config ''barValueSpacing'' - ov_scaleHop ov * Fin (of_nat (j + 1))
                + ov_barWidth ov * n + scaled (sc_space cs) config ''barDatasetSpacing'' * n
                + scaled (sc_line cs) config ''barStrokeWidth'' * n;
          width = calculateOffset lg (oget config ''logarithmic'') (to_number v) (ov_scale ov) (ov_valueHop ov) - ov_zeroY ov
      in copy_attrs e (bar_box left (upper + ov_barWidth ov) (left + width) upper @ [(''barWidth'', Num width)]))"

section \<open>Stacked bars\<close>

text \<open>The ends of the positive and of the negative stack at every position.\<close>

record stack_loop =
  sk_pos :: "nat \<Rightarrow> jsnum"
  sk_neg :: "nat \<Rightarrow> jsnum"
  sk_result :: "nat \<Rightarrow> nat \<Rightarrow> obj"

text \<open>The near and the far end of the bar for the value \<open>x\<close>.\<close>

definition stack_ends :: "nat \<Rightarrow> jsnum \<Rightarrow> stack_loop \<Rightarrow> jsnum \<times> jsnum" where
  "stack_ends j x st = (let base = (if x < 0 then sk_neg st j else sk_pos st j) in (base, base + x))"

definition push_stack :: "nat \<Rightarrow> jsnum \<Rightarrow> stack_loop \<Rightarrow> stack_loop" where
  "push_stack j x st =
     (if x < 0 then st\<lparr> sk_neg := (sk_neg st)(j := sk_neg st j + x) \<rparr> else st\<lparr> sk_pos := (sk_pos st)(j := sk_pos st j + x) \<rparr>)"

text \<open>
  The space between stacked bars: the near end moves by \<open>space\<close>, by half of it for the first bar of
  a stack, and not beyond the far end.
\<close>

definition space_bottom :: "jsnum \<Rightarrow> jsnum \<Rightarrow> stack_loop \<Rightarrow> nat \<Rightarrow> jsnum \<Rightarrow> jsnum \<Rightarrow> jsnum" where
  "space_bottom space x st j lower upper =
     (if space > 0 then
        if x < 0 then
          (let b = lower + space; b' = (if num_eq (sk_neg st j) x then b - space / 2 else b)
           in if upper < b' then upper else b')
        else if x > 0 then
          (let b = lower - space; b' = (if num_eq (sk_pos st j) x then b + space / 2 else b)
           in if upper > b' then upper else b')
        else lower
      else lower)"

definition stacked_step ::
  "(jsnum \<Rightarrow> jsnum) \<Rightarrow> obj \<Rightarrow> ctx_scales \<Rightarrow> othervars \<Rightarrow> nat \<Rightarrow> nat \<times> jsval \<Rightarrow> stack_loop \<Rightarrow> stack_loop" where
  "stacked_step lg config cs ov i p st =
     (let (j, v) = p; x = to_number v; logar = oget config ''logarithmic''
      in if v = Undef then st
         else
           (let left = ov_yAxisPosX ov + scaled (sc_space cs) config ''barValueSpacing'' + ov_valueHop ov * Fin (of_nat j);
                (botval, topval) = stack_ends j x st;
                st' = push_stack j x st;
                botOffset = calculateOffset lg logar botval (ov_scale ov) (ov_scaleHop ov);
                topOffset = calculateOffset lg logar topval (ov_scale ov) (ov_scaleHop ov);
                upper = ov_xAxisPosY ov - topOffset;
                lower = space_bottom (scaled (sc_space cs) config ''spaceBetweenBar'') x st' j (ov_xAxisPosY ov - botOffset) upper
            in st'\<lparr> sk_result := upd2 i j
                 (copy_attrs (sk_result st' i j)
                    ([(''botval'', Num botval), (''topval'', Num topval), (''botOffset'', Num botOffset), (''topOffset'', Num topOffset)]
                     @ bar_box left lower (left + ov_barWidth ov) upper)) (sk_result st') \<rparr>))"

definition space_left :: "jsnum \<Rightarrow> jsnum \<Rightarrow> stack_loop \<Rightarrow> nat \<Rightarrow> jsnum \<Rightarrow> jsnum \<Rightarrow> jsnum" where
  "space_left space x st j left right =
     (if space > 0 then
        if x < 0 then
          (let l = left - space; l' = (if num_eq (sk_neg st j) x then l + space / 2 else l)
           in if l' < right then right else l')
        else if x > 0 then
          (let l = left + space; l' = (if num_eq (sk_pos st j) x then l - space / 2 else l)
           in if l' > right then right else l')
        else left
      else left)"

text \<open>Here the stacks are started by the values of the first data set only.\<close>

definition horizontal_stacked_step ::
  "obj \<Rightarrow> ctx_scales \<Rightarrow> othervars \<Rightarrow> nat \<Rightarrow> nat \<times> jsval \<Rightarrow> stack_loop \<Rightarrow> stack_loop" where
  "horizontal_stacked_step config cs ov i p st0 =
     (let (j, v) = p; x = to_number v;
          st = (if i = 0 then st0\<lparr> sk_pos := (sk_pos st0)(j := 0), sk_neg := (sk_neg st0)(j := 0) \<rparr> else st0)
      in if v = Undef then st
         else
           (let (leftval, rightval) = stack_ends j x st;
                st' = push_stack j x st;
                rightOffset = HorizontalCalculateOffset rightval (ov_scale ov) (ov_valueHop ov);
                leftOffset = HorizontalCalculateOffset leftval (ov_scale ov) (ov_valueHop ov);
                right = ov_yAxisPosX ov + rightOffset;
                left = space_left (scaled (sc_space cs) config ''spaceBetweenBar'') x st' j (ov_yAxisPosX ov + leftOffset) right;
                upper = ov_xAxisPosY ov + scaled (sc_space cs) config ''barValueSpacing'' - ov_scaleHop ov * Fin (of_nat (j + 1))
            in st'\<lparr> sk_result := upd2 i j
                 (copy_attrs (sk_result st' i j)
                    ([(''leftval'', Num leftval), (''rightval'', Num rightval), (''rightOffset'', Num rightOffset),
                      (''leftOffset'', Num leftOffset)] @ bar_box left (upper + ov_barWidth ov) right upper)) (sk_result st') \<rparr>))"

section \<open>All data sets\<close>

definition place_values ::
  "nat \<Rightarrow> (nat \<Rightarrow> jsval \<Rightarrow> (nat \<Rightarrow> nat \<Rightarrow> obj) \<Rightarrow> obj) \<Rightarrow> jsval list \<Rightarrow> (nat \<Rightarrow> nat \<Rightarrow> obj) \<Rightarrow> nat \<Rightarrow> nat \<Rightarrow> obj" where
  "place_values i f vs res = fold (\<lambda>(j, v) res. upd2 i j (f j v res) res) (enumerate 0 vs) res"

record place_loop =
  pl_realbars :: nat
  pl_stacks :: stack_loop

definition place_dataset ::
  "(jsnum \<Rightarrow> jsnum) \<Rightarrow> obj \<Rightarrow> string \<Rightarrow> obj \<Rightarrow> jsval list \<Rightarrow> nat \<Rightarrow> ctx_scales \<Rightarrow> othervars \<Rightarrow> nat \<times> obj
     \<Rightarrow> place_loop \<Rightarrow> place_loop" where
  "place_dataset lg config tp data labels n cs ov p st =
     (let (i, ds) = p; vs = dvalues ds; sk = pl_stacks st; kind = drawn_as tp ds;
          placed = (\<lambda>f. st\<lparr> pl_stacks := sk\<lparr> sk_result := place_values i f vs (sk_result sk) \<rparr> \<rparr>)
      in if kind = ''Line'' then
           (let e0 = sk_result sk i 0
            in placed (\<lambda>j v res. place_point lg config tp data labels ov ds j v e0 (res i j)))
         else if kind = ''Radar'' then placed (\<lambda>j v res. place_radar lg config ov n (res 0 j) j v (res i j))
         else if kind = ''Bar'' then
           (placed (\<lambda>j v res. place_bar lg config cs ov (pl_realbars st) ds j v (res i j)))\<lparr> pl_realbars := Suc (pl_realbars st) \<rparr>
         else if kind = ''HorizontalBar'' then placed (\<lambda>j v res. place_horizontal_bar lg config cs ov i j v (res i j))
         else if kind = ''StackedBar''
         then st\<lparr> pl_stacks := fold (stacked_step lg config cs ov i) (enumerate 0 vs) sk \<rparr>
         else if kind = ''HorizontalStackedBar''
         then st\<lparr> pl_stacks := fold (horizontal_stacked_step config cs ov i) (enumerate 0 vs) sk \<rparr>
         else st)"

definition initPassVariableData_part2_values ::
  "(jsnum \<Rightarrow> jsnum) \<Rightarrow> obj \<Rightarrow> string \<Rightarrow> obj \<Rightarrow> jsval list \<Rightarrow> ctx_scales \<Rightarrow> othervars \<Rightarrow> obj list \<Rightarrow> (nat \<Rightarrow> nat \<Rightarrow> obj)
     \<Rightarrow> nat \<Rightarrow> nat \<Rightarrow> obj" where
  "initPassVariableData_part2_values lg config tp data labels cs ov datasets statData =
     (let n = (case datasets of [] \<Rightarrow> 0 | ds # _ \<Rightarrow> length (dvalues ds));
          stack0 = (if tp = ''HorizontalStackedBar'' then NaN else 0)
      in sk_result (pl_stacks (fold (place_dataset lg config tp data labels n cs ov) (enumerate 0 datasets)
           \<lparr> pl_realbars = 0, pl_stacks = \<lparr> sk_pos = (\<lambda>_. stack0), sk_neg = (\<lambda>_. stack0), sk_result = statData \<rparr> \<rparr>)))"

section \<open>What becomes of an entry\<close>

lemma place_values_at:
  "place_values i (\<lambda>j v res. g j v (res i j)) vs res i' j' =
     (if i' = i \<and> j' < length vs then g j' (vs ! j') (res i j') else res i' j')"
proof (induction vs rule: rev_induct)
  case (snoc v vs)
  then show ?case
    by (auto simp: place_values_def enumerate_snoc nth_append less_Suc_eq)
qed (simp add: place_values_def)

lemmas place_point_at = place_values_at [where g = "\<lambda>j v. place_point lg config tp data labels ov ds j v e0" for lg config tp data labels ov ds e0]

text \<open>The entries of lines and unstacked bars are placed independently of each other.\<close>

definition place_alone ::
  "(jsnum \<Rightarrow> jsnum) \<Rightarrow> obj \<Rightarrow> string \<Rightarrow> obj \<Rightarrow> jsval list \<Rightarrow> ctx_scales \<Rightarrow> othervars \<Rightarrow> nat \<Rightarrow> nat \<Rightarrow> obj
     \<Rightarrow> nat \<Rightarrow> jsval \<Rightarrow> obj \<Rightarrow> obj \<Rightarrow> obj" where
  "place_alone lg config tp data labels cs ov realbars i ds j v e0 e =
     (if drawn_as tp ds = ''Line'' then place_point lg config tp data labels ov ds j v e0 e
      else if drawn_as tp ds = ''Bar'' then place_bar lg config cs ov realbars ds j v e
      else place_horizontal_bar lg config cs ov i j v e)"

abbreviation bars_before :: "string \<Rightarrow> obj list \<Rightarrow> nat" where
  "bars_before tp datasets \<equiv> length (filter (\<lambda>ds. drawn_as tp ds = ''Bar'') datasets)"

lemma drawn_as_cases: "tp \<in> {''Line'', ''Bar'', ''HorizontalBar''} \<Longrightarrow> drawn_as tp ds \<in> {''Line'', ''Bar'', ''HorizontalBar''}"
  by (auto simp: drawn_as_def tpdraw_def)

lemma place_dataset_alone:
  assumes "tp \<in> {''Line'', ''Bar'', ''HorizontalBar''}" "st' = place_dataset lg config tp data labels n cs ov (i, ds) st"
  shows "pl_realbars st' = pl_realbars st + (if drawn_as tp ds = ''Bar'' then 1 else 0)"
    and "sk_result (pl_stacks st') i' j =
      (if i' = i \<and> j < length (dvalues ds)
       then place_alone lg config tp data labels cs ov (pl_realbars st) i ds j (dvalues ds ! j) (sk_result (pl_stacks st) i 0)
              (sk_result (pl_stacks st) i j)
       else sk_result (pl_stacks st) i' j)"
  using drawn_as_cases [OF assms(1), of ds] unfolding assms(2) place_dataset_def Let_def
  by (auto simp: place_point_at place_values_at place_alone_def)

lemma part2_alone:
  assumes "tp \<in> {''Line'', ''Bar'', ''HorizontalBar''}" "i < length datasets" "j < length (dvalues (datasets ! i))"
  shows "initPassVariableData_part2_values lg config tp data labels cs ov datasets statData i j =
     place_alone lg config tp data labels cs ov (bars_before tp (take i datasets)) i (datasets ! i) j
       (dvalues (datasets ! i) ! j) (statData i 0) (statData i j)"
proof -
  define st where "st n dss = fold (place_dataset lg config tp data labels n cs ov) (enumerate 0 dss)
      \<lparr> pl_realbars = 0, pl_stacks = \<lparr> sk_pos = (\<lambda>_. 0), sk_neg = (\<lambda>_. 0), sk_result = statData \<rparr> \<rparr>" for n dss
  have "pl_realbars (st n dss) = bars_before tp dss
      \<and> (\<forall>i j. sk_result (pl_stacks (st n dss)) i j =
           (if i < length dss \<and> j < length (dvalues (dss ! i))
            then place_alone lg config tp data labels cs ov (bars_before tp (take i dss)) i (dss ! i) j (dvalues (dss ! i) ! j)
                   (statData i 0) (statData i j)
            else statData i j))" for n dss
  proof (induction dss rule: rev_induct)
    case (snoc ds dss)
    have step: "st n (dss @ [ds]) = place_dataset lg config tp data labels n cs ov (length dss, ds) (st n dss)"
      by (simp add: st_def enumerate_snoc)
    from snoc show ?case
      by (auto simp: place_dataset_alone [OF assms(1) step] nth_append less_Suc_eq)
  qed (simp add: st_def)
  with assms show ?thesis
    by (auto simp: initPassVariableData_part2_values_def Let_def st_def)
qed

section \<open>Points and bars on the chart\<close>

text \<open>A linear scale with \<open>n\<close> steps of \<open>s\<close> from \<open>g\<close>, drawn with \<open>h\<close> pixels per step.\<close>

definition linear_axis :: "scale \<Rightarrow> jsval \<Rightarrow> jsnum \<Rightarrow> real \<Rightarrow> real \<Rightarrow> real \<Rightarrow> real \<Rightarrow> bool" where
  "linear_axis sc logar hop n s g h =
     (s_steps sc = Fin n \<and> s_stepValue sc = Fin s \<and> s_graphMin sc = Fin g \<and> hop = Fin h \<and> 0 < n \<and> 0 < s \<and> 0 \<le> h \<and> \<not> to_bool logar)"

lemma linear_axis_offset:
  assumes "linear_axis sc logar hop n s g h"
  shows "\<exists>off. calculateOffset lg logar (Fin x) sc hop = Fin off \<and> 0 \<le> off \<and> off \<le> n * h
     \<and> (g \<le> x \<and> x \<le> g + n * s \<longrightarrow> off = (x - g) / s * h)"
proof -
  define q where "q = (x - g) / (n * s)"
  define f where "f = (if q > 1 then 1 else if q < 0 then 0 else q)"
  have c: "calculateOffset lg logar (Fin x) sc hop = Fin (h * n * f)"
    using assms by (simp add: linear_axis_def calculateOffset_def Let_def CapValue_Fin q_def f_def)
  have pos: "0 \<le> h * n" "0 < n * s" using assms by (simp_all add: linear_axis_def)
  have f: "0 \<le> f" "f \<le> 1" by (auto simp: f_def)
  have "h * n * f \<le> n * h" using mult_left_mono [OF f(2) pos(1)] by (simp add: mult.commute)
  moreover have "h * n * f = (x - g) / s * h" if "g \<le> x" "x \<le> g + n * s"
  proof -
    have "0 \<le> q" "q \<le> 1" using that pos(2) by (simp_all add: q_def)
    then have "f = q" by (simp add: f_def)
    then show ?thesis using assms by (simp add: q_def linear_axis_def)
  qed
  ultimately show ?thesis using c mult_nonneg_nonneg [OF pos(1) f(1)] by auto
qed

lemma oget_place_point:
  assumes "v \<noteq> Undef"
  shows "oget (place_point lg config tp data labels ov ds j v e0 e) ''posY'' =
     Num (ov_xAxisPosY ov - (if axis_index ds = 0 then ov_zeroY2 ov else ov_zeroY ov)
       - (calculateOffset lg (if axis_index ds = 0 then ov_logarithmic2 ov else ov_logarithmic ov) (to_number v)
            (if axis_index ds = 0 then ov_scale2 ov else ov_scale ov) (if axis_index ds = 0 then ov_scaleHop2 ov else ov_scaleHop ov)
          - (if axis_index ds = 0 then ov_zeroY2 ov else ov_zeroY ov)))"
  using assms by (simp add: place_point_def Let_def oget_copy_attrs)

text \<open>Every point of a line is drawn inside the chart, between the axis at \<open>y0\<close> and the top of the
  scale \<open>n * h\<close> pixels above it, and a value that is on the scale is drawn in proportion.\<close>

theorem line_points_on_chart:
  assumes "tp \<in> {''Line'', ''Bar''}" "i < length datasets" "ds = datasets ! i" "drawn_as tp ds = ''Line''"
    and "j < length (dvalues ds)" "dvalues ds ! j \<noteq> Undef" "to_number (dvalues ds ! j) = Fin x"
    and "linear_axis (if axis_index ds = 0 then ov_scale2 ov else ov_scale ov)
           (if axis_index ds = 0 then ov_logarithmic2 ov else ov_logarithmic ov)
           (if axis_index ds = 0 then ov_scaleHop2 ov else ov_scaleHop ov) n s g h"
    and "ov_xAxisPosY ov = Fin y0" "(if axis_index ds = 0 then ov_zeroY2 ov else ov_zeroY ov) = Fin z"
  shows "\<exists>y. oget (initPassVariableData_part2_values lg config tp data labels cs ov datasets statData i j) ''posY'' = NumF y
     \<and> y0 - n * h \<le> y \<and> y \<le> y0 \<and> (g \<le> x \<and> x \<le> g + n * s \<longrightarrow> y = y0 - (x - g) / s * h)"
proof -
  have tp: "tp \<in> {''Line'', ''Bar'', ''HorizontalBar''}" using assms(1) by auto
  obtain off where "calculateOffset lg (if axis_index ds = 0 then ov_logarithmic2 ov else ov_logarithmic ov) (Fin x)
        (if axis_index ds = 0 then ov_scale2 ov else ov_scale ov) (if axis_index ds = 0 then ov_scaleHop2 ov else ov_scaleHop ov)
      = Fin off" "0 \<le> off" "off \<le> n * h" "g \<le> x \<and> x \<le> g + n * s \<longrightarrow> off = (x - g) / s * h"
    using linear_axis_offset [OF assms(8)] by blast
  with assms(4,6,7,9,10) show ?thesis
    unfolding part2_alone [OF tp assms(2) assms(5) [unfolded assms(3)], folded assms(3)]
    by (simp add: place_alone_def oget_place_point)
qed

text \<open>Measures of a chart, for the witnesses.\<close>

definition small_scale :: scale where
  "small_scale = \<lparr> s_steps = Fin 10, s_stepValue = Fin 10, s_graphMin = Fin 0, s_labels = [], s_maxValue = Fin 100 \<rparr>"

definition small_measures :: othervars where
  "small_measures =
     \<lparr> ov_midPosX = Fin 200, ov_midPosY = Fin 150, ov_int_radius = Fin 0, ov_ext_radius = Fin 100, ov_maxSize = Fin 100,
       ov_xAxisPosY = Fin 300, ov_yAxisPosX = Fin 40, ov_valueHop = Fin 50, ov_nbValueHop = Fin 6, ov_barWidth = Fin 10,
       ov_availableHeight = Fin 250, ov_scale = small_scale, ov_scaleHop = Fin 25, ov_zeroY = Fin 0, ov_logarithmic = Bool False,
       ov_scale2 = small_scale, ov_scaleHop2 = Fin 25, ov_zeroY2 = Fin 0, ov_logarithmic2 = Bool False \<rparr>"

definition plain_scales :: ctx_scales where
  "plain_scales = \<lparr> sc_space = Fin 1, sc_line = Fin 1 \<rparr>"

definition line_data :: "obj list" where
  "line_data = [[(''data'', Arr [NumF 20, NumF 150])]]"

theorem line_points_on_chart_witness:
  "\<exists>y. oget (initPassVariableData_part2_values (\<lambda>_. NaN) [] ''Line'' [] [] plain_scales small_measures line_data (\<lambda>_ _. []) 0 1) ''posY'' = NumF y
     \<and> 300 - 10 * 25 \<le> y \<and> y \<le> 300 \<and> (0 \<le> (150 :: real) \<and> (150 :: real) \<le> 0 + 10 * 10 \<longrightarrow> y = 300 - (150 - 0) / 10 * 25)"
  by (rule line_points_on_chart [where ds = "line_data ! 0" and z = 0])
    (simp_all add: line_data_def drawn_as_def tpdraw_def dvalues_def axis_index_def small_measures_def small_scale_def linear_axis_def)

lemma oget_place_bar:
  "oget (place_bar lg config cs ov realbars ds j v e) ''xPosLeft'' =
     Num (ov_yAxisPosX ov + scaled (sc_space cs) config ''barValueSpacing'' + ov_valueHop ov * Fin (of_nat j)
       + ov_barWidth ov * Fin (of_nat realbars) + scaled (sc_space cs) config ''barDatasetSpacing'' * Fin (of_nat realbars)
       + scaled (sc_line cs) config ''barStrokeWidth'' * Fin (of_nat realbars))"
  "oget (place_bar lg config cs ov realbars ds j v e) ''xPosRight'' =
     Num (ov_yAxisPosX ov + scaled (sc_space cs) config ''barValueSpacing'' + ov_valueHop ov * Fin (of_nat j)
       + ov_barWidth ov * Fin (of_nat realbars) + scaled (sc_space cs) config ''barDatasetSpacing'' * Fin (of_nat realbars)
       + scaled (sc_line cs) config ''barStrokeWidth'' * Fin (of_nat realbars) + ov_barWidth ov)"
  by (simp_all add: place_bar_def Let_def oget_copy_attrs bar_box_def)

lemma bars_before_less:
  assumes "i < i'" "i' \<le> length datasets" "drawn_as tp (datasets ! i) = ''Bar''"
  shows "bars_before tp (take i datasets) < bars_before tp (take i' datasets)"
proof -
  obtain d where d: "i' = Suc i + d" using assms(1) less_iff_Suc_add by auto
  have "take i' datasets = (take i datasets @ [datasets ! i]) @ take d (drop (Suc i) datasets)"
    unfolding d take_add using assms(1,2) by (simp add: take_Suc_conv_app_nth)
  then show ?thesis using assms(3) by simp
qed

text \<open>C24: In a bar chart the bars of two data sets at the same position do not overlap: between the right side
  of the one and the left side of any later one there is at least the space between data sets
  and the width of the stroke.\<close>

theorem bars_side_by_side:
  assumes "i < i'" "i' < length datasets" "drawn_as ''Bar'' (datasets ! i) = ''Bar''" "drawn_as ''Bar'' (datasets ! i') = ''Bar''"
    and "j < length (dvalues (datasets ! i))" "j < length (dvalues (datasets ! i'))"
    and "ov_yAxisPosX ov = Fin y" "ov_valueHop ov = Fin vh" "ov_barWidth ov = Fin bw" "0 \<le> bw"
    and "scaled (sc_space cs) config ''barValueSpacing'' = Fin vs" "scaled (sc_space cs) config ''barDatasetSpacing'' = Fin ds" "0 \<le> ds"
    and "scaled (sc_line cs) config ''barStrokeWidth'' = Fin sw" "0 \<le> sw"
    and "res = initPassVariableData_part2_values lg config ''Bar'' data labels cs ov datasets statData"
  shows "\<exists>r l. oget (res i j) ''xPosRight'' = NumF r \<and> oget (res i' j) ''xPosLeft'' = NumF l \<and> r + ds + sw \<le> l"
proof -
  define m m' where "m = bars_before ''Bar'' (take i datasets)" and "m' = bars_before ''Bar'' (take i' datasets)"
  have "m < m'" unfolding m_def m'_def using assms(1-3) by (intro bars_before_less) simp_all
  then have "real m + 1 \<le> real m'" by linarith
  then have "(real m + 1) * (bw + ds + sw) \<le> real m' * (bw + ds + sw)"
    using assms(10,13,15) by (intro mult_right_mono) simp_all
  moreover have "res i j = place_bar lg config cs ov m (datasets ! i) j (dvalues (datasets ! i) ! j) (statData i j)"
      "res i' j = place_bar lg config cs ov m' (datasets ! i') j (dvalues (datasets ! i') ! j) (statData i' j)"
    using assms(1-6) by (simp_all add: assms(16) part2_alone place_alone_def m_def m'_def)
  ultimately show ?thesis
    using assms(7-15) by (simp add: oget_place_bar algebra_simps)
qed

theorem bars_side_by_side_witness:
  "let res = initPassVariableData_part2_values (\<lambda>_. NaN) [(''barValueSpacing'', NumF 5), (''barDatasetSpacing'', NumF 1), (''barStrokeWidth'', NumF 2)]
        ''Bar'' [] [] plain_scales small_measures bar_data (\<lambda>_ _. [])
   in \<exists>r l. oget (res 0 0) ''xPosRight'' = NumF r \<and> oget (res 1 0) ''xPosLeft'' = NumF l \<and> r + 1 + 2 \<le> l"
  unfolding Let_def
  by (rule bars_side_by_side [OF _ _ _ _ _ _ _ _ _ _ _ _ _ _ _ refl, of 0 1 bar_data 0 small_measures 40 50 10 plain_scales _ 5 1 2])
    (simp_all add: bar_data_def drawn_as_def tpdraw_def dvalues_def small_measures_def plain_scales_def scaled_def)

section \<open>Stacks\<close>

definition svalue :: "nat \<Rightarrow> obj \<Rightarrow> real" where
  "svalue j ds = (if aget (dvalues ds) j \<noteq> Undef then fin_val (to_number (aget (dvalues ds) j)) else 0)"

text \<open>The heights of the positive and of the negative stack of some data sets.\<close>

definition stack_up :: "nat \<Rightarrow> obj list \<Rightarrow> real" where
  "stack_up j datasets = sum_list (map (\<lambda>ds. max 0 (svalue j ds)) datasets)"

definition stack_down :: "nat \<Rightarrow> obj list \<Rightarrow> real" where
  "stack_down j datasets = sum_list (map (\<lambda>ds. min 0 (svalue j ds)) datasets)"

lemma stacked_step_stacks:
  "sk_pos (stacked_step lg config cs ov i (j, v) st) =
     (if v \<noteq> Undef \<and> \<not> to_number v < 0 then (sk_pos st)(j := sk_pos st j + to_number v) else sk_pos st)"
  "sk_neg (stacked_step lg config cs ov i (j, v) st) =
     (if v \<noteq> Undef \<and> to_number v < 0 then (sk_neg st)(j := sk_neg st j + to_number v) else sk_neg st)"
  by (auto simp: stacked_step_def Let_def push_stack_def stack_ends_def)

lemma stacked_step_other:
  "i' \<noteq> i \<or> j' \<noteq> j \<Longrightarrow> sk_result (stacked_step lg config cs ov i (j, v) st) i' j' = sk_result st i' j'"
  by (auto simp: stacked_step_def Let_def push_stack_def stack_ends_def)

text \<open>The entry of a bar that stands on \<open>b\<close>.\<close>

definition stands_on :: "(jsnum \<Rightarrow> jsnum) \<Rightarrow> obj \<Rightarrow> othervars \<Rightarrow> jsnum \<Rightarrow> jsnum \<Rightarrow> obj \<Rightarrow> bool" where
  "stands_on lg config ov b x e =
     (oget e ''botval'' = Num b \<and> oget e ''topval'' = Num (b + x)
      \<and> oget e ''yPosBottom'' = Num (ov_xAxisPosY ov - calculateOffset lg (oget config ''logarithmic'') b (ov_scale ov) (ov_scaleHop ov))
      \<and> oget e ''yPosTop'' = Num (ov_xAxisPosY ov - calculateOffset lg (oget config ''logarithmic'') (b + x) (ov_scale ov) (ov_scaleHop ov)))"

lemma stacked_step_entry:
  assumes "v \<noteq> Undef" "\<not> scaled (sc_space cs) config ''spaceBetweenBar'' > 0"
  shows "stands_on lg config ov (if to_number v < 0 then sk_neg st j else sk_pos st j) (to_number v)
     (sk_result (stacked_step lg config cs ov i (j, v) st) i j)"
  using assms by (simp add: stacked_step_def Let_def stack_ends_def space_bottom_def oget_copy_attrs bar_box_def stands_on_def)

text \<open>The loop over the values of one data set.\<close>

abbreviation stack_run :: "(jsnum \<Rightarrow> jsnum) \<Rightarrow> obj \<Rightarrow> ctx_scales \<Rightarrow> othervars \<Rightarrow> nat \<Rightarrow> jsval list \<Rightarrow> stack_loop \<Rightarrow> stack_loop" where
  "stack_run lg config cs ov i vs sk \<equiv> fold (stacked_step lg config cs ov i) (enumerate 0 vs) sk"

lemma stack_run_snoc:
  "stack_run lg config cs ov i (vs @ [v]) sk = stacked_step lg config cs ov i (length vs, v) (stack_run lg config cs ov i vs sk)"
  by (simp add: enumerate_snoc)

lemma stack_run_stacks:
  "sk_pos (stack_run lg config cs ov i vs sk) j =
     (if aget vs j \<noteq> Undef \<and> \<not> to_number (aget vs j) < 0 then sk_pos sk j + to_number (aget vs j) else sk_pos sk j)
   \<and> sk_neg (stack_run lg config cs ov i vs sk) j =
     (if aget vs j \<noteq> Undef \<and> to_number (aget vs j) < 0 then sk_neg sk j + to_number (aget vs j) else sk_neg sk j)"
proof (induction vs rule: rev_induct)
  case (snoc v vs)
  then show ?case by (auto simp: stack_run_snoc stacked_step_stacks aget_def nth_append less_Suc_eq simp del: fold_append fold_simps)
qed (simp add: aget_def)

lemma stack_run_other: "i' \<noteq> i \<Longrightarrow> sk_result (stack_run lg config cs ov i vs sk) i' j = sk_result sk i' j"
  by (induction vs rule: rev_induct) (simp_all add: enumerate_snoc stacked_step_other)

lemma stack_run_entry:
  assumes "\<not> scaled (sc_space cs) config ''spaceBetweenBar'' > 0" "aget vs j \<noteq> Undef"
  shows "stands_on lg config ov (if to_number (aget vs j) < 0 then sk_neg sk j else sk_pos sk j) (to_number (aget vs j))
     (sk_result (stack_run lg config cs ov i vs sk) i j)"
  using assms(2)
proof (induction vs rule: rev_induct)
  case (snoc v vs)
  let ?go = "stack_run lg config cs ov i"
  show ?case
  proof (cases "j = length vs")
    case True
    then have "aget vs j = Undef" "aget (vs @ [v]) j = v" by (simp_all add: aget_def)
    with True snoc.prems stacked_step_entry [OF _ assms(1), of v lg ov "?go vs sk" "length vs" i]
      stack_run_stacks [of lg config cs ov i vs sk "length vs"]
    show ?thesis unfolding stack_run_snoc by (simp split: if_splits)
  next
    case False
    with snoc.prems have "aget vs j \<noteq> Undef" "aget (vs @ [v]) j = aget vs j" by (auto simp: aget_def nth_append split: if_splits)
    with snoc.IH False show ?thesis unfolding stack_run_snoc by (simp add: stacked_step_other)
  qed
qed (simp add: aget_def)

lemma place_stacked:
  "pl_stacks (place_dataset lg config ''StackedBar'' data labels n cs ov (i, ds) st) =
     stack_run lg config cs ov i (dvalues ds) (pl_stacks st)"
  by (simp add: place_dataset_def Let_def drawn_as_def tpdraw_def)

text \<open>What the loop over the data sets \<open>dss\<close> has computed at the position \<open>j\<close>.\<close>

definition stacks_done :: "(jsnum \<Rightarrow> jsnum) \<Rightarrow> obj \<Rightarrow> othervars \<Rightarrow> nat \<Rightarrow> obj list \<Rightarrow> stack_loop \<Rightarrow> bool" where
  "stacks_done lg config ov j dss sk =
     (sk_pos sk j = Fin (stack_up j dss) \<and> sk_neg sk j = Fin (stack_down j dss)
      \<and> (\<forall>i. i < length dss \<and> aget (dvalues (dss ! i)) j \<noteq> Undef \<longrightarrow>
           stands_on lg config ov
             (Fin (if svalue j (dss ! i) < 0 then stack_down j (take i dss) else stack_up j (take i dss)))
             (Fin (svalue j (dss ! i))) (sk_result sk i j)))"

lemma stacks_doneD:
  "stacks_done lg config ov j dss sk \<Longrightarrow> i < length dss \<Longrightarrow> aget (dvalues (dss ! i)) j \<noteq> Undef \<Longrightarrow>
     stands_on lg config ov (Fin (if svalue j (dss ! i) < 0 then stack_down j (take i dss) else stack_up j (take i dss)))
       (Fin (svalue j (dss ! i))) (sk_result sk i j)"
  by (simp add: stacks_done_def)

lemma stacks_done_snoc:
  assumes "stacks_done lg config ov j dss sk" "finite_dataset ds" "\<not> scaled (sc_space cs) config ''spaceBetweenBar'' > 0"
  shows "stacks_done lg config ov j (dss @ [ds]) (stack_run lg config cs ov (length dss) (dvalues ds) sk)"
proof -
  let ?sk = "stack_run lg config cs ov (length dss) (dvalues ds) sk" and ?all = "dss @ [ds]"
  have fin: "aget (dvalues ds) j \<noteq> Undef \<Longrightarrow> to_number (aget (dvalues ds) j) = Fin (svalue j ds)"
    using finite_dataset_cell [of ds j] assms(2) by (auto simp: svalue_def)
  have none: "aget (dvalues ds) j = Undef \<Longrightarrow> svalue j ds = 0" by (simp add: svalue_def)
  note stacks = stack_run_stacks [of lg config cs ov "length dss" "dvalues ds" sk j]
  have "sk_pos ?sk j = Fin (stack_up j ?all)" "sk_neg ?sk j = Fin (stack_down j ?all)"
    using assms(1) fin none stacks
    by (cases "aget (dvalues ds) j = Undef"; simp add: stacks_done_def stack_up_def stack_down_def zero_jsnum_def)+
  moreover have "stands_on lg config ov
      (Fin (if svalue j (?all ! i) < 0 then stack_down j (take i ?all) else stack_up j (take i ?all)))
      (Fin (svalue j (?all ! i))) (sk_result ?sk i j)"
    if "i < length ?all" "aget (dvalues (?all ! i)) j \<noteq> Undef" for i
  proof (cases "i = length dss")
    case True
    with that(2) fin stack_run_entry [OF assms(3), of "dvalues ds" j lg ov sk "length dss"] assms(1)
    show ?thesis by (auto simp: stacks_done_def zero_jsnum_def)
  next
    case False
    with that have "i < length dss" "aget (dvalues (dss ! i)) j \<noteq> Undef" by (auto simp: nth_append)
    with stacks_doneD [OF assms(1) this] show ?thesis by (simp add: stack_run_other nth_append split: if_splits)
  qed
  ultimately show ?thesis unfolding stacks_done_def by blast
qed

lemma stacks_done_all:
  assumes "\<forall>ds \<in> set dss. finite_dataset ds" "\<not> scaled (sc_space cs) config ''spaceBetweenBar'' > 0"
    and "sk_pos (pl_stacks st0) j = 0" "sk_neg (pl_stacks st0) j = 0"
  shows "stacks_done lg config ov j dss
     (pl_stacks (fold (place_dataset lg config ''StackedBar'' data labels n cs ov) (enumerate 0 dss) st0))"
  using assms(1)
proof (induction dss rule: rev_induct)
  case Nil
  then show ?case using assms(3,4) by (simp add: stacks_done_def stack_up_def stack_down_def zero_jsnum_def)
next
  case (snoc ds dss)
  then show ?case using stacks_done_snoc [OF _ _ assms(2), of lg ov j dss _ ds] by (simp add: enumerate_snoc place_stacked)
qed

text \<open>C23: In a stacked bar chart every bar stands on the bars of its sign below it: it reaches from the sum of
  the earlier values of that sign at its position to this sum plus its own value, so the bars of a
  stack follow each other without gaps and overlaps (when the options ask for no space between them).\<close>

theorem stacked_bars_tile:
  assumes "\<forall>ds \<in> set datasets. finite_dataset ds" "\<not> scaled (sc_space cs) config ''spaceBetweenBar'' > 0"
    and "i < length datasets" "aget (dvalues (datasets ! i)) j \<noteq> Undef" "to_number (aget (dvalues (datasets ! i)) j) = Fin x"
    and "b = (if x < 0 then stack_down j (take i datasets) else stack_up j (take i datasets))"
  shows "stands_on lg config ov (Fin b) (Fin x)
     (initPassVariableData_part2_values lg config ''StackedBar'' data labels cs ov datasets statData i j)"
proof -
  have x: "svalue j (datasets ! i) = x" using assms(4,5) by (simp add: svalue_def)
  let ?st0 = "\<lparr> pl_realbars = 0, pl_stacks = \<lparr> sk_pos = (\<lambda>_. 0), sk_neg = (\<lambda>_. 0), sk_result = statData \<rparr> \<rparr>"
  have "stacks_done lg config ov j datasets
      (pl_stacks (fold (place_dataset lg config ''StackedBar'' data labels n cs ov) (enumerate 0 datasets) ?st0))" for n
    by (rule stacks_done_all [OF assms(1,2)]) simp_all
  from stacks_doneD [OF this assms(3,4)] show ?thesis
    unfolding x initPassVariableData_part2_values_def Let_def assms(6) by simp
qed

theorem stacked_bars_tile_witness:
  "stands_on (\<lambda>_. NaN) [(''spaceBetweenBar'', NumF 0)] small_measures (Fin 1) (Fin 3)
     (initPassVariableData_part2_values (\<lambda>_. NaN) [(''spaceBetweenBar'', NumF 0)] ''StackedBar'' [] [] plain_scales small_measures
        bar_data (\<lambda>_ _. []) 1 0)"
  by (rule stacked_bars_tile)
    (simp_all add: bar_data_def finite_dataset_def dvalues_def aget_def stack_up_def svalue_def scaled_def plain_scales_def zero_jsnum_def)

end
