(* ===== verification/MouseActions.thy ===== *)
theory MouseActions
  imports StatPositions ChartLifecycle
begin

text \<open>
  What happens when the mouse is over a chart: \<open>doMouseAction\<close> looks through the shapes the chart has
  registered in \<open>jsGraphAnnotate\<close>, shows the annotation of the first one under the mouse and calls the functions
  of the page.  A registered shape \<open>[kind, i, j, statData]\<close> carries the entry of \<open>statData\<close> it refers to;
  \<open>doMouseAction\<close> writes into it (the position of the mouse, and the angles of an arc brought between
  0 and 4 * pi).

  Arguments of the model are the template engine \<open>tmplbis\<close>, the width of a text, the call of an option
  that is a function, and what the browser says of itself and of the window.
\<close>

section \<open>The browser and the cursor\<close>

record browser =
  bw_dom :: bool
  bw_ie5 :: bool
  bw_ie4 :: bool
  bw_ns5 :: bool
  bw_ns4 :: bool

text \<open>The arguments are \<open>navigator.appVersion\<close> and whether the document has \<open>getElementById\<close>, \<open>all\<close> and \<open>layers\<close>.\<close>

definition checkBrowser :: "string \<Rightarrow> bool \<Rightarrow> bool \<Rightarrow> bool \<Rightarrow> browser" where
  "checkBrowser ver byId all layers =
     \<lparr> bw_dom = byId, bw_ie5 = (index_of ''MSIE 5'' ver \<noteq> None \<and> byId), bw_ie4 = (all \<and> \<not> byId),
       bw_ns5 = (byId \<and> parse_int_str ver \<ge> 5), bw_ns4 = (layers \<and> \<not> byId) \<rparr>"

record mouse_event =
  ev_clientX :: jsnum
  ev_clientY :: jsnum
  ev_pageX :: jsnum
  ev_pageY :: jsnum
  ev_x :: jsnum
  ev_y :: jsnum

text \<open>What a mouse action reads of its surroundings; \<open>me_left\<close> and \<open>me_top\<close> are the rectangle of the canvas.\<close>

record mouse_env =
  me_browser :: browser
  me_innerWidth :: jsnum
  me_pageYOffset :: jsnum
  me_scrollTop :: jsnum
  me_left :: jsnum
  me_top :: jsnum
  me_space :: jsnum
  me_text :: jsnum
  me_numstr :: "jsnum \<Rightarrow> string"
  me_tmplbis :: "jsval \<Rightarrow> obj \<Rightarrow> obj \<Rightarrow> string"
  me_width :: "string \<Rightarrow> jsnum"
  me_call :: "string \<Rightarrow> string \<Rightarrow> int \<Rightarrow> int \<Rightarrow> jsval"

text \<open>\<open>eval(scrolled)\<close>, as \<open>cursorInit\<close> has set it.\<close>

definition scrolled :: "mouse_env \<Rightarrow> jsnum" where
  "scrolled env = (if bw_ns4 (me_browser env) \<or> bw_ns5 (me_browser env) then me_pageYOffset env else me_scrollTop env)"

definition fromLeft :: jsnum where
  "fromLeft = 10"

definition fromTop :: jsnum where
  "fromTop = 10"

definition getMousePos :: "mouse_env \<Rightarrow> mouse_event \<Rightarrow> jsnum \<times> jsnum" where
  "getMousePos env evt = (ev_clientX evt - me_left env, ev_clientY evt - me_top env)"

text \<open>Where the box of an annotation is put: right of the cursor, or left of it when it would not fit.\<close>

definition box_position :: "mouse_env \<Rightarrow> obj \<Rightarrow> mouse_event \<Rightarrow> string \<Rightarrow> jsnum \<times> jsnum" where
  "box_position env config ev text =
     (let bw = me_browser env; ns = (bw_ns4 bw \<or> bw_ns5 bw);
          x = (if ns then ev_pageX ev else ev_x ev);
          y0 = (if ns then ev_pageY ev else ev_y ev);
          y = (if bw_ie4 bw \<or> bw_ie5 bw then y0 + scrolled env else y0)
      in if to_bool (oget config ''annotateRelocate'')
            \<and> x + fromLeft + me_width env text > me_innerWidth env - me_left env - 10
         then (x + fromLeft - me_width env text, y + fromTop)
         else (x + fromLeft, y + fromTop))"

text \<open>The style of the box: that of the class when one is given, else of the options.\<close>

definition annotate_style :: "mouse_env \<Rightarrow> obj \<Rightarrow> obj" where
  "annotate_style env config =
     (let cls = oget config ''annotateClassName'';
          opt = (\<lambda>key. if to_bool cls then Str [] else oget config key)
      in [(''className'', if to_bool cls then cls else Str []), (''border'', opt ''annotateBorder''), (''padding'', opt ''annotatePadding''),
          (''borderRadius'', opt ''annotateBorderRadius''), (''backgroundColor'', opt ''annotateBackgroundColor''),
          (''color'', opt ''annotateFontColor''), (''fontFamily'', opt ''annotateFontFamily''),
          (''fontSize'', if to_bool cls then Str []
             else Str (me_numstr env (math_ceil (me_text env * to_number (oget config ''annotateFontSize''))) @ ''pt'')),
          (''fontStyle'', opt ''annotateFontStyle''), (''zIndex'', NumF 999)])"

section \<open>The hit tests\<close>

datatype shape = ARC | RECT | POINT

record annotation =
  an_shape :: shape
  an_i :: nat
  an_j :: int
  an_entry :: obj

fun math_acos :: "jsnum \<Rightarrow> jsnum" where
  "math_acos (Fin a) = (if - 1 \<le> a \<and> a \<le> 1 then Fin (arccos a) else NaN)"
| "math_acos _ = NaN"

definition norm_angle :: "jsnum \<Rightarrow> jsnum" where
  "norm_angle a = js_mod (js_mod (a + 2 * PI) (2 * PI) + 2 * PI) (2 * PI)"

text \<open>The angle under which the mouse is seen from the middle of the chart.\<close>

definition mouse_angle :: "obj \<Rightarrow> jsnum \<Rightarrow> jsnum \<Rightarrow> jsnum \<Rightarrow> jsnum" where
  "mouse_angle e x y distance =
     (let angle = js_mod (js_mod (math_acos ((x - num_at e ''midPosX'') / distance)) (2 * PI) + 2 * PI) (2 * PI)
      in norm_angle (if y < num_at e ''midPosY'' then - angle else angle))"

definition distance_to :: "jsnum \<Rightarrow> jsnum \<Rightarrow> jsnum \<Rightarrow> jsnum \<Rightarrow> jsnum" where
  "distance_to x y a b = math_sqrt ((x - a) * (x - a) + (y - b) * (y - b))"

definition set_graphPos :: "jsnum \<Rightarrow> jsnum \<Rightarrow> obj \<Rightarrow> obj" where
  "set_graphPos x y e = oset ''graphPosY'' (Num y) (oset ''graphPosX'' (Num x) e)"

text \<open>The angles of an arc as the test rewrites them.\<close>

definition arc_ends :: "obj \<Rightarrow> jsnum \<times> jsnum" where
  "arc_ends e =
     (let s = norm_angle (num_at e ''startAngle''); t = norm_angle (num_at e ''endAngle'')
      in (s, if t < s then t + 2 * PI else t))"

definition hit_arc :: "jsnum \<times> jsnum \<Rightarrow> obj \<Rightarrow> obj \<times> bool" where
  "hit_arc pos e =
     (let (x, y) = pos; distance = distance_to x y (num_at e ''midPosX'') (num_at e ''midPosY'')
      in if distance > num_at e ''int_radius'' \<and> distance < num_at e ''radiusOffset'' then
           (let angle = mouse_angle e x y distance; (s, t) = arc_ends e;
                e' = oset ''endAngle'' (Num t) (oset ''startAngle'' (Num s) e)
            in if (angle > s \<and> angle < t) \<or> (angle > s - 2 * PI \<and> angle < t - 2 * PI) \<or> (angle > s + 2 * PI \<and> angle < t + 2 * PI)
               then (set_graphPos x y e', True) else (e', False))
         else (e, False))"

definition hit_rect :: "jsnum \<times> jsnum \<Rightarrow> obj \<Rightarrow> obj \<times> bool" where
  "hit_rect pos e =
     (let (x, y) = pos; l = num_at e ''xPosLeft''; r = num_at e ''xPosRight''; b = num_at e ''yPosBottom''; t = num_at e ''yPosTop''
      in if x > math_min l r \<and> x < math_max l r \<and> y < math_max b t \<and> y > math_min b t
         then (set_graphPos x y e, True) else (e, False))"

definition hit_radius :: "mouse_env \<Rightarrow> obj \<Rightarrow> jsnum" where
  "hit_radius env config = scaled (me_space env) config ''pointHitDetectionRadius''"

text \<open>The distance of the mouse from a point, or from the whole line through it.\<close>

definition line_distance :: "obj \<Rightarrow> jsnum \<Rightarrow> jsnum \<Rightarrow> jsnum" where
  "line_distance e x y =
     (if oget e ''D1A'' = Undef then math_abs (x - num_at e ''posX'')
      else if oget e ''D2A'' = Undef then math_abs (y - num_at e ''posY'')
      else
        (let D1A = num_at e ''D1A''; D2A = num_at e ''D2A'';
             D2B = - D2A * x + y;
             g = - (num_at e ''D1B'' - D2B) / (D1A - D2A);
             h = D2A * g + D2B
         in distance_to x y g h))"

definition point_distance :: "mouse_env \<Rightarrow> obj \<Rightarrow> obj \<Rightarrow> jsnum \<Rightarrow> jsnum \<Rightarrow> jsnum" where
  "point_distance env config e x y =
     (let radius = hit_radius env config;
          x1 = num_at e ''annotateStartPosX''; x2 = num_at e ''annotateEndPosX'';
          y1 = num_at e ''annotateStartPosY''; y2 = num_at e ''annotateEndPosY''
      in if to_bool (oget config ''detectAnnotateOnFullLine'') then
           if x < math_min x1 x2 - radius \<or> x > math_max x1 x2 + radius \<or> y < math_min y1 y2 - radius \<or> y > math_max y1 y2 + radius
           then radius + 1 else line_distance e x y
         else distance_to x y (num_at e ''posX'') (num_at e ''posY''))"

definition hit_point :: "mouse_env \<Rightarrow> obj \<Rightarrow> jsnum \<times> jsnum \<Rightarrow> obj \<Rightarrow> obj \<times> bool" where
  "hit_point env config pos e =
     (let (x, y) = pos
      in if point_distance env config e x y < hit_radius env config then (set_graphPos x y e, True) else (e, False))"

definition hit_test :: "mouse_env \<Rightarrow> obj \<Rightarrow> jsnum \<times> jsnum \<Rightarrow> annotation \<Rightarrow> obj \<times> bool" where
  "hit_test env config pos a =
     (case an_shape a of
        ARC \<Rightarrow> hit_arc pos (an_entry a)
      | RECT \<Rightarrow> hit_rect pos (an_entry a)
      | POINT \<Rightarrow> hit_point env config pos (an_entry a))"

section \<open>The mouse action\<close>

text \<open>
  The calls of functions of the page: \<open>annotateFunctionOut\<close> and \<open>annotateFunctionIn\<close> with the indices
  of the annotation, and the function of the action with the entry under the mouse or null.
\<close>

datatype mouse_call = OutAnnotate nat int | InAnnotate nat int | Called "obj option"

text \<open>The variable \<open>annotatePrevShow\<close>, the shapes of the chart and the box \<open>divCursor\<close>.\<close>

record annotate_state =
  as_prev :: int
  as_annots :: "annotation list"
  as_display :: bool
  as_html :: string
  as_style :: obj
  as_pos :: "jsnum \<times> jsnum"
  as_calls :: "mouse_call list"

definition sub_index :: "annotation \<Rightarrow> int" where
  "sub_index a = (if an_shape a = ARC then - 1 else an_j a)"

text \<open>The indices are looked up in the shapes of this chart, which raises when there is no such shape.\<close>

definition annotateFunctionOut :: "obj \<Rightarrow> annotate_state \<Rightarrow> js_error + annotate_state" where
  "annotateFunctionOut config st =
     (if is_function (oget config ''annotateFunctionOut'') then
        if nat (as_prev st) < length (as_annots st)
        then (let a = as_annots st ! nat (as_prev st)
              in Inr (st\<lparr> as_calls := as_calls st @ [OutAnnotate (an_i a) (sub_index a)] \<rparr>))
        else Inl TypeError
      else Inr st)"

definition annotateFunctionIn :: "obj \<Rightarrow> nat \<Rightarrow> annotate_state \<Rightarrow> annotate_state" where
  "annotateFunctionIn config i st =
     (let a = as_annots st ! i
      in if is_function (oget config ''annotateFunctionIn'')
         then st\<lparr> as_calls := as_calls st @ [InAnnotate (an_i a) (sub_index a)] \<rparr> else st)"

definition change_annotation :: "obj \<Rightarrow> nat \<Rightarrow> annotate_state \<Rightarrow> js_error + annotate_state" where
  "change_annotation config i st =
     (if as_prev st \<noteq> int i then
        (case (if as_prev st \<ge> 0 then annotateFunctionOut config st else Inr st) of
           Inl e \<Rightarrow> Inl e
         | Inr st1 \<Rightarrow> Inr (annotateFunctionIn config i (st1\<lparr> as_prev := int i \<rparr>)))
      else Inr st)"

text \<open>One shape of the loop for the action \<open>annotate\<close>; the flag is the variable \<open>show\<close>.\<close>

definition annotate_step :: "mouse_env \<Rightarrow> obj \<Rightarrow> mouse_event \<Rightarrow> nat \<Rightarrow> annotate_state \<Rightarrow> js_error + bool \<times> annotate_state" where
  "annotate_step env config ev i st =
     (let a = as_annots st ! i; (e, hit) = hit_test env config (getMousePos env ev) a;
          st1 = st\<lparr> as_annots := (as_annots st)[i := a\<lparr> an_entry := e \<rparr>] \<rparr>
      in if hit then
           (case setOptionValue (me_call env) 1 ''ANNOTATELABEL'' Undef (oget config ''annotateLabel'') (int (an_i a)) (sub_index a) of
              Inl err \<Rightarrow> Inl err
            | Inr label \<Rightarrow>
                (let dispString = me_tmplbis env label e config;
                     st2 = st1\<lparr> as_html := dispString, as_pos := box_position env config ev dispString, as_display := True \<rparr>
                 in map_sum id (Pair True) (change_annotation config i st2)))
         else Inr (False, st1\<lparr> as_display := False \<rparr>))"

fun annotate_loop :: "mouse_env \<Rightarrow> obj \<Rightarrow> mouse_event \<Rightarrow> nat list \<Rightarrow> annotate_state \<Rightarrow> js_error + bool \<times> annotate_state" where
  "annotate_loop env config ev [] st = Inr (False, st)"
| "annotate_loop env config ev (i # is) st =
     (case annotate_step env config ev i st of
        Inl e \<Rightarrow> Inl e
      | Inr (show, st') \<Rightarrow> if show then Inr (True, st') else annotate_loop env config ev is st')"

text \<open>One shape of the loop for every other action: there \<open>show\<close> stays undefined and every shape is tested.\<close>

definition action_step :: "mouse_env \<Rightarrow> obj \<Rightarrow> mouse_event \<Rightarrow> nat \<Rightarrow> bool \<times> annotate_state \<Rightarrow> bool \<times> annotate_state" where
  "action_step env config ev i p =
     (let (onData, st) = p; a = as_annots st ! i; (e, hit) = hit_test env config (getMousePos env ev) a;
          st1 = st\<lparr> as_annots := (as_annots st)[i := a\<lparr> an_entry := e \<rparr>] \<rparr>
      in if hit then (True, st1\<lparr> as_calls := as_calls st1 @ [Called (Some e)] \<rparr>) else (onData, st1))"

definition doMouseAction :: "mouse_env \<Rightarrow> obj \<Rightarrow> mouse_event \<Rightarrow> string \<Rightarrow> annotate_state \<Rightarrow> js_error + annotate_state" where
  "doMouseAction env config ev action st =
     (let shapes = [0..<length (as_annots st)]
      in if action = ''annotate'' then
           (case annotate_loop env config ev shapes (st\<lparr> as_style := annotate_style env config, as_display := False \<rparr>) of
              Inl e \<Rightarrow> Inl e
            | Inr (show, st1) \<Rightarrow>
                if \<not> show \<and> as_prev st1 \<ge> 0
                then map_sum id (\<lambda>st2. st2\<lparr> as_prev := - 1 \<rparr>) (annotateFunctionOut config st1)
                else Inr st1)
         else
           (let (onData, st1) = fold (action_step env config ev) shapes (False, st)
            in Inr (if onData then st1 else st1\<lparr> as_calls := as_calls st1 @ [Called None] \<rparr>)))"


section \<open>Angles\<close>

text \<open>The angle between 0 and \<open>2 * pi\<close> that is the same direction.\<close>

definition nrm :: "real \<Rightarrow> real" where
  "nrm a = a - 2 * pi * of_int \<lfloor>a / (2 * pi)\<rfloor>"

lemma nrm_range: "0 \<le> nrm a" "nrm a < 2 * pi"
proof -
  define q where "q = a / (2 * pi)"
  have a: "a = 2 * pi * q" by (simp add: q_def)
  have q: "of_int \<lfloor>q\<rfloor> \<le> q" "q - of_int \<lfloor>q\<rfloor> < 1" by (simp, linarith)
  have "nrm a = 2 * pi * (q - of_int \<lfloor>q\<rfloor>)" unfolding nrm_def q_def [symmetric] by (simp add: a algebra_simps)
  with q show "0 \<le> nrm a" "nrm a < 2 * pi" by simp_all
qed

lemma nrm_shift: "\<exists>k :: int. nrm a = a + 2 * pi * of_int k"
  by (intro exI [of _ "- \<lfloor>a / (2 * pi)\<rfloor>"]) (simp add: nrm_def)

lemma nrm_unique:
  assumes "0 \<le> b" "b < 2 * pi" "b = a + 2 * pi * of_int k"
  shows "nrm a = b"
proof -
  have "a / (2 * pi) = b / (2 * pi) - of_int k" using assms(3) by (simp add: field_simps)
  moreover have "0 \<le> b / (2 * pi)" "b / (2 * pi) < 1" using assms(1,2) by simp_all
  ultimately have "\<lfloor>a / (2 * pi)\<rfloor> = - k" by (simp add: floor_eq_iff)
  with assms(3) show ?thesis by (simp add: nrm_def)
qed

lemma nrm_id: "0 \<le> b \<Longrightarrow> b < 2 * pi \<Longrightarrow> nrm b = b"
  by (rule nrm_unique [where k = 0]) simp_all

lemma nrm_nrm [simp]: "nrm (nrm a) = nrm a"
  by (rule nrm_id) (rule nrm_range)+

lemma nrm_add_turn: "nrm (a + 2 * pi) = nrm a"
proof -
  obtain k :: int where k: "nrm a = a + 2 * pi * of_int k" using nrm_shift by blast
  have "nrm a = (a + 2 * pi) + 2 * pi * of_int (k - 1)" unfolding k by (simp add: algebra_simps)
  from nrm_unique [OF nrm_range this] show ?thesis .
qed

lemma js_mod_turn:
  "\<exists>k :: int. js_mod (Fin a) (2 * PI) = Fin (a + 2 * pi * of_int k) \<and> \<bar>a + 2 * pi * of_int k\<bar> < 2 * pi
     \<and> (0 \<le> a \<longrightarrow> 0 \<le> a + 2 * pi * of_int k)"
proof (cases "0 \<le> a")
  case True
  then have q: "js_mod (Fin a) (2 * PI) = Fin (nrm a)" by (simp add: PI_def trunc_def nrm_def)
  have "0 \<le> nrm a" "nrm a < 2 * pi" by (rule nrm_range)+
  then show ?thesis unfolding q by (intro exI [of _ "- \<lfloor>a / (2 * pi)\<rfloor>"]) (simp add: nrm_def)
next
  case False
  define q where "q = a / (2 * pi)"
  have a: "a = 2 * pi * q" by (simp add: q_def)
  with False have "q < 0" by (simp add: not_le mult_less_0_iff)
  then have t: "trunc q = of_int \<lceil>q\<rceil>" by (simp add: trunc_def)
  have c: "of_int \<lceil>q\<rceil> < q + 1" "q \<le> of_int \<lceil>q\<rceil>" by linarith+
  have e: "a + 2 * pi * of_int (- \<lceil>q\<rceil>) = 2 * pi * (q - of_int \<lceil>q\<rceil>)" by (simp add: a algebra_simps)
  have "\<bar>q - of_int \<lceil>q\<rceil>\<bar> < 1" using c by simp
  then have "\<bar>2 * pi * (q - of_int \<lceil>q\<rceil>)\<bar> < 2 * pi" by (simp add: abs_mult)
  moreover have "js_mod (Fin a) (2 * PI) = Fin (a + 2 * pi * of_int (- \<lceil>q\<rceil>))"
    by (simp add: PI_def t flip: q_def)
  ultimately show ?thesis using False e by (intro exI [of _ "- \<lceil>q\<rceil>"]) simp
qed

text \<open>The source's way to normalise an angle does what it should on every finite angle.\<close>

lemma turn_normalises: "js_mod (js_mod (Fin a) (2 * PI) + 2 * PI) (2 * PI) = Fin (nrm a)"
proof -
  obtain k :: int where k: "js_mod (Fin a) (2 * PI) = Fin (a + 2 * pi * of_int k)" "\<bar>a + 2 * pi * of_int k\<bar> < 2 * pi"
    using js_mod_turn by blast
  let ?b = "a + 2 * pi * of_int k + 2 * pi"
  obtain m :: int where m: "js_mod (Fin ?b) (2 * PI) = Fin (?b + 2 * pi * of_int m)"
      "\<bar>?b + 2 * pi * of_int m\<bar> < 2 * pi" "0 \<le> ?b \<longrightarrow> 0 \<le> ?b + 2 * pi * of_int m"
    using js_mod_turn by blast
  have "nrm a = ?b + 2 * pi * of_int m"
    by (rule nrm_unique [where k = "k + 1 + m"]) (use k(2) m(2,3) in \<open>simp_all add: algebra_simps\<close>)
  moreover have "js_mod (Fin a) (2 * PI) + 2 * PI = Fin ?b" unfolding k(1) by (simp add: PI_def)
  ultimately show ?thesis using m(1) by (simp del: js_mod.simps)
qed

lemma norm_angle_Fin: "norm_angle (Fin a) = Fin (nrm a)"
  using turn_normalises [of "a + 2 * pi"] by (simp add: norm_angle_def PI_def nrm_add_turn)

lemma norm_angle_not_fin: "\<not> is_fin a \<Longrightarrow> norm_angle a = NaN"
  by (cases a) (simp_all add: norm_angle_def PI_def)

lemma arccos_nrm: "nrm (if sin a < 0 then - arccos (cos a) else arccos (cos a)) = nrm a"
proof -
  obtain k :: int where k: "nrm a = a + 2 * pi * of_int k" using nrm_shift by blast
  have cs: "cos a = cos (nrm a)" "sin a = sin (nrm a)" unfolding k by (simp_all add: cos_add sin_add)
  show ?thesis
  proof (cases "nrm a \<le> pi")
    case True
    then have "0 \<le> sin (nrm a)" using nrm_range(1) by (simp add: sin_ge_zero)
    with True nrm_range(1) [of a] show ?thesis by (simp add: cs arccos_cos)
  next
    case False
    then have "sin (nrm a) < 0" using nrm_range(2) [of a] sin_gt_zero [of "2 * pi - nrm a"] by (simp add: sin_diff)
    moreover have "arccos (cos (nrm a)) = 2 * pi - nrm a"
      using False nrm_range(2) [of a] arccos_cos [of "2 * pi - nrm a"] by (simp add: cos_diff)
    ultimately have "(if sin a < 0 then - arccos (cos a) else arccos (cos a)) = nrm a - 2 * pi" by (simp add: cs)
    then show ?thesis using nrm_add_turn [of "nrm a - 2 * pi"] by simp
  qed
qed


section \<open>What the tests find\<close>

text \<open>The point at the distance \<open>r\<close> from the middle of the chart in the direction \<open>a\<close>.\<close>

definition polar :: "real \<Rightarrow> real \<Rightarrow> real \<Rightarrow> real \<Rightarrow> jsnum \<times> jsnum" where
  "polar mx my r a = (Fin (mx + r * cos a), Fin (my + r * sin a))"

lemma distance_polar: "0 \<le> r \<Longrightarrow> distance_to (Fin (mx + r * cos a)) (Fin (my + r * sin a)) (Fin mx) (Fin my) = Fin r"
proof -
  assume "0 \<le> r"
  have "(r * cos a) * (r * cos a) + (r * sin a) * (r * sin a) = r\<^sup>2 * ((cos a)\<^sup>2 + (sin a)\<^sup>2)"
    by (simp only: power2_eq_square distrib_left mult_ac)
  then have "(r * cos a) * (r * cos a) + (r * sin a) * (r * sin a) = r\<^sup>2" by simp
  with \<open>0 \<le> r\<close> show ?thesis by (simp add: distance_to_def)
qed

lemma mouse_angle_polar:
  assumes "num_at e ''midPosX'' = Fin mx" "num_at e ''midPosY'' = Fin my" "0 < r"
  shows "mouse_angle e (Fin (mx + r * cos a)) (Fin (my + r * sin a)) (Fin r) = Fin (nrm a)"
proof -
  let ?c = "arccos (cos a)"
  have c: "0 \<le> ?c" "?c \<le> pi" using arccos_bounded [of "cos a"] by simp_all
  then have "?c < 2 * pi" using pi_gt_zero by linarith
  with c(1) have "js_mod (js_mod (Fin ?c) (2 * PI) + 2 * PI) (2 * PI) = Fin ?c" by (simp only: turn_normalises nrm_id)
  then show ?thesis
    using assms arccos_nrm [of a] by (simp add: mouse_angle_def Let_def norm_angle_Fin mult_less_0_iff del: js_mod.simps split: if_splits)
qed

lemma arc_ends_Fin:
  assumes "num_at e ''startAngle'' = Fin s" "num_at e ''endAngle'' = Fin (s + w)" "0 \<le> w" "w < 2 * pi"
  shows "arc_ends e = (Fin (nrm s), Fin (nrm s + w))"
proof -
  obtain k :: int where k: "nrm s = s + 2 * pi * of_int k" using nrm_shift by blast
  have s: "0 \<le> nrm s" "nrm s < 2 * pi" by (rule nrm_range)+
  have "nrm (s + w) = (if nrm s + w < 2 * pi then nrm s + w else nrm s + w - 2 * pi)"
  proof (cases "nrm s + w < 2 * pi")
    case True
    have "nrm (s + w) = nrm s + w" by (rule nrm_unique [where k = k]) (use True s assms(3) k in simp_all)
    with True show ?thesis by simp
  next
    case False
    have "nrm (s + w) = nrm s + w - 2 * pi"
      by (rule nrm_unique [where k = "k - 1"]) (use False s assms(4) k in \<open>simp_all add: algebra_simps\<close>)
    with False show ?thesis by simp
  qed
  with assms s show ?thesis by (simp add: arc_ends_def Let_def norm_angle_Fin PI_def)
qed

text \<open>Two directions are within an arc when some number of full turns puts the one between its ends.\<close>

lemma turns_bounded:
  assumes "0 \<le> b" "b < 2 * pi" "0 \<le> s" "s < 2 * pi" "w < 2 * pi"
  shows "(\<exists>k :: int. s < b + 2 * pi * of_int k \<and> b + 2 * pi * of_int k < s + w) \<longleftrightarrow>
     (b > s \<and> b < s + w) \<or> (b > s - 2 * pi \<and> b < s + w - 2 * pi) \<or> (b > s + 2 * pi \<and> b < s + w + 2 * pi)" (is "?l \<longleftrightarrow> ?r")
proof
  assume ?l
  then obtain k :: int where k: "s < b + 2 * pi * of_int k" "b + 2 * pi * of_int k < s + w" by blast
  have "2 * pi * (-1) < 2 * pi * of_int k" "2 * pi * of_int k < 2 * pi * 2" using k assms by linarith+
  then have "(-1::real) < of_int k" "of_int k < (2::real)" by (subst (asm) mult_less_cancel_left_pos; simp)+
  then have "k = 0 \<or> k = 1" by linarith
  with k show ?r by auto
next
  assume ?r
  then show ?l
    by (elim disjE) (rule exI [of _ 0], simp, rule exI [of _ 1], simp, rule exI [of _ "- 1"], simp)
qed

text \<open>The mouse hits an arc exactly when it is strictly between the two radii and strictly between the two
  ends of the arc, whatever multiples of a full turn the angles have.\<close>

lemma arc_hit_sector:
  assumes "num_at e ''midPosX'' = Fin mx" "num_at e ''midPosY'' = Fin my"
    and "num_at e ''int_radius'' = Fin r0" "num_at e ''radiusOffset'' = Fin r1"
    and "num_at e ''startAngle'' = Fin s" "num_at e ''endAngle'' = Fin (s + w)" "0 \<le> w" "w < 2 * pi" "0 < r"
  shows "snd (hit_arc (polar mx my r a) e) \<longleftrightarrow>
     r0 < r \<and> r < r1 \<and> (\<exists>k :: int. s < a + 2 * pi * of_int k \<and> a + 2 * pi * of_int k < s + w)"
proof -
  obtain ka ks :: int where k: "nrm a = a + 2 * pi * of_int ka" "nrm s = s + 2 * pi * of_int ks" using nrm_shift by metis
  have "(\<exists>k :: int. s < a + 2 * pi * of_int k \<and> a + 2 * pi * of_int k < s + w) \<longleftrightarrow>
      (\<exists>k :: int. nrm s < nrm a + 2 * pi * of_int k \<and> nrm a + 2 * pi * of_int k < nrm s + w)" (is "?l \<longleftrightarrow> ?r")
  proof
    assume ?l then obtain n :: int where "s < a + 2 * pi * of_int n" "a + 2 * pi * of_int n < s + w" by blast
    then show ?r by (intro exI [of _ "n + ks - ka"]) (simp add: k algebra_simps)
  next
    assume ?r then obtain n :: int where "nrm s < nrm a + 2 * pi * of_int n" "nrm a + 2 * pi * of_int n < nrm s + w" by blast
    then show ?l by (intro exI [of _ "n - ks + ka"]) (simp add: k algebra_simps)
  qed
  also have "\<dots> \<longleftrightarrow> (nrm a > nrm s \<and> nrm a < nrm s + w) \<or> (nrm a > nrm s - 2 * pi \<and> nrm a < nrm s + w - 2 * pi)
      \<or> (nrm a > nrm s + 2 * pi \<and> nrm a < nrm s + w + 2 * pi)"
    by (rule turns_bounded) (use nrm_range assms(8) in simp_all)
  finally show ?thesis
    using assms mouse_angle_polar [OF assms(1,2,9), of a] arc_ends_Fin [OF assms(5,6,7,8)] distance_polar [of r mx a my]
    by (auto simp: hit_arc_def polar_def Let_def PI_def)
qed


text \<open>
  In the mode that detects the whole line, the distance is the one from the line
  \<open>y = D1A * x + D1B\<close>: the foot of the perpendicular is computed from the slope \<open>D2A = - 1 / D1A\<close>.
\<close>

lemma line_distance_perpendicular:
  assumes "oget e ''D1A'' = NumF m" "oget e ''D1B'' = NumF b" "oget e ''D2A'' = NumF (- (1 / m))" "m \<noteq> 0"
  shows "line_distance e (Fin x) (Fin y) = Fin (\<bar>m * x + b - y\<bar> / sqrt (1 + m\<^sup>2))"
proof -
  let ?d = "m * x + b - y"
  define g where "g = - (b - (x / m + y)) / (m + 1 / m)"
  have pos: "0 < 1 + m\<^sup>2" "0 < 1 + m * m" by (simp_all add: add_pos_nonneg)
  have mm: "m + 1 / m = (1 + m\<^sup>2) / m" using assms(4) by (simp add: field_simps power2_eq_square)
  have nz: "m + 1 / m \<noteq> 0" unfolding mm using pos assms(4) by simp
  have "- (b - (x / m + y)) = (x + m * y - m * b) / m" using assms(4) by (simp add: field_simps)
  then have g: "g = (x + m * y - m * b) / (1 + m\<^sup>2)" using assms(4) unfolding g_def mm by simp
  have "x - g = m * ?d / (1 + m\<^sup>2)" unfolding g using pos by (simp add: field_simps power2_eq_square)
  moreover have "y - (- (1 / m) * g + (x / m + y)) = - ((x - g) / m)" using assms(4) by (simp add: field_simps)
  ultimately have "(x - g) * (x - g) + (y - (- (1 / m) * g + (x / m + y))) * (y - (- (1 / m) * g + (x / m + y)))
      = (m * ?d / (1 + m\<^sup>2))\<^sup>2 + (?d / (1 + m\<^sup>2))\<^sup>2"
    using assms(4) by (simp add: power2_eq_square)
  also have "\<dots> = (m\<^sup>2 * ?d\<^sup>2 + ?d\<^sup>2) / (1 + m\<^sup>2)\<^sup>2"
    unfolding power_divide power_mult_distrib by (simp only: add_divide_distrib)
  also have "\<dots> = ?d\<^sup>2 * (1 + m\<^sup>2) / (1 + m\<^sup>2)\<^sup>2" by (simp only: distrib_left mult_1_right mult.commute [of "m\<^sup>2"] add.commute)
  also have "\<dots> = ?d\<^sup>2 / (1 + m\<^sup>2)" using pos by (simp add: power2_eq_square [of "1 + m\<^sup>2"])
  finally have "distance_to (Fin x) (Fin y) (Fin g) (Fin (- (1 / m) * g + (x / m + y))) = Fin (sqrt (?d\<^sup>2 / (1 + m\<^sup>2)))"
    using pos by (simp add: distance_to_def not_less del: mult_minus_left)
  moreover have "sqrt (?d\<^sup>2 / (1 + m\<^sup>2)) = \<bar>?d\<bar> / sqrt (1 + m\<^sup>2)" by (simp add: real_sqrt_divide)
  ultimately show ?thesis
    using assms nz by (simp add: line_distance_def num_at_def Let_def g_def)
qed

section \<open>The tests leave the shapes as they are\<close>

lemma norm_angle_cases: "(\<exists>a. norm_angle x = Fin (nrm a)) \<or> norm_angle x = NaN"
  using norm_angle_Fin norm_angle_not_fin by (cases x) auto

lemma norm_angle_again:
  "norm_angle (norm_angle x) = norm_angle x" "norm_angle (norm_angle x + 2 * PI) = norm_angle x"
  using norm_angle_cases [of x] nrm_add_turn
  by (auto simp: norm_angle_Fin PI_def norm_angle_not_fin)

lemma num_at_oset [simp]: "num_at (oset k v e) k' = (if k = k' then to_number v else num_at e k')"
  by (simp add: num_at_def)

lemma arc_ends_again:
  assumes "arc_ends e = (s, t)"
  shows "arc_ends (oset ''endAngle'' (Num t) (oset ''startAngle'' (Num s) e)) = (s, t)"
  using assms norm_angle_again by (auto simp: arc_ends_def Let_def split: if_splits)

lemma arc_ends_graphPos [simp]: "arc_ends (set_graphPos x y e) = arc_ends e"
  by (simp add: arc_ends_def set_graphPos_def)

text \<open>The test of an arc reads six numbers of the entry.\<close>

lemma hit_arc_cong:
  assumes "\<And>k. k \<in> {''midPosX'', ''midPosY'', ''int_radius'', ''radiusOffset''} \<Longrightarrow> num_at e k = num_at e' k" "arc_ends e = arc_ends e'"
  shows "snd (hit_arc pos e) = snd (hit_arc pos e')"
proof -
  obtain x y where pos: "pos = (x, y)" by (cases pos)
  obtain s t where "arc_ends e = (s, t)" by (cases "arc_ends e")
  moreover from this assms(2) have "arc_ends e' = (s, t)" by simp
  ultimately show ?thesis using assms(1) by (simp add: pos hit_arc_def Let_def mouse_angle_def)
qed

lemma hit_arc_again: "snd (hit_arc pos' (fst (hit_arc pos e))) = snd (hit_arc pos' e)"
proof -
  obtain x y where pos: "pos = (x, y)" by (cases pos)
  obtain s t where st: "arc_ends e = (s, t)" by (cases "arc_ends e")
  let ?e = "oset ''endAngle'' (Num t) (oset ''startAngle'' (Num s) e)"
  have "fst (hit_arc pos e) \<in> {e, ?e, set_graphPos x y ?e}"
    by (simp add: hit_arc_def Let_def st pos)
  moreover have "snd (hit_arc pos' ?e) = snd (hit_arc pos' e)"
    by (rule hit_arc_cong) (auto simp: arc_ends_again [OF st] st)
  moreover have "snd (hit_arc pos' (set_graphPos x y ?e)) = snd (hit_arc pos' ?e)"
    by (rule hit_arc_cong) (auto simp: set_graphPos_def arc_ends_def)
  ultimately show ?thesis by auto
qed

lemma hit_rect_again: "snd (hit_rect pos' (fst (hit_rect pos e))) = snd (hit_rect pos' e)"
  by (auto simp: hit_rect_def Let_def set_graphPos_def split: prod.splits)

lemma at_graphPos:
  assumes "k \<noteq> ''graphPosX''" "k \<noteq> ''graphPosY''"
  shows "oget (set_graphPos a b e) k = oget e k" "num_at (set_graphPos a b e) k = num_at e k"
  using assms by (simp_all add: set_graphPos_def num_at_def)

lemma line_distance_graphPos: "line_distance (set_graphPos a b e) x y = line_distance e x y"
  by (simp add: line_distance_def at_graphPos)

lemma point_distance_graphPos: "point_distance env config (set_graphPos a b e) x y = point_distance env config e x y"
  by (simp add: point_distance_def Let_def at_graphPos line_distance_graphPos)

lemma hit_point_again: "snd (hit_point env config pos' (fst (hit_point env config pos e))) = snd (hit_point env config pos' e)"
  by (cases pos; cases pos') (simp add: hit_point_def point_distance_graphPos)

text \<open>What a mouse action can find out about a shape: it does not change by being tested.\<close>

definition area :: "mouse_env \<Rightarrow> obj \<Rightarrow> annotation \<Rightarrow> nat \<times> int \<times> (jsnum \<times> jsnum \<Rightarrow> bool)" where
  "area env config a = (an_i a, sub_index a, \<lambda>pos. snd (hit_test env config pos a))"

lemma area_tested: "area env config (a\<lparr> an_entry := fst (hit_test env config pos a) \<rparr>) = area env config a"
  by (cases "an_shape a")
    (simp_all add: area_def hit_test_def sub_index_def hit_arc_again hit_rect_again hit_point_again)


lemma area_eqD:
  assumes "area env config a = area env config b"
  shows "an_i a = an_i b" "sub_index a = sub_index b" "snd (hit_test env config pos a) = snd (hit_test env config pos b)"
  using assms by (auto simp: area_def dest: fun_cong)

abbreviation areas :: "mouse_env \<Rightarrow> obj \<Rightarrow> annotation list \<Rightarrow> (nat \<times> int \<times> (jsnum \<times> jsnum \<Rightarrow> bool)) list" where
  "areas env config annots \<equiv> map (area env config) annots"

lemma areas_tested:
  "i < length annots \<Longrightarrow>
     areas env config (annots[i := (annots ! i)\<lparr> an_entry := fst (hit_test env config pos (annots ! i)) \<rparr>]) = areas env config annots"
  unfolding map_update area_tested by (simp flip: nth_map)

section \<open>Hovering over the shapes\<close>

text \<open>
  The specification: an annotation is shown or none is (\<open>- 1\<close>), and whenever this changes, the page is told
  that the old one was left and the new one entered.
\<close>

definition hovered :: "mouse_env \<Rightarrow> obj \<Rightarrow> annotation list \<Rightarrow> jsnum \<times> jsnum \<Rightarrow> int" where
  "hovered env config annots pos =
     (case find (\<lambda>i. snd (hit_test env config pos (annots ! i))) [0..<length annots] of Some i \<Rightarrow> int i | None \<Rightarrow> - 1)"

definition transition :: "annotation list \<Rightarrow> int \<Rightarrow> int \<Rightarrow> mouse_call list" where
  "transition annots p q =
     (if p = q then []
      else (if p \<ge> 0 then [OutAnnotate (an_i (annots ! nat p)) (sub_index (annots ! nat p))] else [])
         @ (if q \<ge> 0 then [InAnnotate (an_i (annots ! nat q)) (sub_index (annots ! nat q))] else []))"

fun hover_trace :: "annotation list \<Rightarrow> int \<Rightarrow> int list \<Rightarrow> mouse_call list" where
  "hover_trace annots p [] = []"
| "hover_trace annots p (q # qs) = transition annots p q @ hover_trace annots q qs"

text \<open>A sequence of mouse events over a chart.\<close>

fun mouse_moves :: "mouse_env \<Rightarrow> obj \<Rightarrow> mouse_event list \<Rightarrow> annotate_state \<Rightarrow> js_error + annotate_state" where
  "mouse_moves env config [] st = Inr st"
| "mouse_moves env config (ev # evs) st =
     (case doMouseAction env config ev ''annotate'' st of Inl e \<Rightarrow> Inl e | Inr st' \<Rightarrow> mouse_moves env config evs st')"

text \<open>The page gives both functions, and the option for the text has a value for every shape.\<close>

definition annotating :: "mouse_env \<Rightarrow> obj \<Rightarrow> bool" where
  "annotating env config =
     (is_function (oget config ''annotateFunctionOut'') \<and> is_function (oget config ''annotateFunctionIn'')
      \<and> (\<forall>i j. \<exists>v. setOptionValue (me_call env) 1 ''ANNOTATELABEL'' Undef (oget config ''annotateLabel'') i j = Inr v))"

lemma transition_cong:
  assumes "areas env config as = areas env config bs" "p < int (length as)" "q < int (length as)"
  shows "transition as p q = transition bs p q"
proof -
  have len: "length as = length bs" using assms(1) by (rule map_eq_imp_length_eq)
  have "area env config (as ! n) = area env config (bs ! n)" if "n < length as" for n
    using that len assms(1) by (metis nth_map)
  then have "an_i (as ! n) = an_i (bs ! n) \<and> sub_index (as ! n) = sub_index (bs ! n)" if "n < length as" for n
    using that area_eqD by blast
  with assms(2,3) show ?thesis by (simp add: transition_def nat_less_iff)
qed

lemma find_hit_cong:
  assumes "areas env config as = areas env config bs" "\<forall>i \<in> set is. i < length as"
  shows "find (\<lambda>i. snd (hit_test env config pos (as ! i))) is = find (\<lambda>i. snd (hit_test env config pos (bs ! i))) is"
proof -
  have len: "length as = length bs" using assms(1) by (rule map_eq_imp_length_eq)
  have "area env config (as ! i) = area env config (bs ! i)" if "i \<in> set is" for i
    using that len assms by (metis nth_map)
  then show ?thesis using area_eqD(3) by (intro find_cong) (simp, blast)
qed

lemma change_annotation_spec:
  assumes "annotating env config" "- 1 \<le> as_prev st" "as_prev st < int (length (as_annots st))" "i < length (as_annots st)"
  shows "change_annotation config i st =
     Inr (st\<lparr> as_prev := int i, as_calls := as_calls st @ transition (as_annots st) (as_prev st) (int i) \<rparr>)"
  using assms
  by (auto simp: change_annotation_def annotateFunctionOut_def annotateFunctionIn_def annotating_def transition_def Let_def nat_less_iff)

text \<open>The loop finds the first shape under the mouse.\<close>

lemma annotate_loop_spec:
  assumes "annotating env config" "- 1 \<le> as_prev st" "as_prev st < int (length (as_annots st))"
    and "\<forall>i \<in> set is. i < length (as_annots st)" "\<not> as_display st"
  shows "\<exists>st'. annotate_loop env config ev is st =
       Inr (find (\<lambda>i. snd (hit_test env config (getMousePos env ev) (as_annots st ! i))) is \<noteq> None, st')
     \<and> areas env config (as_annots st') = areas env config (as_annots st)
     \<and> (case find (\<lambda>i. snd (hit_test env config (getMousePos env ev) (as_annots st ! i))) is of
          None \<Rightarrow> as_prev st' = as_prev st \<and> as_calls st' = as_calls st \<and> \<not> as_display st'
        | Some i \<Rightarrow> as_prev st' = int i \<and> as_calls st' = as_calls st @ transition (as_annots st) (as_prev st) (int i) \<and> as_display st')"
  using assms(2-5)
proof (induction "is" arbitrary: st)
  case (Cons i "is")
  let ?pos = "getMousePos env ev" and ?a = "as_annots st ! i"
  define annots where "annots = (as_annots st)[i := ?a\<lparr> an_entry := fst (hit_test env config ?pos ?a) \<rparr>]"
  have i: "i < length (as_annots st)" and len: "length annots = length (as_annots st)" using Cons.prems(3) by (simp_all add: annots_def)
  have same: "areas env config annots = areas env config (as_annots st)" unfolding annots_def by (rule areas_tested [OF i])
  show ?case
  proof (cases "snd (hit_test env config ?pos ?a)")
    case True
    obtain v where v: "setOptionValue (me_call env) 1 ''ANNOTATELABEL'' Undef (oget config ''annotateLabel'') (int (an_i ?a)) (sub_index ?a) = Inr v"
      using assms(1) by (auto simp: annotating_def)
    have tr: "transition annots (as_prev st) (int i) = transition (as_annots st) (as_prev st) (int i)"
      using Cons.prems(2) i len by (intro transition_cong [OF same]) simp_all
    obtain e where e: "hit_test env config ?pos ?a = (e, True)" using True by (cases "hit_test env config ?pos ?a") auto
    then have an: "(as_annots st)[i := ?a\<lparr> an_entry := e \<rparr>] = annots" by (simp add: annots_def)
    show ?thesis
      using v i len Cons.prems(1,2) same tr change_annotation_spec [OF assms(1)]
      by (simp add: annotate_step_def Let_def e an)
  next
    case False
    define st1 where "st1 = st\<lparr> as_annots := annots, as_display := False \<rparr>"
    have step: "annotate_step env config ev i st = Inr (False, st1)"
      using False by (auto simp: annotate_step_def Let_def st1_def annots_def split: prod.splits)
    have find: "find (\<lambda>i. snd (hit_test env config ?pos (as_annots st1 ! i))) is
        = find (\<lambda>i. snd (hit_test env config ?pos (as_annots st ! i))) is"
      by (rule find_hit_cong) (use same Cons.prems(3) len in \<open>auto simp: st1_def\<close>)
    have tr: "transition annots (as_prev st) (int k) = transition (as_annots st) (as_prev st) (int k)" if "k \<in> set is" for k
      using Cons.prems(2,3) that len by (intro transition_cong [OF same]) auto
    have "find P is = Some k \<Longrightarrow> k \<in> set is" for P k by (auto simp: find_Some_iff)
    with Cons.IH [of st1] Cons.prems len same tr find show ?thesis
      by (auto simp: step False st1_def split: option.splits)
  qed
qed simp


lemma annotate_refines_hover:
  assumes "annotating env config" "- 1 \<le> as_prev st" "as_prev st < int (length (as_annots st))"
    and "q = hovered env config (as_annots st) (getMousePos env ev)"
  shows "\<exists>st'. doMouseAction env config ev ''annotate'' st = Inr st'
     \<and> areas env config (as_annots st') = areas env config (as_annots st) \<and> as_prev st' = q \<and> (as_display st' \<longleftrightarrow> q \<ge> 0)
     \<and> as_calls st' = as_calls st @ transition (as_annots st) (as_prev st) q"
proof -
  let ?st = "st\<lparr> as_style := annotate_style env config, as_display := False \<rparr>" and ?is = "[0..<length (as_annots st)]"
  obtain st' where st': "annotate_loop env config ev ?is ?st =
       Inr (find (\<lambda>i. snd (hit_test env config (getMousePos env ev) (as_annots st ! i))) ?is \<noteq> None, st')"
      "areas env config (as_annots st') = areas env config (as_annots st)"
      "case find (\<lambda>i. snd (hit_test env config (getMousePos env ev) (as_annots st ! i))) ?is of
          None \<Rightarrow> as_prev st' = as_prev st \<and> as_calls st' = as_calls st \<and> \<not> as_display st'
        | Some i \<Rightarrow> as_prev st' = int i \<and> as_calls st' = as_calls st @ transition (as_annots st) (as_prev st) (int i) \<and> as_display st'"
    using annotate_loop_spec [OF assms(1), of ?st ?is ev] assms(2,3) by (auto cong: option.case_cong)
  have len: "length (as_annots st') = length (as_annots st)" using st'(2) by (rule map_eq_imp_length_eq)
  have tr: "transition (as_annots st') (as_prev st) (- 1) = transition (as_annots st) (as_prev st) (- 1)"
    by (rule transition_cong [OF st'(2)]) (use assms(3) len in simp_all)
  show ?thesis
  proof (cases "find (\<lambda>i. snd (hit_test env config (getMousePos env ev) (as_annots st ! i))) ?is")
    case None
    with assms st' tr len show ?thesis
      by (auto simp: doMouseAction_def hovered_def annotateFunctionOut_def annotating_def transition_def Let_def nat_less_iff)
  next
    case (Some i)
    with assms(4) st' show ?thesis by (simp add: doMouseAction_def hovered_def Let_def)
  qed
qed

lemma hovered_range: "- 1 \<le> hovered env config annots pos" "hovered env config annots pos < int (length annots)"
  by (auto simp: hovered_def find_Some_iff split: option.splits)

lemma hovered_cong: "areas env config as = areas env config bs \<Longrightarrow> hovered env config as pos = hovered env config bs pos"
  using map_eq_imp_length_eq [of "area env config" as "area env config" bs] find_hit_cong [of env config as bs "[0..<length as]" pos]
  by (simp add: hovered_def)

lemma hover_trace_cong:
  assumes "areas env config as = areas env config bs" "p < int (length as)" "\<forall>q \<in> set qs. q < int (length as)"
  shows "hover_trace as p qs = hover_trace bs p qs"
  using assms(2,3) by (induction qs arbitrary: p) (simp_all add: transition_cong [OF assms(1)])

text \<open>C7: Hovering refines its specification: over any sequence of mouse events on a chart the box is shown exactly
  while a shape is under the mouse, it belongs to the first such shape, and the page is told exactly once
  of every shape that is left and of every shape that is entered, in this order.\<close>

theorem hover_refinement:
  assumes "annotating env config" "- 1 \<le> as_prev st" "as_prev st < int (length (as_annots st))"
    and "qs = map (\<lambda>ev. hovered env config (as_annots st) (getMousePos env ev)) evs"
  shows "\<exists>st'. mouse_moves env config evs st = Inr st' \<and> as_prev st' = last (as_prev st # qs)
     \<and> (evs \<noteq> [] \<longrightarrow> (as_display st' \<longleftrightarrow> last qs \<ge> 0)) \<and> as_calls st' = as_calls st @ hover_trace (as_annots st) (as_prev st) qs"
  using assms(2-4)
proof (induction evs arbitrary: st qs)
  case (Cons ev evs)
  let ?hov = "\<lambda>as ev. hovered env config as (getMousePos env ev)"
  obtain st1 where st1: "doMouseAction env config ev ''annotate'' st = Inr st1"
      "areas env config (as_annots st1) = areas env config (as_annots st)" "as_prev st1 = ?hov (as_annots st) ev"
      "as_display st1 \<longleftrightarrow> ?hov (as_annots st) ev \<ge> 0"
      "as_calls st1 = as_calls st @ transition (as_annots st) (as_prev st) (?hov (as_annots st) ev)"
    using annotate_refines_hover [OF assms(1) Cons.prems(1,2) refl] by blast
  have len: "length (as_annots st1) = length (as_annots st)" using st1(2) by (rule map_eq_imp_length_eq)
  have same: "?hov (as_annots st1) = ?hov (as_annots st)" by (rule ext) (rule hovered_cong [OF st1(2)])
  obtain st2 where st2: "mouse_moves env config evs st1 = Inr st2" "as_prev st2 = last (as_prev st1 # map (?hov (as_annots st)) evs)"
      "evs \<noteq> [] \<longrightarrow> (as_display st2 \<longleftrightarrow> last (map (?hov (as_annots st)) evs) \<ge> 0)"
      "as_calls st2 = as_calls st1 @ hover_trace (as_annots st1) (as_prev st1) (map (?hov (as_annots st)) evs)"
    using Cons.IH [of st1, OF _ _ refl] hovered_range [of env config "as_annots st" "getMousePos env ev"] st1(3) len same by auto
  have "hover_trace (as_annots st1) (as_prev st1) (map (?hov (as_annots st)) evs)
      = hover_trace (as_annots st) (as_prev st1) (map (?hov (as_annots st)) evs)"
    by (rule hover_trace_cong [OF st1(2)]) (auto simp: st1(3) len hovered_range)
  with st1 st2 Cons.prems(3) show ?case by (cases "evs = []") auto
qed simp


text \<open>Two bars, and a mouse that enters the first, goes on to the second and leaves the chart.\<close>

definition bar_shape :: "nat \<Rightarrow> real \<Rightarrow> annotation" where
  "bar_shape i x =
     \<lparr> an_shape = RECT, an_i = i, an_j = 0,
       an_entry = [(''xPosLeft'', NumF x), (''xPosRight'', NumF (x + 10)), (''yPosBottom'', NumF 100), (''yPosTop'', NumF 50)] \<rparr>"

definition two_bars :: annotate_state where
  "two_bars = \<lparr> as_prev = - 1, as_annots = [bar_shape 0 10, bar_shape 1 30], as_display = False, as_html = [], as_style = [],
     as_pos = (Fin 0, Fin 0), as_calls = [] \<rparr>"

definition plain_mouse :: mouse_env where
  "plain_mouse = \<lparr> me_browser = checkBrowser ''5.0'' True False False, me_innerWidth = Fin 800, me_pageYOffset = Fin 0, me_scrollTop = Fin 0,
     me_left = Fin 0, me_top = Fin 0, me_space = Fin 1, me_text = Fin 1, me_numstr = (\<lambda>_. []), me_tmplbis = (\<lambda>_ _ _. ''bar''),
     me_width = (\<lambda>_. Fin 20), me_call = (\<lambda>_ _ _ _. Undef) \<rparr>"

definition mouse_at :: "real \<Rightarrow> real \<Rightarrow> mouse_event" where
  "mouse_at x y = \<lparr> ev_clientX = Fin x, ev_clientY = Fin y, ev_pageX = Fin x, ev_pageY = Fin y, ev_x = Fin x, ev_y = Fin y \<rparr>"

definition hover_config :: obj where
  "hover_config = [(''annotateFunctionIn'', Fn ''f''), (''annotateFunctionOut'', Fn ''g''), (''annotateLabel'', Str ''<%=v3%>'')]"

lemma annotating_sample: "annotating plain_mouse hover_config"
  by (simp add: annotating_def hover_config_def setOptionValue_def)

lemma hovered_sample:
  "hovered plain_mouse hover_config (as_annots two_bars) (getMousePos plain_mouse (mouse_at 15 70)) = 0"
  "hovered plain_mouse hover_config (as_annots two_bars) (getMousePos plain_mouse (mouse_at 35 70)) = 1"
  "hovered plain_mouse hover_config (as_annots two_bars) (getMousePos plain_mouse (mouse_at 35 10)) = - 1"
  by (simp_all add: hovered_def two_bars_def bar_shape_def getMousePos_def mouse_at_def plain_mouse_def hit_test_def hit_rect_def num_at_def)

theorem hover_refinement_witness:
  "\<exists>st'. mouse_moves plain_mouse hover_config [mouse_at 15 70, mouse_at 35 70, mouse_at 35 10] two_bars = Inr st'
     \<and> as_prev st' = - 1 \<and> \<not> as_display st'
     \<and> as_calls st' = [InAnnotate 0 0, OutAnnotate 0 0, InAnnotate 1 0, OutAnnotate 1 0]"
  using hover_refinement [OF annotating_sample _ _ refl, of two_bars "[mouse_at 15 70, mouse_at 35 70, mouse_at 35 10]"]
  by (simp add: hovered_sample transition_def) (simp add: two_bars_def bar_shape_def sub_index_def)

section \<open>Other actions\<close>

lemma action_fold:
  assumes "n \<le> length (as_annots st)"
  shows "\<exists>annots. fold (action_step env config ev) [0..<n] (False, st) =
      (\<exists>a \<in> set (take n (as_annots st)). snd (hit_test env config (getMousePos env ev) a),
       st\<lparr> as_annots := annots,
           as_calls := as_calls st @ map (\<lambda>a. Called (Some (fst (hit_test env config (getMousePos env ev) a))))
             (filter (\<lambda>a. snd (hit_test env config (getMousePos env ev) a)) (take n (as_annots st))) \<rparr>)
    \<and> length annots = length (as_annots st) \<and> (\<forall>k. n \<le> k \<and> k < length annots \<longrightarrow> annots ! k = as_annots st ! k)
    \<and> areas env config annots = areas env config (as_annots st)"
  using assms
proof (induction n)
  case 0
  show ?case by (intro exI [of _ "as_annots st"]) simp
next
  case (Suc n)
  let ?pos = "getMousePos env ev"
  obtain annots where an: "fold (action_step env config ev) [0..<n] (False, st) =
      (\<exists>a \<in> set (take n (as_annots st)). snd (hit_test env config ?pos a),
       st\<lparr> as_annots := annots, as_calls := as_calls st @ map (\<lambda>a. Called (Some (fst (hit_test env config ?pos a))))
             (filter (\<lambda>a. snd (hit_test env config ?pos a)) (take n (as_annots st))) \<rparr>)"
      "length annots = length (as_annots st)" "\<forall>k. n \<le> k \<and> k < length annots \<longrightarrow> annots ! k = as_annots st ! k"
      "areas env config annots = areas env config (as_annots st)"
    using Suc by auto
  then have a: "annots ! n = as_annots st ! n" "n < length annots" using Suc.prems by simp_all
  obtain e hit where eh: "hit_test env config ?pos (as_annots st ! n) = (e, hit)" by (cases "hit_test env config ?pos (as_annots st ! n)")
  have areas: "areas env config (annots[n := (as_annots st ! n)\<lparr> an_entry := e \<rparr>]) = areas env config (as_annots st)"
    using areas_tested [OF a(2), of env config ?pos] an(4) by (simp add: a eh)
  have take: "take (Suc n) (as_annots st) = take n (as_annots st) @ [as_annots st ! n]"
    using Suc.prems by (simp add: take_Suc_conv_app_nth)
  show ?case
    by (intro exI [of _ "annots[n := (as_annots st ! n)\<lparr> an_entry := e \<rparr>]"] conjI)
      (use an areas in \<open>simp_all add: action_step_def [of env config ev n] Let_def a eh take\<close>)
qed

text \<open>Every mouse action of a page other than the annotation is reported: its function is called once for each
  shape under the mouse, in the order of the shapes and with the entry of the shape, or once with null.\<close>

theorem mouse_action_reported:
  assumes "action \<noteq> ''annotate''"
    and "hits = filter (\<lambda>a. snd (hit_test env config (getMousePos env ev) a)) (as_annots st)"
  shows "\<exists>st'. doMouseAction env config ev action st = Inr st' \<and> areas env config (as_annots st') = areas env config (as_annots st)
     \<and> as_prev st' = as_prev st \<and> as_display st' = as_display st
     \<and> as_calls st' = as_calls st @
         (if hits = [] then [Called None] else map (\<lambda>a. Called (Some (fst (hit_test env config (getMousePos env ev) a)))) hits)"
  using assms action_fold [of "length (as_annots st)" st env config ev]
  by (auto simp: doMouseAction_def Let_def filter_empty_conv)

theorem mouse_action_reported_witness:
  "\<exists>st'. doMouseAction plain_mouse hover_config (mouse_at 35 10) ''mouseaction'' two_bars = Inr st' \<and> as_calls st' = [Called None]"
  using mouse_action_reported [OF _ refl, of "''mouseaction''" plain_mouse hover_config "mouse_at 35 10" two_bars]
  by (auto simp: two_bars_def bar_shape_def getMousePos_def mouse_at_def plain_mouse_def hit_test_def hit_rect_def num_at_def)

text \<open>C40: The number of the annotation that was shown last is one variable for all charts.  When it was shown by a chart
  with more shapes, every later mouse event over this chart raises, as soon as the page wants to be told of the
  annotations that are left.\<close>

theorem stale_annotation_raises:
  assumes "annotating env config" "as_prev st \<ge> int (length (as_annots st))"
  shows "doMouseAction env config ev ''annotate'' st = Inl TypeError"
proof -
  have "annotate_loop env config ev is st0 = Inl TypeError
      \<or> (\<exists>st'. annotate_loop env config ev is st0 = Inr (False, st') \<and> as_prev st' = as_prev st
             \<and> length (as_annots st') = length (as_annots st))"
    if "\<forall>i \<in> set is. i < length (as_annots st)" "as_prev st0 = as_prev st" "length (as_annots st0) = length (as_annots st)" for "is" st0
    using that
  proof (induction "is" arbitrary: st0)
    case (Cons i "is")
    then have "as_prev st0 \<noteq> int i" "as_prev st0 \<ge> 0" using assms(2) by auto
    moreover obtain v where "setOptionValue (me_call env) 1 ''ANNOTATELABEL'' Undef (oget config ''annotateLabel'')
        (int (an_i (as_annots st0 ! i))) (sub_index (as_annots st0 ! i)) = Inr v"
      using assms(1) by (auto simp: annotating_def)
    ultimately show ?case
      using Cons assms
      by (auto simp: annotate_step_def Let_def change_annotation_def annotateFunctionOut_def annotating_def split: prod.splits)
  qed simp
  from this [of "[0..<length (as_annots st)]" "st\<lparr> as_style := annotate_style env config, as_display := False \<rparr>"] assms
  show ?thesis by (auto simp: doMouseAction_def Let_def annotateFunctionOut_def annotating_def)
qed

theorem stale_annotation_raises_witness:
  "doMouseAction plain_mouse hover_config (mouse_at 15 70) ''annotate'' (two_bars\<lparr> as_prev := 2 \<rparr>) = Inl TypeError"
  by (rule stale_annotation_raises [OF annotating_sample]) (simp add: two_bars_def)

end
