(* ===== verification/Painting.thy ===== *)
theory Painting
  imports MouseActions
begin

text \<open>
  What a frame paints of the data: the functions \<open>drawAllSegments\<close> of the polar chart and \<open>drawPieSegments\<close> of the pie
  and the doughnut chart.  A drawing function gives the calls
  of the canvas context in their order, and the shapes it registers for the mouse in the last frame.  The texts
  inside the chart (option \<open>inGraphDataShow\<close>) and the legend are left out.
\<close>

datatype canvas_op =
    BeginPath
  | ClosePath
  | MoveTo jsnum jsnum
  | LineTo jsnum jsnum
  | Arc jsnum jsnum jsnum jsnum jsnum bool
  | Rect jsnum jsnum jsnum jsnum
  | QuadraticCurveTo jsnum jsnum jsnum jsnum
  | BezierCurveTo jsnum jsnum jsnum jsnum jsnum jsnum
  | FillStyle jsval
  | StrokeStyle jsval
  | LineWidth jsnum
  | LineDash "real list"
  | Fill
  | Stroke
  | Save
  | Restore
  | Font string
  | TextAlign string
  | TextBaseline string
  | Translate jsnum jsnum
  | Rotate jsnum
  | FillText string jsnum jsnum
  | FillRect jsnum jsnum jsnum jsnum

record paint_env =
  pe_call :: "string \<Rightarrow> string \<Rightarrow> int \<Rightarrow> int \<Rightarrow> jsval"
  pe_numstr :: "jsnum \<Rightarrow> string"
  pe_scales :: ctx_scales

text \<open>\<open>setOptionValue(1, reference, ..., own, config[key], i, j, ...)\<close>\<close>

definition style_option :: "paint_env \<Rightarrow> string \<Rightarrow> jsval \<Rightarrow> jsval \<Rightarrow> nat \<Rightarrow> int \<Rightarrow> js_error + jsval" where
  "style_option pe reference own general i j = setOptionValue (pe_call pe) 1 reference own general (int i) j"

section \<open>The share of an animation that belongs to one value\<close>

record anim_share =
  mainVal :: jsnum
  subVal :: jsnum

abbreviation animVal :: "anim_share \<Rightarrow> jsnum" where
  "animVal s \<equiv> mainVal s + subVal s"

text \<open>\<open>- 1\<close> stands for a start option of 0, which means the first one.\<close>

definition start_at :: "obj \<Rightarrow> string \<Rightarrow> jsnum" where
  "start_at config key = to_number (oget config key) - 1"

definition first_at :: "jsnum \<Rightarrow> jsnum" where
  "first_at start = (if num_eq start (- 1) then 0 else start)"

definition before_start :: "jsnum \<Rightarrow> jsnum \<Rightarrow> bool" where
  "before_start v start = (v < start \<and> \<not> num_eq start (- 1))"

text \<open>Data sets one after the other: the share, whether the values of the set are still to be treated, and the share
  of the animation that the set has to itself.\<close>

definition by_dataset :: "jsnum \<Rightarrow> jsnum \<Rightarrow> obj \<Rightarrow> jsnum \<Rightarrow> jsnum \<times> bool \<times> jsnum" where
  "by_dataset animationValue datasets config vdata =
     (let start = first_at (start_at config ''animationStartWithDataset''); steps = to_number (oget config ''animationSteps'');
          per = steps / (datasets - start); red = animationValue - (vdata - start) * per / steps
      in if animationValue \<ge> (vdata - start + 1) * per / steps then (1, False, animationValue)
         else if animationValue \<ge> (vdata - start) * per / steps
         then (if to_bool (oget config ''animationLeftToRight'') then (0, True, red * (datasets - start))
               else (red * (datasets - start), True, animationValue))
         else (0, False, animationValue))"

text \<open>Values one after the other.\<close>

definition left_to_right :: "jsnum \<Rightarrow> jsnum \<Rightarrow> obj \<Rightarrow> jsnum \<Rightarrow> jsnum \<Rightarrow> anim_share" where
  "left_to_right newValue values config vsubdata addone =
     (let start = first_at (start_at config ''animationStartWithData''); steps = to_number (oget config ''animationSteps'');
          per = steps / (values - start - 1 + addone)
      in if newValue \<ge> (vsubdata - start) * per / steps
         then \<lparr> mainVal = 1,
                subVal = (if newValue \<le> (vsubdata + 1 - start) * per / steps
                          then (values - start - 1) * (newValue - (vsubdata - start) * per / steps) else 0) \<rparr>
         else \<lparr> mainVal = 0, subVal = 0 \<rparr>)"

text \<open>\<open>lens\<close> are the lengths of the data sets; a segment has no sub-index.\<close>

definition animationCorrection :: "jsnum \<Rightarrow> nat list \<Rightarrow> obj \<Rightarrow> nat \<Rightarrow> nat option \<Rightarrow> jsnum \<Rightarrow> anim_share" where
  "animationCorrection animationValue lens config vdata vsubdata addone =
     (let i = Fin (of_nat vdata)
      in case vsubdata of
           Some v \<Rightarrow>
             (let j = Fin (of_nat v);
                  a1 = (if animationValue < 1 \<and> before_start i (start_at config ''animationStartWithDataset'') then 1 else animationValue);
                  a2 = (if a1 < 1 \<and> before_start j (start_at config ''animationStartWithData'') then 1 else a1);
                  (a3, totreat, newValue) =
                    (if a2 < 1 \<and> to_bool (oget config ''animationByDataset'')
                     then by_dataset animationValue (Fin (of_nat (length lens))) config i
                     else (a2, True, animationValue))
              in if totreat \<and> a3 < 1 \<and> to_bool (oget config ''animationLeftToRight'')
                 then left_to_right newValue (Fin (of_nat (lens ! vdata))) config j addone
                 else \<lparr> mainVal = a3, subVal = 0 \<rparr>)
         | None \<Rightarrow>
             \<lparr> mainVal = (if animationValue < 1 \<and> i < start_at config ''animationStartWithData'' then 1 else animationValue), subVal = 0 \<rparr>)"

text \<open>The last frame of an animation shows everything.\<close>

lemma correction_complete [simp]: "animationCorrection (Fin 1) lens config i j addone = \<lparr> mainVal = Fin 1, subVal = Fin 0 \<rparr>"
  by (auto simp: animationCorrection_def Let_def split: option.splits)

section \<open>Segments\<close>

definition anim_factor :: "obj \<Rightarrow> string \<Rightarrow> jsnum \<Rightarrow> jsnum" where
  "anim_factor config key animationDecimal =
     (if to_bool (oget config ''animation'') \<and> to_bool (oget config key) then animationDecimal else 1)"

text \<open>The angles between which a segment is painted when the share \<open>r\<close> of the animation is over.\<close>

definition segment_arc :: "obj \<Rightarrow> obj \<Rightarrow> jsnum \<Rightarrow> (jsnum \<times> jsnum) option" where
  "segment_arc config e r =
     (let byData = oget config ''animationByData''; s = num_at e ''startAngle''; t = num_at e ''endAngle''; first = num_at e ''firstAngle''
      in if loose_eq byData (Str ''ByArc'') then Some (s, s + r * num_at e ''segmentAngle'')
         else if to_bool byData then
           (if s - first < r * 2 * PI then Some (s, if t - first > r * 2 * PI then first + r * 2 * PI else t) else None)
         else Some (first + r * (s - first), first + r * (t - first)))"

definition segment_path :: "string \<Rightarrow> othervars \<Rightarrow> jsnum \<Rightarrow> obj \<Rightarrow> jsnum \<Rightarrow> jsnum \<Rightarrow> canvas_op list" where
  "segment_path tp ov scaleAnimation e a b =
     (let mx = ov_midPosX ov; my = ov_midPosY ov
      in if tp = ''Doughnut''
         then [Arc mx my (scaleAnimation * ov_ext_radius ov) a b False, Arc mx my (scaleAnimation * ov_int_radius ov) b a True]
         else [Arc mx my (scaleAnimation * (if tp = ''PolarArea'' then num_at e ''radiusOffset'' else ov_ext_radius ov)) a b False, LineTo mx my])"

definition segment_stroke :: "paint_env \<Rightarrow> obj \<Rightarrow> string \<Rightarrow> obj \<Rightarrow> nat \<Rightarrow> js_error + canvas_op list" where
  "segment_stroke pe config tp d i =
     (if to_bool (oget config ''segmentShowStroke'') then
        and_then (style_option pe ''SEGMENTSTROKESTYLE'' (oget d ''segmentStrokeStyle'') (oget config ''segmentStrokeStyle'') i (- 1)) (\<lambda>dash.
          (let colour = StrokeStyle (oget config ''segmentStrokeColor'');
               width = LineWidth (scaled (sc_line (pe_scales pe)) config ''segmentStrokeWidth'')
           in Inr ((if tp = ''PolarArea'' then [colour, width] else [width, colour])
                @ [LineDash (lineStyleFn (pe_numstr pe) dash), Stroke, LineDash []])))
      else Inr [])"

definition paint_segment ::
  "paint_env \<Rightarrow> obj \<Rightarrow> string \<Rightarrow> othervars \<Rightarrow> jsnum \<Rightarrow> nat \<Rightarrow> obj \<Rightarrow> obj \<Rightarrow> js_error + canvas_op list" where
  "paint_segment pe config tp ov animationDecimal i d e =
     (let scaleAnimation = anim_factor config ''animateScale'' animationDecimal;
          r = mainVal (animationCorrection (anim_factor config ''animateRotate'' animationDecimal) [] config i None 0)
      in if counted tp d then
           (case segment_arc config e r of
              None \<Rightarrow> Inr [BeginPath]
            | Some (a, b) \<Rightarrow>
                and_then (style_option pe ''COLOR'' (oget d ''color'') (oget config ''defaultFillColor'') i (- 1)) (\<lambda>colour.
                and_then (segment_stroke pe config tp d i) (\<lambda>stroke.
                  Inr ([BeginPath] @ segment_path tp ov scaleAnimation e a b @ [ClosePath, FillStyle colour, Fill] @ stroke))))
         else Inr [])"

text \<open>The shapes for the mouse: a value that is not a number is registered although it is not drawn.\<close>

definition register_segment :: "paint_env \<Rightarrow> obj \<Rightarrow> string \<Rightarrow> nat \<Rightarrow> obj \<Rightarrow> obj \<Rightarrow> js_error + annotation list" where
  "register_segment pe config tp i d e =
     (if oget d ''value'' = Undef \<or> tp \<noteq> ''PolarArea'' \<and> nvalue d < 0 then Inr []
      else and_then (style_option pe ''ANNOTATEDISPLAY'' Undef (oget config ''annotateDisplay'') i (- 1)) (\<lambda>shown.
        Inr (if to_bool shown then [\<lparr> an_shape = ARC, an_i = i, an_j = - 1, an_entry = e \<rparr>] else [])))"

definition last_frame :: "obj \<Rightarrow> jsnum \<Rightarrow> bool" where
  "last_frame config animationDecimal = (animationDecimal \<ge> to_number (oget config ''animationStopValue''))"

definition drawSegments ::
  "paint_env \<Rightarrow> obj \<Rightarrow> string \<Rightarrow> othervars \<Rightarrow> obj list \<Rightarrow> obj list \<Rightarrow> jsnum \<Rightarrow> js_error + canvas_op list \<times> annotation list" where
  "drawSegments pe config tp ov data statData animationDecimal =
     and_then (collect (\<lambda>i. paint_segment pe config tp ov animationDecimal i (data ! i) (statData ! i)) [0..<length data]) (\<lambda>ops.
       if last_frame config animationDecimal
       then and_then (collect (\<lambda>i. register_segment pe config tp i (data ! i) (statData ! i)) [0..<length data]) (\<lambda>annots.
              Inr (concat ops, concat annots))
       else Inr (concat ops, []))"

text \<open>The three functions with this text.\<close>

definition drawAllSegments :: "paint_env \<Rightarrow> obj \<Rightarrow> othervars \<Rightarrow> obj list \<Rightarrow> obj list \<Rightarrow> jsnum \<Rightarrow> js_error + canvas_op list \<times> annotation list" where
  "drawAllSegments pe config = drawSegments pe config ''PolarArea''"

definition drawPieSegments :: "paint_env \<Rightarrow> obj \<Rightarrow> othervars \<Rightarrow> obj list \<Rightarrow> obj list \<Rightarrow> jsnum \<Rightarrow> js_error + canvas_op list \<times> annotation list" where
  "drawPieSegments pe config = drawSegments pe config ''Pie''"

definition drawDoughnutSegments :: "paint_env \<Rightarrow> obj \<Rightarrow> othervars \<Rightarrow> obj list \<Rightarrow> obj list \<Rightarrow> jsnum \<Rightarrow> js_error + canvas_op list \<times> annotation list" where
  "drawDoughnutSegments pe config = drawSegments pe config ''Doughnut''"

section \<open>What is painted is what the mouse finds\<close>

lemma collect_nth:
  "collect f is = Inr xs \<Longrightarrow> length xs = length is \<and> (\<forall>k < length is. f (is ! k) = Inr (xs ! k))"
  by (induction "is" arbitrary: xs) (auto simp: nth_Cons split: sum.splits nat.splits)

lemma collect_total: "(\<And>x. x \<in> set xs \<Longrightarrow> \<exists>r. f x = Inr r) \<Longrightarrow> \<exists>rs. collect f xs = Inr rs"
  by (induction xs) (force split: sum.splits)+

lemma in_collect:
  assumes "collect f [0..<n] = Inr xs"
  shows "y \<in> set (concat xs) \<longleftrightarrow> (\<exists>i < n. \<exists>ys. f i = Inr ys \<and> y \<in> set ys)"
  using collect_nth [OF assms] by (auto simp: in_set_conv_nth [of _ xs] Bex_def)

lemma place_segment_at:
  "k \<in> {''startAngle'', ''endAngle'', ''firstAngle'', ''segmentAngle''} \<Longrightarrow> oget (place_segment lg ns perso config tp ov d e) k = oget e k"
  "num_at (place_segment lg ns perso config tp ov d e) ''midPosX'' = ov_midPosX ov"
  "num_at (place_segment lg ns perso config tp ov d e) ''midPosY'' = ov_midPosY ov"
  "num_at (place_segment lg ns perso config tp ov d e) ''int_radius'' = ov_int_radius ov"
  "tp \<noteq> ''PolarArea'' \<Longrightarrow> num_at (place_segment lg ns perso config tp ov d e) ''radiusOffset'' = ov_ext_radius ov"
  unfolding place_segment_def Let_def num_at_def oget_copy_attrs by (elim insertE; simp)+ simp_all

lemma sum_take_mono:
  assumes "\<forall>x \<in> set xs. 0 \<le> (f x :: real)" "i \<le> j"
  shows "sum_list (map f (take i xs)) \<le> sum_list (map f (take j xs))"
proof -
  obtain d where "j = i + d" using assms(2) le_Suc_ex by blast
  then have "take j xs = take i xs @ take d (drop i xs)" by (simp add: take_add)
  moreover have "0 \<le> sum_list (map f (take d (drop i xs)))"
    using assms(1) by (intro sum_list_nonneg) (auto dest: in_set_takeD in_set_dropD)
  ultimately show ?thesis by simp
qed

lemma seg_share_nonneg:
  assumes "0 < sum_list (map (counted_value tp) data)" "tp \<noteq> ''PolarArea''" "finite_segments data" "d \<in> set data"
  shows "0 \<le> seg_share tp data d"
proof -
  have "0 \<le> counted_value tp d"
    using assms(2-4) by (auto simp: counted_value_def counted_def finite_segments_def zero_jsnum_def elim!: is_finE)
  with assms(1,2) show ?thesis by (simp add: seg_share_def)
qed

text \<open>A pie or a doughnut whose values are finite, with more than one segment.\<close>

definition pie_ready :: "obj \<Rightarrow> string \<Rightarrow> obj list \<Rightarrow> bool" where
  "pie_ready config tp data =
     (tp \<in> {''Pie'', ''Doughnut''} \<and> finite_segments data \<and> 0 < sum_list (map (counted_value tp) data)
      \<and> (\<forall>d \<in> set data. seg_share tp data d < 1) \<and> is_fin (to_number (oget config ''startAngle'')))"

text \<open>The segments of such a chart, between the angles \<open>turn i\<close> and \<open>turn (i + 1)\<close>.\<close>

definition sectors :: "string \<Rightarrow> obj list \<Rightarrow> obj list \<Rightarrow> real \<Rightarrow> real \<Rightarrow> real \<Rightarrow> real \<Rightarrow> (nat \<Rightarrow> real) \<Rightarrow> bool" where
  "sectors tp data statData mx my r0 r1 turn =
     ((\<forall>i j. i \<le> j \<longrightarrow> turn i \<le> turn j) \<and> (\<forall>i. turn i \<le> turn 0 + 2 * pi)
      \<and> (\<forall>i < length data. counted tp (data ! i) \<longrightarrow>
           num_at (statData ! i) ''startAngle'' = Fin (turn i) \<and> num_at (statData ! i) ''endAngle'' = Fin (turn (Suc i))
           \<and> num_at (statData ! i) ''firstAngle'' = Fin (turn 0) \<and> num_at (statData ! i) ''segmentAngle'' = Fin (turn (Suc i) - turn i)
           \<and> turn (Suc i) - turn i < 2 * pi)
      \<and> (\<forall>i < length data. num_at (statData ! i) ''midPosX'' = Fin mx \<and> num_at (statData ! i) ''midPosY'' = Fin my
           \<and> num_at (statData ! i) ''int_radius'' = Fin r0 \<and> num_at (statData ! i) ''radiusOffset'' = Fin r1))"

lemma pie_sectors:
  assumes "pie_ready config tp data" "ov_midPosX ov = Fin mx" "ov_midPosY ov = Fin my" "ov_int_radius ov = Fin r0" "ov_ext_radius ov = Fin r1"
    and "statData = initPassVariableData_part2_segments lg ns perso config tp ov data (initPassVariableData_segments ns perso config tp data)"
  shows "\<exists>turn. sectors tp data statData mx my r0 r1 turn"
proof -
  note ready = assms(1) [unfolded pie_ready_def]
  then have ne: "\<exists>d \<in> set data. counted tp d"
    by (metis (no_types, lifting) counted_value_def less_irrefl map_eq_conv sum_list_0)
  obtain deg where deg: "to_number (oget config ''startAngle'') = Fin deg" using ready by (auto elim: is_finE)
  obtain s st where seg: "sum_list (map (seg_share tp data) data) = 1" "segments_done tp data s data st"
      "initPassVariableData_segments ns perso config tp data = sl_result st"
    using segments_placed [OF _ ne _ _ deg refl, of ns perso] ready by blast
  define turn where "turn i = s + 2 * pi * sum_list (map (seg_share tp data) (take i data))" for i
  have nonneg: "\<forall>d \<in> set data. 0 \<le> seg_share tp data d" using seg_share_nonneg ready by blast
  have len: "length (sl_result st) = length data" using seg(2) by (simp add: segments_done_def Let_def)
  have entry: "statData ! i = place_segment lg ns perso config tp ov (data ! i) (sl_result st ! i)" if "i < length data" for i
    using that len by (simp add: assms(6) initPassVariableData_part2_segments_def seg(3))
  have "sum_list (map (seg_share tp data) (take i data)) \<le> 1" for i
    using sum_take_mono [OF nonneg, of i "max i (length data)"] seg(1) by (simp add: max_def split: if_splits)
  then have upper: "turn i \<le> turn 0 + 2 * pi" for i by (simp add: turn_def)
  have mono: "turn i \<le> turn j" if "i \<le> j" for i j using sum_take_mono [OF nonneg that] by (simp add: turn_def)
  have step: "turn (Suc i) - turn i = 2 * pi * seg_share tp data (data ! i)" if "i < length data" for i
    using that by (simp add: turn_def take_Suc_conv_app_nth algebra_simps)
  have small: "2 * pi * seg_share tp data (data ! i) < 2 * pi" if "i < length data" for i using ready that by simp
  have "num_at (statData ! i) ''startAngle'' = Fin (turn i) \<and> num_at (statData ! i) ''endAngle'' = Fin (turn (Suc i))
       \<and> num_at (statData ! i) ''firstAngle'' = Fin (turn 0) \<and> num_at (statData ! i) ''segmentAngle'' = Fin (turn (Suc i) - turn i)
       \<and> turn (Suc i) - turn i < 2 * pi" if i: "i < length data" "counted tp (data ! i)" for i
    unfolding step [OF i(1)] using seg(2) small [OF i(1)] i
    by (simp add: entry num_at_def place_segment_at segments_done_def Let_def turn_def)
  with mono upper assms(2-5) ready show ?thesis
    unfolding sectors_def by (intro exI [of _ turn]) (auto simp: entry place_segment_at)
qed

text \<open>In the last frame a segment is painted between its two angles, unless it is empty.\<close>

lemma segment_arc_complete:
  assumes "num_at e ''startAngle'' = Fin s" "num_at e ''endAngle'' = Fin t" "num_at e ''firstAngle'' = Fin f"
    and "num_at e ''segmentAngle'' = Fin (t - s)" "s < t" "t \<le> f + 2 * pi"
  shows "segment_arc config e (Fin 1) = Some (Fin s, Fin t)"
  using assms by (simp add: segment_arc_def Let_def PI_def)

lemma paint_segment_complete:
  assumes "paint_segment pe config tp ov (Fin 1) i d e = Inr ops" "counted tp d" "segment_arc config e (Fin 1) = Some (Fin s, Fin t)"
    and "tp \<in> {''Pie'', ''Doughnut''}" "ov_midPosX ov = Fin mx" "ov_midPosY ov = Fin my" "ov_ext_radius ov = Fin r1"
  shows "Arc (Fin mx) (Fin my) (Fin r1) (Fin s) (Fin t) False \<in> set ops"
  using assms
  by (auto simp: paint_segment_def Let_def anim_factor_def segment_path_def and_then_def split: sum.splits if_splits)

lemma registered_segment:
  assumes "register_segment pe config tp i d e = Inr annots" "a \<in> set annots" "tp \<noteq> ''PolarArea''" "is_fin (nvalue d) \<or> oget d ''value'' = Undef"
  shows "a = \<lparr> an_shape = ARC, an_i = i, an_j = - 1, an_entry = e \<rparr>" "counted tp d"
  using assms by (auto simp: register_segment_def and_then_def counted_def zero_jsnum_def elim!: is_finE split: sum.splits if_splits)

lemma disjoint_turns:
  assumes "a < x + 2 * pi * of_int k" "x + 2 * pi * of_int k < b" "b \<le> c" "c < x + 2 * pi * of_int m" "x + 2 * pi * of_int m < d" "d \<le> a + 2 * pi"
  shows False
proof -
  have "2 * pi * of_int k < 2 * pi * of_int m" "2 * pi * of_int m < 2 * pi * of_int k + 2 * pi"
    using assms by linarith+
  then have "2 * pi * of_int k < 2 * pi * of_int m" "2 * pi * of_int m < 2 * pi * (of_int k + 1)"
    by (simp_all only: distrib_left mult_1_right)
  then have "of_int k < (of_int m :: real)" "of_int m < (of_int k + 1 :: real)"
    using pi_ge_zero by (auto dest!: mult_left_less_imp_less)
  then have "k < m" "m < k + 1" using of_int_less_iff [of m "k + 1", where 'a = real] by simp_all
  then show False by simp
qed


text \<open>A registered segment.\<close>

abbreviation arc_shape :: "obj list \<Rightarrow> nat \<Rightarrow> annotation" where
  "arc_shape statData i \<equiv> \<lparr> an_shape = ARC, an_i = i, an_j = - 1, an_entry = statData ! i \<rparr>"

lemma sector_hit:
  assumes "sectors tp data statData mx my r0 r1 turn" "i < length data" "counted tp (data ! i)" "0 < r"
  shows "snd (hit_test env config (polar mx my r x) (arc_shape statData i)) \<longleftrightarrow>
      r0 < r \<and> r < r1 \<and> (\<exists>k :: int. turn i < x + 2 * pi * of_int k \<and> x + 2 * pi * of_int k < turn (Suc i))"
proof -
  have "turn i \<le> turn (Suc i)" using assms(1) by (auto simp: sectors_def)
  then show ?thesis
    using arc_hit_sector [of "statData ! i" mx my r0 r1 "turn i" "turn (Suc i) - turn i" r x] assms
    by (simp add: hit_test_def sectors_def)
qed

lemma sectors_disjoint:
  assumes sec: "sectors tp data statData mx my r0 r1 turn" and "i < length data" "counted tp (data ! i)" "j < length data" "counted tp (data ! j)"
    and "0 < r" "snd (hit_test env config (polar mx my r x) (arc_shape statData i))"
    and "snd (hit_test env config (polar mx my r x) (arc_shape statData j))" "i \<le> j"
  shows "i = j"
proof (rule ccontr)
  assume "i \<noteq> j"
  with assms(9) sec have "turn (Suc i) \<le> turn j" by (auto simp: sectors_def)
  moreover have "turn (Suc j) \<le> turn 0 + 2 * pi" "turn 0 \<le> turn i" using sec by (auto simp: sectors_def)
  moreover obtain k :: int where "turn i < x + 2 * pi * of_int k" "x + 2 * pi * of_int k < turn (Suc i)"
    using sector_hit [OF sec assms(2,3,6)] assms(7) by blast
  moreover obtain m :: int where "turn j < x + 2 * pi * of_int m" "x + 2 * pi * of_int m < turn (Suc j)"
    using sector_hit [OF sec assms(4,5,6)] assms(8) by blast
  ultimately show False using disjoint_turns [of "turn i" x k "turn (Suc i)" "turn j" m "turn (Suc j)"] by linarith
qed

lemma sector_painted:
  assumes "sectors tp data statData mx my r0 r1 turn" "tp \<in> {''Pie'', ''Doughnut''}"
    and "ov_midPosX ov = Fin mx" "ov_midPosY ov = Fin my" "ov_ext_radius ov = Fin r1"
    and "collect (\<lambda>i. paint_segment pe config tp ov (Fin 1) i (data ! i) (statData ! i)) [0..<length data] = Inr opss"
    and "i < length data" "counted tp (data ! i)" "turn i < turn (Suc i)"
  shows "Arc (Fin mx) (Fin my) (Fin r1) (Fin (turn i)) (Fin (turn (Suc i))) False \<in> set (concat opss)"
proof -
  obtain l where l: "paint_segment pe config tp ov (Fin 1) i (data ! i) (statData ! i) = Inr l" "set l \<subseteq> set (concat opss)"
    using collect_nth [OF assms(6)] assms(7) by fastforce
  have "segment_arc config (statData ! i) (Fin 1) = Some (Fin (turn i), Fin (turn (Suc i)))"
    by (rule segment_arc_complete) (use assms(1,7-9) in \<open>auto simp: sectors_def\<close>)
  from paint_segment_complete [OF l(1) assms(8) this assms(2-5)] l(2) show ?thesis by blast
qed

lemma registered_shape:
  assumes "collect (\<lambda>i. register_segment pe config tp i (data ! i) (statData ! i)) [0..<length data] = Inr annotss"
    and "a \<in> set (concat annotss)" "finite_segments data" "tp \<noteq> ''PolarArea''"
  shows "\<exists>i < length data. counted tp (data ! i) \<and> a = arc_shape statData i"
proof -
  obtain i l where i: "i < length data" "register_segment pe config tp i (data ! i) (statData ! i) = Inr l" "a \<in> set l"
    using assms(2) unfolding in_collect [OF assms(1)] by blast
  moreover have "is_fin (nvalue (data ! i)) \<or> oget (data ! i) ''value'' = Undef"
    using assms(3) i(1) by (auto simp: finite_segments_def)
  ultimately show ?thesis using registered_segment [OF i(2,3)] assms(4) by blast
qed



text \<open>A pie of two values.\<close>

definition halves :: "obj list" where
  "halves = [[(''value'', NumF 1)], [(''value'', NumF 1)]]"

definition pie_config :: obj where
  "pie_config = [(''startAngle'', NumF 0), (''animationStopValue'', NumF 1), (''annotateDisplay'', Bool True), (''defaultFillColor'', Str ''red'')]"

definition plain_paint :: paint_env where
  "plain_paint = \<lparr> pe_call = (\<lambda>_ _ _ _. Undef), pe_numstr = (\<lambda>_. []), pe_scales = plain_scales \<rparr>"

definition pie_measures :: othervars where
  "pie_measures = small_measures\<lparr> ov_midPosX := Fin 50, ov_midPosY := Fin 50, ov_int_radius := Fin 0, ov_ext_radius := Fin 40 \<rparr>"

definition pie_stat :: "obj list" where
  "pie_stat = initPassVariableData_part2_segments (\<lambda>_. NaN) (\<lambda>_. []) (\<lambda>_ v _. v) pie_config ''Pie'' pie_measures halves
     (initPassVariableData_segments (\<lambda>_. []) (\<lambda>_ v _. v) pie_config ''Pie'' halves)"

lemma pie_ready_sample: "pie_ready pie_config ''Pie'' halves"
  by (simp add: pie_ready_def finite_segments_def halves_def counted_value_def counted_def seg_share_def pie_config_def zero_jsnum_def)

lemma pie_draws: "\<exists>ops annots. drawSegments plain_paint pie_config ''Pie'' pie_measures halves pie_stat (Fin 1) = Inr (ops, annots) \<and> length annots = 2"
  by (simp add: drawSegments_def halves_def paint_segment_def counted_def zero_jsnum_def segment_arc_def pie_config_def style_option_def
      setOptionValue_def plain_paint_def segment_stroke_def register_segment_def last_frame_def rescaled_def Let_def anim_factor_def)


end
