(* ===== verification/LinePainting.thy ===== *)
theory LinePainting
  imports Painting
begin

text \<open>
  The lines of a line chart (and of the data sets of a bar chart that are drawn as lines): \<open>drawLinesDataset\<close> with
  its inner functions \<open>initbz\<close>, \<open>traceLine\<close>, \<open>closebz\<close>, \<open>drawSpline\<close> and \<open>getControlPoints\<close>, and \<open>drawMarker\<close>.

  The points of a spline, an array \<open>[x0, y0, x1, y1, ...]\<close> of the source, are a list of pairs; a coordinate that is
  undefined is NaN, as the canvas reads it.  Two properties that the source reads are never set and are kept
  as such: \<open>currentAnimPc.totVal\<close>, so that its comparison with 0 always fails, and \<open>animVal\<close> after a gap (NaN here).
\<close>

section \<open>Splines\<close>

type_synonym point = "jsnum \<times> jsnum"

definition getControlPoints :: "point \<Rightarrow> point \<Rightarrow> point \<Rightarrow> jsnum \<Rightarrow> point \<times> point" where
  "getControlPoints p0 p1 p2 t =
     (let (x0, y0) = p0; (x1, y1) = p1; (x2, y2) = p2;
          d01 = distance_to x1 y1 x0 y0; d12 = distance_to x2 y2 x1 y1;
          fa = t * d01 / (d01 + d12); fb = t - fa
      in ((x1 + fa * (x0 - x2), y1 + fa * (y0 - y2)), (x1 - fb * (x0 - x2), y1 - fb * (y0 - y2))))"

definition point_at :: "point list \<Rightarrow> int \<Rightarrow> point" where
  "point_at pts k = (if 0 \<le> k \<and> k < int (length pts) then pts ! nat k else (NaN, NaN))"

text \<open>The list with the point that mirrors the last but one.\<close>

definition extend_points :: "point list \<Rightarrow> point list" where
  "extend_points pts =
     (let n = int (length pts); (a, b) = point_at pts (n - 1); (c, d) = point_at pts (n - 2)
      in pts @ [(2 * a - c, 2 * b - d)])"

definition spline_ops :: "point list \<Rightarrow> jsnum \<Rightarrow> jsnum \<Rightarrow> jsnum \<Rightarrow> canvas_op list \<Rightarrow> canvas_op list \<Rightarrow> canvas_op list" where
  "spline_ops pts0 t minimumpos maximumpos styles dash =
     (let pts = extend_points pts0; n = length pts0;
          cp = map (\<lambda>k. getControlPoints (pts ! k) (pts ! Suc k) (pts ! Suc (Suc k)) t) [0..<n - 1];
          clamp = (\<lambda>y. math_max (math_min y minimumpos) maximumpos);
          before = (\<lambda>k. if k < length cp then fst (cp ! k) else (NaN, NaN));
          after = (\<lambda>k. if k < length cp then snd (cp ! k) else (NaN, NaN));
          pt = (\<lambda>k. point_at pts (int k))
      in if n = 2 then [MoveTo (fst (pt 0)) (snd (pt 0)), LineTo (fst (pt 1)) (snd (pt 1))]
         else [BeginPath] @ styles
              @ [MoveTo (fst (pt 0)) (snd (pt 0)), QuadraticCurveTo (fst (before 0)) (clamp (snd (before 0))) (fst (pt 1)) (snd (pt 1))]
              @ dash
              @ map (\<lambda>m. BezierCurveTo (fst (after (m - 1))) (clamp (snd (after (m - 1)))) (fst (before m)) (clamp (snd (before m)))
                           (fst (pt (Suc m))) (snd (pt (Suc m)))) [1..<n]
              @ [Stroke])"

section \<open>Markers\<close>

definition marker_path :: "jsval \<Rightarrow> jsnum \<Rightarrow> jsnum \<Rightarrow> jsnum \<Rightarrow> canvas_op list" where
  "marker_path marker x y m =
     (if marker = Str ''square'' then [Rect (x - m) (y - m) (2 * m) (2 * m), Stroke, Fill]
      else if marker = Str ''triangle'' then
        (let a = 2 / 3 * m; s = math_sin (4 / 3); c = math_cos (4 / 3)
         in [MoveTo x (y - a), LineTo (x + a * s) (y + a * c), LineTo (x - a * s) (y + a * c), LineTo x (y - a), Stroke, Fill])
      else if marker = Str ''diamond''
      then [MoveTo x (y + m), LineTo (x + m) y, LineTo x (y - m), LineTo (x - m) y, LineTo x (y + m), Stroke, Fill]
      else if marker = Str ''plus'' then [MoveTo x (y - m), LineTo x (y + m), MoveTo (x - m) y, LineTo (x + m) y, Stroke]
      else if marker = Str ''cross''
      then [MoveTo (x - m) (y - m), LineTo (x + m) (y + m), MoveTo (x - m) (y + m), LineTo (x + m) (y - m), Stroke]
      else [Arc x y m 0 (2 * PI * 1) True, Stroke, Fill])"

definition drawMarker :: "paint_env \<Rightarrow> jsnum \<Rightarrow> jsnum \<Rightarrow> jsval \<Rightarrow> jsnum \<Rightarrow> jsval \<Rightarrow> canvas_op list" where
  "drawMarker pe x y marker markersize markerStrokeStyle =
     [LineDash (lineStyleFn (pe_numstr pe) markerStrokeStyle)] @ marker_path marker x y markersize @ [LineDash []]"

section \<open>The state of the loop over the values of a line\<close>

record anim_pc =
  pc_main :: jsnum
  pc_sub :: jsnum
  pc_anim :: jsnum

record line_loop =
  ll_pts :: "point list"
  ll_prev :: anim_pc
  ll_firstpt :: int
  ll_lastxPos :: jsnum
  ll_ops :: "canvas_op list"

definition emit :: "canvas_op list \<Rightarrow> line_loop \<Rightarrow> line_loop" where
  "emit ops st = st\<lparr> ll_ops := ll_ops st @ ops \<rparr>"

text \<open>What the functions of one data set read: the data set, its entries, the options that decide on a curve.\<close>

record line_env =
  le_paint :: paint_env
  le_config :: obj
  le_lens :: "nat list"
  le_i :: nat
  le_dataset :: obj
  le_entry :: "int \<Rightarrow> obj"
  le_bezier :: bool
  le_tension :: jsnum
  le_steps :: jsnum
  le_animPc :: jsnum

definition x_at :: "line_env \<Rightarrow> int \<Rightarrow> jsnum" where
  "x_at le k = num_at (le_entry le k) ''xPos''"

definition base_at :: "line_env \<Rightarrow> int \<Rightarrow> jsnum" where
  "base_at le k = num_at (le_entry le k) ''yAxisPos''"

text \<open>The height at which a value is drawn when the share \<open>s\<close> of the animation is over.\<close>

definition y_at :: "line_env \<Rightarrow> jsnum \<Rightarrow> int \<Rightarrow> jsnum" where
  "y_at le s k = base_at le k - s * num_at (le_entry le k) ''yPosOffset''"

definition index_at :: "line_env \<Rightarrow> int \<Rightarrow> string \<Rightarrow> int" where
  "index_at le k key = \<lfloor>fin_val (num_at (le_entry le k) key)\<rfloor>"

definition line_option :: "line_env \<Rightarrow> string \<Rightarrow> string \<Rightarrow> string \<Rightarrow> int \<Rightarrow> js_error + jsval" where
  "line_option le reference own general j =
     style_option (le_paint le) reference (oget (le_dataset le) own) (oget (le_config le) general) (le_i le) j"

abbreviation transparent :: canvas_op where
  "transparent \<equiv> StrokeStyle (Str ''rgba(0,0,0,0)'')"

text \<open>\<open>ctx.setLineDash(...); ctx.stroke(); ctx.setLineDash([])\<close>\<close>

definition stroke_line :: "line_env \<Rightarrow> int \<Rightarrow> line_loop \<Rightarrow> js_error + line_loop" where
  "stroke_line le j st =
     and_then (line_option le ''LINEDASH'' ''datasetStrokeStyle'' ''datasetStrokeStyle'' j) (\<lambda>dash.
       Inr (emit [LineDash (lineStyleFn (pe_numstr (le_paint le)) dash), Stroke, LineDash []] st))"

text \<open>The area below the line is closed over the two corners and filled.\<close>

definition fill_area :: "line_env \<Rightarrow> int \<Rightarrow> point \<Rightarrow> point \<Rightarrow> line_loop \<Rightarrow> js_error + line_loop" where
  "fill_area le j p q st =
     and_then (line_option le ''COLOR'' ''fillColor'' ''defaultFillColor'' j) (\<lambda>colour.
       Inr (emit [LineTo (fst p) (snd p), LineTo (fst q) (snd q), ClosePath, FillStyle colour, Fill] st))"

definition initbz :: "line_env \<Rightarrow> jsnum \<Rightarrow> jsnum \<Rightarrow> line_loop \<Rightarrow> line_loop" where
  "initbz le x y st = (if le_bezier le then st\<lparr> ll_pts := [(x, y)] \<rparr> else st)"

definition traceLine :: "line_env \<Rightarrow> jsnum \<Rightarrow> jsnum \<Rightarrow> line_loop \<Rightarrow> line_loop" where
  "traceLine le x y st = (if le_bezier le then st\<lparr> ll_pts := ll_pts st @ [(x, y)] \<rparr> else emit [LineTo x y] st)"

definition drawSpline :: "line_env \<Rightarrow> int \<Rightarrow> jsnum \<Rightarrow> jsnum \<Rightarrow> line_loop \<Rightarrow> js_error + line_loop" where
  "drawSpline le j minimumpos maximumpos st =
     and_then (line_option le ''STROKECOLOR'' ''strokeColor'' ''defaultStrokeColor'' j) (\<lambda>colour.
     and_then (line_option le ''LINEDASH'' ''datasetStrokeStyle'' ''datasetStrokeStyle'' j) (\<lambda>dash.
       Inr (emit (spline_ops (ll_pts st) (le_tension le) minimumpos maximumpos
              [StrokeStyle colour, LineWidth (scaled (sc_line (pe_scales (le_paint le))) (le_config le) ''datasetStrokeWidth'')]
              [LineDash (lineStyleFn (pe_numstr (le_paint le)) dash)]) st)))"

definition closebz :: "line_env \<Rightarrow> int \<Rightarrow> line_loop \<Rightarrow> js_error + line_loop" where
  "closebz le j st =
     (if le_bezier le then
        (let minimumpos = num_at (le_entry le 0) ''xAxisPosY'';
             maximumpos = minimumpos - le_steps le * num_at (le_entry le 0) ''scaleHop''
         in and_then (drawSpline le j minimumpos maximumpos st) (\<lambda>st'. Inr (st'\<lparr> ll_pts := [] \<rparr>)))
      else Inr st)"

section \<open>One value of a line\<close>

text \<open>
  The animation has not reached this value, but the one before: the line ends between the two.
  Without extrapolation the source asks for \<open>statData[i][j].value\<close>.
\<close>

definition end_line :: "line_env \<Rightarrow> int \<Rightarrow> line_loop \<Rightarrow> js_error + line_loop" where
  "end_line le j st =
     (let prev = ll_prev st; config = le_config le; fill = to_bool (oget config ''datasetFill'');
          extrapolate = to_bool (oget config ''extrapolateMissingData'');
          x = x_at le (j - 1) + pc_sub prev * (x_at le j - x_at le (j - 1));
          p = index_at le j ''prevNotMissing''; n = index_at le (j - 1) ''nextNotMissing'';
          y1 = y_at le (pc_main prev) p;
          y2 = base_at le j - pc_main prev * num_at (le_entry le n) ''yPosOffset'';
          fact = (Fin (of_int (j - 1 - p)) + pc_sub prev) / Fin (of_int (n - p));
          y = (if extrapolate then y1 + fact * (y2 - y1) else y2);
          first = ll_firstpt st
      in and_then (stroke_line le j st) (\<lambda>st1.
         if extrapolate \<or> oget (le_entry le j) ''value'' \<noteq> Undef then
           and_then (closebz le j (traceLine le x y st1)) (\<lambda>st2.
           and_then (stroke_line le j st2) (\<lambda>st3.
             (let st4 = emit [transparent] st3
              in if fill
                 then and_then (fill_area le j (x, base_at le j)
                        (x_at le first, num_at (le_entry le first) ''xAxisPosY'' - num_at (le_entry le 0) ''zeroY'') st4)
                        (\<lambda>st5. Inr (if extrapolate then st5\<lparr> ll_firstpt := - 1 \<rparr> else st5))
                 else Inr st4)))
         else Inr st1))"

text \<open>A missing value: a gap, or the line goes on to the next value.\<close>

definition missing_point :: "line_env \<Rightarrow> int \<Rightarrow> anim_share \<Rightarrow> line_loop \<Rightarrow> js_error + line_loop" where
  "missing_point le j cur st =
     (if \<not> to_bool (oget (le_config le) ''extrapolateMissingData'') then
        if ll_firstpt st = - 1 then Inr st
        else and_then (closebz le j st) (\<lambda>st1.
             and_then (stroke_line le j st1) (\<lambda>st2.
             and_then (if to_bool (oget (le_config le) ''datasetFill'')
                       then fill_area le j (x_at le (j - 1), base_at le (j - 1)) (x_at le (ll_firstpt st), base_at le (ll_firstpt st))
                              (emit [transparent] (st2\<lparr> ll_lastxPos := - 1 \<rparr>))
                       else Inr st2) (\<lambda>st3.
               Inr ((emit [BeginPath] st3)\<lparr> ll_prev := \<lparr> pc_main = 0, pc_sub = 0, pc_anim = NaN \<rparr>, ll_firstpt := - 1 \<rparr>))))
      else if subVal cur > 0 then
        (let p = index_at le (j + 1) ''prevNotMissing''; n = index_at le j ''nextNotMissing'';
             x = x_at le j + subVal cur * (x_at le (j + 1) - x_at le j);
             y1 = y_at le 1 p; y2 = y_at le 1 n;
             fact = (Fin (of_int (j - p)) + subVal cur) / Fin (of_int (n - p))
         in Inr (traceLine le x (y1 + fact * (y2 - y1)) (st\<lparr> ll_lastxPos := x \<rparr>)))
      else Inr st)"

definition defined_point :: "line_env \<Rightarrow> int \<Rightarrow> anim_share \<Rightarrow> line_loop \<Rightarrow> line_loop" where
  "defined_point le j cur st =
     (let config = le_config le; x = x_at le j; y = y_at le (mainVal cur) j;
          st1 = emit [LineWidth (scaled (sc_line (pe_scales (le_paint le))) config ''datasetStrokeWidth'')] st;
          st2 = (if ll_firstpt st = - 1 then initbz le x y (emit [BeginPath, MoveTo x y] (st1\<lparr> ll_firstpt := j \<rparr>)) else traceLine le x y st1)
                  \<lparr> ll_lastxPos := x \<rparr>;
          next = index_at le j ''nextNotMissing''
      in if subVal cur > 0 \<and> next \<noteq> - 1 \<and> (to_bool (oget config ''extrapolateMissing'') \<or> next = j + 1) then
           (let x' = x + subVal cur * (x_at le (j + 1) - x);
                y1 = y_at le 1 (index_at le (j + 1) ''prevNotMissing''); y2 = y_at le 1 next
            in traceLine le x' (y1 + subVal cur * (y2 - y1)) (st2\<lparr> ll_lastxPos := x' \<rparr>))
         else st2)"

definition line_step :: "line_env \<Rightarrow> int \<Rightarrow> int \<Rightarrow> line_loop \<Rightarrow> js_error + line_loop" where
  "line_step le first j st =
     (let cur = animationCorrection (le_animPc le) (le_lens le) (le_config le) (le_i le) (Some (nat j)) 0;
          prev' = \<lparr> pc_main = mainVal cur, pc_sub = subVal cur, pc_anim = animVal cur \<rparr>
      in if num_eq (pc_anim (ll_prev st)) 0 \<and> j > first then Inr st
         else if num_eq (mainVal cur) 0 \<and> pc_main (ll_prev st) > 0 \<and> ll_firstpt st \<noteq> - 1
         then and_then (end_line le j st) (\<lambda>st1. Inr (st1\<lparr> ll_prev := prev' \<rparr>))
         else
           and_then (stroke_line le j st) (\<lambda>st1.
           and_then (line_option le ''STROKECOLOR'' ''strokeColor'' ''defaultStrokeColor'' j) (\<lambda>colour.
             (let st2 = (emit [StrokeStyle colour] st1)\<lparr> ll_prev := prev' \<rparr>
              in if aget (dvalues (le_dataset le)) (nat j) = Undef then missing_point le j cur st2
                 else Inr (defined_point le j cur st2)))))"

fun line_steps :: "line_env \<Rightarrow> int \<Rightarrow> int list \<Rightarrow> line_loop \<Rightarrow> js_error + line_loop" where
  "line_steps le first [] st = Inr st"
| "line_steps le first (j # js) st = and_then (line_step le first j st) (line_steps le first js)"

section \<open>A data set\<close>

text \<open>The line: it is closed, stroked and filled after the last value.\<close>

definition paint_line :: "line_env \<Rightarrow> line_loop \<Rightarrow> js_error + line_loop" where
  "paint_line le st0 =
     (let first = index_at le 0 ''firstNotMissing''; last = index_at le 0 ''lastNotMissing'';
          st = (emit [Save, BeginPath] st0)\<lparr> ll_prev := \<lparr> pc_main = 0, pc_sub = 0, pc_anim = 0 \<rparr>, ll_firstpt := - 1, ll_lastxPos := - 1 \<rparr>
      in and_then (line_steps le first [first..last] st) (\<lambda>st1.
         and_then (closebz le (last + 1) st1) (\<lambda>st2.
         and_then (stroke_line le (last + 1) st2) (\<lambda>st3.
         and_then (if to_bool (oget (le_config le) ''datasetFill'') \<and> ll_firstpt st3 \<ge> 0
                   then (let zero = num_at (le_entry le 0) ''zeroY''; p = ll_firstpt st3
                         in fill_area le (- 1) (ll_lastxPos st3, num_at (le_entry le 0) ''xAxisPosY'' - zero)
                              (x_at le p, num_at (le_entry le p) ''xAxisPosY'' - zero) (emit [transparent] st3))
                   else Inr st3) (\<lambda>st4.
           Inr (emit [Restore] st4))))))"

definition paint_marker :: "line_env \<Rightarrow> nat \<Rightarrow> js_error + canvas_op list" where
  "paint_marker le j =
     (let cur = animationCorrection (le_animPc le) (le_lens le) (le_config le) (le_i le) (Some j) 0; k = int j;
          pe = le_paint le; config = le_config le; ds = le_dataset le;
          scaled_option = (\<lambda>scale reference own general. setOptionValue (pe_call pe) scale reference (oget ds own) (oget config general) (int (le_i le)) k)
      in if aget (dvalues ds) j \<noteq> Undef \<and> (mainVal cur > 0 \<or> \<not> to_bool (oget config ''animationLeftToRight'')) then
           and_then (line_option le ''MARKERFILLCOLOR'' ''pointColor'' ''defaultStrokeColor'' k) (\<lambda>fill.
           and_then (line_option le ''MARKERSTROKESTYLE'' ''pointStrokeColor'' ''defaultStrokeColor'' k) (\<lambda>stroke.
           and_then (scaled_option (sc_line (pe_scales pe)) ''MARKERLINEWIDTH'' ''pointDotStrokeWidth'' ''pointDotStrokeWidth'') (\<lambda>width.
           and_then (line_option le ''MARKERSHAPE'' ''markerShape'' ''markerShape'' k) (\<lambda>marker.
           and_then (scaled_option (sc_space (pe_scales pe)) ''MARKERRADIUS'' ''pointDotRadius'' ''pointDotRadius'') (\<lambda>radius.
           and_then (line_option le ''MARKERSTROKESTYLE'' ''pointDotStrokeStyle'' ''pointDotStrokeStyle'' k) (\<lambda>dash.
             Inr ([BeginPath, FillStyle fill, StrokeStyle stroke, LineWidth (to_number width)]
                  @ drawMarker pe (x_at le k) (y_at le (mainVal cur) k) marker (to_number radius) dash)))))))
         else Inr [])"

definition register_point :: "line_env \<Rightarrow> nat \<Rightarrow> js_error + annotation list" where
  "register_point le j =
     (if aget (dvalues (le_dataset le)) j = Undef then Inr []
      else and_then (style_option (le_paint le) ''ANNOTATEDISPLAY'' Undef (oget (le_config le) ''annotateDisplay'') (le_i le) (int j)) (\<lambda>shown.
        Inr (if to_bool shown then [\<lparr> an_shape = POINT, an_i = le_i le, an_j = int j, an_entry = le_entry le (int j) \<rparr>] else [])))"

definition paint_markers :: "line_env \<Rightarrow> js_error + canvas_op list" where
  "paint_markers le =
     (if to_bool (oget (le_config le) ''pointDot'') \<and> le_animPc le \<ge> 1
      then map_sum id concat (collect (paint_marker le) [0..<length (dvalues (le_dataset le))]) else Inr [])"

definition register_points :: "line_env \<Rightarrow> js_error + annotation list" where
  "register_points le =
     (if last_frame (le_config le) (le_animPc le)
      then map_sum id concat (collect (register_point le) [0..<length (dvalues (le_dataset le))]) else Inr [])"

text \<open>A data set with no values raises when its first entry is read.\<close>

definition paint_dataset :: "line_env \<Rightarrow> line_loop \<times> annotation list \<Rightarrow> js_error + line_loop \<times> annotation list" where
  "paint_dataset le acc =
     (let (st, annots) = acc
      in if dvalues (le_dataset le) = [] then Inl TypeError
         else if oget (le_entry le 0) ''tpchart'' \<noteq> Str ''Line'' \<or> index_at le 0 ''firstNotMissing'' = - 1 then Inr acc
         else and_then (paint_line le st) (\<lambda>st1.
              and_then (paint_markers le) (\<lambda>markers.
              and_then (register_points le) (\<lambda>shapes. Inr (emit markers st1, annots @ shapes)))))"

text \<open>The environment of the data set \<open>i\<close>; the options that decide on curves are read with its index.\<close>

definition line_env_of ::
  "paint_env \<Rightarrow> obj \<Rightarrow> othervars \<Rightarrow> obj list \<Rightarrow> (nat \<Rightarrow> nat \<Rightarrow> obj) \<Rightarrow> jsnum \<Rightarrow> nat \<Rightarrow> js_error + line_env" where
  "line_env_of pe config ov datasets statData animPc i =
     (let ds = datasets ! i
      in and_then (style_option pe ''BEZIERCURVE'' Undef (oget config ''bezierCurve'') i (- 1)) (\<lambda>bezier.
         and_then (style_option pe ''BEZIERCURVETENSION'' Undef (oget config ''bezierCurveTension'') i (- 1)) (\<lambda>tension.
           Inr \<lparr> le_paint = pe, le_config = config, le_lens = map (length \<circ> dvalues) datasets, le_i = i, le_dataset = ds,
                 le_entry = (\<lambda>k. statData i (nat k)), le_bezier = to_bool bezier, le_tension = to_number tension,
                 le_steps = s_steps (if axis_index ds = 0 then ov_scale2 ov else ov_scale ov), le_animPc = animPc \<rparr>)))"

fun paint_datasets ::
  "paint_env \<Rightarrow> obj \<Rightarrow> othervars \<Rightarrow> obj list \<Rightarrow> (nat \<Rightarrow> nat \<Rightarrow> obj) \<Rightarrow> jsnum \<Rightarrow> nat list \<Rightarrow> line_loop \<times> annotation list
     \<Rightarrow> js_error + line_loop \<times> annotation list" where
  "paint_datasets pe config ov datasets statData animPc [] acc = Inr acc"
| "paint_datasets pe config ov datasets statData animPc (i # is) acc =
     and_then (line_env_of pe config ov datasets statData animPc i) (\<lambda>le.
     and_then (paint_dataset le acc) (paint_datasets pe config ov datasets statData animPc is))"

definition drawLinesDataset ::
  "paint_env \<Rightarrow> obj \<Rightarrow> othervars \<Rightarrow> obj list \<Rightarrow> (nat \<Rightarrow> nat \<Rightarrow> obj) \<Rightarrow> jsnum \<Rightarrow> js_error + canvas_op list \<times> annotation list" where
  "drawLinesDataset pe config ov datasets statData animPc =
     and_then (paint_datasets pe config ov datasets statData animPc [0..<length datasets]
        (\<lparr> ll_pts = [], ll_prev = \<lparr> pc_main = 0, pc_sub = 0, pc_anim = 0 \<rparr>, ll_firstpt = - 1, ll_lastxPos = - 1, ll_ops = [] \<rparr>, [])) (\<lambda>(st, annots).
       Inr (ll_ops st @ [LineDash []], annots))"


section \<open>The line of a complete chart\<close>

fun is_path :: "canvas_op \<Rightarrow> bool" where
  "is_path (MoveTo _ _) = True"
| "is_path (LineTo _ _) = True"
| "is_path (Arc _ _ _ _ _ _) = True"
| "is_path (Rect _ _ _ _) = True"
| "is_path (QuadraticCurveTo _ _ _ _) = True"
| "is_path (BezierCurveTo _ _ _ _ _ _) = True"
| "is_path _ = False"

text \<open>The calls that make up the path.\<close>

definition path_of :: "canvas_op list \<Rightarrow> canvas_op list" where
  "path_of ops = filter is_path ops"

lemma path_of_append [simp]: "path_of (xs @ ys) = path_of xs @ path_of ys" "path_of [] = []"
  by (simp_all add: path_of_def)

lemma path_of_Cons [simp]: "path_of (x # xs) = (if is_path x then x # path_of xs else path_of xs)"
  by (simp add: path_of_def)

lemma emit_fields [simp]:
  "ll_ops (emit ops st) = ll_ops st @ ops" "ll_firstpt (emit ops st) = ll_firstpt st" "ll_prev (emit ops st) = ll_prev st"
  "ll_lastxPos (emit ops st) = ll_lastxPos st"
  by (simp_all add: emit_def)

text \<open>Straight lines in the last frame of an animation, over gaps, with styles that are not \<open>null\<close>.\<close>

definition styles_given :: "obj \<Rightarrow> obj \<Rightarrow> bool" where
  "styles_given config ds =
     (oget config ''datasetStrokeStyle'' \<noteq> Null \<and> oget config ''defaultFillColor'' \<noteq> Null \<and> oget config ''defaultStrokeColor'' \<noteq> Null
      \<and> oget ds ''datasetStrokeStyle'' \<noteq> Null \<and> oget ds ''fillColor'' \<noteq> Null \<and> oget ds ''strokeColor'' \<noteq> Null)"


definition straight :: "line_env \<Rightarrow> bool" where
  "straight le =
     (\<not> le_bezier le \<and> le_animPc le = Fin 1 \<and> to_bool (oget (le_config le) ''extrapolateMissingData'')
      \<and> styles_given (le_config le) (le_dataset le))"

lemma option_given:
  assumes "own \<noteq> Null" "general \<noteq> Null"
  shows "\<exists>v. style_option pe reference own general i j = Inr v"
  using assms by (cases own; cases general) (auto simp: style_option_def setOptionValue_def option_at_def Let_def)

lemma straight_option:
  assumes "straight le"
  shows "\<exists>v. line_option le reference ''datasetStrokeStyle'' ''datasetStrokeStyle'' j = Inr v"
    "\<exists>v. line_option le reference ''fillColor'' ''defaultFillColor'' j = Inr v"
    "\<exists>v. line_option le reference ''strokeColor'' ''defaultStrokeColor'' j = Inr v"
  using assms by (auto simp: line_option_def straight_def styles_given_def intro!: option_given)

lemma straight_stroke:
  assumes "straight le"
  shows "\<exists>ops. stroke_line le j st = Inr (emit ops st) \<and> path_of ops = []"
proof -
  obtain v where "line_option le ''LINEDASH'' ''datasetStrokeStyle'' ''datasetStrokeStyle'' j = Inr v"
    using straight_option [OF assms] by blast
  then show ?thesis unfolding stroke_line_def by auto
qed

lemma straight_fill:
  assumes "straight le"
  shows "\<exists>ops. fill_area le j p q st = Inr (emit ops st) \<and> path_of ops = [LineTo (fst p) (snd p), LineTo (fst q) (snd q)]"
proof -
  obtain v where "line_option le ''COLOR'' ''fillColor'' ''defaultFillColor'' j = Inr v"
    using straight_option [OF assms] by blast
  then show ?thesis unfolding fill_area_def by auto
qed

abbreviation defined_at :: "line_env \<Rightarrow> int \<Rightarrow> bool" where
  "defined_at le j \<equiv> aget (dvalues (le_dataset le)) (nat j) \<noteq> Undef"

lemma straight_step:
  assumes "straight le" "\<not> (num_eq (pc_anim (ll_prev st)) 0 \<and> j > first)" "defined_at le j \<or> ll_firstpt st \<noteq> - 1"
  shows "\<exists>st'. line_step le first j st = Inr st' \<and> pc_anim (ll_prev st') = Fin 1
     \<and> ll_firstpt st' = (if ll_firstpt st = - 1 then j else ll_firstpt st)
     \<and> ll_lastxPos st' = (if defined_at le j then x_at le j else ll_lastxPos st)
     \<and> path_of (ll_ops st') = path_of (ll_ops st) @ (if \<not> defined_at le j then []
          else if ll_firstpt st = - 1 then [MoveTo (x_at le j) (y_at le (Fin 1) j)] else [LineTo (x_at le j) (y_at le (Fin 1) j)])"
proof -
  obtain ops where "stroke_line le j st = Inr (emit ops st)" "path_of ops = []" using straight_stroke [OF assms(1)] by blast
  moreover obtain c where "line_option le ''STROKECOLOR'' ''strokeColor'' ''defaultStrokeColor'' j = Inr c"
    using straight_option [OF assms(1)] by blast
  ultimately show ?thesis
    using assms by (auto simp: line_step_def straight_def Let_def missing_point_def defined_point_def initbz_def traceLine_def)
qed

lemma straight_steps:
  assumes "straight le" "pc_anim (ll_prev st) = Fin 1" "ll_firstpt st \<noteq> - 1"
  shows "\<exists>st'. line_steps le first js st = Inr st' \<and> ll_firstpt st' = ll_firstpt st
     \<and> ll_lastxPos st' = last (ll_lastxPos st # map (x_at le) (filter (defined_at le) js))
     \<and> path_of (ll_ops st') = path_of (ll_ops st) @ map (\<lambda>j. LineTo (x_at le j) (y_at le (Fin 1) j)) (filter (defined_at le) js)"
  using assms(2,3)
proof (induction js arbitrary: st)
  case (Cons j js)
  obtain st1 where st1: "line_step le first j st = Inr st1" "pc_anim (ll_prev st1) = Fin 1" "ll_firstpt st1 = ll_firstpt st"
      "ll_lastxPos st1 = (if defined_at le j then x_at le j else ll_lastxPos st)"
      "path_of (ll_ops st1) = path_of (ll_ops st) @ (if \<not> defined_at le j then [] else [LineTo (x_at le j) (y_at le (Fin 1) j)])"
    using straight_step [OF assms(1), where j = j and st = st and first = first] Cons.prems by auto
  from Cons.IH [of st1] st1 Cons.prems(2) show ?case by (cases "defined_at le j") auto
qed simp

text \<open>The points of a line: the values that are given between the first and the last one.\<close>

definition line_points :: "line_env \<Rightarrow> point list" where
  "line_points le =
     map (\<lambda>j. (x_at le j, y_at le (Fin 1) j))
       (filter (defined_at le) [index_at le 0 ''firstNotMissing''..index_at le 0 ''lastNotMissing''])"

definition polyline :: "point list \<Rightarrow> canvas_op list" where
  "polyline pts = (case pts of [] \<Rightarrow> [] | p # ps \<Rightarrow> MoveTo (fst p) (snd p) # map (\<lambda>p. LineTo (fst p) (snd p)) ps)"

definition area_corners :: "line_env \<Rightarrow> point list" where
  "area_corners le =
     (if to_bool (oget (le_config le) ''datasetFill'') then
        (let first = index_at le 0 ''firstNotMissing''; zero = num_at (le_entry le 0) ''zeroY''
         in [(fst (last (line_points le)), num_at (le_entry le 0) ''xAxisPosY'' - zero),
             (x_at le first, num_at (le_entry le first) ''xAxisPosY'' - zero)])
      else [])"

lemma straight_line:
  assumes "straight le" "0 \<le> index_at le 0 ''firstNotMissing''" "index_at le 0 ''firstNotMissing'' \<le> index_at le 0 ''lastNotMissing''"
    and "defined_at le (index_at le 0 ''firstNotMissing'')"
  shows "\<exists>st'. paint_line le st0 = Inr st'
     \<and> path_of (ll_ops st') = path_of (ll_ops st0) @ polyline (line_points le)
          @ map (\<lambda>p. LineTo (fst p) (snd p)) (area_corners le)"
proof -
  define f l where "f = index_at le 0 ''firstNotMissing''" and "l = index_at le 0 ''lastNotMissing''"
  note fl = f_def [symmetric] l_def [symmetric]
  have js: "[f..l] = f # [f + 1..l]" using assms(3) unfolding fl by (rule upto_rec1)
  let ?st = "(emit [Save, BeginPath] st0)\<lparr> ll_prev := \<lparr> pc_main = 0, pc_sub = 0, pc_anim = 0 \<rparr>, ll_firstpt := - 1, ll_lastxPos := - 1 \<rparr>"
  obtain st1 where st1: "line_step le f f ?st = Inr st1" "pc_anim (ll_prev st1) = Fin 1" "ll_firstpt st1 = f" "ll_lastxPos st1 = x_at le f"
      "path_of (ll_ops st1) = path_of (ll_ops st0) @ [MoveTo (x_at le f) (y_at le (Fin 1) f)]"
    using straight_step [OF assms(1), of ?st f f] assms(4) unfolding fl by auto
  obtain st2 where st2: "line_steps le f [f..l] ?st = Inr st2" "ll_firstpt st2 = f"
      "ll_lastxPos st2 = last (x_at le f # map (x_at le) (filter (defined_at le) [f + 1..l]))"
      "path_of (ll_ops st2) = path_of (ll_ops st0) @ [MoveTo (x_at le f) (y_at le (Fin 1) f)]
         @ map (\<lambda>j. LineTo (x_at le j) (y_at le (Fin 1) j)) (filter (defined_at le) [f + 1..l])"
    using straight_steps [OF assms(1) st1(2), of f "[f + 1..l]"] st1 assms(2) unfolding js fl by auto
  have pts: "line_points le = (x_at le f, y_at le (Fin 1) f) # map (\<lambda>j. (x_at le j, y_at le (Fin 1) j)) (filter (defined_at le) [f + 1..l])"
    using assms(4) unfolding line_points_def fl js by simp
  have lastx: "ll_lastxPos st2 = fst (last (line_points le))"
    unfolding st2(3) pts by (simp add: last_map)
  obtain ops where ops: "stroke_line le (l + 1) st2 = Inr (emit ops st2)" "path_of ops = []" using straight_stroke [OF assms(1)] by blast
  have close: "closebz le (l + 1) st2 = Inr st2" using assms(1) by (simp add: closebz_def straight_def)
  show ?thesis
    using straight_fill [OF assms(1), of "- 1" "(fst (last (line_points le)), num_at (le_entry le 0) ''xAxisPosY'' - num_at (le_entry le 0) ''zeroY'')"
        "(x_at le f, num_at (le_entry le f) ''xAxisPosY'' - num_at (le_entry le 0) ''zeroY'')" "emit [transparent] (emit ops st2)"]
      st2 ops close assms(2) lastx
    unfolding paint_line_def Let_def fl area_corners_def polyline_def by (auto simp: pts)
qed


section \<open>The curve through the points\<close>

text \<open>The canvas ignores a call with a coordinate that is not a number.  The points at which the parts of a path end:\<close>

fun knots :: "canvas_op \<Rightarrow> point list" where
  "knots (MoveTo x y) = (if is_fin x \<and> is_fin y then [(x, y)] else [])"
| "knots (LineTo x y) = (if is_fin x \<and> is_fin y then [(x, y)] else [])"
| "knots (QuadraticCurveTo a b x y) = (if is_fin a \<and> is_fin b \<and> is_fin x \<and> is_fin y then [(x, y)] else [])"
| "knots (BezierCurveTo a b c d x y) = (if list_all is_fin [a, b, c, d, x, y] then [(x, y)] else [])"
| "knots _ = []"

text \<open>The heights of the control points of a call that is not ignored.\<close>

fun control_heights :: "canvas_op \<Rightarrow> jsnum list" where
  "control_heights (QuadraticCurveTo a b x y) = (if is_fin a \<and> is_fin b \<and> is_fin x \<and> is_fin y then [b] else [])"
| "control_heights (BezierCurveTo a b c d x y) = (if list_all is_fin [a, b, c, d, x, y] then [b, d] else [])"
| "control_heights _ = []"

definition fpoint :: "real \<times> real \<Rightarrow> point" where
  "fpoint p = (Fin (fst p), Fin (snd p))"

definition mirror :: "(real \<times> real) list \<Rightarrow> real \<times> real" where
  "mirror ps = (let n = length ps in (2 * fst (ps ! (n - 1)) - fst (ps ! (n - 2)), 2 * snd (ps ! (n - 1)) - snd (ps ! (n - 2))))"

lemma extend_points_fpoint:
  assumes "2 \<le> length ps"
  shows "extend_points (map fpoint ps) = map fpoint (ps @ [mirror ps])"
proof -
  have "nat (int (length ps) - 1) = length ps - 1" "nat (int (length ps) - 2) = length ps - 2" using assms by simp_all
  moreover have "ps \<noteq> []" using assms by auto
  ultimately show ?thesis using assms by (simp add: extend_points_def point_at_def Let_def fpoint_def mirror_def)
qed

lemma distance_Fin: "\<exists>d. distance_to (Fin x) (Fin y) (Fin a) (Fin b) = Fin d \<and> 0 \<le> d \<and> (x \<noteq> a \<longrightarrow> 0 < d)"
proof -
  have "0 < (x - a) * (x - a) + (y - b) * (y - b)" if "x \<noteq> a"
    using that by (intro add_pos_nonneg) (simp_all flip: power2_eq_square)
  then show ?thesis by (auto simp: distance_to_def not_less)
qed

lemma control_points_finite:
  assumes "fst p0 < fst p1"
  shows "\<exists>q r. getControlPoints (fpoint p0) (fpoint p1) (fpoint p2) (Fin t) = (fpoint q, fpoint r)"
proof -
  obtain d01 where d01: "distance_to (Fin (fst p1)) (Fin (snd p1)) (Fin (fst p0)) (Fin (snd p0)) = Fin d01" "0 < d01"
    using distance_Fin [of "fst p1" "snd p1" "fst p0" "snd p0"] assms by auto
  obtain d12 where d12: "distance_to (Fin (fst p2)) (Fin (snd p2)) (Fin (fst p1)) (Fin (snd p1)) = Fin d12" "0 \<le> d12"
    using distance_Fin [of "fst p2" "snd p2" "fst p1" "snd p1"] by auto
  have "d01 + d12 \<noteq> 0" using d01(2) d12(2) by linarith
  then show ?thesis
    using d01(1) d12(1) by (simp add: getControlPoints_def fpoint_def Let_def)
qed

text \<open>The calls for a curve through at least three points; the last one goes to the mirrored point and is ignored.\<close>

definition curve_to :: "real \<Rightarrow> real \<Rightarrow> real \<times> real \<Rightarrow> real \<times> real \<Rightarrow> real \<times> real \<Rightarrow> canvas_op" where
  "curve_to lo hi a b p = BezierCurveTo (Fin (fst a)) (Fin (max (min (snd a) lo) hi)) (Fin (fst b)) (Fin (max (min (snd b) lo) hi)) (Fin (fst p)) (Fin (snd p))"

lemma spline_path:
  assumes "3 \<le> length ps" "\<forall>k. Suc k < length ps \<longrightarrow> fst (ps ! k) < fst (ps ! Suc k)" "path_of styles = []" "path_of dash = []"
  shows "\<exists>q r x. path_of (spline_ops (map fpoint ps) (Fin t) (Fin lo) (Fin hi) styles dash) =
      [MoveTo (Fin (fst (ps ! 0))) (Fin (snd (ps ! 0))),
       QuadraticCurveTo (Fin (fst (q 0))) (Fin (max (min (snd (q 0)) lo) hi)) (Fin (fst (ps ! 1))) (Fin (snd (ps ! 1)))]
      @ map (\<lambda>m. curve_to lo hi (r (m - 1)) (q m) (ps ! Suc m)) [1..<length ps - 1] @ [x]
    \<and> knots x = [] \<and> control_heights x = []"
proof -
  let ?n = "length ps" and ?qs = "ps @ [mirror ps]"
  have n: "2 \<le> ?n" "?n \<noteq> 2" "Suc (?n - 2) = ?n - 1" "Suc (?n - 1) = ?n" using assms(1) by simp_all
  define cp where "cp k = getControlPoints (fpoint (?qs ! k)) (fpoint (?qs ! Suc k)) (fpoint (?qs ! Suc (Suc k))) (Fin t)" for k
  have "fst (?qs ! k) < fst (?qs ! Suc k)" if "k < ?n - 1" for k using assms(2) that by (auto simp: nth_append less_diff_conv)
  then have "\<forall>k. \<exists>q r. k < ?n - 1 \<longrightarrow> cp k = (fpoint q, fpoint r)" unfolding cp_def using control_points_finite by meson
  then obtain q r where qr: "\<And>k. k < ?n - 1 \<Longrightarrow> cp k = (fpoint (q k), fpoint (r k))" by metis
  have cps: "map (\<lambda>k. getControlPoints (map fpoint ?qs ! k) (map fpoint ?qs ! Suc k) (map fpoint ?qs ! Suc (Suc k)) (Fin t)) [0..<?n - 1]
      = map cp [0..<?n - 1]"
    unfolding cp_def by (intro map_cong) (simp_all add: nth_map [of _ ?qs] del: map_append)
  have pt: "point_at (map fpoint ?qs) (int k) = fpoint (ps ! k)" if "k < ?n" for k using that by (simp add: point_at_def nth_append)
  have split: "[1..<?n] = [1..<?n - 1] @ [?n - 1]" using upt_Suc_append [of 1 "?n - 1"] assms(1) unfolding n(4) by simp
  define B A where "B k = (if k < ?n - 1 then fst (cp k) else (NaN, NaN))" and "A k = (if k < ?n - 1 then snd (cp k) else (NaN, NaN))" for k
  have BA: "(if k < length (map cp [0..<?n - 1]) then fst (map cp [0..<?n - 1] ! k) else (NaN, NaN)) = B k"
    "(if k < length (map cp [0..<?n - 1]) then snd (map cp [0..<?n - 1] ! k) else (NaN, NaN)) = A k" for k
    by (simp_all add: B_def A_def)
  let ?bez = "\<lambda>m. BezierCurveTo (fst (A (m - 1))) (math_max (math_min (snd (A (m - 1))) (Fin lo)) (Fin hi))
      (fst (B m)) (math_max (math_min (snd (B m)) (Fin lo)) (Fin hi))
      (fst (point_at (map fpoint ?qs) (int (Suc m)))) (snd (point_at (map fpoint ?qs) (int (Suc m))))"
  have path: "path_of (spline_ops (map fpoint ps) (Fin t) (Fin lo) (Fin hi) styles dash) =
      [MoveTo (fst (fpoint (ps ! 0))) (snd (fpoint (ps ! 0))), QuadraticCurveTo (fst (B 0)) (math_max (math_min (snd (B 0)) (Fin lo)) (Fin hi))
         (fst (fpoint (ps ! 1))) (snd (fpoint (ps ! 1)))] @ map ?bez [1..<?n]"
  proof -
    have "path_of (map ?bez ms) = map ?bez ms" for ms by (induction ms) simp_all
    moreover have "0 < ?n" "1 < ?n" using assms(1) by linarith+
    ultimately show ?thesis
      unfolding spline_ops_def Let_def extend_points_fpoint [OF n(1)] length_map cps BA [unfolded length_map] if_not_P [OF n(2)]
      by (simp only: path_of_append path_of_Cons is_path.simps if_True if_False assms(3,4) pt append_Nil append_Nil2 append_Cons)
  qed
  have bez: "map ?bez [1..<?n - 1] = map (\<lambda>m. curve_to lo hi (r (m - 1)) (q m) (ps ! Suc m)) [1..<?n - 1]"
  proof (intro map_cong refl)
    fix m assume "m \<in> set [1..<?n - 1]"
    then have m: "1 \<le> m" "m - 1 < ?n - 1" "m < ?n - 1" "Suc m < ?n" by auto
    show "?bez m = curve_to lo hi (r (m - 1)) (q m) (ps ! Suc m)"
      unfolding pt [OF m(4)] using m by (simp add: B_def A_def qr curve_to_def fpoint_def)
  qed
  have B: "B 0 = fpoint (q 0)" using n by (simp add: B_def qr)
  have "knots (?bez (?n - 1)) = []" "control_heights (?bez (?n - 1)) = []" by (simp_all add: B_def)
  moreover have "map ?bez [1..<?n] = map (\<lambda>m. curve_to lo hi (r (m - 1)) (q m) (ps ! Suc m)) [1..<?n - 1] @ [?bez (?n - 1)]"
    unfolding split map_append [of ?bez] bez list.map ..
  ultimately obtain x where x: "map ?bez [1..<?n] = map (\<lambda>m. curve_to lo hi (r (m - 1)) (q m) (ps ! Suc m)) [1..<?n - 1] @ [x]"
    "knots x = []" "control_heights x = []" by blast
  show ?thesis
    using x(2,3) unfolding path x(1) B fpoint_def fst_conv snd_conv math_max_Fin math_min_Fin by blast
qed

lemma curve_knots: "concat (map knots (map (\<lambda>m. curve_to lo hi (a m) (b m) (p m)) ms)) = map (\<lambda>m. fpoint (p m)) ms"
  by (induction ms) (simp_all add: curve_to_def fpoint_def)

text \<open>C31: A curve through points of increasing position visits every point in order and no other, and the heights of
  its control points stay between the axis and the top of the chart, so that the curve does not leave it.\<close>

theorem spline_visits_points:
  assumes "2 \<le> length ps" "\<forall>k. Suc k < length ps \<longrightarrow> fst (ps ! k) < fst (ps ! Suc k)" "hi \<le> lo"
    and "path_of styles = []" "path_of dash = []"
    and "ops = spline_ops (map fpoint ps) (Fin t) (Fin lo) (Fin hi) styles dash"
  shows "concat (map knots (path_of ops)) = map fpoint ps
     \<and> (\<forall>op \<in> set (path_of ops). \<forall>h \<in> set (control_heights op). Fin hi \<le> h \<and> h \<le> Fin lo)"
proof (cases "length ps = 2")
  case True
  then obtain a b where "ps = [a, b]" by (auto simp: length_Suc_conv numeral_2_eq_2)
  then show ?thesis
    unfolding assms(6) spline_ops_def Let_def extend_points_fpoint [OF assms(1)] by (simp add: point_at_def fpoint_def)
next
  case False
  then have n: "3 \<le> length ps" using assms(1) by simp
  obtain q r x where path: "path_of ops =
      [MoveTo (Fin (fst (ps ! 0))) (Fin (snd (ps ! 0))),
       QuadraticCurveTo (Fin (fst (q 0))) (Fin (max (min (snd (q 0)) lo) hi)) (Fin (fst (ps ! 1))) (Fin (snd (ps ! 1)))]
      @ map (\<lambda>m. curve_to lo hi (r (m - 1)) (q m) (ps ! Suc m)) [1..<length ps - 1] @ [x]" "knots x = []" "control_heights x = []"
    using spline_path [OF n assms(2,4,5)] assms(6) by blast
  have "map fpoint ps = fpoint (ps ! 0) # fpoint (ps ! 1) # map (\<lambda>m. fpoint (ps ! Suc m)) [1..<length ps - 1]"
    using n by (intro nth_equalityI) (auto simp: nth_Cons split: nat.splits)
  moreover have "\<forall>h \<in> set (control_heights op). Fin hi \<le> h \<and> h \<le> Fin lo" if "op \<in> set (path_of ops)" for op
    using that assms(3) path(3) unfolding path(1) by (auto simp: curve_to_def)
  ultimately show ?thesis
    unfolding path(1) using path(2) by (simp add: curve_knots [unfolded map_map comp_def] comp_def fpoint_def)
qed

theorem spline_visits_points_witness:
  "concat (map knots (path_of (spline_ops (map fpoint [(0, 5), (10, 8), (20, 0)]) (Fin (4 / 10)) (Fin 10) (Fin 0) [] [])))
     = map fpoint [(0, 5), (10, 8), (20, 0)]"
proof -
  have "\<forall>k. Suc k < length [(0, 5), (10, 8), (20, 0 :: real)] \<longrightarrow>
      fst ([(0, 5), (10, 8), (20, 0 :: real)] ! k) < (fst ([(0, 5), (10, 8), (20, 0 :: real)] ! Suc k) :: real)"
    by (auto simp: less_Suc_eq)
  then show ?thesis using spline_visits_points [of "[(0, 5), (10, 8), (20, 0)]" 0 10 "[]" "[]" _ "4 / 10", OF _ _ _ _ _ refl] by simp
qed

end
