(* ===== verification/ValueIndex.thy ===== *)
theory ValueIndex
  imports StatPositions
begin

text \<open>
  The first and the last value that is given, which \<open>initPassVariableData_part1\<close> stores in every entry
  (\<open>firstNotMissing\<close>, \<open>lastNotMissing\<close>): for bars over the data sets at a position, for lines over the
  positions of a data set.  The drawing functions start and end with them.
\<close>

abbreviation given :: "obj list \<Rightarrow> nat \<Rightarrow> nat \<Rightarrow> bool" where
  "given datasets i j \<equiv> i < length datasets \<and> aget (dvalues (datasets ! i)) j \<noteq> Undef"

section \<open>The indices computed with the totals\<close>

lemma val_total_indices:
  "vt_firsti (val_total ax i (j, v) t) k = (if v \<noteq> Undef \<and> k = i \<and> vt_firsti t i = - 1 then int j else vt_firsti t k)"
  "vt_lasti (val_total ax i (j, v) t) k = (if v \<noteq> Undef \<and> k = i then int j else vt_lasti t k)"
  "vt_firstj (val_total ax i (j, v) t) k = (if v \<noteq> Undef \<and> k = j \<and> vt_firstj t j = - 1 then int i else vt_firstj t k)"
  by (auto simp: val_total_def Let_def)

text \<open>The positions of one data set: what is known of the first and the last value among \<open>vs\<close>.\<close>

definition ends_of :: "jsval list \<Rightarrow> int \<Rightarrow> int \<Rightarrow> bool" where
  "ends_of vs f l =
     (if \<exists>j. aget vs j \<noteq> Undef
      then 0 \<le> f \<and> f \<le> l \<and> aget vs (nat f) \<noteq> Undef \<and> aget vs (nat l) \<noteq> Undef \<and> (\<forall>j. aget vs j \<noteq> Undef \<longrightarrow> f \<le> int j \<and> int j \<le> l)
      else f = - 1 \<and> l = - 1)"

lemma aget_snoc: "aget (vs @ [v]) j = (if j = length vs then v else aget vs j)"
  by (simp add: aget_def nth_append)

lemma aget_Nil: "aget [] j = Undef"
  by (simp add: aget_def)

lemma aget_length: "aget vs j \<noteq> Undef \<Longrightarrow> j < length vs"
  by (simp add: aget_def split: if_splits)

lemma ends_of_snoc:
  assumes "ends_of vs f l"
  shows "ends_of (vs @ [v]) (if v \<noteq> Undef \<and> f = - 1 then int (length vs) else f) (if v \<noteq> Undef then int (length vs) else l)"
proof (cases "\<exists>j. aget vs j \<noteq> Undef")
  case True
  with assms have a: "0 \<le> f" "f \<le> l" "aget vs (nat f) \<noteq> Undef" "aget vs (nat l) \<noteq> Undef"
      "\<And>j. aget vs j \<noteq> Undef \<Longrightarrow> f \<le> int j \<and> int j \<le> l" by (auto simp: ends_of_def)
  then have b: "nat f < length vs" "nat l < length vs" "\<And>j. aget vs j \<noteq> Undef \<Longrightarrow> j < length vs" by (auto dest: aget_length)
  have "\<exists>j. aget (vs @ [v]) j \<noteq> Undef" using a(3) b(1) by (intro exI [of _ "nat f"]) (simp add: aget_snoc)
  moreover have "f \<le> int j \<and> int j \<le> (if v \<noteq> Undef then int (length vs) else l)" if "aget (vs @ [v]) j \<noteq> Undef" for j
    using that a(1,2) a(5) [of j] b(1,2) b(3) [of j] by (auto simp: aget_snoc split: if_splits)
  moreover have "f \<le> int (length vs)" "f \<noteq> - 1" using a(1) b(1) by auto
  ultimately show ?thesis using a b unfolding ends_of_def by (auto simp: aget_snoc)
next
  case False
  with assms show ?thesis by (auto simp: ends_of_def aget_snoc)
qed

lemma dataset_total_indices:
  assumes "t' = dataset_total (i, ds) t"
  shows "k \<noteq> i \<Longrightarrow> vt_firsti t' k = vt_firsti t k \<and> vt_lasti t' k = vt_lasti t k"
    and "vt_firsti t i = - 1 \<Longrightarrow> vt_lasti t i = - 1 \<Longrightarrow> ends_of (dvalues ds) (vt_firsti t' i) (vt_lasti t' i)"
    and "vt_firstj t' j = (if aget (dvalues ds) j \<noteq> Undef \<and> vt_firstj t j = - 1 then int i else vt_firstj t j)"
proof -
  define go where "go vs = fold (val_total (axis_index ds) i) (enumerate 0 vs) t" for vs
  have t': "t' = go (dvalues ds)" by (simp add: assms dataset_total_def go_def)
  have go_snoc: "go (vs @ [v]) = val_total (axis_index ds) i (length vs, v) (go vs)" for vs v by (simp add: go_def enumerate_snoc)
  have "k \<noteq> i \<Longrightarrow> vt_firsti (go vs) k = vt_firsti t k \<and> vt_lasti (go vs) k = vt_lasti t k" for vs
    by (induction vs rule: rev_induct) (simp_all add: go_snoc val_total_indices go_def [of "[]"])
  then show "k \<noteq> i \<Longrightarrow> vt_firsti t' k = vt_firsti t k \<and> vt_lasti t' k = vt_lasti t k" by (simp add: t')
  have "ends_of vs (vt_firsti (go vs) i) (vt_lasti (go vs) i)" if "vt_firsti t i = - 1" "vt_lasti t i = - 1" for vs
  proof (induction vs rule: rev_induct)
    case (snoc v vs)
    from ends_of_snoc [OF this, of v] show ?case by (simp add: go_snoc val_total_indices)
  qed (use that in \<open>simp add: go_def ends_of_def aget_def\<close>)
  then show "vt_firsti t i = - 1 \<Longrightarrow> vt_lasti t i = - 1 \<Longrightarrow> ends_of (dvalues ds) (vt_firsti t' i) (vt_lasti t' i)" by (simp add: t')
  have "vt_firstj (go vs) j = (if aget vs j \<noteq> Undef \<and> vt_firstj t j = - 1 then int i else vt_firstj t j)" for vs
    by (induction vs rule: rev_induct) (auto simp: go_snoc val_total_indices aget_snoc go_def [of "[]"] aget_Nil)
  then show "vt_firstj t' j = (if aget (dvalues ds) j \<noteq> Undef \<and> vt_firstj t j = - 1 then int i else vt_firstj t j)" by (simp add: t')
qed

lemma totals_snoc: "value_totals (dss @ [ds]) = dataset_total (length dss, ds) (value_totals dss)"
  by (simp add: value_totals_def enumerate_snoc)

lemma value_totals_ends:
  "(\<forall>i < length dss. ends_of (dvalues (dss ! i)) (vt_firsti (value_totals dss) i) (vt_lasti (value_totals dss) i))
   \<and> (\<forall>i \<ge> length dss. vt_firsti (value_totals dss) i = - 1 \<and> vt_lasti (value_totals dss) i = - 1)"
proof (induction dss rule: rev_induct)
  case Nil
  then show ?case by (simp add: value_totals_def no_totals_def)
next
  case (snoc ds dss)
  note step = dataset_total_indices [OF totals_snoc]
  from snoc step(1) [of _ dss ds] step(2) [of dss ds] show ?case
    by (auto simp: nth_append less_Suc_eq)
qed

lemma value_totals_first:
  "(if \<exists>i. given dss i j then \<exists>f. vt_firstj (value_totals dss) j = int f \<and> given dss f j \<and> (\<forall>i. given dss i j \<longrightarrow> f \<le> i)
    else vt_firstj (value_totals dss) j = - 1)"
proof (induction dss rule: rev_induct)
  case Nil
  then show ?case by (simp add: value_totals_def no_totals_def)
next
  case (snoc ds dss)
  have given: "given (dss @ [ds]) i j \<longleftrightarrow> given dss i j \<or> i = length dss \<and> aget (dvalues ds) j \<noteq> Undef" for i
    by (auto simp: nth_append less_Suc_eq)
  show ?case
  proof (cases "\<exists>i. given dss i j")
    case True
    with snoc obtain f where "vt_firstj (value_totals dss) j = int f" "given dss f j" "\<forall>i. given dss i j \<longrightarrow> f \<le> i" by auto
    then show ?thesis unfolding given by (auto simp: dataset_total_indices(3) [OF totals_snoc])
  next
    case False
    with snoc show ?thesis unfolding given by (auto simp: dataset_total_indices(3) [OF totals_snoc])
  qed
qed

section \<open>The indices in the entries\<close>

definition first_index :: "val_totals \<Rightarrow> string \<Rightarrow> nat \<Rightarrow> nat \<Rightarrow> int" where
  "first_index t kind i j = (if is_bar kind then vt_firstj t j else vt_firsti t i)"

definition last_index :: "val_totals \<Rightarrow> string \<Rightarrow> nat \<Rightarrow> nat \<Rightarrow> int" where
  "last_index t kind i j = (if is_bar kind then vt_lastj t j else vt_lasti t i)"

lemma index_keys: "stable ''firstNotMissing''" "stable ''lastNotMissing''"
  by (simp_all add: stable_def)

lemma entry_indices:
  "oget (bar_entry ns perso config t ds labels i j x cum) ''firstNotMissing'' = IntV (vt_firstj t j)"
  "oget (bar_entry ns perso config t ds labels i j x cum) ''lastNotMissing'' = IntV (vt_lastj t j)"
  "oget (line_entry ns perso config t ds labels i j x cum) ''firstNotMissing'' = IntV (vt_firsti t i)"
  "oget (line_entry ns perso config t ds labels i j x cum) ''lastNotMissing'' = IntV (vt_lasti t i)"
  "oget (missing_value t kind ds i j st) ''firstNotMissing'' = IntV (first_index t kind i j)"
  "oget (missing_value t kind ds i j st) ''lastNotMissing'' = IntV (last_index t kind i j)"
  unfolding bar_entry_def line_entry_def value_common_def missing_value_def Let_def oget_obj_literal first_index_def last_index_def
  by (simp_all del: numeral_jsnum)

definition indexed :: "val_totals \<Rightarrow> string \<Rightarrow> nat \<Rightarrow> nat \<Rightarrow> obj \<Rightarrow> bool" where
  "indexed t kind i j e =
     (oget e ''firstNotMissing'' = IntV (first_index t kind i j) \<and> oget e ''lastNotMissing'' = IntV (last_index t kind i j))"

lemma val_step_indexed:
  assumes "value_kind (drawn_as tp ds)"
  shows "indexed t (drawn_as tp ds) i j (vl_result (val_step ns perso config tp labels t i ds (j, v) st) i j)"
  using assms
  by (auto simp: val_step_def Let_def indexed_def set_next_stable link_lines_stable index_keys entry_indices value_kind_def
      first_index_def last_index_def simp del: numeral_jsnum)

lemma dataset_step_indexed:
  assumes "value_kind (drawn_as tp ds)" "j < length (dvalues ds)"
  shows "indexed t (drawn_as tp ds) i j (vl_result (dataset_step ns perso config tp labels t (i, ds) st) i j)"
proof -
  define go where "go vs = fold (val_step ns perso config tp labels t i ds) (enumerate 0 vs) (st\<lparr> vl_prev := - 1, vl_prevMissing := - 1 \<rparr>)" for vs
  have "j < length vs \<Longrightarrow> indexed t (drawn_as tp ds) i j (vl_result (go vs) i j)" for vs
  proof (induction vs rule: rev_induct)
    case (snoc v vs)
    have step: "go (vs @ [v]) = val_step ns perso config tp labels t i ds (length vs, v) (go vs)" by (simp add: go_def enumerate_snoc)
    show ?case
    proof (cases "j = length vs")
      case True
      then show ?thesis unfolding step using val_step_indexed [OF assms(1)] by simp
    next
      case False
      with snoc show ?thesis unfolding step by (simp add: indexed_def val_step_frame index_keys)
    qed
  qed simp
  from this [OF assms(2)] show ?thesis by (simp add: dataset_step_def go_def)
qed

lemma values_indexed:
  assumes "\<forall>ds \<in> set dss. value_kind (drawn_as tp ds)" "i < length dss" "j < length (dvalues (dss ! i))"
  shows "indexed t (drawn_as tp (dss ! i)) i j (vl_result (fold (dataset_step ns perso config tp labels t) (enumerate 0 dss) st) i j)"
  using assms
proof (induction dss rule: rev_induct)
  case (snoc ds dss)
  let ?st = "fold (dataset_step ns perso config tp labels t) (enumerate 0 dss) st"
  have k: "value_kind (drawn_as tp ds)" using snoc.prems(1) by simp
  have step: "fold (dataset_step ns perso config tp labels t) (enumerate 0 (dss @ [ds])) st
      = dataset_step ns perso config tp labels t (length dss, ds) ?st" by (simp add: enumerate_snoc)
  show ?case
  proof (cases "i = length dss")
    case True
    with snoc.prems(3) k show ?thesis unfolding step by (simp add: dataset_step_indexed)
  next
    case False
    with snoc show ?thesis
      unfolding step by (simp add: indexed_def dataset_step_effect(2) [OF k refl] index_keys nth_append)
  qed
qed simp

text \<open>The entries of a chart, after both passes.\<close>

lemma part1_indexed:
  assumes "(padded, statData) = initPassVariableData_values ns perso config tp labels datasets"
    and "\<forall>ds \<in> set datasets. value_kind (drawn_as tp ds)" "i < length datasets" "j < length (dvalues (padded ! i))"
  shows "indexed (value_totals padded) (drawn_as tp (datasets ! i)) i j (statData i j)"
proof -
  have padded: "padded = map (pad_dataset tp labels) datasets" using assms(1) by (simp add: initPassVariableData_values_def Let_def)
  have "\<forall>ds \<in> set padded. value_kind (drawn_as tp ds)" using assms(2) by (auto simp: padded pad_dataset_same)
  from values_indexed [OF this, of i j "value_totals padded"] assms(1,3,4) show ?thesis
    by (simp add: initPassVariableData_values_def Let_def padded pad_dataset_same)
qed

lemma place_point_keeps:
  "key \<in> {''firstNotMissing'', ''lastNotMissing'', ''tpchart''} \<Longrightarrow> oget (place_point lg config tp data labels ov ds j v e0 e) key = oget e key"
  by (cases "v = Undef"; elim insertE; simp add: place_point_def Let_def oget_copy_attrs split del: if_split)

end
