(* ===== verification/ValueBounds.thy ===== *)
theory ValueBounds
  imports ChartScale
begin

text \<open>
  The seven functions \<open>getValueBounds\<close> of the chart constructors: the smallest and the largest value
  of the data (or of the stacked data), widened when they coincide, replaced by the options
  \<open>graphMin\<close> and \<open>graphMax\<close>, and the numbers of steps a chart has room for.

  A data set is its values and its axis.  The height that the page's function
  \<open>drawMathDeviation\<close> adds to data set \<open>i\<close> is the argument \<open>deviation i\<close> (0 when there is none);
  an option given as a function \<open>f\<close> has the value \<open>call f\<close>.
\<close>

record dataset =
  ds_data :: "jsval list"
  ds_axis :: jsval

record value_bounds =
  vb_max :: jsnum
  vb_min :: jsnum
  vb_max2 :: jsnum
  vb_min2 :: jsnum
  dbAxis :: bool
  maxSteps :: jsnum
  minSteps :: jsnum

type_synonym extent = "jsnum \<times> jsnum"

section \<open>The parts the functions share\<close>

text \<open>One value with a deviation \<open>d\<close>, for the pair of the upper and the lower value so far.\<close>

definition track :: "jsnum \<Rightarrow> jsnum \<Rightarrow> extent \<Rightarrow> extent" where
  "track d x ul =
     (if x + d > fst ul then x + d else fst ul, if x - d < snd ul then x - d else snd ul)"

definition no_extent :: extent where
  "no_extent = (- MAX_VALUE, MAX_VALUE)"

definition order_bounds :: "extent \<Rightarrow> extent" where
  "order_bounds ul = (if fst ul < snd ul then (0, 0) else ul)"

definition spread_sides :: "jsnum \<Rightarrow> jsnum \<Rightarrow> extent" where
  "spread_sides u l =
     (if u > 0 then (u * Fin (11 / 10), l * Fin (9 / 10)) else (u * Fin (9 / 10), l * Fin (11 / 10)))"

definition spread_bounds :: "jsnum \<Rightarrow> extent \<Rightarrow> extent" where
  "spread_bounds zero ul =
     (if math_abs (fst ul - snd ul) < zero
      then spread_sides (if math_abs (fst ul) < zero then Fin (9 / 10) else fst ul) (snd ul)
      else ul)"

definition forced_bound :: "(string \<Rightarrow> jsval) \<Rightarrow> obj \<Rightarrow> string \<Rightarrow> jsnum \<Rightarrow> jsnum" where
  "forced_bound call config key v =
     (case oget config key of
        Fn f \<Rightarrow> to_number (call f)
      | x \<Rightarrow> if \<not> is_nan x then to_number x else v)"

definition forced_bounds :: "(string \<Rightarrow> jsval) \<Rightarrow> obj \<Rightarrow> string \<Rightarrow> string \<Rightarrow> extent \<Rightarrow> extent" where
  "forced_bounds call config minKey maxKey ul =
     (forced_bound call config maxKey (fst ul), forced_bound call config minKey (snd ul))"

definition max_steps :: "jsnum \<Rightarrow> jsnum \<Rightarrow> jsnum" where
  "max_steps scaleHeight labelHeight = math_floor (scaleHeight / (labelHeight * Fin (66 / 100)))"

definition min_steps :: "jsnum \<Rightarrow> jsnum \<Rightarrow> jsnum" where
  "min_steps scaleHeight labelHeight = math_floor (scaleHeight / labelHeight * Fin (1 / 2))"

definition label_height :: "jsnum \<Rightarrow> obj \<Rightarrow> jsnum" where
  "label_height chartTextScale config = math_ceil (chartTextScale * to_number (oget config ''scaleFontSize''))"

abbreviation zero_value :: "obj \<Rightarrow> jsnum" where
  "zero_value config \<equiv> to_number (oget config ''zeroValue'')"

text \<open>The values that are there: \<open>typeof v == "undefined"\<close> is skipped, the others count as \<open>1 * v\<close>.\<close>

definition defined_values :: "jsval list \<Rightarrow> jsnum list" where
  "defined_values vs = map to_number (filter (\<lambda>v. v \<noteq> Undef) vs)"

definition track_all :: "jsnum \<Rightarrow> jsval list \<Rightarrow> extent \<Rightarrow> extent" where
  "track_all d vs ul = fold (track d) (defined_values vs) ul"

definition one_axis :: "extent \<Rightarrow> jsnum \<Rightarrow> jsnum \<Rightarrow> value_bounds" where
  "one_axis ul mx mn =
     \<lparr> vb_max = fst ul, vb_min = snd ul, vb_max2 = NaN, vb_min2 = NaN, dbAxis = False, maxSteps = mx, minSteps = mn \<rparr>"

section \<open>PolarArea and Radar\<close>

text \<open>
  In these two the variables \<open>scaleHeight\<close> and \<open>labelHeight\<close> have no value yet when the function
  runs, so the numbers of steps are computed from \<open>undefined\<close>.
\<close>

definition unset_number :: jsnum where
  "unset_number = to_number Undef"

definition getValueBounds_PolarArea :: "(string \<Rightarrow> jsval) \<Rightarrow> obj \<Rightarrow> jsval list \<Rightarrow> value_bounds" where
  "getValueBounds_PolarArea call config values =
     one_axis
       (forced_bounds call config ''graphMin'' ''graphMax''
         (spread_bounds (zero_value config) (order_bounds (track_all 0 values no_extent))))
       (max_steps unset_number unset_number) (min_steps unset_number unset_number)"

definition spread_radar :: "jsnum \<Rightarrow> extent \<Rightarrow> extent" where
  "spread_radar zero ul =
     (if math_abs (fst ul - snd ul) < zero
      then (if math_abs (fst ul) < zero then spread_sides (Fin (9 / 10)) (Fin (- 9 / 10))
            else spread_sides (fst ul) (snd ul))
      else ul)"

definition getValueBounds_Radar :: "(string \<Rightarrow> jsval) \<Rightarrow> obj \<Rightarrow> dataset list \<Rightarrow> value_bounds" where
  "getValueBounds_Radar call config datasets =
     one_axis
       (forced_bounds call config ''graphMin'' ''graphMax''
         (spread_radar (zero_value config)
           (order_bounds (fold (\<lambda>ds. track_all 0 (ds_data ds)) datasets no_extent))))
       (max_steps unset_number unset_number) (min_steps unset_number unset_number)"

section \<open>Line and Bar\<close>

text \<open>The extents of the first and of the second axis over all data sets, and which axes are used.\<close>

record axes =
  first :: extent
  second :: extent
  firstAxis :: bool
  secondAxis :: bool

definition on_second :: "dataset \<Rightarrow> bool" where
  "on_second ds = loose_eq (ds_axis ds) (NumF 2)"

definition track_dataset :: "(nat \<Rightarrow> jsnum) \<Rightarrow> nat \<times> dataset \<Rightarrow> axes \<Rightarrow> axes" where
  "track_dataset deviation ids a =
     (let (i, ds) = ids; used = (defined_values (ds_data ds) \<noteq> [])
      in if on_second ds
         then a\<lparr> second := track_all (deviation i) (ds_data ds) (second a), secondAxis := secondAxis a \<or> used \<rparr>
         else a\<lparr> first := track_all (deviation i) (ds_data ds) (first a), firstAxis := firstAxis a \<or> used \<rparr>)"

definition two_axes :: "(nat \<Rightarrow> jsnum) \<Rightarrow> dataset list \<Rightarrow> axes" where
  "two_axes deviation datasets =
     fold (track_dataset deviation) (enumerate 0 datasets)
       \<lparr> first = no_extent, second = no_extent, firstAxis = False, secondAxis = False \<rparr>"

definition axis_bounds :: "(string \<Rightarrow> jsval) \<Rightarrow> obj \<Rightarrow> string \<Rightarrow> string \<Rightarrow> extent \<Rightarrow> extent" where
  "axis_bounds call config minKey maxKey ul =
     forced_bounds call config minKey maxKey (spread_bounds (zero_value config) (order_bounds ul))"

definition getValueBounds_Line ::
  "(string \<Rightarrow> jsval) \<Rightarrow> (nat \<Rightarrow> jsnum) \<Rightarrow> obj \<Rightarrow> jsnum \<Rightarrow> jsnum \<Rightarrow> dataset list \<Rightarrow> value_bounds" where
  "getValueBounds_Line call deviation config chartTextScale availableHeight datasets =
     (let a = two_axes deviation datasets;
          ul = axis_bounds call config ''graphMin'' ''graphMax'' (first a);
          ul2 = (if secondAxis a then axis_bounds call config ''graphMin2'' ''graphMax2'' (second a) else second a);
          ul1 = (if \<not> firstAxis a \<and> secondAxis a then ul2 else ul);
          labelHeight = label_height chartTextScale config; scaleHeight = availableHeight
      in \<lparr> vb_max = fst ul1, vb_min = snd ul1, vb_max2 = fst ul2, vb_min2 = snd ul2, dbAxis = secondAxis a,
           maxSteps = max_steps scaleHeight labelHeight, minSteps = min_steps scaleHeight labelHeight \<rparr>)"

text \<open>The function of \<open>Bar\<close> has the same text.\<close>

definition getValueBounds_Bar ::
  "(string \<Rightarrow> jsval) \<Rightarrow> (nat \<Rightarrow> jsnum) \<Rightarrow> obj \<Rightarrow> jsnum \<Rightarrow> jsnum \<Rightarrow> dataset list \<Rightarrow> value_bounds" where
  "getValueBounds_Bar call deviation config chartTextScale availableHeight datasets =
     (let a = two_axes deviation datasets;
          ul = axis_bounds call config ''graphMin'' ''graphMax'' (first a);
          ul2 = (if secondAxis a then axis_bounds call config ''graphMin2'' ''graphMax2'' (second a) else second a);
          ul1 = (if \<not> firstAxis a \<and> secondAxis a then ul2 else ul);
          labelHeight = label_height chartTextScale config; scaleHeight = availableHeight
      in \<lparr> vb_max = fst ul1, vb_min = snd ul1, vb_max2 = fst ul2, vb_min2 = snd ul2, dbAxis = secondAxis a,
           maxSteps = max_steps scaleHeight labelHeight, minSteps = min_steps scaleHeight labelHeight \<rparr>)"

definition getValueBounds_HorizontalBar ::
  "(string \<Rightarrow> jsval) \<Rightarrow> obj \<Rightarrow> jsnum \<Rightarrow> jsnum \<Rightarrow> dataset list \<Rightarrow> value_bounds" where
  "getValueBounds_HorizontalBar call config chartTextScale availableHeight datasets =
     (let ul = axis_bounds call config ''graphMin'' ''graphMax''
                 (fold (\<lambda>ds. track_all 0 (ds_data ds)) datasets no_extent);
          labelHeight = label_height chartTextScale config; scaleHeight = availableHeight
      in one_axis ul (max_steps scaleHeight labelHeight) (min_steps scaleHeight labelHeight))"

section \<open>Stacked bars\<close>

text \<open>The running sums of the positive and of the other values of one stack, and the extent so far.\<close>

type_synonym stack = "jsnum \<times> jsnum \<times> extent"

definition widen :: "jsnum \<Rightarrow> extent \<Rightarrow> extent" where
  "widen t ul = (if t > fst ul then t else fst ul, if t < snd ul then t else snd ul)"

definition stack_value :: "jsval \<Rightarrow> stack \<Rightarrow> stack" where
  "stack_value v st =
     (case st of (tempp, tempn, ul) \<Rightarrow>
        if v = Undef then st
        else if to_number v > 0
        then (tempp + to_number v, tempn, widen (tempp + to_number v) ul)
        else (tempp, tempn + to_number v, widen (tempn + to_number v) ul))"

text \<open>Data set 0 first, then \<open>k = i\<close> down to 1.\<close>

definition stack_order :: "nat \<Rightarrow> nat list" where
  "stack_order i = 0 # rev [1..<Suc i]"

definition stack_values :: "dataset list \<Rightarrow> nat \<Rightarrow> nat \<Rightarrow> jsval list" where
  "stack_values datasets i j = map (\<lambda>k. aget (ds_data (datasets ! k)) j) (stack_order i)"

definition stack_at :: "dataset list \<Rightarrow> nat \<Rightarrow> nat \<Rightarrow> extent \<Rightarrow> extent" where
  "stack_at datasets i j ul = snd (snd (fold stack_value (stack_values datasets i j) (0, 0, ul)))"

definition stack_extent :: "dataset list \<Rightarrow> extent" where
  "stack_extent datasets =
     fold (\<lambda>i. fold (stack_at datasets i) [0..<length (ds_data (datasets ! i))]) [0..<length datasets] no_extent"

definition getValueBounds_StackedBar ::
  "(string \<Rightarrow> jsval) \<Rightarrow> obj \<Rightarrow> jsnum \<Rightarrow> jsnum \<Rightarrow> dataset list \<Rightarrow> value_bounds" where
  "getValueBounds_StackedBar call config chartTextScale availableHeight datasets =
     (let ul = spread_bounds (zero_value config)
                 (order_bounds (forced_bounds call config ''graphMin'' ''graphMax'' (stack_extent datasets)));
          labelHeight = label_height chartTextScale config; scaleHeight = availableHeight
      in one_axis ul (max_steps scaleHeight labelHeight) (min_steps scaleHeight labelHeight))"

text \<open>The function of \<open>HorizontalStackedBar\<close> has the same text.\<close>

definition getValueBounds_HorizontalStackedBar ::
  "(string \<Rightarrow> jsval) \<Rightarrow> obj \<Rightarrow> jsnum \<Rightarrow> jsnum \<Rightarrow> dataset list \<Rightarrow> value_bounds" where
  "getValueBounds_HorizontalStackedBar call config chartTextScale availableHeight datasets =
     (let ul = spread_bounds (zero_value config)
                 (order_bounds (forced_bounds call config ''graphMin'' ''graphMax'' (stack_extent datasets)));
          labelHeight = label_height chartTextScale config; scaleHeight = availableHeight
      in one_axis ul (max_steps scaleHeight labelHeight) (min_steps scaleHeight labelHeight))"

section \<open>The scale of a line chart\<close>

text \<open>
  What \<open>Line\<close> does between \<open>getValueBounds\<close> and the drawing: choose the kind of each scale, then
  compute it or take it from the options; a scale stays undefined (\<open>None\<close>) when there is no room
  for a label.  The scale of axis 2 gets the label template of axis 1.
\<close>

definition label_template :: "obj \<Rightarrow> string \<Rightarrow> jsval" where
  "label_template config suffix =
     (if to_bool (oget config (''scaleShowLabels'' @ suffix)) then oget config (''scaleLabel'' @ suffix) else Str [])"

definition no_scale :: scale where
  "no_scale = \<lparr> s_steps = 0, s_stepValue = 0, s_graphMin = 0, s_labels = [], s_maxValue = 0 \<rparr>"

definition line_config :: "(jsnum \<Rightarrow> jsnum) \<Rightarrow> value_bounds \<Rightarrow> obj \<Rightarrow> obj" where
  "line_config lg vb config =
     choose_logarithmic lg ''logarithmic2'' ''scaleOverride2'' (vb_max2 vb) (vb_min2 vb)
       (choose_logarithmic lg ''logarithmic'' ''scaleOverride'' (vb_max vb) (vb_min vb) config)"

definition line_scale ::
  "(string \<Rightarrow> string \<Rightarrow> int \<Rightarrow> int \<Rightarrow> jsval) \<Rightarrow> (jsnum \<Rightarrow> jsnum) \<Rightarrow> (jsnum \<Rightarrow> string) \<Rightarrow> (obj \<Rightarrow> jsval \<Rightarrow> jsval \<Rightarrow> jsval)
     \<Rightarrow> (string \<Rightarrow> jsval \<Rightarrow> string) \<Rightarrow> nat \<Rightarrow> value_bounds \<Rightarrow> obj \<Rightarrow> (js_error + scale option) option" where
  "line_scale call lg ns perso tmpl axis vb config =
     (let suffix = (if axis = 2 then ''2'' else [])
      in if axis = 2 \<and> \<not> dbAxis vb then Some (Inr (Some no_scale))
         else if \<not> to_bool (oget config (''scaleOverride'' @ suffix)) then
           (if maxSteps vb > 0 \<and> minSteps vb > 0
            then map_option (map_sum id Some)
                   (calculateScale lg ns perso tmpl axis config (maxSteps vb) (minSteps vb)
                      (if axis = 2 then vb_max2 vb else vb_max vb) (if axis = 2 then vb_min2 vb else vb_min vb)
                      (label_template config []))
            else Some (Inr None))
         else map_option (map_sum id Some)
                (override_scale call ns perso tmpl axis suffix config (label_template config suffix)))"

section \<open>Extents grow\<close>

text \<open>An extent of finite numbers that contains the extent before; the empty extent has its ends swapped.\<close>

definition grows :: "extent \<Rightarrow> extent \<Rightarrow> bool" where
  "grows ul ul' = (\<exists>u l u' l'. ul = (Fin u, Fin l) \<and> ul' = (Fin u', Fin l') \<and> u \<le> u' \<and> l' \<le> l)"

definition fin_extent :: "extent \<Rightarrow> bool" where
  "fin_extent ul = (is_fin (fst ul) \<and> is_fin (snd ul))"

definition inside :: "real \<Rightarrow> real \<Rightarrow> extent \<Rightarrow> bool" where
  "inside a b ul = (\<exists>u l. ul = (Fin u, Fin l) \<and> l \<le> a \<and> b \<le> u)"

lemma fin_extentE:
  assumes "fin_extent ul"
  obtains u l where "ul = (Fin u, Fin l)"
  using assms by (cases ul) (auto simp: fin_extent_def elim!: is_finE)

lemma grows_refl: "fin_extent ul \<Longrightarrow> grows ul ul"
  by (auto simp: grows_def elim: fin_extentE)

lemma grows_trans: "grows a b \<Longrightarrow> grows b c \<Longrightarrow> grows a c"
  by (auto simp: grows_def)

lemma grows_fin: "grows ul ul' \<Longrightarrow> fin_extent ul'"
  by (auto simp: grows_def fin_extent_def)

lemma inside_grows: "inside a b ul \<Longrightarrow> grows ul ul' \<Longrightarrow> inside a b ul'"
  by (auto simp: inside_def grows_def)

lemma fin_no_extent: "fin_extent no_extent"
  by (simp add: fin_extent_def no_extent_def MAX_VALUE_Fin)

lemma fold_grows:
  assumes "\<And>x ul. x \<in> set xs \<Longrightarrow> fin_extent ul \<Longrightarrow> grows ul (f x ul)"
  shows "fin_extent ul \<Longrightarrow> grows ul (fold f xs ul)"
  using assms
proof (induction xs arbitrary: ul)
  case Nil
  then show ?case by (simp add: grows_refl)
next
  case (Cons x xs)
  then have "grows ul (f x ul)" by simp
  with Cons.IH [of "f x ul"] Cons.prems show ?case
    using grows_trans grows_fin by (metis fold_simps(2) list.set_intros(2))
qed

lemma fold_hits:
  assumes "\<And>x ul. x \<in> set xs \<Longrightarrow> fin_extent ul \<Longrightarrow> grows ul (f x ul)" "fin_extent ul" "y \<in> set xs"
    and "\<And>ul. fin_extent ul \<Longrightarrow> inside a b (f y ul)"
  shows "inside a b (fold f xs ul)"
proof -
  obtain ys zs where xs: "xs = ys @ y # zs" using assms(3) by (meson split_list)
  have "grows ul (fold f ys ul)" using assms(1,2) by (intro fold_grows) (auto simp: xs)
  then have f: "fin_extent (fold f ys ul)" by (rule grows_fin)
  have "grows (fold f ys ul) (f y (fold f ys ul))" using f by (intro assms(1)) (simp add: xs)
  then have fin: "fin_extent (f y (fold f ys ul))" by (rule grows_fin)
  have "inside a b (f y (fold f ys ul))" using f by (rule assms(4))
  moreover have "grows (f y (fold f ys ul)) (fold f zs (f y (fold f ys ul)))"
    using assms(1) fin by (intro fold_grows) (auto simp: xs)
  ultimately show ?thesis using inside_grows by (auto simp: xs)
qed

text \<open>Values of a data set that are all finite.\<close>

definition finite_values :: "jsval list \<Rightarrow> bool" where
  "finite_values vs = (\<forall>v \<in> set vs. v \<noteq> Undef \<longrightarrow> is_fin (to_number v))"

lemma track_grows:
  assumes "fin_extent ul"
  shows "grows ul (track (Fin d) (Fin x) ul)" "inside (x - d) (x + d) (track (Fin d) (Fin x) ul)"
  using assms by (auto elim!: fin_extentE simp: grows_def inside_def track_def)

lemma finite_defined: "finite_values vs \<Longrightarrow> x \<in> set (defined_values vs) \<Longrightarrow> \<exists>t. x = Fin t"
  by (auto simp: defined_values_def finite_values_def elim!: is_finE)

lemma track_all_grows:
  assumes "fin_extent ul" "finite_values vs"
  shows "grows ul (track_all (Fin d) vs ul)"
  unfolding track_all_def
proof (rule fold_grows [OF _ assms(1)])
  fix x ul
  assume "x \<in> set (defined_values vs)" "fin_extent ul"
  with finite_defined [OF assms(2)] show "grows ul (track (Fin d) x ul)"
    by (metis track_grows(1))
qed

lemma track_all_hits:
  assumes "fin_extent ul" "finite_values vs" "v \<in> set vs" "v \<noteq> Undef" "to_number v = Fin x"
  shows "inside (x - d) (x + d) (track_all (Fin d) vs ul)"
  unfolding track_all_def
proof (rule fold_hits [OF _ assms(1)])
  fix y ul
  assume "y \<in> set (defined_values vs)" "fin_extent ul"
  with finite_defined [OF assms(2)] show "grows ul (track (Fin d) y ul)"
    by (metis track_grows(1))
next
  show "Fin x \<in> set (defined_values vs)"
    using assms(3-5) by (auto simp: defined_values_def intro!: rev_image_eqI [of v])
qed (rule track_grows(2))

section \<open>Widening\<close>

lemma order_inside: "inside a b ul \<Longrightarrow> a \<le> b \<Longrightarrow> inside a b (order_bounds ul)"
  by (auto simp: inside_def order_bounds_def)

text \<open>The ends differ afterwards, and nothing but an amount below \<open>z\<close> at the lower end is lost.\<close>

lemma spread_widens:
  assumes "l \<le> u" "0 < z" "z \<le> 1 / 2"
  shows "\<exists>u' l'. spread_bounds (Fin z) (Fin u, Fin l) = (Fin u', Fin l') \<and> l' < u' \<and> l' \<le> l + z \<and> u \<le> u'"
proof -
  consider "z \<le> u - l" | "u - l < z" "\<bar>u\<bar> < z" | "u - l < z" "z \<le> u" | "u - l < z" "u \<le> - z"
    by linarith
  then show ?thesis
  proof cases
    case 1
    with assms show ?thesis by (intro exI [of _ u] exI [of _ l]) (simp add: spread_bounds_def)
  next
    case 2
    with assms have "spread_bounds (Fin z) (Fin u, Fin l) = (Fin (99 / 100), Fin (l * (9 / 10)))"
      by (simp add: spread_bounds_def spread_sides_def)
    moreover have "l * (9 / 10) < 99 / 100" "l * (9 / 10) \<le> l + z" "u \<le> 99 / 100" using 2 assms by linarith+
    ultimately show ?thesis by blast
  next
    case 3
    with assms have "spread_bounds (Fin z) (Fin u, Fin l) = (Fin (u * (11 / 10)), Fin (l * (9 / 10)))"
      by (simp add: spread_bounds_def spread_sides_def)
    moreover have "l * (9 / 10) < u * (11 / 10)" "l * (9 / 10) \<le> l + z" "u \<le> u * (11 / 10)" using 3 assms by linarith+
    ultimately show ?thesis by blast
  next
    case 4
    with assms have "spread_bounds (Fin z) (Fin u, Fin l) = (Fin (u * (9 / 10)), Fin (l * (11 / 10)))"
      by (simp add: spread_bounds_def spread_sides_def)
    moreover have "l * (11 / 10) < u * (9 / 10)" "l * (11 / 10) \<le> l + z" "u \<le> u * (9 / 10)" using 4 assms by linarith+
    ultimately show ?thesis by blast
  qed
qed

lemma spread_inside:
  assumes "inside a b ul" "a \<le> b" "0 < z" "z \<le> 1 / 2"
  shows "\<exists>u l. spread_bounds (Fin z) (order_bounds ul) = (Fin u, Fin l) \<and> l < u \<and> l \<le> a + z \<and> b \<le> u"
proof -
  obtain u l where ul: "order_bounds ul = (Fin u, Fin l)" "l \<le> a" "b \<le> u"
    using order_inside [OF assms(1,2)] by (auto simp: inside_def)
  then have "l \<le> u" using assms(2) by simp
  from spread_widens [OF this assms(3,4)] ul show ?thesis by fastforce
qed

section \<open>Lines and bars contain their data\<close>

text \<open>Options that leave the ends of both axes to the data.\<close>

definition free_ends :: "obj \<Rightarrow> real \<Rightarrow> bool" where
  "free_ends config z =
     (oget config ''zeroValue'' = NumF z \<and> 0 < z \<and> z \<le> 1 / 2
      \<and> (\<forall>k \<in> {''graphMin'', ''graphMax'', ''graphMin2'', ''graphMax2''}. oget config k = Undef))"

lemma axis_bounds_free:
  assumes "free_ends config z" "inside a b ul" "a \<le> b"
    "minKey \<in> {''graphMin'', ''graphMin2''}" "maxKey \<in> {''graphMax'', ''graphMax2''}"
  shows "\<exists>u l. axis_bounds call config minKey maxKey ul = (Fin u, Fin l) \<and> l < u \<and> l \<le> a + z \<and> b \<le> u"
proof -
  have "forced_bounds call config minKey maxKey e = e" for e
    using assms(1,4,5) by (auto simp: free_ends_def forced_bounds_def forced_bound_def is_nan_def)
  with assms spread_inside [OF assms(2,3), of z] show ?thesis
    by (simp add: axis_bounds_def free_ends_def)
qed

text \<open>What a data set adds to the extent of its own axis.\<close>

definition axis_of :: "dataset \<Rightarrow> axes \<Rightarrow> extent" where
  "axis_of ds a = (if on_second ds then second a else first a)"

definition fin_axes :: "axes \<Rightarrow> bool" where
  "fin_axes a = (fin_extent (first a) \<and> fin_extent (second a))"

definition axes_grow :: "axes \<Rightarrow> axes \<Rightarrow> bool" where
  "axes_grow a a' =
     (grows (first a) (first a') \<and> grows (second a) (second a')
      \<and> (firstAxis a \<longrightarrow> firstAxis a') \<and> (secondAxis a \<longrightarrow> secondAxis a'))"

lemma track_dataset_grows:
  assumes "fin_axes a" "finite_values (ds_data ds)" "deviation i = Fin d"
  shows "axes_grow a (track_dataset deviation (i, ds) a)"
  using assms track_all_grows [of _ "ds_data ds" d] grows_refl
  by (simp add: track_dataset_def Let_def axes_grow_def fin_axes_def del: split_paired_All)

lemma axes_grow_trans: "axes_grow a b \<Longrightarrow> axes_grow b c \<Longrightarrow> axes_grow a c"
  by (auto simp: axes_grow_def intro: grows_trans)

lemma axes_grow_fin: "axes_grow a b \<Longrightarrow> fin_axes b"
  by (auto simp: axes_grow_def fin_axes_def intro: grows_fin)

lemma fold_axes_grow:
  assumes "\<And>i ds. (i, ds) \<in> set ids \<Longrightarrow> finite_values (ds_data ds)" "\<And>i. \<exists>d. deviation i = Fin d"
  shows "fin_axes a \<Longrightarrow> axes_grow a (fold (track_dataset deviation) ids a)"
  using assms(1)
proof (induction ids arbitrary: a)
  case Nil
  then show ?case by (simp add: axes_grow_def fin_axes_def grows_refl)
next
  case (Cons x ids)
  obtain i ds where x: "x = (i, ds)" by fastforce
  obtain d where "deviation i = Fin d" using assms(2) by blast
  then have g: "axes_grow a (track_dataset deviation x a)"
    unfolding x using Cons.prems by (intro track_dataset_grows) (auto simp: x)
  have "axes_grow (track_dataset deviation x a) (fold (track_dataset deviation) ids (track_dataset deviation x a))"
    using Cons.prems(2) by (intro Cons.IH axes_grow_fin [OF g]) auto
  with g show ?case unfolding fold_simps by (rule axes_grow_trans)
qed

lemma two_axes_hit:
  assumes "\<And>ds. ds \<in> set datasets \<Longrightarrow> finite_values (ds_data ds)" "\<And>i. \<exists>d. deviation i = Fin d"
    and "i < length datasets" "v \<in> set (ds_data (datasets ! i))" "v \<noteq> Undef" "to_number v = Fin x" "deviation i = Fin d"
  shows "inside (x - d) (x + d) (axis_of (datasets ! i) (two_axes deviation datasets))"
    and "if on_second (datasets ! i) then secondAxis (two_axes deviation datasets) else firstAxis (two_axes deviation datasets)"
proof -
  let ?ds = "datasets ! i" and ?step = "track_dataset deviation"
  define a0 where "a0 = \<lparr> first = no_extent, second = no_extent, firstAxis = False, secondAxis = False \<rparr>"
  have "(i, ?ds) \<in> set (enumerate 0 datasets)" using assms(3) by (simp add: in_set_enumerate_eq)
  then obtain ys zs where xs: "enumerate 0 datasets = ys @ (i, ?ds) # zs" by (meson split_list)
  have fv: "finite_values (ds_data ds)" if "(k, ds) \<in> set (enumerate 0 datasets)" for k ds
    using that assms(1) by (metis enumerate_eq_zip set_zip_rightD)
  have "axes_grow a0 (fold ?step ys a0)"
    using fv assms(2) by (intro fold_axes_grow) (auto simp: xs a0_def fin_axes_def fin_no_extent)
  then have fin: "fin_axes (fold ?step ys a0)" by (rule axes_grow_fin)
  define a1 where "a1 = ?step (i, ?ds) (fold ?step ys a0)"
  have fin1: "fin_axes a1"
    unfolding a1_def using fin fv assms(7) by (intro axes_grow_fin [OF track_dataset_grows]) (auto simp: xs)
  have "finite_values (ds_data ?ds)" using fv by (auto simp: xs)
  moreover have "defined_values (ds_data ?ds) \<noteq> []"
    using assms(4,5) by (auto simp: defined_values_def filter_empty_conv)
  ultimately have hit: "inside (x - d) (x + d) (axis_of ?ds a1)" "if on_second ?ds then secondAxis a1 else firstAxis a1"
    using track_all_hits [of _ "ds_data ?ds" v x d] assms(4-7) fin
    by (auto simp: a1_def track_dataset_def axis_of_def fin_axes_def)
  have g: "axes_grow a1 (fold ?step zs a1)"
    using fv assms(2) fin1 by (intro fold_axes_grow) (auto simp: xs)
  have all: "two_axes deviation datasets = fold ?step zs a1"
    by (simp add: two_axes_def xs a1_def a0_def)
  show "inside (x - d) (x + d) (axis_of ?ds (two_axes deviation datasets))"
    using hit(1) g unfolding all by (auto simp: axis_of_def axes_grow_def intro: inside_grows)
  show "if on_second ?ds then secondAxis (two_axes deviation datasets) else firstAxis (two_axes deviation datasets)"
    using hit(2) g unfolding all by (auto simp: axes_grow_def)
qed

section \<open>Stacks contain their sums\<close>

text \<open>The sum of the values of one sign of a stack.\<close>

definition positives :: "jsval list \<Rightarrow> real list" where
  "positives vs = map (\<lambda>v. case to_number v of Fin x \<Rightarrow> x | _ \<Rightarrow> 0) (filter (\<lambda>v. v \<noteq> Undef \<and> to_number v > 0) vs)"

lemma widen_grows:
  assumes "fin_extent ul"
  shows "grows ul (widen (Fin t) ul)" "inside t t (widen (Fin t) ul)"
  using assms by (auto elim!: fin_extentE simp: grows_def inside_def widen_def)

lemma stack_fold:
  "finite_values vs \<Longrightarrow> fin_extent ul \<Longrightarrow>
     \<exists>tn' ul'. fold stack_value vs (Fin tp, Fin tn, ul) = (Fin (tp + sum_list (positives vs)), Fin tn', ul') \<and> grows ul ul'
       \<and> (positives vs \<noteq> [] \<longrightarrow> inside (tp + sum_list (positives vs)) (tp + sum_list (positives vs)) ul')"
proof (induction vs arbitrary: tp tn ul)
  case Nil
  then show ?case by (simp add: positives_def grows_refl)
next
  case (Cons v vs)
  have fv: "finite_values vs" using Cons.prems(1) by (simp add: finite_values_def)
  show ?case
  proof (cases "v = Undef")
    case True
    with Cons.IH [OF fv Cons.prems(2)] show ?thesis by (simp add: stack_value_def positives_def)
  next
    case False
    then obtain x where x: "to_number v = Fin x"
      using Cons.prems(1) by (auto simp: finite_values_def elim!: is_finE)
    show ?thesis
    proof (cases "x > 0")
      case True
      let ?ul = "widen (Fin (tp + x)) ul"
      have g: "grows ul ?ul" and i: "inside (tp + x) (tp + x) ?ul" using widen_grows [OF Cons.prems(2)] by auto
      from Cons.IH [OF fv grows_fin [OF g], of "tp + x" tn] obtain tn' ul' where
        h: "fold stack_value vs (Fin (tp + x), Fin tn, ?ul) = (Fin (tp + x + sum_list (positives vs)), Fin tn', ul')" "grows ?ul ul'"
          "positives vs \<noteq> [] \<longrightarrow> inside (tp + x + sum_list (positives vs)) (tp + x + sum_list (positives vs)) ul'" by blast
      have "inside (tp + x) (tp + x) ul'" by (rule inside_grows [OF i h(2)])
      moreover have "stack_value v (Fin tp, Fin tn, ul) = (Fin (tp + x), Fin tn, ?ul)" "positives (v # vs) = x # positives vs"
        using x True False by (simp_all add: stack_value_def positives_def)
      ultimately show ?thesis
        using h grows_trans [OF g h(2)] unfolding fold_simps by (cases "positives vs = []") (simp_all add: add.assoc)
    next
      case nonpos: False
      let ?ul = "widen (Fin (tn + x)) ul"
      have g: "grows ul ?ul" using widen_grows [OF Cons.prems(2)] by auto
      have "stack_value v (Fin tp, Fin tn, ul) = (Fin tp, Fin (tn + x), ?ul)" "positives (v # vs) = positives vs"
        using x nonpos False by (simp_all add: stack_value_def positives_def)
      with Cons.IH [OF fv grows_fin [OF g], of tp "tn + x"] grows_trans [OF g] show ?thesis
        unfolding fold_simps by metis
    qed
  qed
qed

lemma stack_at_grows:
  assumes "fin_extent ul" "finite_values (stack_values datasets i j)"
  shows "grows ul (stack_at datasets i j ul)"
    and "positives (stack_values datasets i j) \<noteq> []
      \<Longrightarrow> inside (sum_list (positives (stack_values datasets i j))) (sum_list (positives (stack_values datasets i j))) (stack_at datasets i j ul)"
proof -
  obtain tn' ul' where f: "fold stack_value (stack_values datasets i j) (Fin 0, Fin 0, ul)
      = (Fin (0 + sum_list (positives (stack_values datasets i j))), Fin tn', ul')" "grows ul ul'"
    "positives (stack_values datasets i j) \<noteq> []
       \<longrightarrow> inside (0 + sum_list (positives (stack_values datasets i j))) (0 + sum_list (positives (stack_values datasets i j))) ul'"
    using stack_fold [OF assms(2,1), of 0 0] by blast
  then have e: "stack_at datasets i j ul = ul'" by (simp add: stack_at_def)
  show "grows ul (stack_at datasets i j ul)" using f(2) by (simp add: e)
  show "inside (sum_list (positives (stack_values datasets i j))) (sum_list (positives (stack_values datasets i j))) (stack_at datasets i j ul)"
    if "positives (stack_values datasets i j) \<noteq> []"
    using that f(3) unfolding e by simp
qed

lemma finite_stack:
  assumes "\<And>ds. ds \<in> set datasets \<Longrightarrow> finite_values (ds_data ds)" "i < length datasets"
  shows "finite_values (stack_values datasets i j)"
proof -
  have "aget (ds_data ds) j \<in> set (ds_data ds) \<or> aget (ds_data ds) j = Undef" for ds
    by (simp add: aget_def)
  moreover have "k < length datasets" if "k \<in> set (stack_order i)" for k
    using that assms(2) by (auto simp: stack_order_def)
  ultimately show ?thesis
    using assms(1) nth_mem by (fastforce simp: finite_values_def stack_values_def)
qed

lemma stack_extent_inside:
  assumes "\<And>ds. ds \<in> set datasets \<Longrightarrow> finite_values (ds_data ds)" "i < length datasets"
    "j < length (ds_data (datasets ! i))" "positives (stack_values datasets i j) \<noteq> []"
  shows "inside (sum_list (positives (stack_values datasets i j))) (sum_list (positives (stack_values datasets i j)))
           (stack_extent datasets)"
  unfolding stack_extent_def
proof (rule fold_hits [OF _ fin_no_extent])
  show "i \<in> set [0..<length datasets]" using assms(2) by simp
  show "grows ul (fold (stack_at datasets k) [0..<length (ds_data (datasets ! k))] ul)"
    if "k \<in> set [0..<length datasets]" "fin_extent ul" for k ul
    using that finite_stack [OF assms(1)] by (intro fold_grows stack_at_grows) auto
  show "inside (sum_list (positives (stack_values datasets i j))) (sum_list (positives (stack_values datasets i j)))
      (fold (stack_at datasets i) [0..<length (ds_data (datasets ! i))] ul)" if "fin_extent ul" for ul
    using that assms finite_stack [OF assms(1)] by (intro fold_hits [where y = j] stack_at_grows) auto
qed

section \<open>Properties\<close>

text \<open>C19: The bounds that a line chart computes for an axis contain every value of the data sets on that
  axis, its deviation included (up to the amount \<open>z\<close> that counts as zero), and the upper bound is
  greater than the lower one, so the scale is never empty.\<close>

theorem line_bounds_contain_data:
  assumes "free_ends config z" "\<And>ds. ds \<in> set datasets \<Longrightarrow> finite_values (ds_data ds)"
    and "\<And>i. \<exists>d. deviation i = Fin d \<and> 0 \<le> d"
    and "i < length datasets" "v \<in> set (ds_data (datasets ! i))" "v \<noteq> Undef" "to_number v = Fin x" "deviation i = Fin d"
    and "vb = getValueBounds_Line call deviation config chartTextScale availableHeight datasets"
  shows "\<exists>u l. (if on_second (datasets ! i) then (vb_max2 vb, vb_min2 vb) else (vb_max vb, vb_min vb)) = (Fin u, Fin l)
           \<and> l < u \<and> l \<le> x - d + z \<and> x + d \<le> u"
proof -
  let ?a = "two_axes deviation datasets"
  have dev: "\<And>i. \<exists>d. deviation i = Fin d" and d: "0 \<le> d" using assms(3) assms(3) [of i] assms(8) by auto
  note hit = two_axes_hit [where deviation = deviation, OF assms(2) dev assms(4-8)]
  from hit(1) d have ends: "\<exists>u l. axis_bounds call config minKey maxKey (axis_of (datasets ! i) ?a) = (Fin u, Fin l)
      \<and> l < u \<and> l \<le> x - d + z \<and> x + d \<le> u"
    if "minKey \<in> {''graphMin'', ''graphMin2''}" "maxKey \<in> {''graphMax'', ''graphMax2''}" for minKey maxKey
    using that by (intro axis_bounds_free [OF assms(1)]) auto
  show ?thesis
  proof (cases "on_second (datasets ! i)")
    case True
    with hit(2) ends [of "''graphMin2''" "''graphMax2''"] show ?thesis
      by (auto simp: assms(9) getValueBounds_Line_def Let_def axis_of_def)
  next
    case False
    with hit(2) ends [of "''graphMin''" "''graphMax''"] show ?thesis
      by (auto simp: assms(9) getValueBounds_Line_def Let_def axis_of_def)
  qed
qed

definition sample_config :: obj where
  "sample_config = [(''zeroValue'', NumF (1 / 1000)), (''scaleFontSize'', NumF 12)]"

definition sample_data :: "dataset list" where
  "sample_data = [\<lparr> ds_data = [NumF 3, Undef, NumF 40], ds_axis = Undef \<rparr>, \<lparr> ds_data = [NumF 7, NumF 2], ds_axis = NumF 2 \<rparr>]"

theorem line_bounds_contain_data_witness:
  "\<exists>u l. (if on_second (sample_data ! 0) then (vb_max2 (getValueBounds_Line (\<lambda>_. Undef) (\<lambda>_. Fin 0) sample_config (Fin 1) (Fin 300) sample_data),
            vb_min2 (getValueBounds_Line (\<lambda>_. Undef) (\<lambda>_. Fin 0) sample_config (Fin 1) (Fin 300) sample_data))
          else (vb_max (getValueBounds_Line (\<lambda>_. Undef) (\<lambda>_. Fin 0) sample_config (Fin 1) (Fin 300) sample_data),
            vb_min (getValueBounds_Line (\<lambda>_. Undef) (\<lambda>_. Fin 0) sample_config (Fin 1) (Fin 300) sample_data))) = (Fin u, Fin l)
     \<and> l < u \<and> l \<le> 40 - 0 + 1 / 1000 \<and> 40 + 0 \<le> u"
  by (rule line_bounds_contain_data [where v = "NumF 40" and deviation = "\<lambda>_. Fin 0", OF _ _ _ _ _ _ _ _ refl])
    (auto simp: sample_config_def sample_data_def free_ends_def finite_values_def)

text \<open>Bars use the same bounds as lines.\<close>

lemma bar_bounds_equal_line_bounds: "getValueBounds_Bar = getValueBounds_Line"
  by (intro ext) (simp add: getValueBounds_Bar_def getValueBounds_Line_def)



lemma half_floor: "0 < q \<Longrightarrow> 2 * \<lfloor>q * (1 / 2)\<rfloor> \<le> \<lfloor>q * (100 / 66)\<rfloor> + 1" for q :: real
  by linarith

text \<open>For a positive height of the chart and of a label, the numbers of steps a chart asks for are whole
  numbers with twice the minimum at most one above the maximum: the step loop is always given
  numbers for which it ends.\<close>

theorem step_numbers_compatible:
  assumes "0 < h" "0 < l"
  shows "\<exists>mn mx. min_steps (Fin h) (Fin l) = Fin (of_int mn) \<and> max_steps (Fin h) (Fin l) = Fin (of_int mx)
           \<and> 0 \<le> mn \<and> 2 * mn \<le> mx + 1 \<and> mn \<le> mx"
proof -
  let ?q = "h / l"
  have q: "0 < ?q" using assms by simp
  have e: "min_steps (Fin h) (Fin l) = Fin (of_int \<lfloor>?q * (1 / 2)\<rfloor>)" "max_steps (Fin h) (Fin l) = Fin (of_int \<lfloor>?q * (100 / 66)\<rfloor>)"
    using assms by (simp_all add: min_steps_def max_steps_def)
  have "\<lfloor>?q * (1 / 2)\<rfloor> \<le> \<lfloor>?q * (100 / 66)\<rfloor>" using q by (intro floor_mono) simp
  moreover have "0 \<le> \<lfloor>?q * (1 / 2)\<rfloor>" using q by simp
  moreover have "2 * \<lfloor>?q * (1 / 2)\<rfloor> \<le> \<lfloor>?q * (100 / 66)\<rfloor> + 1"
    using q by (rule half_floor)
  ultimately show ?thesis
    unfolding e by (intro exI [of _ "\<lfloor>?q * (1 / 2)\<rfloor>"] exI [of _ "\<lfloor>?q * (100 / 66)\<rfloor>"] conjI refl)
qed

theorem step_numbers_compatible_witness:
  "\<exists>mn mx. min_steps (Fin 300) (Fin 12) = Fin (of_int mn) \<and> max_steps (Fin 300) (Fin 12) = Fin (of_int mx)
     \<and> 0 \<le> mn \<and> 2 * mn \<le> mx + 1 \<and> mn \<le> mx"
  by (rule step_numbers_compatible) simp_all

text \<open>Polar area and radar charts compute their numbers of steps before the heights have values, so the
  numbers are not numbers and the loop that adapts the step never changes it.\<close>

theorem polar_radar_steps_unknown:
  "maxSteps (getValueBounds_PolarArea call config values) = NaN \<and> minSteps (getValueBounds_PolarArea call config values) = NaN
   \<and> maxSteps (getValueBounds_Radar call config datasets) = NaN \<and> minSteps (getValueBounds_Radar call config datasets) = NaN
   \<and> fit_steps iv NaN NaN graphRange stepValue n = Some (stepValue, n)"
  by (simp add: getValueBounds_PolarArea_def getValueBounds_Radar_def one_axis_def max_steps_def min_steps_def
      unset_number_def fit_steps.simps)

end
