(* ===== verification/ChartLayout.thy ===== *)
theory ChartLayout
  imports StatPositions
begin

text \<open>
  \<open>setMeasures\<close>: how much of the canvas the texts around a chart take, where they stand, and what is left for
  the chart.  The widths of texts come from the canvas context (\<open>measureText\<close>), an argument here; options that
  are sizes are numbers.  The function first measures the labels of the axes, then the texts on the four
  sides, then the legend, which can push the others aside, and last the labels below the chart.
\<close>

record layout_env =
  ly_scales :: ctx_scales
  ly_text :: jsnum
  ly_numstr :: "jsnum \<Rightarrow> string"
  ly_perso :: perso
  ly_measure :: "string \<Rightarrow> string \<Rightarrow> jsnum"

text \<open>\<open>Math.ceil(ctx.chartSpaceScale*config[key])\<close> and its two companions.\<close>

definition space_px :: "layout_env \<Rightarrow> obj \<Rightarrow> string \<Rightarrow> jsnum" where
  "space_px env config key = scaled (sc_space (ly_scales env)) config key"

definition line_px :: "layout_env \<Rightarrow> obj \<Rightarrow> string \<Rightarrow> jsnum" where
  "line_px env config key = scaled (sc_line (ly_scales env)) config key"

definition text_px :: "layout_env \<Rightarrow> obj \<Rightarrow> string \<Rightarrow> jsnum" where
  "text_px env config key = scaled (ly_text env) config key"

section \<open>Texts\<close>

definition text_lines :: "string \<Rightarrow> string list" where
  "text_lines s = str_split (CHR 0x0A) s"

definition measureTextMultiLine :: "(string \<Rightarrow> jsnum) \<Rightarrow> string \<Rightarrow> jsnum \<Rightarrow> jsnum \<times> jsnum" where
  "measureTextMultiLine width_of s lineHeight =
     (fold (\<lambda>l w. let lg = width_of l in if lg > w then lg else w) (text_lines s) 0, Fin (of_nat (length (text_lines s))) * lineHeight)"

definition font_of :: "layout_env \<Rightarrow> obj \<Rightarrow> string \<Rightarrow> string" where
  "font_of env config key =
     to_string (ly_numstr env) (oget config (key @ ''FontStyle'')) @ '' '' @ ly_numstr env (text_px env config (key @ ''FontSize'')) @ ''px ''
     @ to_string (ly_numstr env) (oget config (key @ ''FontFamily''))"

text \<open>\<open>text.trim() != ""\<close> raises when the option is not a text.\<close>

definition text_given :: "jsval \<Rightarrow> js_error + bool" where
  "text_given v = (case v of Str s \<Rightarrow> Inr (str_trim s \<noteq> []) | _ \<Rightarrow> Inl TypeError)"

definition text_shown :: "jsval \<Rightarrow> bool" where
  "text_shown v = (case v of Str s \<Rightarrow> str_trim s \<noteq> [] | _ \<Rightarrow> False)"

section \<open>The labels of the axes\<close>

record label_sizes =
  ls_widestX :: jsnum
  ls_highestX :: jsnum
  ls_widestY :: jsnum
  ls_highestY :: jsnum
  ls_widestY2 :: jsnum
  ls_highestY2 :: jsnum

definition widest_label :: "layout_env \<Rightarrow> obj \<Rightarrow> string \<Rightarrow> jsval list \<Rightarrow> jsnum \<times> jsnum" where
  "widest_label env config fmt vs =
     fold (\<lambda>v (w, h).
       let (tw, th) = measureTextMultiLine (ly_measure env (font_of env config ''scale''))
                        (to_string (ly_numstr env) (fmtChartJS (ly_numstr env) (ly_perso env) config v (oget config fmt)))
                        (text_px env config ''scaleFontSize'')
       in (if tw > w then tw else w, if th > h then th else h)) vs (1, 1)"

definition at_least :: "jsnum \<Rightarrow> jsnum \<Rightarrow> jsnum" where
  "at_least w m = (if w < m then m else w)"

text \<open>The elements \<open>ylabels[i]\<close>: the argument is an array, or one of the strings \<open>"nihil"\<close> and \<open>"none"\<close>.\<close>

definition label_list :: "jsval \<Rightarrow> jsval list" where
  "label_list v = (case v of Arr vs \<Rightarrow> vs | Str s \<Rightarrow> map (\<lambda>c. Str [c]) s | _ \<Rightarrow> [])"

definition shown_labels :: "jsval \<Rightarrow> jsval list" where
  "shown_labels v = rev (filter text_shown (label_list v))"

definition label_sizes_of :: "layout_env \<Rightarrow> obj \<Rightarrow> jsval list \<Rightarrow> jsval \<Rightarrow> jsval \<Rightarrow> bool \<Rightarrow> label_sizes" where
  "label_sizes_of env config labels ylabels ylabels2 drawAxis =
     (if drawAxis then
        (let minX = text_px env config ''xScaleLabelsMinimumWidth''; minY = text_px env config ''yScaleLabelsMinimumWidth'';
             (wx, hx) = widest_label env config ''fmtXLabel'' labels;
             (wy, hy) = (if \<not> loose_eq ylabels Null \<and> \<not> loose_eq ylabels (Str ''nihil'')
                         then widest_label env config ''fmtYLabel'' (shown_labels ylabels) else (1, 1));
             wy' = at_least wy minY;
             (wy2, hy2) = (if \<not> loose_eq ylabels2 Null \<and> to_bool (oget config ''yAxisRight'')
                           then widest_label env config ''fmtYLabel2'' (shown_labels ylabels2) else (wy', 1))
         in \<lparr> ls_widestX = at_least wx minX, ls_highestX = hx, ls_widestY = wy', ls_highestY = hy, ls_widestY2 = at_least wy2 minY, ls_highestY2 = hy2 \<rparr>)
      else \<lparr> ls_widestX = 1, ls_highestX = 1, ls_widestY = 0, ls_highestY = 1, ls_widestY2 = 0, ls_highestY2 = 1 \<rparr>)"

section \<open>The texts on the four sides\<close>

text \<open>The height of a text with the space before and after it; \<open>|| 1\<close> never applies, a text has at least one line.\<close>

definition text_height :: "layout_env \<Rightarrow> obj \<Rightarrow> string \<Rightarrow> string \<Rightarrow> string \<Rightarrow> string \<Rightarrow> jsnum" where
  "text_height env config key font before after =
     text_px env config font * Fin (of_nat (case oget config key of Str s \<Rightarrow> length (text_lines s) | _ \<Rightarrow> 1))
     + space_px env config before + space_px env config after"

text \<open>What a frame around a text adds on each side: the space inside and the line.  The options that are tested
  for the two are not always those of the text itself.\<close>

definition frame_steps :: "layout_env \<Rightarrow> obj \<Rightarrow> string \<Rightarrow> string \<Rightarrow> string \<Rightarrow> jsnum list" where
  "frame_steps env config key inner outer =
     (if \<not> loose_eq (oget config (key @ ''BackgroundColor'')) (Str ''none'') \<or> to_bool (oget config inner)
      then [space_px env config (key @ ''BordersYSpace'')] else [])
     @ (if to_bool (oget config outer) then [line_px env config (key @ ''BordersWidth'')] else [])"

definition widened :: "jsnum list \<Rightarrow> jsnum \<Rightarrow> jsnum" where
  "widened steps x = fold (\<lambda>s x. x + 2 * s) steps x"

definition moved_on :: "jsnum list \<Rightarrow> jsnum \<Rightarrow> jsnum" where
  "moved_on steps x = fold (\<lambda>s x. x + s) steps x"

definition moved_back :: "jsnum list \<Rightarrow> jsnum \<Rightarrow> jsnum" where
  "moved_back steps x = fold (\<lambda>s x. x - s) steps x"

text \<open>The height of a text and the position of its last line.\<close>

record text_band =
  tb_height :: jsnum
  tb_pos :: jsnum

abbreviation no_band :: text_band where
  "no_band \<equiv> \<lparr> tb_height = 0, tb_pos = 0 \<rparr>"

text \<open>A title below \<open>upper\<close>.\<close>

definition title_band :: "layout_env \<Rightarrow> obj \<Rightarrow> string \<Rightarrow> jsnum \<Rightarrow> js_error + text_band" where
  "title_band env config key upper =
     and_then (text_given (oget config key)) (\<lambda>g.
       (let h = text_height env config key (key @ ''FontSize'') (key @ ''SpaceBefore'') (key @ ''SpaceAfter'');
            steps = frame_steps env config key (key @ ''Borders'') (key @ ''Borders'')
        in Inr (if g then \<lparr> tb_height = widened steps h, tb_pos = moved_on steps (upper + h - space_px env config (key @ ''SpaceAfter'')) \<rparr>
                else no_band)))"

text \<open>The unit of the y axis: the frame is added also when there is no unit.\<close>

definition unit_band :: "layout_env \<Rightarrow> obj \<Rightarrow> bool \<Rightarrow> jsnum \<Rightarrow> js_error + text_band" where
  "unit_band env config drawAxis upper =
     (if drawAxis then
        and_then (text_given (oget config ''yAxisUnit'')) (\<lambda>g.
          (let h = text_height env config ''yAxisUnit'' ''yAxisUnitFontSize'' ''yAxisUnitSpaceBefore'' ''yAxisUnitSpaceAfter'';
               steps = frame_steps env config ''yAxisUnit'' ''yAxisUnitBorders'' ''yAxisUnitBorders'';
               (h', p) = (if g then (h, upper + h - space_px env config ''yAxisUnitSpaceAfter'') else (0, 0))
           in Inr \<lparr> tb_height = widened steps h', tb_pos = moved_on steps p \<rparr>))
      else Inr no_band)"

text \<open>A text below the chart, above \<open>bottom\<close>.\<close>

definition lower_band :: "layout_env \<Rightarrow> obj \<Rightarrow> string \<Rightarrow> string \<Rightarrow> jsnum \<Rightarrow> js_error + text_band" where
  "lower_band env config key font bottom =
     (if oget config key = Undef then Inr no_band
      else and_then (text_given (oget config key)) (\<lambda>g.
        (let h = text_height env config key font (key @ ''SpaceBefore'') (key @ ''SpaceAfter'');
             steps = frame_steps env config key ''footNoteBorders'' ''footNoteBorders''
         in Inr (if g then \<lparr> tb_height = widened steps h, tb_pos = moved_back steps (bottom - space_px env config (key @ ''SpaceAfter'')) \<rparr>
                 else no_band))))"

text \<open>The label beside the y axis; its frame follows the option for the title.\<close>

record side_label =
  sl_width :: jsnum
  sl_left :: jsnum
  sl_right :: jsnum

definition y_axis_label :: "layout_env \<Rightarrow> obj \<Rightarrow> jsnum \<Rightarrow> jsnum \<Rightarrow> js_error + side_label" where
  "y_axis_label env config width borderWidth =
     (if oget config ''yAxisLabel'' = Undef then Inr \<lparr> sl_width = 0, sl_left = 0, sl_right = 0 \<rparr>
      else and_then (text_given (oget config ''yAxisLabel'')) (\<lambda>g.
        (let font = text_px env config ''yAxisFontSize''; sl = space_px env config ''yAxisLabelSpaceLeft'';
             steps = frame_steps env config ''yAxisLabel'' ''yAxisLabelBorders'' ''graphTitleBorders'';
             (w, l, r) = (if g
                          then (text_height env config ''yAxisLabel'' ''yAxisFontSize'' ''yAxisLabelSpaceLeft'' ''yAxisLabelSpaceRight'',
                                borderWidth + space_px env config ''spaceLeft'' + sl + font,
                                width - borderWidth - space_px env config ''spaceRight'' - sl - font)
                          else (0, 0, 0))
         in Inr \<lparr> sl_width = widened steps w, sl_left = moved_on steps l, sl_right = moved_back steps r \<rparr>)))"

definition side_size :: "layout_env \<Rightarrow> obj \<Rightarrow> bool \<Rightarrow> string \<Rightarrow> string \<Rightarrow> jsnum \<Rightarrow> jsnum \<Rightarrow> jsnum \<Rightarrow> jsnum" where
  "side_size env config drawAxis shown space borderWidth labelWidth widest =
     (let base = borderWidth + space_px env config space
      in if drawAxis \<and> to_bool (oget config shown)
         then base + labelWidth + widest + space_px env config ''yAxisSpaceLeft'' + space_px env config ''yAxisSpaceRight'' else base)"

record text_layout =
  tl_border :: jsnum
  tl_left :: jsnum
  tl_right :: jsnum
  tl_top :: jsnum
  tl_bottom :: jsnum
  tl_title :: text_band
  tl_subTitle :: text_band
  tl_unit :: text_band
  tl_footNote :: text_band
  tl_xAxisLabel :: text_band
  tl_yAxisLabel :: side_label

definition layout_texts :: "layout_env \<Rightarrow> obj \<Rightarrow> jsnum \<Rightarrow> jsnum \<Rightarrow> bool \<Rightarrow> bool \<Rightarrow> label_sizes \<Rightarrow> js_error + text_layout" where
  "layout_texts env config height width reverseAxis drawAxis ls =
     (let borderWidth = (if to_bool (oget config ''canvasBorders'') then line_px env config ''canvasBordersWidth'' else 0);
          upper = borderWidth + space_px env config ''spaceTop''; low = space_px env config ''spaceBottom''
      in and_then (if drawAxis then y_axis_label env config width borderWidth else Inr \<lparr> sl_width = 0, sl_left = 0, sl_right = 0 \<rparr>) (\<lambda>yl.
         and_then (title_band env config ''graphTitle'' upper) (\<lambda>title.
         and_then (title_band env config ''graphSubTitle'' (upper + tb_height title)) (\<lambda>sub.
         and_then (unit_band env config drawAxis (upper + tb_height title + tb_height sub)) (\<lambda>unit.
         and_then (lower_band env config ''footNote'' ''footNoteFontSize'' (height - low - borderWidth)) (\<lambda>foot.
         and_then (if drawAxis then lower_band env config ''xAxisLabel'' ''xAxisFontSize'' (height - borderWidth - low - tb_height foot)
                   else Inr no_band) (\<lambda>xl.
           Inr \<lparr> tl_border = borderWidth,
             tl_left = side_size env config drawAxis ''yAxisLeft'' ''spaceLeft'' borderWidth (sl_width yl) (if reverseAxis then ls_widestX ls else ls_widestY ls),
             tl_right = side_size env config drawAxis ''yAxisRight'' ''spaceRight'' borderWidth (sl_width yl) (if reverseAxis then ls_widestX ls else ls_widestY2 ls),
             tl_top = upper + tb_height title + tb_height sub + tb_height unit + text_px env config ''graphSpaceBefore'',
             tl_bottom = borderWidth + low + tb_height foot + tb_height xl + text_px env config ''graphSpaceAfter'',
             tl_title = title, tl_subTitle = sub, tl_unit = unit, tl_footNote = foot, tl_xAxisLabel = xl, tl_yAxisLabel = yl \<rparr>)))))))"

section \<open>The legend\<close>

record legend_box =
  lb_n :: nat
  lb_widest :: jsnum
  lb_lines :: jsnum
  lb_cols :: jsnum
  lb_space :: jsnum
  lb_x :: jsnum
  lb_y :: jsnum
  lb_borderX :: jsnum
  lb_borderY :: jsnum
  lb_borderWidth :: jsnum
  lb_borderHeight :: jsnum

text \<open>The number of texts of the legend, and the width of the widest; \<open>items\<close> are the data sets or the segments.\<close>

definition legend_texts :: "layout_env \<Rightarrow> obj \<Rightarrow> obj list \<Rightarrow> nat \<times> jsnum" where
  "legend_texts env config items =
     (if oget config ''legend'' \<noteq> Undef \<and> loose_eq (oget config ''legend'') (Bool True) then
        (let texts = filter text_shown (map (\<lambda>d. oget d ''title'') items)
         in (length texts,
             fold (\<lambda>v w. let t = ly_measure env (font_of env config ''legend'')
                              (to_string (ly_numstr env) (fmtChartJS (ly_numstr env) (ly_perso env) config v (oget config ''fmtLegend'')))
                         in if t > w then t else w) (rev texts) 0))
      else (0, 0))"

definition legend_drawn :: "obj \<Rightarrow> nat \<Rightarrow> bool" where
  "legend_drawn config n = (n > 1 \<or> n = 1 \<and> to_bool (oget config ''showSingleLegend''))"

definition legend_bordered :: "obj \<Rightarrow> bool" where
  "legend_bordered config = loose_eq (oget config ''legendBorders'') (Bool True)"

abbreviation pos_is :: "obj \<Rightarrow> string \<Rightarrow> real \<Rightarrow> bool" where
  "pos_is config key k \<equiv> loose_eq (oget config key) (NumF k)"

text \<open>The space for the legend: between the sides of the chart or over the whole width.  The space left of the
  texts is scaled twice, and the spaces inside the borders are added instead of taken off.\<close>

definition legend_width :: "layout_env \<Rightarrow> obj \<Rightarrow> jsnum \<Rightarrow> text_layout \<Rightarrow> jsnum" where
  "legend_width env config width lay =
     (let sides = math_ceil (sc_space (ly_scales env) * space_px env config ''legendSpaceLeftText'');
          right = space_px env config ''legendSpaceRightText'';
          avail = (if pos_is config ''legendPosY'' 1 \<or> pos_is config ''legendPosY'' 2 \<or> pos_is config ''legendPosY'' 3
                   then (width - tl_left lay - tl_right lay) - sides - right
                   else width - space_px env config ''spaceLeft'' - space_px env config ''spaceRight'' - 2 * tl_border lay - sides - right)
      in if legend_bordered config
         then avail - (2 * line_px env config ''legendBordersWidth'' - space_px env config ''legendBordersSpaceLeft'' - space_px env config ''legendBordersSpaceRight'')
         else avail)"

text \<open>The lines and columns of the texts.\<close>

definition legend_grid :: "layout_env \<Rightarrow> obj \<Rightarrow> nat \<Rightarrow> jsnum \<Rightarrow> jsnum \<Rightarrow> jsnum \<times> jsnum" where
  "legend_grid env config n widest avail =
     (let between = space_px env config ''legendSpaceBetweenTextHorizontal'';
          maxLegendOnLine = Min_array [math_floor ((avail + between) / (widest + between)), to_number (oget config ''maxLegendCols'')];
          nbLegendLines = math_ceil (Fin (of_nat n) / maxLegendOnLine)
      in (nbLegendLines, math_ceil (Fin (of_nat n) / nbLegendLines)))"

definition legend_height :: "layout_env \<Rightarrow> obj \<Rightarrow> jsnum \<Rightarrow> jsnum" where
  "legend_height env config lines =
     lines * (text_px env config ''legendFontSize'' + space_px env config ''legendSpaceBetweenTextVertical'')
     - space_px env config ''legendSpaceBetweenTextVertical'' + space_px env config ''legendSpaceBeforeText'' + space_px env config ''legendSpaceAfterText''"

text \<open>The height of the legend with its borders, and the size and left end of the borders.\<close>

definition legend_with_borders :: "layout_env \<Rightarrow> obj \<Rightarrow> legend_box \<Rightarrow> legend_box" where
  "legend_with_borders env config lb =
     (let lw = line_px env config ''legendBordersWidth'';
          before = space_px env config ''legendBordersSpaceBefore''; after = space_px env config ''legendBordersSpaceAfter'';
          left = space_px env config ''legendSpaceLeftText''; right = space_px env config ''legendSpaceRightText'';
          between = space_px env config ''legendSpaceBetweenTextHorizontal'';
          space = lb_space lb + (2 * lw + before + after)
      in lb\<lparr> lb_space := space, lb_borderX := math_floor (lb_x lb - left - lw / 2),
             lb_borderHeight := math_ceil (space - lw) - before - after,
             lb_borderWidth := math_ceil (lb_cols lb * (lb_widest lb + between)) - between + lw + right + left \<rparr>)"

text \<open>\<open>switch (config.legendPosY)\<close>; \<open>lb\<close> has the number of texts, the grid, the height and the left end of the texts.\<close>

definition legend_vertical :: "layout_env \<Rightarrow> obj \<Rightarrow> jsnum \<Rightarrow> legend_box \<Rightarrow> text_layout \<Rightarrow> legend_box \<times> text_layout" where
  "legend_vertical env config height lb lay =
     (let borders = legend_bordered config; posY = oget config ''legendPosY'';
          lw = line_px env config ''legendBordersWidth'';
          before = space_px env config ''legendBordersSpaceBefore''; after = space_px env config ''legendBordersSpaceAfter'';
          beforeText = space_px env config ''legendSpaceBeforeText''; font = text_px env config ''legendFontSize'';
          inside = (\<lambda>y shift. if borders then (let y' = shift y in legend_with_borders env config (lb\<lparr> lb_y := y', lb_borderY := y' - beforeText - font - lw / 2 \<rparr>))
                              else lb\<lparr> lb_y := y \<rparr>)
      in if posY = NumF 0 then
           (let lb1 = (if borders
                       then (let b = tl_top lay + before + lw / 2
                             in legend_with_borders env config (lb\<lparr> lb_borderY := b, lb_y := b + lw / 2 + beforeText + font \<rparr>))
                       else lb\<lparr> lb_y := tl_top lay + before + lw / 2 \<rparr>);
                unit = tb_height (tl_unit lay);
                lay1 = lay\<lparr> tl_top := tl_top lay + lb_space lb1 \<rparr>
            in if unit > 0
               then (lb1\<lparr> lb_borderY := (if borders then lb_borderY lb1 - unit else lb_borderY lb1), lb_y := lb_y lb1 - unit \<rparr>,
                     lay1\<lparr> tl_unit := (tl_unit lay)\<lparr> tb_pos := tb_pos (tl_unit lay) + lb_space lb1 \<rparr> \<rparr>)
               else (lb1, lay1))
         else if posY = NumF 1 then (inside (tl_top lay + beforeText + font) (\<lambda>y. y + (before + lw)), lay)
         else if posY = NumF 2
         then (inside (tl_top lay + (height - tl_top lay - tl_bottom lay - lb_space lb) / 2 + beforeText + font) (\<lambda>y. y + (before - after)), lay)
         else if posY = NumF (- 2) then (inside ((height - lb_space lb) / 2 + beforeText + font) (\<lambda>y. y + (before - after)), lay)
         else if posY = NumF 3
         then (inside (tl_top lay + (height - tl_top lay - tl_bottom lay) - lb_space lb + beforeText + font) (\<lambda>y. y - (after + lw)), lay)
         else
           (let low = height - tl_border lay - space_px env config ''spaceBottom'' - tb_height (tl_footNote lay);
                y = low - lb_space lb + beforeText + font;
                lb1 = (if borders
                       then (let lb' = legend_with_borders env config lb
                             in lb'\<lparr> lb_y := y - (lw + after), lb_borderY := math_floor (low - lb_space lb' + lw / 2 + before) \<rparr>)
                       else lb\<lparr> lb_y := y \<rparr>)
            in (lb1, lay\<lparr> tl_xAxisLabel := (tl_xAxisLabel lay)\<lparr> tb_pos := tb_pos (tl_xAxisLabel lay) - lb_space lb1 \<rparr>,
                         tl_bottom := tl_bottom lay + lb_space lb1 \<rparr>)))"

text \<open>\<open>switch (config.legendPosX)\<close>: a legend at the side of the chart takes its width from the chart.\<close>

definition legend_beside :: "obj \<Rightarrow> bool" where
  "legend_beside config = ((to_number (oget config ''legendPosY'') \<ge> 1 \<and> to_number (oget config ''legendPosY'') \<le> 3) \<or> pos_is config ''legendPosY'' (- 2))"

text \<open>The width a legend beside the chart takes.\<close>

definition full_legend_width :: "layout_env \<Rightarrow> obj \<Rightarrow> legend_box \<Rightarrow> jsnum" where
  "full_legend_width env config lb =
     (let between = space_px env config ''legendSpaceBetweenTextHorizontal''
      in space_px env config ''legendSpaceRightText'' + lb_cols lb * (lb_widest lb + between) - between + space_px env config ''legendSpaceLeftText''
         + (if legend_bordered config
            then 2 * line_px env config ''legendBordersWidth'' + space_px env config ''legendBordersSpaceLeft'' + space_px env config ''legendBordersSpaceRight''
            else 0))"

definition legend_horizontal :: "layout_env \<Rightarrow> obj \<Rightarrow> jsnum \<Rightarrow> legend_box \<Rightarrow> text_layout \<Rightarrow> legend_box \<times> text_layout" where
  "legend_horizontal env config width lb lay =
     (let borders = legend_bordered config; posX = oget config ''legendPosX'';
          lw = line_px env config ''legendBordersWidth'';
          left = space_px env config ''legendSpaceLeftText''; right = space_px env config ''legendSpaceRightText'';
          bordersLeft = space_px env config ''legendBordersSpaceLeft''; bordersRight = space_px env config ''legendBordersSpaceRight'';
          between = space_px env config ''legendSpaceBetweenTextHorizontal'';
          columns = lb_cols lb * (lb_widest lb + between);
          full = full_legend_width env config lb;
          canvas = to_number (oget config ''canvasBorders'') * line_px env config ''canvasBordersWidth'';
          put = (\<lambda>x bx. lb\<lparr> lb_x := x, lb_borderX := (if borders then bx else lb_borderX lb) \<rparr>);
          yl = tl_yAxisLabel lay
      in if posX = NumF 0 then
           (let x = space_px env config ''spaceLeft'' + canvas + left
            in (put (if borders then x + (lw / 2 + bordersLeft) else x) (space_px env config ''spaceLeft'' + canvas + bordersLeft),
                if legend_beside config then lay\<lparr> tl_left := tl_left lay + full, tl_yAxisLabel := yl\<lparr> sl_left := sl_left yl + full \<rparr> \<rparr> else lay))
         else if posX = NumF 1 then
           (let x = tl_left lay + left in (put (if borders then x + (lw / 2 + bordersLeft) else x) x, lay))
         else if posX = NumF 2 then
           (let x = tl_left lay + (width - tl_right lay - tl_left lay) / 2 - (left - right) - (columns - between) / 2;
                x' = (if borders then x - (lw / 2 + bordersRight) else x)
            in (put x' (x' - lw / 2 - left), lay))
         else if posX = NumF 3 then
           (let x = width - tl_right lay - right - columns + between / 2; x' = (if borders then x - (lw / 2 + bordersRight) else x)
            in (put x' (x' - lw / 2 - left), lay))
         else if posX = NumF 4 then
           (let x = width - space_px env config ''spaceRight'' - canvas - right - columns + between / 2;
                x' = (if borders then x - (lw / 2 + bordersRight) else x)
            in (put x' (x' - bordersLeft - lw / 2),
                if legend_beside config then lay\<lparr> tl_right := tl_right lay + full, tl_yAxisLabel := yl\<lparr> sl_right := sl_right yl - full \<rparr> \<rparr> else lay))
         else (lb, lay))"

definition legend_padding :: "layout_env \<Rightarrow> obj \<Rightarrow> legend_box \<Rightarrow> legend_box" where
  "legend_padding env config lb =
     (let px = space_px env config ''legendXPadding''; py = space_px env config ''legendYPadding'';
          lb1 = (if legend_bordered config then lb\<lparr> lb_borderX := lb_borderX lb + px, lb_borderY := lb_borderY lb + py \<rparr> else lb)
      in lb1\<lparr> lb_x := lb_x lb1 + px, lb_y := lb_y lb1 + py \<rparr>)"

definition no_legend :: "nat \<Rightarrow> jsnum \<Rightarrow> legend_box" where
  "no_legend n widest =
     \<lparr> lb_n = n, lb_widest = widest, lb_lines = 0, lb_cols = 0, lb_space = 0, lb_x = 0, lb_y = 0, lb_borderX = 0, lb_borderY = 0,
       lb_borderWidth = 0, lb_borderHeight = 0 \<rparr>"

definition layout_legend :: "layout_env \<Rightarrow> obj \<Rightarrow> jsnum \<Rightarrow> jsnum \<Rightarrow> obj list \<Rightarrow> text_layout \<Rightarrow> legend_box \<times> text_layout" where
  "layout_legend env config height width items lay =
     (let (n, w) = legend_texts env config items
      in if legend_drawn config n then
           (let widest = w + (text_px env config ''legendBlockSize'' + space_px env config ''legendSpaceBetweenBoxAndText'');
                (lines, cols) = legend_grid env config n widest (legend_width env config width lay);
                between = space_px env config ''legendSpaceBetweenTextHorizontal'';
                x = space_px env config ''spaceLeft''
                    + (width - space_px env config ''spaceLeft'' - space_px env config ''spaceRight'' - cols * (widest + between) + between) / 2;
                (lb, lay1) = legend_vertical env config height
                  ((no_legend n widest)\<lparr> lb_lines := lines, lb_cols := cols, lb_space := legend_height env config lines, lb_x := x \<rparr>) lay;
                (lb1, lay2) = legend_horizontal env config width lb lay1
            in (legend_padding env config lb1, lay2))
         else (no_legend n w, lay))"

section \<open>The labels below the chart, and what is left\<close>

text \<open>The angle of the labels; the available width is the one before the legend took its part.\<close>

definition rotate_labels :: "layout_env \<Rightarrow> obj \<Rightarrow> jsnum \<Rightarrow> jsnum \<Rightarrow> nat \<Rightarrow> jsnum" where
  "rotate_labels env config avail widest n =
     (let between = text_px env config ''xAxisSpaceBetweenLabels'';
          angle = (if loose_eq (oget config ''rotateLabels'') (Str ''smart'') then
                     (if (avail + between) / Fin (of_nat n) < widest + between
                      then (if avail / Fin (of_nat n) < math_abs (math_cos (Fin 45 * PI / Fin 180) * widest) then Fin 90 else Fin 45)
                      else 0)
                   else (let r = to_number (oget config ''rotateLabels''); r' = (if r < 0 then 0 else r) in if r' > Fin 180 then Fin 180 else r'))
      in if angle > Fin 90 then angle + Fin 180 else angle)"

record measures =
  m_leftNotUsableSize :: jsnum
  m_rightNotUsableSize :: jsnum
  m_availableWidth :: jsnum
  m_topNotUsableSize :: jsnum
  m_bottomNotUsableHeightWithoutXLabels :: jsnum
  m_bottomNotUsableHeightWithXLabels :: jsnum
  m_availableHeight :: jsnum
  m_labels :: label_sizes
  m_rotateLabels :: jsnum
  m_xLabelPos :: jsnum
  m_clrx :: jsnum
  m_clry :: jsnum
  m_clrwidth :: jsnum
  m_clrheight :: jsnum

text \<open>The extent of a label of the given width and height when it is turned.\<close>

definition turned_height :: "layout_env \<Rightarrow> obj \<Rightarrow> jsnum \<Rightarrow> jsnum \<Rightarrow> jsnum \<Rightarrow> jsnum" where
  "turned_height env config angle widest highest =
     math_abs (math_sin (angle * PI / Fin 180) * widest) + math_abs (math_sin ((angle + Fin 90) * PI / Fin 180) * highest)
     + space_px env config ''xAxisSpaceBefore'' + space_px env config ''xAxisSpaceAfter''"

definition turned_width :: "jsnum \<Rightarrow> jsnum \<Rightarrow> jsnum \<Rightarrow> jsnum" where
  "turned_width angle widest highest =
     math_abs (math_cos (angle * PI / Fin 180) * widest) + math_abs (math_cos ((angle + Fin 90) * PI / Fin 180) * highest)"

definition layout_labels ::
  "layout_env \<Rightarrow> obj \<Rightarrow> jsnum \<Rightarrow> jsnum \<Rightarrow> bool \<Rightarrow> bool \<Rightarrow> nat \<Rightarrow> label_sizes \<Rightarrow> jsnum \<Rightarrow> legend_box \<Rightarrow> text_layout \<Rightarrow> measures" where
  "layout_labels env config height width reverseAxis drawAxis n ls avail lb lay =
     (if drawAxis \<and> (to_bool (oget config ''xAxisBottom'') \<or> to_bool (oget config ''xAxisTop'')) then
        (let widest = (if reverseAxis then ls_widestY ls else ls_widestX ls); highest = (if reverseAxis then ls_highestY ls else ls_highestX ls);
             angle = rotate_labels env config avail widest n;
             labelHeight = turned_height env config angle widest highest;
             labelPos = height - tl_border lay - space_px env config ''spaceBottom'' - tb_height (tl_footNote lay) - tb_height (tl_xAxisLabel lay)
                        - (labelHeight - space_px env config ''xAxisSpaceBefore'') - text_px env config ''graphSpaceAfter'';
             labelWidth = turned_width angle widest highest;
             left = Max_array [tl_left lay, tl_border lay + space_px env config ''spaceLeft'' + labelWidth / 2];
             right = Max_array [tl_right lay, tl_border lay + space_px env config ''spaceRight'' + labelWidth / 2];
             low = tl_bottom lay + labelHeight;
             w = width - left - right; h = height - tl_top lay - low
         in \<lparr> m_leftNotUsableSize = left, m_rightNotUsableSize = right, m_availableWidth = w, m_topNotUsableSize = tl_top lay,
              m_bottomNotUsableHeightWithoutXLabels = tl_bottom lay, m_bottomNotUsableHeightWithXLabels = low, m_availableHeight = h,
              m_labels = ls, m_rotateLabels = angle,
              m_xLabelPos = (if to_bool (oget config ''legend'') \<and> to_bool (oget config ''xAxisBottom'') \<and> pos_is config ''legendPosY'' 4
                             then labelPos - lb_space lb else labelPos),
              m_clrx = left, m_clry = tl_top lay, m_clrwidth = w, m_clrheight = h \<rparr>)
      else
        (let w = width - tl_left lay - tl_right lay; h = height - tl_top lay - tl_bottom lay
         in \<lparr> m_leftNotUsableSize = tl_left lay, m_rightNotUsableSize = tl_right lay, m_availableWidth = w, m_topNotUsableSize = tl_top lay,
              m_bottomNotUsableHeightWithoutXLabels = tl_bottom lay, m_bottomNotUsableHeightWithXLabels = tl_bottom lay, m_availableHeight = h,
              m_labels = ls, m_rotateLabels = 0, m_xLabelPos = 0,
              m_clrx = tl_left lay, m_clry = tl_top lay, m_clrwidth = w, m_clrheight = h \<rparr>))"

text \<open>
  \<open>setMeasures\<close> without the painting: the texts around the chart, the legend, and the measures.  \<open>items\<close> are the
  data sets or the segments, whichever the legend names.  The number of labels is read
  from \<open>ylabels\<close> when the axes are swapped, which raises for null.  The texts are not painted in the first call for a chart
  with axes, which has \<open>"nihil"\<close> for the labels; otherwise a footnote that is not a string raises.
\<close>

definition setMeasures ::
  "layout_env \<Rightarrow> obj \<Rightarrow> jsval list \<Rightarrow> obj list \<Rightarrow> jsnum \<Rightarrow> jsnum \<Rightarrow> jsval \<Rightarrow> jsval \<Rightarrow> bool \<Rightarrow> bool
     \<Rightarrow> js_error + text_layout \<times> legend_box \<times> measures" where
  "setMeasures env config labels items height width ylabels ylabels2 reverseAxis drawAxis =
     (let ls = label_sizes_of env config labels ylabels ylabels2 drawAxis
      in and_then (layout_texts env config height width reverseAxis drawAxis ls) (\<lambda>lay0.
           (let (lb, lay) = layout_legend env config height width items lay0;
                n = length (if reverseAxis then label_list ylabels else labels)
            in if drawAxis \<and> (to_bool (oget config ''xAxisBottom'') \<or> to_bool (oget config ''xAxisTop'')) \<and> reverseAxis \<and> ylabels = Null
               then Inl TypeError
               else and_then (if loose_eq ylabels (Str ''nihil'') then Inr False else text_given (oget config ''footNote'')) (\<lambda>_.
                 Inr (lay, lb, layout_labels env config height width reverseAxis drawAxis n ls (width - tl_left lay0 - tl_right lay0) lb lay)))))"

section \<open>Sizes\<close>

definition is_size :: "jsnum \<Rightarrow> bool" where
  "is_size x = (case x of Fin r \<Rightarrow> 0 \<le> r | _ \<Rightarrow> False)"

lemma is_size_Fin [simp]: "is_size (Fin r) \<longleftrightarrow> 0 \<le> r"
  by (simp add: is_size_def)

lemma is_sizeE: "is_size x \<Longrightarrow> (\<And>r. x = Fin r \<Longrightarrow> 0 \<le> r \<Longrightarrow> P) \<Longrightarrow> P"
  by (cases x) (auto simp: is_size_def)

lemma is_size_consts [simp]: "is_size 0" "is_size 1" "is_size 2"
  by (simp_all add: zero_jsnum_def one_jsnum_def)

lemma is_size_plus: "is_size x \<Longrightarrow> is_size y \<Longrightarrow> is_size (x + y)"
  by (auto elim!: is_sizeE)

lemma is_size_times: "is_size x \<Longrightarrow> is_size y \<Longrightarrow> is_size (x * y)"
  by (auto elim!: is_sizeE)

lemma is_size_ceil: "is_size x \<Longrightarrow> is_size (math_ceil x)"
  by (auto elim!: is_sizeE)

lemma is_size_half: "is_size x \<Longrightarrow> is_size (x / 2)"
  by (auto elim!: is_sizeE)

lemma is_size_fin: "is_size x \<Longrightarrow> is_fin x"
  by (auto elim!: is_sizeE)

lemma is_size_scaled: "is_size s \<Longrightarrow> is_size (to_number (oget config key)) \<Longrightarrow> is_size (scaled s config key)"
  by (simp add: scaled_def is_size_ceil is_size_times)

lemma is_size_widened: "\<forall>s \<in> set steps. is_size s \<Longrightarrow> is_size x \<Longrightarrow> is_size (widened steps x)"
  unfolding widened_def by (induction steps arbitrary: x) (simp_all add: is_size_plus is_size_times)

lemma is_size_fold_max:
  "is_size w \<Longrightarrow> (\<And>x. x \<in> set xs \<Longrightarrow> is_size (f x)) \<Longrightarrow> is_size (fold (\<lambda>x w. let t = f x in if t > w then t else w) xs w)"
  by (induction xs arbitrary: w) (simp_all add: Let_def)

text \<open>A context that measures texts.\<close>

definition measuring :: "layout_env \<Rightarrow> bool" where
  "measuring env =
     (is_size (sc_space (ly_scales env)) \<and> is_size (sc_line (ly_scales env)) \<and> is_size (ly_text env)
      \<and> (\<forall>font s. is_size (ly_measure env font s)))"

lemma is_size_measured:
  assumes "measuring env" "is_size h" "measureTextMultiLine (ly_measure env font) s h = (w, h')"
  shows "is_size w" "is_size h'"
proof -
  have "is_size (fold (\<lambda>l w. let lg = ly_measure env font l in if lg > w then lg else w) (text_lines s) 0)"
    by (rule is_size_fold_max) (use assms(1) in \<open>simp_all add: measuring_def\<close>)
  moreover have "is_size (Fin (of_nat (length (text_lines s))) * h)" using assms(2) by (simp add: is_size_times)
  ultimately show "is_size w" "is_size h'" using assms(3) by (auto simp: measureTextMultiLine_def)
qed

section \<open>The options the layout reads\<close>

text \<open>The options that are sizes, and those only read for a chart with axes.\<close>

definition size_options :: "string list" where
  "size_options =
     [''spaceTop'', ''spaceBottom'', ''spaceLeft'', ''spaceRight'', ''canvasBordersWidth'', ''graphSpaceBefore'', ''graphSpaceAfter'',
      ''graphTitleFontSize'', ''graphTitleSpaceBefore'', ''graphTitleSpaceAfter'', ''graphTitleBordersYSpace'', ''graphTitleBordersWidth'',
      ''graphSubTitleFontSize'', ''graphSubTitleSpaceBefore'', ''graphSubTitleSpaceAfter'', ''graphSubTitleBordersYSpace'',
      ''graphSubTitleBordersWidth'', ''footNoteFontSize'', ''footNoteSpaceBefore'', ''footNoteSpaceAfter'', ''footNoteBordersYSpace'',
      ''footNoteBordersWidth'', ''legendFontSize'', ''legendBlockSize'', ''legendSpaceBetweenBoxAndText'', ''legendSpaceBetweenTextHorizontal'',
      ''legendSpaceBetweenTextVertical'', ''legendSpaceBeforeText'', ''legendSpaceAfterText'', ''legendSpaceLeftText'', ''legendSpaceRightText'',
      ''legendBordersWidth'', ''legendBordersSpaceBefore'', ''legendBordersSpaceAfter'', ''legendBordersSpaceLeft'', ''legendBordersSpaceRight'']"

definition axis_size_options :: "string list" where
  "axis_size_options =
     [''scaleFontSize'', ''xScaleLabelsMinimumWidth'', ''yScaleLabelsMinimumWidth'', ''yAxisFontSize'', ''yAxisLabelSpaceLeft'',
      ''yAxisLabelSpaceRight'', ''yAxisLabelBordersYSpace'', ''yAxisLabelBordersWidth'', ''yAxisSpaceLeft'', ''yAxisSpaceRight'',
      ''yAxisUnitFontSize'', ''yAxisUnitSpaceBefore'', ''yAxisUnitSpaceAfter'', ''yAxisUnitBordersYSpace'', ''yAxisUnitBordersWidth'',
      ''xAxisFontSize'', ''xAxisLabelSpaceBefore'', ''xAxisLabelSpaceAfter'', ''xAxisLabelBordersYSpace'', ''xAxisLabelBordersWidth'',
      ''xAxisSpaceBefore'', ''xAxisSpaceAfter'', ''xAxisSpaceBetweenLabels'']"

fun is_size_value :: "jsval \<Rightarrow> bool" where
  "is_size_value (Num n) = is_size n"
| "is_size_value _ = False"

text \<open>The angle of the labels: \<open>"smart"\<close> or a number.\<close>

fun is_angle :: "jsval \<Rightarrow> bool" where
  "is_angle (Num n) = is_fin n"
| "is_angle (Str s) = (s = ''smart'')"
| "is_angle _ = False"

fun is_columns :: "jsval \<Rightarrow> bool" where
  "is_columns (Num (Fin c)) = (1 \<le> c)"
| "is_columns _ = False"

definition layout_types :: "bool \<Rightarrow> (string \<times> (jsval \<Rightarrow> bool)) list" where
  "layout_types axes =
     map (\<lambda>k. (k, is_size_value)) size_options @ [(''graphTitle'', is_string), (''graphSubTitle'', is_string), (''footNote'', is_string),
       (''maxLegendCols'', is_columns)]
     @ (if axes then map (\<lambda>k. (k, is_size_value)) axis_size_options
          @ [(''yAxisUnit'', is_string), (''yAxisLabel'', is_string), (''xAxisLabel'', is_string), (''rotateLabels'', is_angle)] else [])"

definition layout_typed :: "bool \<Rightarrow> obj \<Rightarrow> bool" where
  "layout_typed axes config = (\<forall>(k, P) \<in> set (layout_types axes). P (oget config k))"

lemma layout_typedD: "layout_typed axes config \<Longrightarrow> (k, P) \<in> set (layout_types axes) \<Longrightarrow> P (oget config k)"
  by (auto simp: layout_typed_def)

lemma typed_size:
  assumes "layout_typed axes config" "k \<in> set size_options \<or> axes \<and> k \<in> set axis_size_options"
  shows "is_size (to_number (oget config k))"
proof -
  have "(k, is_size_value) \<in> set (layout_types axes)"
    using assms(2) unfolding layout_types_def set_append set_map by (elim disjE conjE) (simp_all only: if_True Un_iff image_eqI simp_thms set_append set_map)
  from layout_typedD [OF assms(1) this] show ?thesis by (cases "oget config k") simp_all
qed

lemma typed_px:
  assumes "layout_typed axes config" "measuring env" "k \<in> set size_options \<or> axes \<and> k \<in> set axis_size_options"
  shows "is_size (space_px env config k)" "is_size (line_px env config k)" "is_size (text_px env config k)"
  using typed_size [OF assms(1,3)] assms(2) by (simp_all add: space_px_def line_px_def text_px_def is_size_scaled measuring_def)

lemmas size_px = typed_px [OF _ _ disjI1]
lemmas axis_px = typed_px [OF _ _ disjI2 [OF conjI]]

lemma typed_text:
  assumes "layout_typed axes config" "k \<in> {''graphTitle'', ''graphSubTitle'', ''footNote''} \<or> axes \<and> k \<in> {''yAxisUnit'', ''yAxisLabel'', ''xAxisLabel''}"
  shows "\<exists>s. oget config k = Str s"
proof -
  have "(k, is_string) \<in> set (layout_types axes)" using assms(2) by (auto simp: layout_types_def)
  from layout_typedD [OF assms(1) this] show ?thesis by (cases "oget config k") auto
qed

section \<open>Well-typed options give a layout\<close>

lemma frame_steps_size:
  "is_size (space_px env config (key @ ''BordersYSpace'')) \<Longrightarrow> is_size (line_px env config (key @ ''BordersWidth'')) \<Longrightarrow>
     \<forall>s \<in> set (frame_steps env config key i l). is_size s"
  by (auto simp: frame_steps_def)

lemma text_height_size:
  "is_size (text_px env config font) \<Longrightarrow> is_size (space_px env config before) \<Longrightarrow> is_size (space_px env config after) \<Longrightarrow>
     is_size (text_height env config key font before after)"
  unfolding text_height_def by (intro is_size_plus is_size_times) simp_all

lemma typed_given:
  assumes "layout_typed axes config" "k \<in> {''graphTitle'', ''graphSubTitle'', ''footNote''} \<or> axes \<and> k \<in> {''yAxisUnit'', ''yAxisLabel'', ''xAxisLabel''}"
  shows "\<exists>b. text_given (oget config k) = Inr b"
  using typed_text [OF assms] by (auto simp: text_given_def)

lemma title_band_typed:
  assumes "layout_typed axes config" "measuring env" "key \<in> {''graphTitle'', ''graphSubTitle''}"
  shows "\<exists>b. title_band env config key upper = Inr b \<and> is_size (tb_height b)"
proof -
  note px = size_px [OF assms(1,2)] axis_px [OF assms(1,2)]
  have "is_size (text_px env config (key @ ''FontSize''))" "is_size (space_px env config (key @ ''SpaceBefore''))"
      "is_size (space_px env config (key @ ''SpaceAfter''))" "is_size (space_px env config (key @ ''BordersYSpace''))"
      "is_size (line_px env config (key @ ''BordersWidth''))"
    using assms(3) by (elim insertE emptyE; simp add: px size_options_def)+
  then have "is_size (widened (frame_steps env config key i l) (text_height env config key (key @ ''FontSize'') (key @ ''SpaceBefore'') (key @ ''SpaceAfter'')))" for i l
    by (intro is_size_widened frame_steps_size text_height_size)
  moreover obtain b where "text_given (oget config key) = Inr b"
    using typed_given [OF assms(1), of key] assms(3) by auto
  ultimately show ?thesis by (simp add: title_band_def Let_def)
qed

lemma unit_band_typed:
  assumes "layout_typed axes config" "measuring env" "drawAxis \<longrightarrow> axes"
  shows "\<exists>b. unit_band env config drawAxis upper = Inr b \<and> is_size (tb_height b)"
proof (cases drawAxis)
  case True
  note px = size_px [OF assms(1,2)] axis_px [OF assms(1,2)]
  have ok: "is_size (text_px env config ''yAxisUnitFontSize'')" "is_size (space_px env config ''yAxisUnitSpaceBefore'')"
      "is_size (space_px env config ''yAxisUnitSpaceAfter'')" "is_size (space_px env config (''yAxisUnit'' @ ''BordersYSpace''))"
      "is_size (line_px env config (''yAxisUnit'' @ ''BordersWidth''))"
    using True assms(3) by (simp_all add: px axis_size_options_def)
  note h = text_height_size [OF ok(1-3)] and f = frame_steps_size [OF ok(4,5)]
  obtain b where "text_given (oget config ''yAxisUnit'') = Inr b"
    using typed_given [OF assms(1), of "''yAxisUnit''"] True assms(3) by auto
  with True show ?thesis by (simp add: unit_band_def Let_def is_size_widened f h)
qed (simp add: unit_band_def)

lemma lower_band_typed:
  assumes "layout_typed axes config" "measuring env" "(key, font) = (''footNote'', ''footNoteFontSize'') \<or> axes \<and> (key, font) = (''xAxisLabel'', ''xAxisFontSize'')"
  shows "\<exists>b. lower_band env config key font bottom = Inr b \<and> is_size (tb_height b)"
proof -
  note px = size_px [OF assms(1,2)] axis_px [OF assms(1,2)]
  have ok: "is_size (text_px env config font)" "is_size (space_px env config (key @ ''SpaceBefore''))"
      "is_size (space_px env config (key @ ''SpaceAfter''))" "is_size (space_px env config (key @ ''BordersYSpace''))"
      "is_size (line_px env config (key @ ''BordersWidth''))"
    using assms(3) by (elim disjE conjE Pair_inject; simp add: px size_options_def axis_size_options_def)+
  note h = text_height_size [OF ok(1-3)] and f = frame_steps_size [OF ok(4,5)]
  have "\<exists>b. text_given (oget config key) = Inr b"
    by (rule typed_given [OF assms(1)]) (use assms(3) in \<open>elim disjE conjE Pair_inject; simp\<close>)
  then obtain b where "text_given (oget config key) = Inr b" ..
  then show ?thesis by (simp add: lower_band_def Let_def is_size_widened f h)
qed

lemma y_axis_label_typed:
  assumes "layout_typed True config" "measuring env"
  shows "\<exists>b. y_axis_label env config width border = Inr b \<and> is_size (sl_width b)"
proof -
  note px = axis_px [OF assms]
  have ok: "is_size (text_px env config ''yAxisFontSize'')" "is_size (space_px env config ''yAxisLabelSpaceLeft'')"
      "is_size (space_px env config ''yAxisLabelSpaceRight'')" "is_size (space_px env config (''yAxisLabel'' @ ''BordersYSpace''))"
      "is_size (line_px env config (''yAxisLabel'' @ ''BordersWidth''))"
    by (simp_all add: px axis_size_options_def)
  note h = text_height_size [OF ok(1-3)] and f = frame_steps_size [OF ok(4,5)]
  obtain b where "text_given (oget config ''yAxisLabel'') = Inr b"
    using typed_given [OF assms(1), of "''yAxisLabel''"] by auto
  then show ?thesis by (simp add: y_axis_label_def Let_def is_size_widened f h)
qed

lemma side_size_typed:
  assumes "layout_typed axes config" "measuring env" "drawAxis \<longrightarrow> axes" "space \<in> {''spaceLeft'', ''spaceRight''}"
    and "is_size border" "is_size label" "is_size widest"
  shows "is_size (side_size env config drawAxis shown space border label widest)"
proof -
  note px = size_px [OF assms(1,2)] axis_px [OF assms(1,2)]
  have "is_size (space_px env config space)" using assms(4) by (elim insertE emptyE; simp add: px size_options_def)
  moreover have "is_size (space_px env config ''yAxisSpaceLeft'')" "is_size (space_px env config ''yAxisSpaceRight'')" if drawAxis
    using assms(3) that by (simp_all add: px axis_size_options_def)
  ultimately show ?thesis using assms(5-7) by (auto simp: side_size_def Let_def intro!: is_size_plus)
qed

text \<open>The four sides.\<close>

definition sized_sides :: "text_layout \<Rightarrow> bool" where
  "sized_sides lay = (is_size (tl_border lay) \<and> is_size (tl_left lay) \<and> is_size (tl_right lay) \<and> is_size (tl_top lay) \<and> is_size (tl_bottom lay))"

lemma layout_texts_typed:
  assumes "layout_typed axes config" "measuring env" "drawAxis \<longrightarrow> axes" "is_size (ls_widestX ls)" "is_size (ls_widestY ls)" "is_size (ls_widestY2 ls)"
  shows "\<exists>lay. layout_texts env config height width reverseAxis drawAxis ls = Inr lay \<and> sized_sides lay"
proof -
  define border where "border = (if to_bool (oget config ''canvasBorders'') then line_px env config ''canvasBordersWidth'' else 0)"
  note px = size_px [OF assms(1,2)] axis_px [OF assms(1,2)]
  have border: "is_size border" by (simp add: border_def px size_options_def)
  have sides: "is_size (space_px env config ''spaceTop'')" "is_size (space_px env config ''spaceBottom'')"
      "is_size (text_px env config ''graphSpaceBefore'')" "is_size (text_px env config ''graphSpaceAfter'')"
    by (simp_all add: px size_options_def)
  obtain yl where yl: "(if drawAxis then y_axis_label env config width border else Inr \<lparr> sl_width = 0, sl_left = 0, sl_right = 0 \<rparr>) = Inr yl" "is_size (sl_width yl)"
    using y_axis_label_typed [of config env width border] assms(1-3) by (cases drawAxis) auto
  obtain title where title: "title_band env config ''graphTitle'' (border + space_px env config ''spaceTop'') = Inr title" "is_size (tb_height title)"
    using title_band_typed [OF assms(1,2)] by blast
  obtain sub where sub: "title_band env config ''graphSubTitle'' (border + space_px env config ''spaceTop'' + tb_height title) = Inr sub" "is_size (tb_height sub)"
    using title_band_typed [OF assms(1,2)] by blast
  obtain u where u: "unit_band env config drawAxis (border + space_px env config ''spaceTop'' + tb_height title + tb_height sub) = Inr u" "is_size (tb_height u)"
    using unit_band_typed [OF assms(1-3)] by blast
  obtain foot where foot: "lower_band env config ''footNote'' ''footNoteFontSize'' (height - space_px env config ''spaceBottom'' - border) = Inr foot" "is_size (tb_height foot)"
    using lower_band_typed [OF assms(1,2)] by blast
  obtain xl where xl: "(if drawAxis then lower_band env config ''xAxisLabel'' ''xAxisFontSize'' (height - border - space_px env config ''spaceBottom'' - tb_height foot)
      else Inr no_band) = Inr xl" "is_size (tb_height xl)"
    using lower_band_typed [OF assms(1,2), of "''xAxisLabel''" "''xAxisFontSize''"] assms(3) by (cases drawAxis) auto
  have "is_size (side_size env config drawAxis shown space border (sl_width yl) (if reverseAxis then ls_widestX ls else w))"
    if "space \<in> {''spaceLeft'', ''spaceRight''}" "is_size w" for shown space w
    using side_size_typed [OF assms(1-3) that(1) border yl(2)] assms(4) that(2) by simp
  with assms(5,6) border sides title(2) sub(2) u(2) foot(2) xl(2) show ?thesis
    unfolding layout_texts_def Let_def border_def [symmetric] yl(1) title(1) sub(1) u(1) foot(1) xl(1) and_then_simps
    by (simp add: sized_sides_def is_size_plus)
qed

section \<open>The grid of the legend\<close>

lemma grid_arith:
  fixes m :: real
  assumes "0 < n" "1 \<le> m" "l = \<lceil>real n / m\<rceil>" "k = \<lceil>real n / of_int l\<rceil>"
  shows "1 \<le> l" "1 \<le> k" "k \<le> \<lceil>m\<rceil>" "int n \<le> l * k"
proof -
  have pos: "0 < real n / m" using assms(1,2) by simp
  then show l: "1 \<le> l" using assms(3) by linarith
  then have lr: "0 < (of_int l :: real)" by simp
  then have "0 < real n / of_int l" using assms(1) by simp
  then show "1 \<le> k" using assms(4) by linarith
  have "real n / m \<le> of_int l" using assms(3) by linarith
  then have "real n / of_int l \<le> m" using assms(2) lr by (simp add: divide_le_eq mult.commute)
  then show "k \<le> \<lceil>m\<rceil>" using assms(4) ceiling_mono by blast
  have "real n / of_int l \<le> of_int k" using assms(4) by linarith
  then have "real n \<le> of_int k * of_int l" using lr by (simp add: divide_le_eq)
  then have "of_int (int n) \<le> (of_int (l * k) :: real)" by (simp add: mult.commute)
  then show "int n \<le> l * k" by (simp only: of_int_le_iff)
qed

lemma math_min_PInf: "math_min PInf (Fin a) = Fin a"
  by (simp add: math_min_def)

lemma legend_grid_fits:
  assumes "space_px env config ''legendSpaceBetweenTextHorizontal'' = Fin b" "0 \<le> b" "0 < w" "w \<le> a"
    and "to_number (oget config ''maxLegendCols'') = Fin c" "1 \<le> c" "0 < n"
  shows "\<exists>l k :: int. legend_grid env config n (Fin w) (Fin a) = (Fin (of_int l), Fin (of_int k)) \<and> 1 \<le> l \<and> 1 \<le> k \<and> int n \<le> l * k
     \<and> of_int k * (w + b) - b \<le> a \<and> k \<le> \<lceil>c\<rceil>"
proof -
  define q where "q = \<lfloor>(a + b) / (w + b)\<rfloor>"
  define m where "m = min (of_int q) c"
  define l where "l = \<lceil>real n / m\<rceil>"
  define k where "k = \<lceil>real n / of_int l\<rceil>"
  have "1 \<le> (a + b) / (w + b)" using assms(2-4) by simp
  then have "1 \<le> q" by (simp add: q_def)
  then have m: "1 \<le> m" using assms(6) by (simp add: m_def)
  note g = grid_arith [OF assms(7) m l_def k_def]
  have "k \<le> q" using g(3) by (simp add: m_def ceiling_le_iff min_def split: if_splits) linarith+
  moreover have "of_int q * (w + b) \<le> a + b" using assms(2,3) by (simp add: q_def pos_le_divide_eq [symmetric])
  ultimately have "of_int k * (w + b) \<le> a + b" using assms(2,3) by (smt (verit) mult_right_mono of_int_le_iff)
  moreover have "k \<le> \<lceil>c\<rceil>" using g(3) ceiling_mono [of m c] by (simp add: m_def)
  moreover have on_line: "Min_array [math_floor ((Fin a + Fin b) / (Fin w + Fin b)), Fin c] = Fin m"
    using assms(2,3) by (simp add: Min_array_def m_def q_def math_min_PInf)
  moreover have "legend_grid env config n (Fin w) (Fin a) = (Fin (of_int l), Fin (of_int k))"
    using m g(1) unfolding legend_grid_def Let_def assms(1,5) on_line by (simp add: l_def [symmetric] k_def [symmetric])
  ultimately show ?thesis using g by (intro exI [of _ l] exI [of _ k]) simp
qed

section \<open>What the legend does to the sides\<close>

definition legend_below :: "obj \<Rightarrow> bool" where
  "legend_below config = (oget config ''legendPosY'' \<notin> NumF ` {0, 1, 2, - 2, 3})"

definition legend_borders_height :: "layout_env \<Rightarrow> obj \<Rightarrow> jsnum" where
  "legend_borders_height env config =
     2 * line_px env config ''legendBordersWidth'' + space_px env config ''legendBordersSpaceBefore'' + space_px env config ''legendBordersSpaceAfter''"

lemma legend_with_borders_fields:
  "lb_space (legend_with_borders env config lb) = lb_space lb + legend_borders_height env config"
  "lb_cols (legend_with_borders env config lb) = lb_cols lb" "lb_widest (legend_with_borders env config lb) = lb_widest lb"
  "lb_lines (legend_with_borders env config lb) = lb_lines lb" "lb_n (legend_with_borders env config lb) = lb_n lb"
  by (simp_all add: legend_with_borders_def legend_borders_height_def Let_def del: numeral_jsnum)

lemma legend_vertical_sides:
  assumes "legend_vertical env config height lb lay = (lb', lay')"
  shows "lb_space lb' = (if legend_bordered config then lb_space lb + legend_borders_height env config else lb_space lb)"
    and "lb_cols lb' = lb_cols lb \<and> lb_widest lb' = lb_widest lb \<and> lb_lines lb' = lb_lines lb \<and> lb_n lb' = lb_n lb"
    and "tl_left lay' = tl_left lay \<and> tl_right lay' = tl_right lay \<and> tl_border lay' = tl_border lay"
    and "tl_top lay' = (if oget config ''legendPosY'' = NumF 0 then tl_top lay + lb_space lb' else tl_top lay)"
    and "tl_bottom lay' = (if legend_below config then tl_bottom lay + lb_space lb' else tl_bottom lay)"
proof -
  show "lb_space lb' = (if legend_bordered config then lb_space lb + legend_borders_height env config else lb_space lb)"
    using assms by (auto simp: legend_vertical_def Let_def legend_with_borders_fields split: if_splits)
  show "lb_cols lb' = lb_cols lb \<and> lb_widest lb' = lb_widest lb \<and> lb_lines lb' = lb_lines lb \<and> lb_n lb' = lb_n lb"
    using assms by (auto simp: legend_vertical_def Let_def legend_with_borders_fields split: if_splits)
  show "tl_left lay' = tl_left lay \<and> tl_right lay' = tl_right lay \<and> tl_border lay' = tl_border lay"
    using assms by (auto simp: legend_vertical_def Let_def split: if_splits)
  show "tl_top lay' = (if oget config ''legendPosY'' = NumF 0 then tl_top lay + lb_space lb' else tl_top lay)"
    using assms by (auto simp: legend_vertical_def Let_def split: if_splits)
  show "tl_bottom lay' = (if legend_below config then tl_bottom lay + lb_space lb' else tl_bottom lay)"
    using assms by (auto simp: legend_vertical_def Let_def legend_below_def split: if_splits)
qed

lemma legend_horizontal_sides:
  assumes "legend_horizontal env config width lb lay = (lb', lay')"
  shows "lb_space lb' = lb_space lb \<and> lb_cols lb' = lb_cols lb \<and> lb_widest lb' = lb_widest lb \<and> lb_lines lb' = lb_lines lb \<and> lb_n lb' = lb_n lb"
    and "tl_top lay' = tl_top lay \<and> tl_bottom lay' = tl_bottom lay \<and> tl_border lay' = tl_border lay"
    and "tl_left lay' = (if oget config ''legendPosX'' = NumF 0 \<and> legend_beside config then tl_left lay + full_legend_width env config lb else tl_left lay)"
    and "tl_right lay' = (if oget config ''legendPosX'' = NumF 4 \<and> legend_beside config then tl_right lay + full_legend_width env config lb else tl_right lay)"
proof -
  show "lb_space lb' = lb_space lb \<and> lb_cols lb' = lb_cols lb \<and> lb_widest lb' = lb_widest lb \<and> lb_lines lb' = lb_lines lb \<and> lb_n lb' = lb_n lb"
    using assms by (auto simp: legend_horizontal_def Let_def split: if_splits)
  show "tl_top lay' = tl_top lay \<and> tl_bottom lay' = tl_bottom lay \<and> tl_border lay' = tl_border lay"
    using assms by (auto simp: legend_horizontal_def Let_def split: if_splits)
  show "tl_left lay' = (if oget config ''legendPosX'' = NumF 0 \<and> legend_beside config then tl_left lay + full_legend_width env config lb else tl_left lay)"
    using assms by (auto simp: legend_horizontal_def Let_def split: if_splits)
  show "tl_right lay' = (if oget config ''legendPosX'' = NumF 4 \<and> legend_beside config then tl_right lay + full_legend_width env config lb else tl_right lay)"
    using assms by (auto simp: legend_horizontal_def Let_def split: if_splits)
qed

lemma legend_padding_fields:
  "lb_space (legend_padding env config lb) = lb_space lb" "lb_cols (legend_padding env config lb) = lb_cols lb"
  "lb_lines (legend_padding env config lb) = lb_lines lb" "lb_n (legend_padding env config lb) = lb_n lb"
  "lb_widest (legend_padding env config lb) = lb_widest lb"
  by (simp_all add: legend_padding_def Let_def)

text \<open>The widest text of the legend with its box, and whether it fits.\<close>

definition legend_widest :: "layout_env \<Rightarrow> obj \<Rightarrow> obj list \<Rightarrow> jsnum" where
  "legend_widest env config items =
     snd (legend_texts env config items) + (text_px env config ''legendBlockSize'' + space_px env config ''legendSpaceBetweenBoxAndText'')"

definition legend_fits :: "layout_env \<Rightarrow> obj \<Rightarrow> jsnum \<Rightarrow> obj list \<Rightarrow> text_layout \<Rightarrow> bool" where
  "legend_fits env config width items lay =
     (legend_drawn config (fst (legend_texts env config items)) \<longrightarrow>
        0 < legend_widest env config items \<and> legend_widest env config items \<le> legend_width env config width lay)"

lemma legend_texts_size: "measuring env \<Longrightarrow> is_size (snd (legend_texts env config items))"
  unfolding legend_texts_def Let_def
  by (auto simp: measuring_def intro!: is_size_fold_max [unfolded Let_def])

lemma is_size_ge: "is_fin y \<Longrightarrow> 0 \<le> y \<Longrightarrow> is_size y"
  by (cases y) (simp_all add: zero_jsnum_def)

lemma legend_width_fin:
  assumes "layout_typed axes config" "measuring env" "is_fin width" "sized_sides lay"
  shows "is_fin (legend_width env config width lay)"
proof -
  note px = size_px [OF assms(1,2)]
  have ok: "is_size (space_px env config ''spaceLeft'')" "is_size (space_px env config ''spaceRight'')"
      "is_size (space_px env config ''legendSpaceLeftText'')" "is_size (space_px env config ''legendSpaceRightText'')"
      "is_size (line_px env config ''legendBordersWidth'')" "is_size (space_px env config ''legendBordersSpaceLeft'')"
      "is_size (space_px env config ''legendBordersSpaceRight'')"
    by (simp_all add: px size_options_def)
  moreover have "is_size (math_ceil (sc_space (ly_scales env) * space_px env config ''legendSpaceLeftText''))"
    using ok(3) assms(2) by (simp add: measuring_def is_size_ceil is_size_times)
  ultimately show ?thesis
    using assms(3,4) unfolding legend_width_def Let_def sized_sides_def by (auto elim!: is_sizeE is_finE)
qed

lemma fin_bounds: "is_fin y \<Longrightarrow> 0 < x \<Longrightarrow> x \<le> y \<Longrightarrow> is_size x \<Longrightarrow> \<exists>w a. x = Fin w \<and> y = Fin a \<and> 0 < w \<and> w \<le> a"
  by (auto elim!: is_finE is_sizeE simp: zero_jsnum_def)

text \<open>A legend that fits: every text has its place in the grid, and the columns fit in the width.\<close>

lemma legend_placed:
  assumes "layout_typed axes config" "measuring env" "is_fin width" "sized_sides lay" "legend_fits env config width items lay"
    and "(n, w0) = legend_texts env config items" "legend_drawn config n"
  shows "\<exists>w a b l k. legend_widest env config items = Fin w \<and> 0 < w \<and> legend_width env config width lay = Fin a
     \<and> space_px env config ''legendSpaceBetweenTextHorizontal'' = Fin b \<and> 0 \<le> b
     \<and> legend_grid env config n (Fin w) (Fin a) = (Fin (of_int l), Fin (of_int k)) \<and> 1 \<le> l \<and> 1 \<le> k \<and> int n \<le> l * k
     \<and> of_int k * (w + b) - b \<le> a"
proof -
  note px = size_px [OF assms(1,2)]
  have size: "is_size (legend_widest env config items)"
    unfolding legend_widest_def using legend_texts_size [OF assms(2)] by (simp add: is_size_plus px size_options_def)
  have room: "0 < legend_widest env config items" "legend_widest env config items \<le> legend_width env config width lay"
    using assms(5,7) by (simp_all add: legend_fits_def assms(6) [symmetric])
  obtain w a where w: "legend_widest env config items = Fin w" "legend_width env config width lay = Fin a" "0 < w" "w \<le> a"
    using fin_bounds [OF legend_width_fin [OF assms(1-4)] room size] by blast
  have "is_size (space_px env config ''legendSpaceBetweenTextHorizontal'')" by (simp add: px size_options_def)
  then obtain b where b: "space_px env config ''legendSpaceBetweenTextHorizontal'' = Fin b" "0 \<le> b" by (auto elim: is_sizeE)
  have "is_columns (oget config ''maxLegendCols'')" by (rule layout_typedD [OF assms(1)]) (simp add: layout_types_def)
  then obtain c where c: "to_number (oget config ''maxLegendCols'') = Fin c" "1 \<le> c" by (cases "oget config ''maxLegendCols''" rule: is_columns.cases) auto
  have "0 < n" using assms(7) by (auto simp: legend_drawn_def)
  from legend_grid_fits [OF b w(3,4) c this] w b show ?thesis by metis
qed

end
