(* ===== verification/LineChart.thy ===== *)
theory LineChart
  imports LinePainting ValueIndex ValueBounds ChartLayout
begin

text \<open>
  The constructor \<open>Line\<close> as a whole, from the data to the calls of the canvas context: a single value gets
  neighbours, the entries are computed, the scales are chosen, the measures follow from them, and every frame paints
  the lines.  The texts around the chart are laid out (\<open>setMeasures\<close>), but they, the labels, the
  grid and the legend are not painted here.
\<close>

text \<open>What the constructor takes from outside.\<close>

record chart_env =
  ce_paint :: paint_env
  ce_lg :: "jsnum \<Rightarrow> jsnum"
  ce_perso :: perso
  ce_tmpl :: "string \<Rightarrow> jsval \<Rightarrow> string"
  ce_option :: "string \<Rightarrow> jsval"
  ce_deviation :: "nat \<Rightarrow> jsnum"
  ce_text :: jsnum
  ce_measure :: "string \<Rightarrow> string \<Rightarrow> jsnum"
  ce_height :: jsnum
  ce_width :: jsnum

definition layout_of :: "chart_env \<Rightarrow> layout_env" where
  "layout_of env =
     \<lparr> ly_scales = pe_scales (ce_paint env), ly_text = ce_text env, ly_numstr = pe_numstr (ce_paint env), ly_perso = ce_perso env,
       ly_measure = ce_measure env \<rparr>"

text \<open>\<open>setMeasures(data, config, ctx, height, width, ylabels, ylabels2, false, false, true, true, ...)\<close>\<close>

definition line_layout :: "chart_env \<Rightarrow> obj \<Rightarrow> jsval list \<Rightarrow> obj list \<Rightarrow> jsval \<Rightarrow> jsval \<Rightarrow> js_error + measures" where
  "line_layout env config labels datasets ylabels ylabels2 =
     map_sum id (snd \<circ> snd) (setMeasures (layout_of env) config labels datasets (ce_height env) (ce_width env) ylabels ylabels2 False True)"

text \<open>The labels of the two scales; the second scale has none when there is no second axis.\<close>

definition scale_labels :: "value_bounds \<Rightarrow> scale \<Rightarrow> scale \<Rightarrow> jsval \<times> jsval" where
  "scale_labels vb s s2 = (Arr (map Str (s_labels s)), if dbAxis vb then Arr (map Str (s_labels s2)) else Null)"

section \<open>Setting a line chart up\<close>

text \<open>A chart of one value: the value is put between two missing ones, and so is its label when it is a string.
  The test for a missing value is always true.\<close>

definition adapt_single :: "jsval list \<Rightarrow> obj list \<Rightarrow> jsval list \<times> obj list" where
  "adapt_single labels datasets =
     (if fold max (map (length \<circ> dvalues) datasets) 0 = 1
      then (case aget labels 0 of Str s \<Rightarrow> [Str [], Str s, Str []] | _ \<Rightarrow> labels,
            map (\<lambda>ds. oset ''data'' (Arr [Undef, aget (dvalues ds) 0, Undef]) ds) datasets)
      else (labels, datasets))"

text \<open>\<open>statData[i][0].tpchart = "Line"\<close> raises when there is no entry.\<close>

definition mark_lines :: "obj list \<Rightarrow> (nat \<Rightarrow> nat \<Rightarrow> obj) \<Rightarrow> js_error + (nat \<Rightarrow> nat \<Rightarrow> obj)" where
  "mark_lines datasets statData =
     (if \<exists>ds \<in> set datasets. dvalues ds = [] then Inl TypeError
      else Inr (\<lambda>i j. if i < length datasets \<and> j = 0 then oset ''tpchart'' (Str ''Line'') (statData i j) else statData i j))"

definition as_dataset :: "obj \<Rightarrow> dataset" where
  "as_dataset ds = \<lparr> ds_data = dvalues ds, ds_axis = oget ds ''axis'' \<rparr>"

definition line_measures ::
  "(jsnum \<Rightarrow> jsnum) \<Rightarrow> ctx_scales \<Rightarrow> obj \<Rightarrow> nat \<Rightarrow> value_bounds \<Rightarrow> scale \<Rightarrow> scale \<Rightarrow> measures \<Rightarrow> measures \<times> othervars" where
  "line_measures lg cs config labels vb sc sc2 msr =
     (let tick = (\<lambda>side. scaled (sc_line cs) config (''scaleTickSize'' @ side));
          prevHeight = m_availableHeight msr;
          height = prevHeight - tick ''Bottom'' - tick ''Top''; width = m_availableWidth msr - tick ''Left'' - tick ''Right'';
          scaleHop = math_floor (height / s_steps sc); scaleHop2 = math_floor (height / s_steps sc2);
          n = Fin (of_nat labels - 1); hop = math_floor (width / n);
          valueHop = (if num_eq hop 0 \<or> to_bool (oget config ''fullWidthGraph'') then width / n else hop);
          availableHeight = s_steps sc * scaleHop; shift = tick ''Bottom'' + tick ''Top'' - (prevHeight - availableHeight);
          xAxisPosY = m_topNotUsableSize msr + availableHeight + tick ''Top'';
          logar = oget config ''logarithmic''; logar2 = oget config ''logarithmic2''
      in (msr\<lparr> m_clrwidth := m_clrwidth msr - (width - n * valueHop), m_availableWidth := n * valueHop, m_availableHeight := availableHeight,
               m_xLabelPos := m_xLabelPos msr + shift, m_clrheight := m_clrheight msr + shift \<rparr>,
          \<lparr> ov_midPosX = NaN, ov_midPosY = NaN, ov_int_radius = NaN, ov_ext_radius = NaN, ov_maxSize = NaN,
            ov_xAxisPosY = xAxisPosY, ov_yAxisPosX = m_leftNotUsableSize msr + tick ''Left'',
            ov_valueHop = valueHop, ov_nbValueHop = n, ov_barWidth = NaN, ov_availableHeight = availableHeight,
            ov_scale = sc, ov_scaleHop = scaleHop, ov_zeroY = (if vb_min vb < 0 then calculateOffset lg logar 0 sc scaleHop else 0),
            ov_logarithmic = logar,
            ov_scale2 = sc2, ov_scaleHop2 = scaleHop2, ov_zeroY2 = (if vb_min2 vb < 0 then calculateOffset lg logar2 0 sc2 scaleHop2 else 0),
            ov_logarithmic2 = logar2 \<rparr>))"

text \<open>What the frames are painted from.\<close>

record line_chart =
  lc_config :: obj
  lc_datasets :: "obj list"
  lc_statData :: "nat \<Rightarrow> nat \<Rightarrow> obj"
  lc_measures :: measures
  lc_vars :: othervars

text \<open>
  \<open>None\<close>: the scale is never found; \<open>Inr None\<close>: there is no room and the chart is redrawn when
  it has been resized.
\<close>

definition setup_Line :: "chart_env \<Rightarrow> obj \<Rightarrow> obj \<Rightarrow> jsval list \<Rightarrow> obj list \<Rightarrow> (js_error + line_chart option) option" where
  "setup_Line env config data labels0 datasets0 =
     (let (labels, datasets1) = adapt_single labels0 datasets0; pe = ce_paint env; ns = pe_numstr pe; lg = ce_lg env; cs = pe_scales pe;
          (datasets, stat) = initPassVariableData_values ns (ce_perso env) config ''Line'' labels datasets1
      in case mark_lines datasets stat of
           Inl e \<Rightarrow> Some (Inl e)
         | Inr stat' \<Rightarrow>
             (case line_layout env config labels datasets (Str ''nihil'') (Arr [Str []]) of
                Inl e \<Rightarrow> Some (Inl e)
              | Inr msr \<Rightarrow>
                  (let vb = getValueBounds_Line (ce_option env) (ce_deviation env) config (ce_text env) (m_availableHeight msr) (map as_dataset datasets);
                       config' = line_config lg vb config;
                       scale_of = (\<lambda>axis. line_scale (pe_call pe) lg ns (ce_perso env) (ce_tmpl env) axis vb config')
                   in case (scale_of 1, scale_of 2) of
                        (Some (Inr sc), Some (Inr sc2)) \<Rightarrow>
                          (if maxSteps vb > 0 \<and> minSteps vb > 0 then
                             (case (sc, sc2) of
                                (Some s, Some s2) \<Rightarrow>
                                  (let (yl, yl2) = scale_labels vb s s2
                                   in case line_layout env config' labels datasets yl yl2 of
                                        Inl e \<Rightarrow> Some (Inl e)
                                      | Inr msr2 \<Rightarrow>
                                          (let (msr3, ov) = line_measures lg cs config' (length labels) vb s s2 msr2
                                           in Some (Inr (Some \<lparr> lc_config = config', lc_datasets = datasets,
                                                lc_statData = initPassVariableData_part2_values lg config' ''Line'' data labels cs ov datasets stat',
                                                lc_measures = msr3, lc_vars = ov \<rparr>))))
                              | _ \<Rightarrow> Some (Inl TypeError))
                           else Some (Inr None))
                      | (None, _) \<Rightarrow> None
                      | (Some (Inl e), _) \<Rightarrow> Some (Inl e)
                      | (_, None) \<Rightarrow> None
                      | (_, Some (Inl e)) \<Rightarrow> Some (Inl e))))"

text \<open>The chart of a data object.\<close>

definition labels_of :: "obj \<Rightarrow> jsval list" where
  "labels_of data = (case oget data ''labels'' of Arr ls \<Rightarrow> ls | _ \<Rightarrow> [])"

definition datasets_of :: "obj \<Rightarrow> obj list" where
  "datasets_of data = (case oget data ''datasets'' of Arr dss \<Rightarrow> map (\<lambda>v. case v of Obj ds \<Rightarrow> ds | _ \<Rightarrow> []) dss | _ \<Rightarrow> [])"

definition setup_chart :: "chart_env \<Rightarrow> obj \<Rightarrow> obj \<Rightarrow> (js_error + line_chart option) option" where
  "setup_chart env config data = setup_Line env config data (labels_of data) (datasets_of data)"

text \<open>A frame.\<close>

definition drawLines :: "paint_env \<Rightarrow> line_chart \<Rightarrow> jsnum \<Rightarrow> js_error + canvas_op list \<times> annotation list" where
  "drawLines pe lc animPc = drawLinesDataset pe (lc_config lc) (lc_vars lc) (lc_datasets lc) (lc_statData lc) animPc"

section \<open>The lines of a frame\<close>

text \<open>Straight lines over gaps and no markers, as both pages ask for.\<close>

definition plain_lines :: "obj \<Rightarrow> obj list \<Rightarrow> bool" where
  "plain_lines config datasets =
     (oget config ''bezierCurve'' = Bool False \<and> oget config ''bezierCurveTension'' \<noteq> Null \<and> oget config ''annotateDisplay'' \<noteq> Null
      \<and> to_bool (oget config ''extrapolateMissingData'') \<and> \<not> to_bool (oget config ''pointDot'')
      \<and> (\<forall>ds \<in> set datasets. styles_given config ds))"

text \<open>The entries that the drawing of lines relies on.\<close>

definition lines_ready :: "obj list \<Rightarrow> (nat \<Rightarrow> nat \<Rightarrow> obj) \<Rightarrow> bool" where
  "lines_ready datasets statData =
     (\<forall>i < length datasets. dvalues (datasets ! i) \<noteq> [] \<and> oget (statData i 0) ''tpchart'' = Str ''Line''
        \<and> (\<exists>f l. num_at (statData i 0) ''firstNotMissing'' = Fin (of_int f) \<and> num_at (statData i 0) ''lastNotMissing'' = Fin (of_int l)
             \<and> ends_of (dvalues (datasets ! i)) f l))"

lemma plain_env:
  assumes "plain_lines config datasets" "i < length datasets"
  shows "\<exists>le. line_env_of pe config ov datasets statData (Fin 1) i = Inr le \<and> straight le \<and> le_config le = config \<and> le_i le = i
     \<and> le_paint le = pe \<and> le_dataset le = datasets ! i \<and> le_entry le = (\<lambda>k. statData i (nat k))"
proof -
  obtain v where "style_option pe ''BEZIERCURVETENSION'' Undef (oget config ''bezierCurveTension'') i (- 1) = Inr v"
    using option_given [of Undef "oget config ''bezierCurveTension''"] assms(1) by (fastforce simp: plain_lines_def)
  moreover have "style_option pe ''BEZIERCURVE'' Undef (oget config ''bezierCurve'') i (- 1) = Inr (Bool False)"
    using assms(1) by (simp add: plain_lines_def style_option_def setOptionValue_def rescaled_def)
  moreover have "styles_given config (datasets ! i)" using assms by (simp add: plain_lines_def)
  ultimately show ?thesis
    using assms(1) unfolding line_env_of_def Let_def by (simp add: straight_def plain_lines_def)
qed

text \<open>The positions of the values that are given.\<close>

definition given_at :: "jsval list \<Rightarrow> nat list" where
  "given_at vs = filter (\<lambda>j. aget vs j \<noteq> Undef) [0..<length vs]"

lemma given_at_Nil: "given_at vs = [] \<longleftrightarrow> (\<forall>j. aget vs j = Undef)"
  using aget_length [of vs] by (auto simp: given_at_def filter_empty_conv)

lemma filter_ends:
  assumes "ends_of vs f l" "given_at vs \<noteq> []"
  shows "filter (\<lambda>k. aget vs (nat k) \<noteq> Undef) [f..l] = map int (given_at vs)"
proof (rule sorted_distinct_set_unique)
  have e: "0 \<le> f" "\<And>j. aget vs j \<noteq> Undef \<Longrightarrow> f \<le> int j \<and> int j \<le> l" using assms by (simp_all add: ends_of_def given_at_Nil)
  have "int j \<in> set (filter (\<lambda>k. aget vs (nat k) \<noteq> Undef) [f..l])" if "aget vs j \<noteq> Undef" for j using e(2) [OF that] that by simp
  moreover have "k \<in> int ` set (given_at vs)" if "f \<le> k" "aget vs (nat k) \<noteq> Undef" for k
    using that e(1) aget_length [of vs "nat k"] by (intro image_eqI [of _ _ "nat k"]) (simp_all add: given_at_def)
  ultimately show "set (filter (\<lambda>k. aget vs (nat k) \<noteq> Undef) [f..l]) = set (map int (given_at vs))"
    by (auto simp: given_at_def)
qed (simp_all add: given_at_def sorted_map sorted_wrt_filter distinct_map)

text \<open>The path of one data set.\<close>

definition graph_points :: "obj list \<Rightarrow> (nat \<Rightarrow> nat \<Rightarrow> obj) \<Rightarrow> nat \<Rightarrow> point list" where
  "graph_points datasets statData i =
     map (\<lambda>j. let e = statData i j in (num_at e ''xPos'', num_at e ''yAxisPos'' - Fin 1 * num_at e ''yPosOffset'')) (given_at (dvalues (datasets ! i)))"

definition below_graph :: "obj \<Rightarrow> (nat \<Rightarrow> nat \<Rightarrow> obj) \<Rightarrow> nat \<Rightarrow> nat \<Rightarrow> point list \<Rightarrow> point list" where
  "below_graph config statData i start pts =
     (if pts \<noteq> [] \<and> to_bool (oget config ''datasetFill'')
      then [(fst (last pts), num_at (statData i 0) ''xAxisPosY'' - num_at (statData i 0) ''zeroY''),
            (fst (hd pts), num_at (statData i start) ''xAxisPosY'' - num_at (statData i 0) ''zeroY'')]
      else [])"

definition graph_path :: "obj \<Rightarrow> obj list \<Rightarrow> (nat \<Rightarrow> nat \<Rightarrow> obj) \<Rightarrow> nat \<Rightarrow> canvas_op list" where
  "graph_path config datasets statData i =
     (let pts = graph_points datasets statData i
      in polyline pts @ map (\<lambda>p. LineTo (fst p) (snd p)) (below_graph config statData i (hd (given_at (dvalues (datasets ! i)))) pts))"

lemma dataset_painted:
  assumes "straight le" "le_config le = config" "le_i le = i" "le_dataset le = datasets ! i" "le_entry le = (\<lambda>k. statData i (nat k))"
    and "plain_lines config datasets" "lines_ready datasets statData" "i < length datasets"
  shows "\<exists>st' shapes. paint_dataset le (st, annots) = Inr (st', annots @ shapes)
     \<and> path_of (ll_ops st') = path_of (ll_ops st) @ graph_path config datasets statData i"
proof -
  let ?vs = "dvalues (datasets ! i)"
  obtain f l where fl: "num_at (statData i 0) ''firstNotMissing'' = Fin (of_int f)" "num_at (statData i 0) ''lastNotMissing'' = Fin (of_int l)"
      "ends_of ?vs f l" and ne: "?vs \<noteq> []" and tp: "oget (statData i 0) ''tpchart'' = Str ''Line''"
    using assms(7,8) by (auto simp: lines_ready_def)
  have ix: "index_at le 0 ''firstNotMissing'' = f" "index_at le 0 ''lastNotMissing'' = l" using fl by (simp_all add: index_at_def assms(5))
  show ?thesis
  proof (cases "given_at ?vs = []")
    case True
    then have "f = - 1" using fl(3) by (simp add: ends_of_def given_at_Nil)
    with True ne show ?thesis
      by (intro exI [of _ st] exI [of _ "[]"])
        (simp add: paint_dataset_def assms(4) ix graph_path_def graph_points_def below_graph_def polyline_def Let_def)
  next
    case False
    with fl(3) have e: "0 \<le> f" "f \<le> l" "aget ?vs (nat f) \<noteq> Undef" by (simp_all add: ends_of_def given_at_Nil)
    have filt: "filter (defined_at le) [f..l] = map int (given_at ?vs)" using filter_ends [OF fl(3) False] by (simp add: assms(4))
    have "filter (defined_at le) [f..l] = f # filter (defined_at le) [f + 1..l]" using e by (simp add: upto_rec1 assms(4))
    with filt have hd: "hd (map int (given_at ?vs)) = f" by (metis list.sel(1))
    then have hd': "hd (given_at ?vs) = nat f" using False by (simp add: hd_map)
    have pts: "line_points le = graph_points datasets statData i"
      by (simp add: line_points_def ix filt graph_points_def x_at_def y_at_def base_at_def assms(5) Let_def)
    have "graph_points datasets statData i \<noteq> []" using False by (simp add: graph_points_def)
    moreover have "fst (hd (graph_points datasets statData i)) = x_at le f"
      using False hd' by (simp add: graph_points_def hd_map Let_def x_at_def assms(5))
    ultimately have corners: "area_corners le = below_graph config statData i (hd (given_at ?vs)) (graph_points datasets statData i)"
      using hd' by (simp add: area_corners_def below_graph_def pts ix Let_def assms(2,5))
    obtain st' where st': "paint_line le st = Inr st'" "path_of (ll_ops st') = path_of (ll_ops st) @ graph_path config datasets statData i"
      using straight_line [OF assms(1), of st] e unfolding ix pts corners assms(4) graph_path_def Let_def by auto
    have "\<exists>r. register_point le j = Inr r" for j
      using option_given [of Undef "oget config ''annotateDisplay''" "le_paint le" "''ANNOTATEDISPLAY''" "le_i le" "int j"] assms(6)
      by (auto simp: register_point_def assms(2) plain_lines_def)
    then obtain rs where "collect (register_point le) [0..<length (dvalues (le_dataset le))] = Inr rs" using collect_total by metis
    then have "\<exists>shapes. register_points le = Inr shapes" by (simp add: register_points_def)
    moreover have "paint_markers le = Inr []" using assms(6) by (simp add: paint_markers_def assms(2) plain_lines_def)
    ultimately show ?thesis
      using st' ne tp e(1) by (auto simp: paint_dataset_def assms(4,5) ix)
  qed
qed

lemma datasets_painted:
  assumes "plain_lines config datasets" "lines_ready datasets statData" "set is \<subseteq> {..<length datasets}"
  shows "\<exists>st' shapes. paint_datasets pe config ov datasets statData (Fin 1) is (st, annots) = Inr (st', shapes)
     \<and> path_of (ll_ops st') = path_of (ll_ops st) @ concat (map (graph_path config datasets statData) is)"
  using assms(3)
proof (induction "is" arbitrary: st annots)
  case (Cons i "is")
  obtain le where le: "line_env_of pe config ov datasets statData (Fin 1) i = Inr le" "straight le" "le_config le = config" "le_i le = i"
      "le_dataset le = datasets ! i" "le_entry le = (\<lambda>k. statData i (nat k))"
    using plain_env [OF assms(1), of i pe ov statData] Cons.prems by auto
  obtain st1 shapes where st1: "paint_dataset le (st, annots) = Inr (st1, annots @ shapes)"
      "path_of (ll_ops st1) = path_of (ll_ops st) @ graph_path config datasets statData i"
    using dataset_painted [OF le(2-6) assms(1,2), of st annots] Cons.prems by auto
  from Cons.IH [of st1 "annots @ shapes"] Cons.prems st1 le(1) show ?case by auto
qed simp

section \<open>From the data to the canvas\<close>

lemma setup_LineE:
  assumes "setup_Line env config data labels0 datasets0 = Some (Inr (Some lc))"
  obtains labels datasets1 stat stat' where "(labels, datasets1) = adapt_single labels0 datasets0"
    "(lc_datasets lc, stat) = initPassVariableData_values (pe_numstr (ce_paint env)) (ce_perso env) config ''Line'' labels datasets1"
    "mark_lines (lc_datasets lc) stat = Inr stat'"
    "lc_statData lc = initPassVariableData_part2_values (ce_lg env) (lc_config lc) ''Line'' data labels (pe_scales (ce_paint env))
       (lc_vars lc) (lc_datasets lc) stat'"
  using assms unfolding setup_Line_def Let_def
  by (auto split: prod.splits sum.splits option.splits if_splits)

lemma setup_vars:
  assumes "setup_Line env config data labels0 datasets0 = Some (Inr (Some lc))"
  shows "\<exists>vb sc sc2 yl yl2 msr. line_layout env (lc_config lc) (fst (adapt_single labels0 datasets0)) (lc_datasets lc) yl yl2 = Inr msr
     \<and> lc_vars lc = snd (line_measures (ce_lg env) (pe_scales (ce_paint env)) (lc_config lc) (length (fst (adapt_single labels0 datasets0))) vb sc sc2 msr)"
  using assms unfolding setup_Line_def Let_def case_prod_unfold
  by (auto split: sum.splits option.splits if_splits intro!: exI)

text \<open>An entry of the chart.\<close>

lemma setup_entry:
  assumes "setup_Line env config data labels0 datasets0 = Some (Inr (Some lc))"
  obtains labels where "\<And>i j. i < length (lc_datasets lc) \<Longrightarrow> j < length (dvalues (lc_datasets lc ! i)) \<Longrightarrow>
      \<exists>e0 e. indexed (value_totals (lc_datasets lc)) ''Line'' i j e \<and> (j = 0 \<longrightarrow> oget e ''tpchart'' = Str ''Line'')
        \<and> lc_statData lc i j = place_point (ce_lg env) (lc_config lc) ''Line'' data labels (lc_vars lc) (lc_datasets lc ! i) j
             (dvalues (lc_datasets lc ! i) ! j) e0 e"
    and "\<forall>ds \<in> set (lc_datasets lc). dvalues ds \<noteq> []"
proof -
  obtain labels datasets1 stat stat' where s: "(labels, datasets1) = adapt_single labels0 datasets0"
    "(lc_datasets lc, stat) = initPassVariableData_values (pe_numstr (ce_paint env)) (ce_perso env) config ''Line'' labels datasets1"
    "mark_lines (lc_datasets lc) stat = Inr stat'"
    "lc_statData lc = initPassVariableData_part2_values (ce_lg env) (lc_config lc) ''Line'' data labels (pe_scales (ce_paint env))
       (lc_vars lc) (lc_datasets lc) stat'"
    using setup_LineE [OF assms] by blast
  have kind: "drawn_as ''Line'' ds = ''Line''" "value_kind ''Line''" for ds by (simp_all add: drawn_as_def tpdraw_def value_kind_def)
  have len: "length (lc_datasets lc) = length datasets1" using s(2) by (simp add: initPassVariableData_values_def Let_def)
  have ne: "\<forall>ds \<in> set (lc_datasets lc). dvalues ds \<noteq> []"
    and stat': "stat' = (\<lambda>i j. if i < length (lc_datasets lc) \<and> j = 0 then oset ''tpchart'' (Str ''Line'') (stat i j) else stat i j)"
    using s(3) by (auto simp: mark_lines_def split: if_splits)
  have "indexed (value_totals (lc_datasets lc)) ''Line'' i j (stat' i j) \<and> (j = 0 \<longrightarrow> oget (stat' i j) ''tpchart'' = Str ''Line'')
      \<and> lc_statData lc i j = place_point (ce_lg env) (lc_config lc) ''Line'' data labels (lc_vars lc) (lc_datasets lc ! i) j
             (dvalues (lc_datasets lc ! i) ! j) (stat' i 0) (stat' i j)"
    if "i < length (lc_datasets lc)" "j < length (dvalues (lc_datasets lc ! i))" for i j
    using part1_indexed [OF s(2), of i j] that kind len
    by (cases "j = 0") (simp_all add: s(4) part2_alone place_alone_def stat' indexed_def)
  with ne that [of labels] show thesis by blast
qed

lemma setup_ready:
  assumes "setup_Line env config data labels0 datasets0 = Some (Inr (Some lc))"
  shows "lines_ready (lc_datasets lc) (lc_statData lc)"
  unfolding lines_ready_def
proof (intro allI impI)
  fix i assume i: "i < length (lc_datasets lc)"
  obtain labels e0 e where e: "indexed (value_totals (lc_datasets lc)) ''Line'' i 0 e" "oget e ''tpchart'' = Str ''Line''"
      "lc_statData lc i 0 = place_point (ce_lg env) (lc_config lc) ''Line'' data labels (lc_vars lc) (lc_datasets lc ! i) 0
             (dvalues (lc_datasets lc ! i) ! 0) e0 e" and ne: "dvalues (lc_datasets lc ! i) \<noteq> []"
    using setup_entry [OF assms] i by (metis length_greater_0_conv nth_mem)
  let ?t = "value_totals (lc_datasets lc)"
  have "oget (lc_statData lc i 0) ''tpchart'' = Str ''Line''" "oget (lc_statData lc i 0) ''firstNotMissing'' = IntV (vt_firsti ?t i)"
      "oget (lc_statData lc i 0) ''lastNotMissing'' = IntV (vt_lasti ?t i)"
    using e(1,2) unfolding e(3) by (simp_all add: place_point_keeps indexed_def first_index_def last_index_def)
  with ne value_totals_ends [of "lc_datasets lc"] i show "dvalues (lc_datasets lc ! i) \<noteq> []
      \<and> oget (lc_statData lc i 0) ''tpchart'' = Str ''Line''
      \<and> (\<exists>f l. num_at (lc_statData lc i 0) ''firstNotMissing'' = Fin (of_int f) \<and> num_at (lc_statData lc i 0) ''lastNotMissing'' = Fin (of_int l)
             \<and> ends_of (dvalues (lc_datasets lc ! i)) f l)"
    by (auto simp: num_at_def)
qed

text \<open>A data set on the first axis whose values are finite and on the scale from \<open>g\<close> to \<open>g + n * s\<close>.\<close>

definition on_scale :: "real \<Rightarrow> real \<Rightarrow> obj \<Rightarrow> bool" where
  "on_scale lo hi ds =
     (axis_index ds \<noteq> 0 \<and> oget ds ''xPos'' = Undef
      \<and> (\<forall>v \<in> set (dvalues ds). v \<noteq> Undef \<longrightarrow> (case to_number v of Fin x \<Rightarrow> lo \<le> x \<and> x \<le> hi | _ \<Rightarrow> False)))"

text \<open>The axes of a chart: \<open>n\<close> steps of \<open>s\<close> from \<open>g\<close>, \<open>h\<close> pixels per step above \<open>y0\<close>, and \<open>w\<close> pixels per position right of \<open>x0\<close>.\<close>

definition axes_at :: "othervars \<Rightarrow> real \<Rightarrow> real \<Rightarrow> real \<Rightarrow> real \<Rightarrow> real \<Rightarrow> real \<Rightarrow> real \<Rightarrow> real \<Rightarrow> bool" where
  "axes_at ov n s g h x0 w y0 z =
     (linear_axis (ov_scale ov) (ov_logarithmic ov) (ov_scaleHop ov) n s g h \<and> ov_yAxisPosX ov = Fin x0 \<and> ov_valueHop ov = Fin w
      \<and> ov_xAxisPosY ov = Fin y0 \<and> ov_zeroY ov = Fin z)"

text \<open>The graph of a data set in these axes.\<close>

definition graph_of :: "real \<Rightarrow> real \<Rightarrow> real \<Rightarrow> real \<Rightarrow> real \<Rightarrow> real \<Rightarrow> obj \<Rightarrow> point list" where
  "graph_of s g h x0 w y0 ds =
     map (\<lambda>j. (Fin (x0 + w * of_nat j), Fin (y0 - (fin_val (to_number (aget (dvalues ds) j)) - g) / s * h))) (given_at (dvalues ds))"

lemma point_fields:
  assumes "v \<noteq> Undef" "axis_index ds \<noteq> 0" "oget ds ''xPos'' = Undef" "axes_at ov n s g h x0 w y0 z" "to_number v = Fin x" "g \<le> x" "x \<le> g + n * s"
  shows "num_at (place_point lg config ''Line'' data labels ov ds j v e0 e) ''xPos'' = Fin (x0 + w * of_nat j)"
    "num_at (place_point lg config ''Line'' data labels ov ds j v e0 e) ''yAxisPos'' = Fin (y0 - z)"
    "num_at (place_point lg config ''Line'' data labels ov ds j v e0 e) ''yPosOffset'' = Fin ((x - g) / s * h - z)"
proof -
  obtain off where off: "calculateOffset lg (ov_logarithmic ov) (Fin x) (ov_scale ov) (ov_scaleHop ov) = Fin off" "off = (x - g) / s * h"
    using linear_axis_offset [of "ov_scale ov" "ov_logarithmic ov" "ov_scaleHop ov" n s g h lg x] assms(4,6,7) by (auto simp: axes_at_def)
  show "num_at (place_point lg config ''Line'' data labels ov ds j v e0 e) ''xPos'' = Fin (x0 + w * of_nat j)"
    using assms by (simp add: num_at_def place_point_def Let_def oget_copy_attrs xPos_def axes_at_def zero_jsnum_def)
  show "num_at (place_point lg config ''Line'' data labels ov ds j v e0 e) ''yAxisPos'' = Fin (y0 - z)"
    using assms by (simp add: num_at_def place_point_def Let_def oget_copy_attrs axes_at_def)
  show "num_at (place_point lg config ''Line'' data labels ov ds j v e0 e) ''yPosOffset'' = Fin ((x - g) / s * h - z)"
    using assms off by (simp add: num_at_def place_point_def Let_def oget_copy_attrs axes_at_def)
qed

lemma base_fields:
  assumes "axis_index ds \<noteq> 0" "axes_at ov n s g h x0 w y0 z"
  shows "num_at (place_point lg config ''Line'' data labels ov ds j v e0 e) ''xAxisPosY'' = Fin y0"
    "num_at (place_point lg config ''Line'' data labels ov ds j v e0 e) ''zeroY'' = Fin z"
  using assms by (cases "v = Undef"; simp add: num_at_def place_point_def Let_def oget_copy_attrs axes_at_def)+

text \<open>The line through the points, closed over the level \<open>base\<close> when the area below it is filled.\<close>

definition closed_graph :: "bool \<Rightarrow> real \<Rightarrow> point list \<Rightarrow> canvas_op list" where
  "closed_graph fill base pts =
     polyline pts @ (if fill \<and> pts \<noteq> [] then [LineTo (fst (last pts)) (Fin base), LineTo (fst (hd pts)) (Fin base)] else [])"

lemma dvalues_pad: "\<exists>k. dvalues (pad_dataset tp labels ds) = dvalues ds @ replicate k Undef"
  unfolding dvalues_def [of "pad_dataset tp labels ds"] by (simp add: pad_dataset_def Let_def)

lemma given_at_pad: "given_at (dvalues (pad_dataset tp labels ds)) = given_at (dvalues ds)"
proof -
  obtain k where "dvalues (pad_dataset tp labels ds) = dvalues ds @ replicate k Undef" using dvalues_pad by blast
  then have "given_at (dvalues (pad_dataset tp labels ds)) = filter (\<lambda>j. aget (dvalues ds) j \<noteq> Undef) [0..<length (dvalues ds) + k]"
    by (simp add: given_at_def)
  moreover have "filter (\<lambda>j. aget (dvalues ds) j \<noteq> Undef) [length (dvalues ds)..<length (dvalues ds) + k] = []"
    using aget_length [of "dvalues ds"] by (fastforce simp: filter_empty_conv)
  ultimately show ?thesis by (simp add: given_at_def upt_add_eq_append [of 0])
qed

lemma oget_pad: "key \<noteq> ''data'' \<Longrightarrow> oget (pad_dataset tp labels ds) key = oget ds key"
  by (simp add: pad_dataset_def Let_def)

lemma pad_facts:
  "graph_of s g h x0 w y0 (pad_dataset tp labels ds) = graph_of s g h x0 w y0 ds"
  "styles_given config (pad_dataset tp labels ds) = styles_given config ds"
  "on_scale lo hi ds \<Longrightarrow> on_scale lo hi (pad_dataset tp labels ds)"
proof -
  show "graph_of s g h x0 w y0 (pad_dataset tp labels ds) = graph_of s g h x0 w y0 ds"
    by (simp add: graph_of_def given_at_pad pad_dataset_same)
  show "styles_given config (pad_dataset tp labels ds) = styles_given config ds" by (simp add: styles_given_def oget_pad)
  show "on_scale lo hi (pad_dataset tp labels ds)" if "on_scale lo hi ds"
    using that dvalues_pad [of tp labels ds] by (auto simp: on_scale_def pad_dataset_same oget_pad)
qed

lemma graph_drawn:
  assumes "setup_Line env config data labels datasets = Some (Inr (Some lc))" "axes_at (lc_vars lc) n s g h x0 w y0 z"
    and "i < length (lc_datasets lc)" "ds = lc_datasets lc ! i" "on_scale g (g + n * s) ds"
  shows "graph_path (lc_config lc) (lc_datasets lc) (lc_statData lc) i
     = closed_graph (to_bool (oget (lc_config lc) ''datasetFill'')) (y0 - z) (graph_of s g h x0 w y0 ds)"
proof -
  obtain labels' where entry: "\<And>j. j < length (dvalues ds) \<Longrightarrow> \<exists>e0 e. lc_statData lc i j =
      place_point (ce_lg env) (lc_config lc) ''Line'' data labels' (lc_vars lc) ds j (dvalues ds ! j) e0 e"
    and ne: "dvalues ds \<noteq> []" using setup_entry [OF assms(1)] assms(3,4) by (metis nth_mem)
  have ax: "axis_index ds \<noteq> 0" "oget ds ''xPos'' = Undef" using assms(5) by (simp_all add: on_scale_def)
  have base: "num_at (lc_statData lc i j) ''xAxisPosY'' = Fin y0" "num_at (lc_statData lc i j) ''zeroY'' = Fin z" if "j < length (dvalues ds)" for j
    using entry [OF that] base_fields [OF ax(1) assms(2)] by auto
  have pt: "(num_at e ''xPos'', num_at e ''yAxisPos'' - Fin 1 * num_at e ''yPosOffset'')
      = (Fin (x0 + w * of_nat j), Fin (y0 - (fin_val (to_number (aget (dvalues ds) j)) - g) / s * h))"
    if "j \<in> set (given_at (dvalues ds))" "e = lc_statData lc i j" for j e
  proof -
    note e = that(2)
    have j: "j < length (dvalues ds)" "dvalues ds ! j \<noteq> Undef" "aget (dvalues ds) j = dvalues ds ! j" using that by (auto simp: given_at_def aget_def)
    then obtain x where x: "to_number (dvalues ds ! j) = Fin x" "g \<le> x" "x \<le> g + n * s"
      using assms(5) nth_mem [OF j(1)] unfolding on_scale_def by (cases "to_number (dvalues ds ! j)") force+
    obtain e0 e1 where "e = place_point (ce_lg env) (lc_config lc) ''Line'' data labels' (lc_vars lc) ds j (dvalues ds ! j) e0 e1"
      using entry [OF j(1)] e by auto
    with point_fields [OF j(2) ax assms(2) x] x(1) j(3) show ?thesis by (simp add: diff_diff_eq2)
  qed
  have pts: "graph_points (lc_datasets lc) (lc_statData lc) i = graph_of s g h x0 w y0 ds"
    unfolding graph_points_def graph_of_def assms(4) [symmetric] Let_def by (intro map_cong refl pt)
  have "hd (given_at (dvalues ds)) < length (dvalues ds)" if "given_at (dvalues ds) \<noteq> []"
    using hd_in_set [OF that] by (simp add: given_at_def)
  then show ?thesis
    using base ne unfolding graph_path_def Let_def pts closed_graph_def below_graph_def assms(4) [symmetric]
    by (auto simp: graph_of_def)
qed

lemma lines_drawn:
  assumes "setup_Line env config data labels datasets = Some (Inr (Some lc))" "fold max (map (length \<circ> dvalues) datasets) 0 \<noteq> 1"
    and "plain_lines (lc_config lc) datasets" "axes_at (lc_vars lc) n s g h x0 w y0 z" "\<forall>ds \<in> set datasets. on_scale g (g + n * s) ds"
  shows "\<exists>ops annots. drawLines pe lc (Fin 1) = Inr (ops, annots)
     \<and> path_of ops = concat (map (\<lambda>ds. closed_graph (to_bool (oget (lc_config lc) ''datasetFill'')) (y0 - z) (graph_of s g h x0 w y0 ds)) datasets)"
proof -
  have "adapt_single labels datasets = (labels, datasets)" using assms(2) by (simp add: adapt_single_def)
  then obtain stat where "(lc_datasets lc, stat) = initPassVariableData_values (pe_numstr (ce_paint env)) (ce_perso env) config ''Line'' labels datasets"
    using setup_LineE [OF assms(1)] by (metis prod.inject)
  then have lc: "lc_datasets lc = map (pad_dataset ''Line'' labels) datasets" by (simp add: initPassVariableData_values_def Let_def)
  have "plain_lines (lc_config lc) (lc_datasets lc)" using assms(3) by (simp add: plain_lines_def lc pad_facts)
  from datasets_painted [OF this setup_ready [OF assms(1)], of "[0..<length datasets]" pe "lc_vars lc"] lc
  obtain st' shapes where st': "paint_datasets pe (lc_config lc) (lc_vars lc) (lc_datasets lc) (lc_statData lc) (Fin 1) [0..<length datasets]
      (\<lparr> ll_pts = [], ll_prev = \<lparr> pc_main = 0, pc_sub = 0, pc_anim = 0 \<rparr>, ll_firstpt = - 1, ll_lastxPos = - 1, ll_ops = [] \<rparr>, []) = Inr (st', shapes)"
      "path_of (ll_ops st') = concat (map (graph_path (lc_config lc) (lc_datasets lc) (lc_statData lc)) [0..<length datasets])"
    by fastforce
  have "graph_path (lc_config lc) (lc_datasets lc) (lc_statData lc) i
      = closed_graph (to_bool (oget (lc_config lc) ''datasetFill'')) (y0 - z) (graph_of s g h x0 w y0 (datasets ! i))" if "i < length datasets" for i
    using graph_drawn [OF assms(1,4), of i "lc_datasets lc ! i"] that assms(5) by (simp add: lc pad_facts)
  then have "map (graph_path (lc_config lc) (lc_datasets lc) (lc_statData lc)) [0..<length datasets]
      = map (\<lambda>ds. closed_graph (to_bool (oget (lc_config lc) ''datasetFill'')) (y0 - z) (graph_of s g h x0 w y0 ds)) datasets"
    by (intro nth_equalityI) simp_all
  with st' show ?thesis by (simp add: drawLines_def drawLinesDataset_def lc)
qed

text \<open>C14: From the data to the canvas: the path that the last frame of a line chart paints is, data set by data set, the graph
  of the data in the axes of the chart, every given value at its position and height, with the values that
  are missing left out; a filled area is closed over the level of zero.\<close>

theorem line_chart_drawn:
  assumes "setup_Line env config data labels datasets = Some (Inr (Some lc))" "fold max (map (length \<circ> dvalues) datasets) 0 \<noteq> 1"
    and "plain_lines (lc_config lc) datasets" "axes_at (lc_vars lc) n s g h x0 w y0 z" "\<forall>ds \<in> set datasets. on_scale g (g + n * s) ds"
  shows "\<exists>ops annots. drawLines pe lc (Fin 1) = Inr (ops, annots)
     \<and> path_of ops = concat (map (\<lambda>ds. closed_graph (to_bool (oget (lc_config lc) ''datasetFill'')) (y0 - z) (graph_of s g h x0 w y0 ds)) datasets)"
  using assms by (rule lines_drawn)

section \<open>When a chart can be set up\<close>

text \<open>Measures that are finite numbers.\<close>

definition finite_measures :: "measures \<Rightarrow> bool" where
  "finite_measures m = (is_fin (m_availableHeight m) \<and> is_fin (m_availableWidth m) \<and> is_fin (m_leftNotUsableSize m) \<and> is_fin (m_topNotUsableSize m))"

definition finite_ticks :: "ctx_scales \<Rightarrow> obj \<Rightarrow> bool" where
  "finite_ticks cs config = (\<forall>side \<in> {''Bottom'', ''Top'', ''Left'', ''Right''}. is_fin (scaled (sc_line cs) config (''scaleTickSize'' @ side)))"

lemma setup_Line_returns:
  assumes "adapt_single labels0 datasets0 = (labels, datasets)" "padded = map (pad_dataset ''Line'' labels) datasets" "\<forall>ds \<in> set padded. dvalues ds \<noteq> []"
    and "vb = getValueBounds_Line (ce_option env) (ce_deviation env) config (ce_text env) (m_availableHeight msr) (map as_dataset padded)"
    and "config' = line_config (ce_lg env) vb config" "maxSteps vb > 0" "minSteps vb > 0"
    and "line_scale (pe_call (ce_paint env)) (ce_lg env) (pe_numstr (ce_paint env)) (ce_perso env) (ce_tmpl env) 1 vb config' = Some (Inr (Some sc))"
    and "line_scale (pe_call (ce_paint env)) (ce_lg env) (pe_numstr (ce_paint env)) (ce_perso env) (ce_tmpl env) 2 vb config' = Some (Inr (Some sc2))"
    and "line_layout env config labels padded (Str ''nihil'') (Arr [Str []]) = Inr msr" "scale_labels vb sc sc2 = (yl, yl2)"
    and "line_layout env config' labels padded yl yl2 = Inr msr2"
  shows "\<exists>lc. setup_Line env config data labels0 datasets0 = Some (Inr (Some lc)) \<and> lc_config lc = config'
     \<and> lc_vars lc = snd (line_measures (ce_lg env) (pe_scales (ce_paint env)) config' (length labels) vb sc sc2 msr2)"
proof -
  obtain stat where stat: "initPassVariableData_values (pe_numstr (ce_paint env)) (ce_perso env) config ''Line'' labels datasets = (padded, stat)"
    by (simp add: initPassVariableData_values_def Let_def assms(2))
  obtain stat' where mark: "mark_lines padded stat = Inr stat'" using assms(3) by (auto simp: mark_lines_def)
  show ?thesis
    unfolding setup_Line_def assms(1) Let_def prod.case stat mark sum.case assms(10) assms(4) [symmetric] assms(5) [symmetric] assms(8,9,11,12) option.case
    using assms(6,7) by (simp add: assms(11,12) split: prod.splits)
qed

lemma line_measures_axes:
  assumes "finite_measures msr" "finite_ticks cs config" "2 \<le> labels" "s_steps sc = Fin n" "s_stepValue sc = Fin s" "s_graphMin sc = Fin g" "0 < n" "0 < s"
    and "\<not> to_bool (oget config ''logarithmic'')" "ov = snd (line_measures lg cs config labels vb sc sc2 msr)"
    and "m_availableHeight msr \<ge> scaled (sc_line cs) config ''scaleTickSizeBottom'' + scaled (sc_line cs) config ''scaleTickSizeTop''"
  shows "\<exists>h x0 w y0 z. axes_at ov n s g h x0 w y0 z \<and> (g = 0 \<longrightarrow> z = 0)"
proof -
  obtain H W L T where m: "m_availableHeight msr = Fin H" "m_availableWidth msr = Fin W" "m_leftNotUsableSize msr = Fin L" "m_topNotUsableSize msr = Fin T"
    using assms(1) by (auto simp: finite_measures_def elim!: is_finE)
  obtain tb tt tl tr where t: "scaled (sc_line cs) config ''scaleTickSizeBottom'' = Fin tb" "scaled (sc_line cs) config ''scaleTickSizeTop'' = Fin tt"
      "scaled (sc_line cs) config ''scaleTickSizeLeft'' = Fin tl" "scaled (sc_line cs) config ''scaleTickSizeRight'' = Fin tr"
    using assms(2) by (auto simp: finite_ticks_def elim!: is_finE)
  let ?h = "of_int \<lfloor>(H - tb - tt) / n\<rfloor> :: real"
  have "0 \<le> (H - tb - tt) / n" using assms(7,11) by (simp add: m t)
  then have h: "0 \<le> ?h" by simp
  have hop: "ov_scaleHop ov = Fin ?h" using assms(4,7) by (simp add: assms(10) line_measures_def Let_def m t)
  have lin: "linear_axis (ov_scale ov) (ov_logarithmic ov) (ov_scaleHop ov) n s g ?h"
    unfolding linear_axis_def hop using assms(4-9) h by (simp add: assms(10) line_measures_def Let_def)
  have z: "\<exists>z. ov_zeroY ov = Fin z \<and> (g = 0 \<longrightarrow> z = 0)"
  proof (cases "vb_min vb < 0")
    case True
    have "ov_zeroY ov = calculateOffset lg (ov_logarithmic ov) (Fin 0) (ov_scale ov) (ov_scaleHop ov)"
      using True by (simp add: assms(10) line_measures_def Let_def zero_jsnum_def)
    then show ?thesis using linear_axis_offset [OF lin, of lg 0] assms(7,8) by auto
  qed (simp add: assms(10) line_measures_def Let_def zero_jsnum_def)
  have "\<exists>w. ov_valueHop ov = Fin w" "\<exists>y0. ov_xAxisPosY ov = Fin y0" "\<exists>x0. ov_yAxisPosX ov = Fin x0"
    using assms(3,4,7) by (simp_all add: assms(10) line_measures_def Let_def m t)
  with lin z show ?thesis unfolding axes_at_def by blast
qed

text \<open>A chart of two values that are on the scale from 0 to 10, with one missing between them.\<close>

definition plot_head :: obj where
  "plot_head =
     [(''scaleOverride'', Bool True), (''scaleStartValue'', NumF 0), (''scaleSteps'', NumF 2), (''scaleStepWidth'', NumF 5),
      (''scaleShowLabels'', Bool False), (''logarithmic'', Bool False), (''logarithmic2'', Bool False), (''scaleFontSize'', NumF 12),
      (''bezierCurve'', Bool False), (''extrapolateMissingData'', Bool True), (''pointDot'', Bool False), (''datasetFill'', Bool True),
      (''scaleTickSizeBottom'', NumF 5), (''scaleTickSizeTop'', NumF 5), (''scaleTickSizeLeft'', NumF 5), (''scaleTickSizeRight'', NumF 5),
      (''graphTitle'', Str []), (''graphSubTitle'', Str []), (''yAxisUnit'', Str []), (''footNote'', Str []), (''spaceLeft'', NumF 35), (''spaceTop'', NumF 20)]"

definition plot_config :: obj where
  "plot_config = plot_head @ map (\<lambda>k. (k, NumF 0)) (size_options @ axis_size_options)"

definition plot_env :: chart_env where
  "plot_env = \<lparr> ce_paint = plain_paint, ce_lg = (\<lambda>_. Fin 0), ce_perso = (\<lambda>_ v _. v), ce_tmpl = (\<lambda>_ _. []), ce_option = (\<lambda>_. Undef),
     ce_deviation = (\<lambda>_. Fin 0), ce_text = Fin 1, ce_measure = (\<lambda>_ _. Fin 10), ce_height = Fin 230, ce_width = Fin 345 \<rparr>"

definition plot_data :: "obj list" where
  "plot_data = [[(''data'', Arr [NumF 2, Undef, NumF 7])]]"

text \<open>The layout of this chart, which has no texts around it.\<close>

definition own_keys :: "string list" where
  "own_keys = [''logarithmic'', ''logarithmic2'', ''barValueSpacing'', ''barDatasetSpacing'', ''barStrokeWidth'', ''scaleGridLineWidth'', ''spaceBetweenBar'']"

definition plain_layout :: "obj \<Rightarrow> bool" where
  "plain_layout cfg = (\<forall>k. k \<notin> set own_keys \<longrightarrow> oget cfg k = oget plot_config k)"

lemma oget_append: "oget (xs @ ys) k = (if k \<in> fst ` set xs then oget xs k else oget ys k)"
proof (induction xs)
  case (Cons p xs)
  then show ?case by (cases p) simp
qed simp

lemma plot_config_head: "k \<in> fst ` set plot_head \<Longrightarrow> oget plot_config k = oget plot_head k"
  by (simp add: plot_config_def oget_append)

lemma plot_config_size:
  assumes "k \<in> set size_options \<or> k \<in> set axis_size_options" "k \<notin> fst ` set plot_head"
  shows "oget plot_config k = NumF 0"
proof -
  have zero: "oget (map (\<lambda>k. (k, NumF 0)) ks) k = NumF 0" if "k \<in> set ks" for ks using that by (induction ks) auto
  have "k \<in> set (size_options @ axis_size_options)" using assms(1) by simp
  from zero [OF this] assms(2) show ?thesis by (simp add: plot_config_def oget_append)
qed

lemma plot_config_other:
  assumes "k \<notin> set size_options" "k \<notin> set axis_size_options" "k \<notin> fst ` set plot_head"
  shows "oget plot_config k = Undef"
proof -
  have "k \<notin> fst ` set (map (\<lambda>k. (k, NumF 0)) (size_options @ axis_size_options))" using assms(1,2) by auto
  from oget_notin [OF this] assms(3) show ?thesis by (simp add: plot_config_def oget_append)
qed

lemma plot_unset:
  assumes "k \<in> set [''canvasBorders'', ''yAxisLabel'', ''xAxisLabel'', ''yAxisLeft'', ''yAxisRight'', ''yAxisUnitBorders'', ''xAxisBottom'', ''xAxisTop'', ''legend'',
    ''showSingleLegend'', ''bezierCurveTension'', ''annotateDisplay'', ''fullWidthGraph'', ''datasetStrokeStyle'', ''defaultFillColor'', ''defaultStrokeColor'']"
  shows "oget plot_config k = Undef"
proof -
  have "list_all (\<lambda>k. k \<notin> set size_options \<and> k \<notin> set axis_size_options \<and> k \<notin> set (map fst plot_head))
    [''canvasBorders'', ''yAxisLabel'', ''xAxisLabel'', ''yAxisLeft'', ''yAxisRight'', ''yAxisUnitBorders'', ''xAxisBottom'', ''xAxisTop'', ''legend'',
     ''showSingleLegend'', ''bezierCurveTension'', ''annotateDisplay'', ''fullWidthGraph'', ''datasetStrokeStyle'', ''defaultFillColor'', ''defaultStrokeColor'']"
    by code_simp
  with assms show ?thesis by (intro plot_config_other) (auto simp only: list_all_iff set_map)
qed

lemma plot_px:
  assumes "plain_layout cfg" "k \<in> set size_options \<or> k \<in> set axis_size_options" "k \<notin> fst ` set plot_head"
  shows "space_px (layout_of plot_env) cfg k = Fin 0" "line_px (layout_of plot_env) cfg k = Fin 0" "text_px (layout_of plot_env) cfg k = Fin 0"
proof -
  have "list_all (\<lambda>k. k \<in> set (map fst plot_head) \<or> k \<notin> set size_options \<and> k \<notin> set axis_size_options) own_keys" by code_simp
  then have "k \<notin> set own_keys" using assms(2,3) by (auto simp: list_all_iff)
  then have "oget cfg k = NumF 0" using assms plot_config_size [OF assms(2,3)] by (simp add: plain_layout_def)
  then show "space_px (layout_of plot_env) cfg k = Fin 0" "line_px (layout_of plot_env) cfg k = Fin 0" "text_px (layout_of plot_env) cfg k = Fin 0"
    by (simp_all add: space_px_def line_px_def text_px_def scaled_def layout_of_def plot_env_def plain_paint_def plain_scales_def)
qed


lemma plot_texts:
  assumes "plain_layout cfg"
  shows "\<exists>lay. layout_texts (layout_of plot_env) cfg h w False True ls = Inr lay \<and> tl_left lay = Fin 35 \<and> tl_right lay = Fin 0 \<and> tl_top lay = Fin 20 \<and> tl_bottom lay = Fin 0"
proof -
  have c: "oget cfg k = oget plot_config k" if "k \<notin> set own_keys" for k using assms that by (simp add: plain_layout_def)
  have t: "oget cfg ''graphTitle'' = Str []" "oget cfg ''graphSubTitle'' = Str []" "oget cfg ''yAxisUnit'' = Str []" "oget cfg ''footNote'' = Str []"
      "oget cfg ''spaceLeft'' = NumF 35" "oget cfg ''spaceTop'' = NumF 20"
    by (simp_all add: c own_keys_def plot_config_head plot_head_def)
  have u: "oget cfg ''canvasBorders'' = Undef" "oget cfg ''yAxisLabel'' = Undef" "oget cfg ''xAxisLabel'' = Undef" "oget cfg ''yAxisLeft'' = Undef"
      "oget cfg ''yAxisRight'' = Undef" "oget cfg ''yAxisUnitBorders'' = Undef"
    by (simp_all add: c own_keys_def plot_unset)
  have s: "space_px (layout_of plot_env) cfg ''spaceLeft'' = Fin 35" "space_px (layout_of plot_env) cfg ''spaceTop'' = Fin 20"
    using t by (simp_all add: space_px_def scaled_def layout_of_def plot_env_def plain_paint_def plain_scales_def)
  have z: "space_px (layout_of plot_env) cfg ''spaceRight'' = Fin 0" "space_px (layout_of plot_env) cfg ''spaceBottom'' = Fin 0"
      "text_px (layout_of plot_env) cfg ''graphSpaceBefore'' = Fin 0" "text_px (layout_of plot_env) cfg ''graphSpaceAfter'' = Fin 0"
      "space_px (layout_of plot_env) cfg ''yAxisUnitBordersYSpace'' = Fin 0"
    by (simp_all add: plot_px [OF assms] plot_head_def size_options_def axis_size_options_def)
  show ?thesis
    by (simp add: layout_texts_def Let_def y_axis_label_def title_band_def unit_band_def lower_band_def text_given_def str_trim_def side_size_def
        frame_steps_def widened_def t u s z zero_jsnum_def)
qed

text \<open>The area that is left for the chart.\<close>

lemma plot_layout:
  assumes "plain_layout cfg"
  shows "\<exists>m. line_layout plot_env cfg labels datasets yl yl2 = Inr m \<and> m_leftNotUsableSize m = Fin 35 \<and> m_topNotUsableSize m = Fin 20
     \<and> m_availableWidth m = Fin 310 \<and> m_availableHeight m = Fin 210"
proof -
  have c: "oget cfg k = oget plot_config k" if "k \<notin> set own_keys" for k using assms that by (simp add: plain_layout_def)
  have u: "oget cfg ''xAxisBottom'' = Undef" "oget cfg ''xAxisTop'' = Undef" "oget cfg ''legend'' = Undef" "oget cfg ''showSingleLegend'' = Undef" "oget cfg ''footNote'' = Str []"
    by (simp_all add: c own_keys_def plot_unset) (simp add: plot_config_head plot_head_def)
  show ?thesis
    using plot_texts [OF assms, of "ce_height plot_env" "ce_width plot_env" "label_sizes_of (layout_of plot_env) cfg labels yl yl2 True"]
    by (auto simp: line_layout_def setMeasures_def Let_def layout_legend_def legend_texts_def legend_drawn_def layout_labels_def u text_given_def)
      (simp_all add: plot_env_def)
qed

lemma choose_logarithmic_other: "k \<noteq> logKey \<Longrightarrow> oget (choose_logarithmic lg logKey overrideKey b a config) k = oget config k"
  by (simp add: choose_logarithmic_def Let_def)

lemma choose_logarithmic_override:
  "to_bool (oget config overrideKey) \<Longrightarrow> logKey \<noteq> overrideKey
     \<Longrightarrow> oget (choose_logarithmic lg logKey overrideKey b a config) logKey = Bool False"
  by (simp add: choose_logarithmic_def Let_def)

lemma line_config_other: "k \<noteq> ''logarithmic'' \<Longrightarrow> k \<noteq> ''logarithmic2'' \<Longrightarrow> oget (line_config lg vb config) k = oget config k"
  by (simp add: line_config_def choose_logarithmic_other)

lemma line_config_override:
  "to_bool (oget config ''scaleOverride'') \<Longrightarrow> oget (line_config lg vb config) ''logarithmic'' = Bool False"
  by (simp add: line_config_def choose_logarithmic_other choose_logarithmic_override)

text \<open>Without a data set on axis 2 there is no second scale.\<close>

lemma no_second_axis:
  assumes "\<forall>ds \<in> set datasets. axis_index ds \<noteq> 0"
  shows "\<not> dbAxis (getValueBounds_Line call deviation config scale height (map as_dataset datasets))"
proof -
  have "\<not> secondAxis (fold (track_dataset deviation) (enumerate 0 (map as_dataset datasets)) a)" if "\<not> secondAxis a" for a
    using assms that
  proof (induction datasets rule: rev_induct)
    case (snoc ds dss)
    then show ?case by (auto simp: enumerate_snoc track_dataset_def Let_def on_second_def as_dataset_def axis_index_def split: if_splits)
  qed simp
  then show ?thesis by (simp add: getValueBounds_Line_def Let_def two_axes_def)
qed

lemma plot_setup:
  assumes "adapt_single labels0 datasets0 = (labels, datasets)" "padded = map (pad_dataset ''Line'' labels) datasets"
    and "\<forall>ds \<in> set padded. dvalues ds \<noteq> [] \<and> axis_index ds \<noteq> 0"
  obtains lc vb m where "setup_Line plot_env plot_config data labels0 datasets0 = Some (Inr (Some lc))" "plain_layout (lc_config lc)"
    "oget (lc_config lc) ''logarithmic'' = Bool False"
    "m_leftNotUsableSize m = Fin 35" "m_topNotUsableSize m = Fin 20" "m_availableWidth m = Fin 310" "m_availableHeight m = Fin 210"
    "lc_vars lc = snd (line_measures (ce_lg plot_env) plain_scales (lc_config lc) (length labels) vb
       \<lparr> s_steps = Fin 2, s_stepValue = Fin 5, s_graphMin = Fin 0, s_labels = [], s_maxValue = Fin 10 \<rparr> no_scale m)"
proof -
  have "plain_layout plot_config" by (simp add: plain_layout_def)
  from plot_layout [OF this] obtain msr where msr: "line_layout plot_env plot_config labels padded (Str ''nihil'') (Arr [Str []]) = Inr msr"
      "m_availableHeight msr = Fin 210" by metis
  define vb where "vb = getValueBounds_Line (ce_option plot_env) (ce_deviation plot_env) plot_config (ce_text plot_env)
      (m_availableHeight msr) (map as_dataset padded)"
  define cfg where "cfg = line_config (ce_lg plot_env) vb plot_config"
  have "oget plot_config ''scaleFontSize'' = NumF 12" by (simp add: plot_config_head plot_head_def)
  then have room: "maxSteps vb > 0" "minSteps vb > 0"
    by (simp_all add: vb_def getValueBounds_Line_def Let_def max_steps_def min_steps_def label_height_def msr(2) plot_env_def zero_jsnum_def)
  have one: "\<not> dbAxis vb" unfolding vb_def using assms(3) by (intro no_second_axis) simp
  have ne: "\<forall>ds \<in> set padded. dvalues ds \<noteq> []" using assms(3) by simp
  have plain: "plain_layout cfg" unfolding plain_layout_def cfg_def by (simp add: line_config_other own_keys_def)
  have over: "to_bool (oget plot_config ''scaleOverride'')" by (simp add: plot_config_head plot_head_def)
  then have log: "oget cfg ''logarithmic'' = Bool False" unfolding cfg_def by (rule line_config_override)
  let ?sc = "\<lparr> s_steps = Fin 2, s_stepValue = Fin 5, s_graphMin = Fin 0, s_labels = [], s_maxValue = Fin 10 \<rparr>"
  let ?scale = "\<lambda>axis. line_scale (pe_call (ce_paint plot_env)) (ce_lg plot_env) (pe_numstr (ce_paint plot_env)) (ce_perso plot_env) (ce_tmpl plot_env) axis vb cfg"
  have "oget cfg ''scaleOverride'' = Bool True" "oget cfg ''scaleShowLabels'' = Bool False" "oget cfg ''scaleSteps'' = NumF 2"
      "oget cfg ''scaleStartValue'' = NumF 0" "oget cfg ''scaleStepWidth'' = NumF 5"
    using plain by (simp_all add: plain_layout_def own_keys_def plot_config_head plot_head_def)
  then have s1: "?scale 1 = Some (Inr (Some ?sc))"
    by (simp add: line_scale_def Let_def override_scale_def setOptionValue_def rescaled_def label_template_def populateLabels_def)
  have s2: "?scale 2 = Some (Inr (Some no_scale))" using one by (simp add: line_scale_def Let_def)
  obtain yl yl2 where yl: "scale_labels vb ?sc no_scale = (yl, yl2)" by (cases "scale_labels vb ?sc no_scale")
  obtain m where m: "line_layout plot_env cfg labels padded yl yl2 = Inr m" "m_leftNotUsableSize m = Fin 35" "m_topNotUsableSize m = Fin 20"
      "m_availableWidth m = Fin 310" "m_availableHeight m = Fin 210" using plot_layout [OF plain] by metis
  obtain lc where lc: "setup_Line plot_env plot_config data labels0 datasets0 = Some (Inr (Some lc))" "lc_config lc = cfg"
      "lc_vars lc = snd (line_measures (ce_lg plot_env) (pe_scales (ce_paint plot_env)) cfg (length labels) vb ?sc no_scale m)"
    using setup_Line_returns [OF assms(1,2) ne vb_def cfg_def room s1 s2 msr(1) yl m(1)] by blast
  from that [OF lc(1) _ _ m(2-5), of vb] lc plain log show thesis by (simp add: plot_env_def plain_paint_def)
qed

lemma plot_ticks:
  assumes "plain_layout cfg" "side \<in> {''Bottom'', ''Top'', ''Left'', ''Right''}"
  shows "scaled (sc_line plain_scales) cfg (''scaleTickSize'' @ side) = Fin 5"
proof -
  have "oget cfg (''scaleTickSize'' @ side) = NumF 5"
    using assms by (auto simp: plain_layout_def own_keys_def plot_config_head plot_head_def)
  then show ?thesis by (simp add: scaled_def plain_scales_def)
qed

theorem line_chart_drawn_witness:
  "\<exists>lc ops annots. setup_Line plot_env plot_config [] [NumF 1, NumF 2, NumF 3] plot_data = Some (Inr (Some lc))
     \<and> drawLines plain_paint lc (Fin 1) = Inr (ops, annots)
     \<and> path_of ops = [MoveTo (Fin 40) (Fin 185), LineTo (Fin 340) (Fin 85), LineTo (Fin 340) (Fin 225), LineTo (Fin 40) (Fin 225)]"
proof -
  have adapt: "adapt_single [NumF 1, NumF 2, NumF 3] plot_data = ([NumF 1, NumF 2, NumF 3], plot_data)"
    by (simp add: adapt_single_def plot_data_def dvalues_def)
  have given: "\<forall>ds \<in> set (map (pad_dataset ''Line'' [NumF 1, NumF 2, NumF 3]) plot_data). dvalues ds \<noteq> [] \<and> axis_index ds \<noteq> 0"
    by (simp add: plot_data_def pad_dataset_same pad_dataset_def dvalues_def axis_index_def)
  obtain lc vb m where lc: "setup_Line plot_env plot_config [] [NumF 1, NumF 2, NumF 3] plot_data = Some (Inr (Some lc))"
      and c: "plain_layout (lc_config lc)" and log: "oget (lc_config lc) ''logarithmic'' = Bool False"
      and m: "m_leftNotUsableSize m = Fin 35" "m_topNotUsableSize m = Fin 20" "m_availableWidth m = Fin 310" "m_availableHeight m = Fin 210"
      and vars: "lc_vars lc = snd (line_measures (ce_lg plot_env) plain_scales (lc_config lc) (length [NumF 1, NumF 2, NumF 3]) vb
        \<lparr> s_steps = Fin 2, s_stepValue = Fin 5, s_graphMin = Fin 0, s_labels = [], s_maxValue = Fin 10 \<rparr> no_scale m)"
    by (rule plot_setup [OF adapt refl given, where data = "[]"])
  have drawn: "oget (lc_config lc) k = oget plot_config k" if "k \<notin> set own_keys" for k
    using c that by (simp add: plain_layout_def)
  have plain: "plain_lines (lc_config lc) plot_data" "to_bool (oget (lc_config lc) ''datasetFill'')"
    by (simp_all add: plain_lines_def styles_given_def drawn own_keys_def plot_data_def plot_unset) (simp_all add: plot_config_head plot_head_def)
  have full: "\<not> to_bool (oget (lc_config lc) ''fullWidthGraph'')"
    by (simp add: drawn own_keys_def plot_unset)
  have axes: "axes_at (lc_vars lc) 2 5 0 100 40 150 225 0"
    unfolding vars using plot_ticks [OF c] log full m
    by (simp add: axes_at_def linear_axis_def line_measures_def Let_def plot_env_def calculateOffset_def CapValue_Fin zero_jsnum_def)
  have data: "fold max (map (length \<circ> dvalues) plot_data) 0 \<noteq> 1" "\<forall>ds \<in> set plot_data. on_scale 0 (0 + 2 * 5) ds"
    by (simp_all add: plot_data_def dvalues_def on_scale_def axis_index_def)
  have graph: "map (graph_of 5 0 100 40 150 225) plot_data = [[(Fin 40, Fin 185), (Fin 340, Fin 85)]]"
    by (simp add: plot_data_def graph_of_def given_at_def dvalues_def aget_def)
  obtain ops annots where ops: "drawLines plain_paint lc (Fin 1) = Inr (ops, annots)"
      "path_of ops = concat (map (closed_graph True (225 - 0)) (map (graph_of 5 0 100 40 150 225) plot_data))"
    using line_chart_drawn [OF lc data(1) plain(1) axes data(2), of plain_paint] plain(2) by (auto simp: comp_def)
  show ?thesis
    using lc ops(1) ops(2) [unfolded graph] by (intro exI conjI) (simp_all add: closed_graph_def polyline_def)
qed

section \<open>A chart of one value\<close>

text \<open>The width that is left for the chart.\<close>

definition chart_room :: "chart_env \<Rightarrow> obj \<Rightarrow> real \<Rightarrow> bool" where
  "chart_room env config r =
     (\<forall>labels datasets yl yl2 m. line_layout env config labels datasets yl yl2 = Inr m \<longrightarrow>
        (\<exists>x. m_leftNotUsableSize m + scaled (sc_line (pe_scales (ce_paint env))) config ''scaleTickSizeLeft'' = Fin x)
        \<and> m_availableWidth m - scaled (sc_line (pe_scales (ce_paint env))) config ''scaleTickSizeLeft''
            - scaled (sc_line (pe_scales (ce_paint env))) config ''scaleTickSizeRight'' = Fin r)"

text \<open>C39: A chart of one value whose label is not a string, such as the time stamp of the first statistics, has one label
  for three positions: the distance between two positions is infinite, and so is the position of the value, which is therefore
  not visible.\<close>

theorem single_sample_at_infinity:
  assumes "setup_Line env config data [label] [ds] = Some (Inr (Some lc))" "typeof label \<noteq> ''string''" "dvalues ds = [v]" "oget ds ''xPos'' = Undef"
    and "chart_room env (lc_config lc) r" "0 < r"
  shows "ov_valueHop (lc_vars lc) = PInf \<and> num_at (lc_statData lc 0 1) ''xPos'' = PInf"
proof -
  let ?ds = "oset ''data'' (Arr [Undef, v, Undef]) ds"
  have adapt: "adapt_single [label] [ds] = ([label], [?ds])"
    using assms(2,3) by (cases label) (simp_all add: adapt_single_def aget_def)
  obtain vb sc sc2 yl yl2 m where m: "line_layout env (lc_config lc) [label] (lc_datasets lc) yl yl2 = Inr m"
      and vars: "lc_vars lc = snd (line_measures (ce_lg env) (pe_scales (ce_paint env)) (lc_config lc) 1 vb sc sc2 m)"
    using setup_vars [OF assms(1)] unfolding adapt by auto
  have room: "(\<exists>x. m_leftNotUsableSize m + scaled (sc_line (pe_scales (ce_paint env))) (lc_config lc) ''scaleTickSizeLeft'' = Fin x)
      \<and> m_availableWidth m - scaled (sc_line (pe_scales (ce_paint env))) (lc_config lc) ''scaleTickSizeLeft''
            - scaled (sc_line (pe_scales (ce_paint env))) (lc_config lc) ''scaleTickSizeRight'' = Fin r"
    using assms(5) m unfolding chart_room_def by blast
  obtain x where x: "ov_yAxisPosX (lc_vars lc) = Fin x" and hop: "ov_valueHop (lc_vars lc) = PInf"
    using room assms(6) unfolding vars by (auto simp: line_measures_def Let_def inf_of_sign_def)
  obtain stat where "(lc_datasets lc, stat) = initPassVariableData_values (pe_numstr (ce_paint env)) (ce_perso env) config ''Line'' [label] [?ds]"
    using setup_LineE [OF assms(1)] unfolding adapt by (metis prod.inject)
  then have lc: "lc_datasets lc = [pad_dataset ''Line'' [label] ?ds]" by (simp add: initPassVariableData_values_def Let_def)
  have ds: "dvalues (pad_dataset ''Line'' [label] ?ds) = [Undef, v, Undef]" "oget (pad_dataset ''Line'' [label] ?ds) ''xPos'' = Undef"
    using assms(4) by (simp_all add: pad_dataset_def Let_def dvalues_def)
  obtain labels e0 e where "lc_statData lc 0 1 = place_point (ce_lg env) (lc_config lc) ''Line'' data labels (lc_vars lc)
      (pad_dataset ''Line'' [label] ?ds) 1 v e0 e"
    using setup_entry [OF assms(1)] lc ds(1) by (metis One_nat_def length_Cons lessI list.size(3) nth_Cons_0 nth_Cons_Suc not_less_eq zero_less_Suc)
  moreover have "num_at (place_point lg c ''Line'' data labels (lc_vars lc) d 1 v e0 e) ''xPos'' = PInf" if "oget d ''xPos'' = Undef" for lg c d
    using that x hop by (cases "v = Undef"; simp add: num_at_def place_point_def Let_def oget_copy_attrs xPos_def zero_jsnum_def)
  ultimately show ?thesis using hop ds(2) by simp
qed

theorem single_sample_at_infinity_witness:
  "\<exists>lc. setup_Line plot_env plot_config [] [NumF 1] [[(''data'', Arr [NumF 2])]] = Some (Inr (Some lc))
     \<and> ov_valueHop (lc_vars lc) = PInf \<and> num_at (lc_statData lc 0 1) ''xPos'' = PInf"
proof -
  let ?ds = "oset ''data'' (Arr [Undef, NumF 2, Undef]) [(''data'', Arr [NumF 2])]"
  have adapt: "adapt_single [NumF 1] [[(''data'', Arr [NumF 2])]] = ([NumF 1], [?ds])" by (simp add: adapt_single_def dvalues_def aget_def)
  have given: "\<forall>ds \<in> set (map (pad_dataset ''Line'' [NumF 1]) [?ds]). dvalues ds \<noteq> [] \<and> axis_index ds \<noteq> 0"
    by (simp add: pad_dataset_same) (simp add: pad_dataset_def dvalues_def axis_index_def)
  obtain lc where lc: "setup_Line plot_env plot_config [] [NumF 1] [[(''data'', Arr [NumF 2])]] = Some (Inr (Some lc))"
      and c: "plain_layout (lc_config lc)"
    by (rule plot_setup [OF adapt refl given, where data = "[]"])
  have "chart_room plot_env (lc_config lc) 300"
    unfolding chart_room_def
  proof (intro allI impI)
    fix labels datasets yl yl2 m assume "line_layout plot_env (lc_config lc) labels datasets yl yl2 = Inr m"
    then have m: "m_leftNotUsableSize m = Fin 35" "m_availableWidth m = Fin 310"
      using plot_layout [OF c, of labels datasets yl yl2] by auto
    have "pe_scales (ce_paint plot_env) = plain_scales" by (simp add: plot_env_def plain_paint_def)
    with m show "(\<exists>x. m_leftNotUsableSize m + scaled (sc_line (pe_scales (ce_paint plot_env))) (lc_config lc) ''scaleTickSizeLeft'' = Fin x)
        \<and> m_availableWidth m - scaled (sc_line (pe_scales (ce_paint plot_env))) (lc_config lc) ''scaleTickSizeLeft''
            - scaled (sc_line (pe_scales (ce_paint plot_env))) (lc_config lc) ''scaleTickSizeRight'' = Fin 300"
      using plot_ticks [OF c, of "''Left''"] plot_ticks [OF c, of "''Right''"] by simp
  qed
  from single_sample_at_infinity [OF lc _ _ _ this] lc show ?thesis by (simp add: dvalues_def)
qed

end
