(* ===== verification/LayoutDefaults.thy ===== *)
theory LayoutDefaults
  imports ChartLayout PageOptions
begin

text \<open>
  The default options of all nine charts are well-typed for the layout: every option that \<open>setMeasures\<close> reads as a size
  is a number that is not negative, and every text is a string.  The tables are evaluated; to keep this short, a key is
  first told apart from the keys of a table by its first six characters.
\<close>

section \<open>Looking keys up\<close>

definition heads_free :: "string list \<Rightarrow> obj \<Rightarrow> bool" where
  "heads_free hs ps = list_all (\<lambda>p. \<not> List.member hs (take 6 (fst p))) ps"

lemma heads_free_notin: "heads_free hs ps \<Longrightarrow> take 6 k \<in> set hs \<Longrightarrow> k \<notin> fst ` set ps"
  by (auto simp: heads_free_def list_all_iff)

lemma heads_free_last: "heads_free hs ps \<Longrightarrow> take 6 k \<in> set hs \<Longrightarrow> find_last acc k ps = acc"
  by (simp add: find_last_notin heads_free_notin)

definition found_typed :: "obj \<Rightarrow> (string \<times> (jsval \<Rightarrow> bool)) list \<Rightarrow> bool" where
  "found_typed ps ts = list_all (\<lambda>t. snd t (find_last Undef (fst t) ps)) ts"

lemma found_typed_at:
  assumes "found_typed ps ts" "(k, P) \<in> set ts" "\<not> P Undef"
  shows "P (find_last acc k ps)"
proof -
  have "P (find_last Undef k ps)" using assms(1,2) by (auto simp: found_typed_def list_all_iff)
  moreover from this assms(3) have "k \<in> fst ` set ps" using find_last_notin by metis
  ultimately show ?thesis using find_last_keys by metis
qed

section \<open>The tables\<close>

definition common_heads :: "string list" where
  "common_heads = [''canvas'', ''graphT'', ''graphS'', ''footNo'', ''legend'', ''maxLeg'']"

definition axis_heads :: "string list" where
  "axis_heads = [''xScale'', ''yScale'', ''yAxisF'', ''yAxisL'', ''yAxisS'', ''yAxisU'', ''xAxisF'', ''xAxisL'', ''xAxisS'']"

definition space_types :: "(string \<times> (jsval \<Rightarrow> bool)) list" where
  "space_types = map (\<lambda>k. (k, is_size_value)) (take 4 size_options)"

definition common_types :: "(string \<times> (jsval \<Rightarrow> bool)) list" where
  "common_types = map (\<lambda>k. (k, is_size_value)) (drop 4 size_options)
     @ [(''graphTitle'', is_string), (''graphSubTitle'', is_string), (''footNote'', is_string), (''maxLegendCols'', is_columns)]"

definition axis_types :: "(string \<times> (jsval \<Rightarrow> bool)) list" where
  "axis_types = map (\<lambda>k. (k, is_size_value)) (drop 1 axis_size_options) @ [(''yAxisUnit'', is_string), (''yAxisLabel'', is_string), (''xAxisLabel'', is_string)]"

definition type_types :: "(string \<times> (jsval \<Rightarrow> bool)) list" where
  "type_types = [(''scaleFontSize'', is_size_value), (''rotateLabels'', is_angle)]"

lemma layout_common: "found_typed commonOptions_layout common_types"
  by code_simp

lemma behaviour_free: "heads_free common_heads commonOptions_behaviour"
  by code_simp

lemma behaviour_spaces: "found_typed commonOptions_behaviour space_types"
  by code_simp

lemma common_free: "heads_free axis_heads commonOptions_layout" "heads_free axis_heads commonOptions_behaviour"
  by code_simp+

lemma found_literal: "found_typed (obj_literal ps) ts \<longleftrightarrow> found_typed ps ts"
  by (simp add: found_typed_def find_last_obj_literal)

lemma free_literal: "heads_free hs (obj_literal ps) \<longleftrightarrow> heads_free hs ps"
proof -
  have "heads_free hs qs \<longleftrightarrow> (\<forall>k \<in> fst ` set qs. take 6 k \<notin> set hs)" for qs
    by (auto simp: heads_free_def list_all_iff)
  then show ?thesis by (simp only: keys_obj_literal)
qed

lemma axes_found: "found_typed xyAxisCommonOptions axis_types"
  unfolding xyAxisCommonOptions_def found_literal by code_simp

lemma type_free: "heads_free common_heads (type_defaults ct)"
  by (induct ct; unfold type_defaults.simps table_defs free_literal; code_simp)

lemma type_axis_free: "has_axes ct \<Longrightarrow> heads_free axis_heads (type_defaults ct)"
  by (induct ct; unfold type_defaults.simps table_defs free_literal has_axes.simps; (code_simp | simp))

lemma type_found: "has_axes ct \<Longrightarrow> found_typed (type_defaults ct) type_types"
  by (induct ct; unfold type_defaults.simps table_defs found_literal has_axes.simps; (code_simp | simp))

definition keys_free :: "string list \<Rightarrow> obj \<Rightarrow> bool" where
  "keys_free ks ps = list_all (\<lambda>p. \<not> List.member ks (fst p)) ps"

lemma keys_free_last: "keys_free ks ps \<Longrightarrow> k \<in> set ks \<Longrightarrow> find_last acc k ps = acc"
  by (rule find_last_notin) (auto simp: keys_free_def list_all_iff)

lemma free_keys_literal: "keys_free ks (obj_literal ps) \<longleftrightarrow> keys_free ks ps"
proof -
  have "keys_free ks qs \<longleftrightarrow> (\<forall>k \<in> fst ` set qs. k \<notin> set ks)" for qs
    by (auto simp: keys_free_def list_all_iff)
  then show ?thesis by (simp only: keys_obj_literal)
qed

lemma type_spaces_free: "keys_free (take 4 size_options) (type_defaults ct)"
  by (induct ct; unfold type_defaults.simps table_defs free_keys_literal; code_simp)

section \<open>Well-typed options\<close>

text \<open>An option object whose options, as far as it has them, are well-typed.\<close>

definition options_typed :: "bool \<Rightarrow> obj \<Rightarrow> bool" where
  "options_typed axes op = (\<forall>(k, P) \<in> set (layout_types axes). k \<in> fst ` set op \<longrightarrow> P (oget op k))"

lemma types_reject_Undef: "(k, P) \<in> set (layout_types axes) \<Longrightarrow> \<not> P Undef"
  by (auto simp: layout_types_def split: if_splits)

lemma set_layout_types:
  "set (layout_types axes) = set space_types \<union> set common_types \<union> (if axes then set axis_types \<union> set type_types else {})"
proof -
  have "set (map (\<lambda>k. (k, is_size_value)) size_options) = set space_types \<union> set (map (\<lambda>k. (k, is_size_value)) (drop 4 size_options))"
    unfolding space_types_def set_map by (metis append_take_drop_id image_Un set_append)
  moreover have head: "axis_size_options = ''scaleFontSize'' # drop 1 axis_size_options" by (simp add: axis_size_options_def)
  have "set (map f axis_size_options) = {f ''scaleFontSize''} \<union> set (map f (drop 1 axis_size_options))" for f :: "string \<Rightarrow> string \<times> (jsval \<Rightarrow> bool)"
    by (subst head) simp
  ultimately show ?thesis
    unfolding layout_types_def common_types_def axis_types_def type_types_def set_append by (cases axes) (simp_all add: Un_ac insert_commute)
qed

lemma types_heads:
  "(k, P) \<in> set common_types \<Longrightarrow> take 6 k \<in> set common_heads" "(k, P) \<in> set axis_types \<Longrightarrow> take 6 k \<in> set axis_heads"
proof -
  have "list_all (\<lambda>t. take 6 (fst t) \<in> set common_heads) common_types" "list_all (\<lambda>t. take 6 (fst t) \<in> set axis_heads) axis_types"
    by code_simp+
  then show "(k, P) \<in> set common_types \<Longrightarrow> take 6 k \<in> set common_heads" "(k, P) \<in> set axis_types \<Longrightarrow> take 6 k \<in> set axis_heads"
    by (auto simp: list_all_iff)
qed

lemma default_typed:
  assumes "(k, P) \<in> set (layout_types (has_axes ct))"
  shows "P (oget (chart_config ct no_personal_options None) k)"
proof -
  have u: "\<not> P Undef" by (rule types_reject_Undef [OF assms])
  consider "(k, P) \<in> set space_types" | "(k, P) \<in> set common_types" | "has_axes ct" "(k, P) \<in> set axis_types" | "has_axes ct" "(k, P) \<in> set type_types"
    using assms unfolding set_layout_types by (auto split: if_splits)
  then show ?thesis
  proof cases
    case 1
    then have "k \<in> set (take 4 size_options)" by (auto simp: space_types_def)
    with keys_free_last [OF type_spaces_free] found_typed_at [OF behaviour_spaces 1 u] show ?thesis
      by (simp add: chart_config_default commonOptions_def find_last_obj_literal find_last_append)
  next
    case 2
    with heads_free_last [OF type_free] heads_free_last [OF behaviour_free] found_typed_at [OF layout_common 2 u] types_heads(1) show ?thesis
      by (simp add: chart_config_default commonOptions_def find_last_obj_literal find_last_append)
  next
    case 3
    have "oget xyAxisCommonOptions k = find_last Undef k xyAxisCommonOptions" by (simp add: find_last_wf oget_notin)
    with 3 heads_free_last [OF type_axis_free] heads_free_last [OF common_free(1)] heads_free_last [OF common_free(2)]
      found_typed_at [OF axes_found 3(2) u] types_heads(2) show ?thesis
      by (simp add: chart_config_default commonOptions_def find_last_obj_literal find_last_append)
  next
    case 4
    from found_typed_at [OF type_found [OF 4(1)] 4(2) u] show ?thesis by (simp add: chart_config_default)
  qed
qed

lemma chart_config_typed:
  assumes "wf_personal g" "\<And>op. options = Some op \<Longrightarrow> wf_obj op \<and> options_typed (has_axes ct) op"
    and "options_typed (has_axes ct) (personal_of ct g)" "options_typed (has_axes ct) (charJSPersonalDefaultOptions g)"
  shows "layout_typed (has_axes ct) (chart_config ct g options)"
  unfolding layout_typed_def
proof safe
  fix k P assume kP: "(k, P) \<in> set (layout_types (has_axes ct))"
  have layer: "P (first_layer (op # ls) k)" if "options_typed (has_axes ct) op" "P (first_layer ls k)" for op ls
    using that kP by (auto simp: options_typed_def)
  have pers: "personal_of ct no_personal_options = []" "charJSPersonalDefaultOptions no_personal_options = []"
    by (cases ct; simp add: no_personal_options_def)+
  have "P (first_layer (option_layers ct no_personal_options None) k)"
    using default_typed [OF kP] chart_config_layers [OF wf_no_personal, of None ct k] by simp
  then have "P (first_layer ([type_defaults ct, commonOptions] @ (if has_axes ct then [xyAxisCommonOptions] else [])) k)"
    by (simp add: option_layers_def pers)
  then have "P (first_layer (option_layers ct g None) k)"
    unfolding option_layers_def option.case append.simps by (rule layer [OF assms(3) layer [OF assms(4)]])
  then have "P (first_layer (option_layers ct g options) k)"
    using layer assms(2) by (cases options) (simp_all add: option_layers_def)
  then show "P (oget (chart_config ct g options) k)"
    using chart_config_layers [OF assms(1), of options ct k] assms(2) by auto
qed

end
