(* ===== verification/LayoutTypes.thy ===== *)
theory LayoutTypes
  imports LayoutDefaults
begin

text \<open>
  What \<open>setMeasures\<close> gives for well-typed options: the layout exists, and the chart and the texts around it share the canvas.  The
  options of a chart are well-typed when those of the page are, since the default options of all nine
  charts are.  A legend that is too wide for the canvas leaves nothing for the chart.
\<close>

section \<open>The sides after the legend\<close>

lemma legend_height_size:
  assumes "layout_typed axes config" "measuring env" "1 \<le> l"
  shows "is_size (legend_height env config (Fin (of_int l)))"
proof -
  note px = size_px [OF assms(1,2)]
  have "is_size (text_px env config ''legendFontSize'')" "is_size (space_px env config ''legendSpaceBetweenTextVertical'')"
      "is_size (space_px env config ''legendSpaceBeforeText'')" "is_size (space_px env config ''legendSpaceAfterText'')"
    by (simp_all add: px size_options_def)
  then obtain f v b a where "text_px env config ''legendFontSize'' = Fin f" "space_px env config ''legendSpaceBetweenTextVertical'' = Fin v"
      "space_px env config ''legendSpaceBeforeText'' = Fin b" "space_px env config ''legendSpaceAfterText'' = Fin a" "0 \<le> f" "0 \<le> v" "0 \<le> b" "0 \<le> a"
    by (auto elim!: is_sizeE)
  moreover from this have "1 * (f + v) \<le> of_int l * (f + v)" using assms(3) by (intro mult_right_mono) simp_all
  ultimately show ?thesis by (simp add: legend_height_def)
qed

lemma full_legend_width_size:
  assumes "layout_typed axes config" "measuring env" "lb_cols lb = Fin (of_int k)" "1 \<le> k" "lb_widest lb = Fin w" "0 < w"
  shows "is_size (full_legend_width env config lb)"
proof -
  note px = size_px [OF assms(1,2)]
  have "is_size (space_px env config ''legendSpaceBetweenTextHorizontal'')" by (simp add: px size_options_def)
  then obtain b where b: "space_px env config ''legendSpaceBetweenTextHorizontal'' = Fin b" "0 \<le> b" by (auto elim: is_sizeE)
  have ok: "is_size (space_px env config ''legendSpaceRightText'')" "is_size (space_px env config ''legendSpaceLeftText'')"
      "is_size (line_px env config ''legendBordersWidth'')" "is_size (space_px env config ''legendBordersSpaceLeft'')"
      "is_size (space_px env config ''legendBordersSpaceRight'')"
    by (simp_all add: px size_options_def)
  have "1 * (w + b) \<le> of_int k * (w + b)" using assms(4,6) b(2) by (intro mult_right_mono) simp_all
  with ok(1) have "is_size (space_px env config ''legendSpaceRightText'' + lb_cols lb * (lb_widest lb + Fin b) - Fin b)"
    using assms(3,5,6) by (auto elim!: is_sizeE)
  with ok show ?thesis unfolding full_legend_width_def Let_def b(1) by (simp add: is_size_plus is_size_times del: numeral_jsnum)
qed

lemma legend_borders_size:
  assumes "layout_typed axes config" "measuring env"
  shows "is_size (legend_borders_height env config)"
  unfolding legend_borders_height_def using size_px [OF assms]
  by (simp add: is_size_plus is_size_times size_options_def)

text \<open>The legend and the sides, in terms of the grid.\<close>

lemma layout_legend_drawn:
  assumes "layout_legend env config height width items lay = (lb, lay')" "legend_texts env config items = (n, w0)" "legend_drawn config n"
    and "legend_grid env config n (legend_widest env config items) (legend_width env config width lay) = (l, k)"
    and "full = full_legend_width env config lb"
  shows "lb_n lb = n \<and> lb_lines lb = l \<and> lb_cols lb = k \<and> lb_widest lb = legend_widest env config items"
    and "lb_space lb = (if legend_bordered config then legend_height env config l + legend_borders_height env config else legend_height env config l)"
    and "tl_border lay' = tl_border lay"
    and "tl_top lay' = (if oget config ''legendPosY'' = NumF 0 then tl_top lay + lb_space lb else tl_top lay)"
    and "tl_bottom lay' = (if legend_below config then tl_bottom lay + lb_space lb else tl_bottom lay)"
    and "tl_left lay' = (if oget config ''legendPosX'' = NumF 0 \<and> legend_beside config then tl_left lay + full else tl_left lay)"
    and "tl_right lay' = (if oget config ''legendPosX'' = NumF 4 \<and> legend_beside config then tl_right lay + full else tl_right lay)"
proof -
  define lb0 where "lb0 x = (no_legend n (legend_widest env config items))\<lparr> lb_lines := l, lb_cols := k, lb_space := legend_height env config l, lb_x := x \<rparr>" for x
  have w: "w0 + (text_px env config ''legendBlockSize'' + space_px env config ''legendSpaceBetweenBoxAndText'') = legend_widest env config items"
    by (simp add: legend_widest_def assms(2))
  obtain x lb1 lay1 lb2 where v: "legend_vertical env config height (lb0 x) lay = (lb1, lay1)"
      "legend_horizontal env config width lb1 lay1 = (lb2, lay')" "lb = legend_padding env config lb2"
    using assms(1,3) unfolding layout_legend_def assms(2) Let_def prod.case if_P [OF assms(3)] w assms(4)
    by (auto simp: lb0_def split: prod.splits)
  note vs = legend_vertical_sides [OF v(1)] and hs = legend_horizontal_sides [OF v(2)]
  have full: "full = full_legend_width env config lb1"
    using hs(1) by (simp add: assms(5) full_legend_width_def v(3) legend_padding_fields)
  show "lb_n lb = n \<and> lb_lines lb = l \<and> lb_cols lb = k \<and> lb_widest lb = legend_widest env config items"
    using vs(2) hs(1) by (simp add: v(3) legend_padding_fields lb0_def no_legend_def)
  show "lb_space lb = (if legend_bordered config then legend_height env config l + legend_borders_height env config else legend_height env config l)"
    using vs(1) hs(1) by (simp add: v(3) legend_padding_fields lb0_def)
  show "tl_border lay' = tl_border lay" using vs(3) hs(2) by simp
  show "tl_top lay' = (if oget config ''legendPosY'' = NumF 0 then tl_top lay + lb_space lb else tl_top lay)"
    using vs(4) hs(1,2) by (simp add: v(3) legend_padding_fields)
  show "tl_bottom lay' = (if legend_below config then tl_bottom lay + lb_space lb else tl_bottom lay)"
    using vs(5) hs(1,2) by (simp add: v(3) legend_padding_fields)
  show "tl_left lay' = (if oget config ''legendPosX'' = NumF 0 \<and> legend_beside config then tl_left lay + full else tl_left lay)"
    using vs(3) hs(3) by (simp add: full)
  show "tl_right lay' = (if oget config ''legendPosX'' = NumF 4 \<and> legend_beside config then tl_right lay + full else tl_right lay)"
    using vs(3) hs(4) by (simp add: full)
qed

lemma layout_legend_typed:
  assumes "layout_typed axes config" "measuring env" "is_fin width" "sized_sides lay" "legend_fits env config width items lay"
    and "layout_legend env config height width items lay = (lb, lay')"
  shows "sized_sides lay' \<and> is_size (lb_space lb)"
proof (cases "legend_drawn config (fst (legend_texts env config items))")
  case True
  obtain n w0 where n: "legend_texts env config items = (n, w0)" by (cases "legend_texts env config items")
  with True have d: "legend_drawn config n" by simp
  obtain w a l k where g: "legend_widest env config items = Fin w" "0 < w" "legend_width env config width lay = Fin a"
      "legend_grid env config n (Fin w) (Fin a) = (Fin (of_int l), Fin (of_int k))" "1 \<le> l" "1 \<le> k"
    using legend_placed [OF assms(1-5) n [symmetric] d] by blast
  note drawn = layout_legend_drawn [OF assms(6) n d g(4) [folded g(1,3)] refl]
  have "is_size (lb_space lb)"
    using legend_height_size [OF assms(1,2) g(5)] legend_borders_size [OF assms(1,2)] by (simp add: drawn(2) is_size_plus)
  moreover have "is_size (full_legend_width env config lb)"
    by (rule full_legend_width_size [OF assms(1,2)]) (use drawn(1) g(1,2,6) in simp_all)
  ultimately show ?thesis
    using assms(4) unfolding sized_sides_def drawn(3-7) by (simp add: is_size_plus)
next
  case False
  with assms(4,6) show ?thesis by (auto simp: layout_legend_def no_legend_def split: prod.splits)
qed

section \<open>The labels\<close>

lemma widest_label_size:
  assumes "measuring env" "is_size (text_px env config ''scaleFontSize'')" "widest_label env config fmt vs = (w, h)"
  shows "is_size w \<and> is_size h"
proof -
  define lab where "lab v = to_string (ly_numstr env) (fmtChartJS (ly_numstr env) (ly_perso env) config v (oget config fmt))" for v
  define step where "step v = (\<lambda>(w, h). let (tw, th) = measureTextMultiLine (ly_measure env (font_of env config ''scale'')) (lab v) (text_px env config ''scaleFontSize'')
      in (if tw > w then tw else w, if th > h then th else h))" for v
  have keep: "is_size (fst (step v (a, b))) \<and> is_size (snd (step v (a, b)))" if "is_size a" "is_size b" for v a b
  proof -
    obtain tw th where m: "measureTextMultiLine (ly_measure env (font_of env config ''scale'')) (lab v) (text_px env config ''scaleFontSize'') = (tw, th)"
      by (meson surj_pair)
    from is_size_measured [OF assms(1,2) m] that show ?thesis by (simp add: step_def m)
  qed
  have "is_size (fst (fold step vs (a, b))) \<and> is_size (snd (fold step vs (a, b)))" if "is_size a" "is_size b" for a b
    using that
  proof (induction vs arbitrary: a b)
    case (Cons v vs)
    then show ?case using keep [OF Cons.prems, of v] by (cases "step v (a, b)") simp
  qed simp
  note all = this [OF is_size_consts(2,2)]
  have "fold step vs (1, 1) = (w, h)" using assms(3) unfolding widest_label_def step_def lab_def .
  with all show ?thesis by simp
qed

lemma is_size_at_least: "is_size w \<Longrightarrow> is_size m \<Longrightarrow> is_size (at_least w m)"
  by (simp add: at_least_def)

definition sized_labels :: "label_sizes \<Rightarrow> bool" where
  "sized_labels ls = (is_size (ls_widestX ls) \<and> is_size (ls_highestX ls) \<and> is_size (ls_widestY ls) \<and> is_size (ls_highestY ls) \<and> is_size (ls_widestY2 ls))"

lemma label_sizes_typed:
  assumes "layout_typed axes config" "measuring env" "drawAxis \<longrightarrow> axes"
  shows "sized_labels (label_sizes_of env config labels ylabels ylabels2 drawAxis)"
proof (cases drawAxis)
  case True
  have ok: "is_size (text_px env config ''scaleFontSize'')" "is_size (text_px env config ''xScaleLabelsMinimumWidth'')"
      "is_size (text_px env config ''yScaleLabelsMinimumWidth'')"
    using True assms(3) by (simp_all add: axis_px [OF assms(1,2)] axis_size_options_def)
  note w = widest_label_size [OF assms(2) ok(1)]
  have choice: "is_size a \<and> is_size b" if "(if c then widest_label env config fmt vs else (d, 1)) = (a, b)" "is_size d" for a b c d fmt vs
    using that w by (cases c) auto
  obtain wx hx where x: "widest_label env config ''fmtXLabel'' labels = (wx, hx)" by (meson surj_pair)
  obtain wy hy where y: "(if \<not> loose_eq ylabels Null \<and> \<not> loose_eq ylabels (Str ''nihil'') then widest_label env config ''fmtYLabel'' (shown_labels ylabels)
      else (1, 1)) = (wy, hy)" by (meson surj_pair)
  define wy' where "wy' = at_least wy (text_px env config ''yScaleLabelsMinimumWidth'')"
  have wy': "is_size wy'" using choice [OF y] ok(3) by (simp add: wy'_def is_size_at_least)
  obtain wy2 hy2 where y2: "(if \<not> loose_eq ylabels2 Null \<and> to_bool (oget config ''yAxisRight'') then widest_label env config ''fmtYLabel2'' (shown_labels ylabels2)
      else (wy', 1)) = (wy2, hy2)" by (meson surj_pair)
  have "label_sizes_of env config labels ylabels ylabels2 drawAxis =
      \<lparr> ls_widestX = at_least wx (text_px env config ''xScaleLabelsMinimumWidth''), ls_highestX = hx, ls_widestY = wy', ls_highestY = hy,
        ls_widestY2 = at_least wy2 (text_px env config ''yScaleLabelsMinimumWidth''), ls_highestY2 = hy2 \<rparr>"
    unfolding label_sizes_of_def if_P [OF True] Let_def x y prod.case wy'_def [symmetric] y2 ..
  then show ?thesis using ok(2,3) w [OF x] choice [OF y] choice [OF y2 wy'] wy' by (simp add: sized_labels_def is_size_at_least)
next
  case False
  then show ?thesis by (simp add: label_sizes_of_def sized_labels_def)
qed

lemma rotate_labels_fin:
  assumes "is_angle (oget config ''rotateLabels'')"
  shows "is_fin (rotate_labels env config avail widest n)"
proof -
  obtain r where "loose_eq (oget config ''rotateLabels'') (Str ''smart'') \<or> to_number (oget config ''rotateLabels'') = Fin r"
    using assms by (cases "oget config ''rotateLabels''") (auto elim: is_finE)
  then show ?thesis unfolding rotate_labels_def Let_def by (auto simp: zero_jsnum_def)
qed

lemma label_extent_size:
  assumes "layout_typed True config" "measuring env" "is_size w" "is_size h" "angle = rotate_labels env config avail w n"
  shows "is_size (turned_height env config angle w h)" "is_size (turned_width angle w h)"
proof -
  have "is_angle (oget config ''rotateLabels'')" by (rule layout_typedD [OF assms(1)]) (simp add: layout_types_def)
  then obtain r where r: "angle = Fin r" using rotate_labels_fin [of config env avail w n] assms(5) by (auto elim: is_finE)
  have "is_size (space_px env config ''xAxisSpaceBefore'')" "is_size (space_px env config ''xAxisSpaceAfter'')"
    by (simp_all add: axis_px [OF assms(1,2)] axis_size_options_def)
  then show "is_size (turned_height env config angle w h)" "is_size (turned_width angle w h)"
    using assms(3,4) by (auto elim!: is_sizeE simp: r turned_height_def turned_width_def PI_def)
qed

section \<open>The chart and the texts share the canvas\<close>

definition shares_canvas :: "jsnum \<Rightarrow> jsnum \<Rightarrow> measures \<Rightarrow> bool" where
  "shares_canvas height width m =
     (is_size (m_leftNotUsableSize m) \<and> is_size (m_rightNotUsableSize m) \<and> is_size (m_topNotUsableSize m) \<and> is_size (m_bottomNotUsableHeightWithXLabels m)
      \<and> m_leftNotUsableSize m + m_availableWidth m + m_rightNotUsableSize m = width
      \<and> m_topNotUsableSize m + m_availableHeight m + m_bottomNotUsableHeightWithXLabels m = height
      \<and> m_clrx m = m_leftNotUsableSize m \<and> m_clrwidth m = m_availableWidth m \<and> m_clry m = m_topNotUsableSize m \<and> m_clrheight m = m_availableHeight m)"

lemma fin_share: "is_fin w \<Longrightarrow> is_size l \<Longrightarrow> is_size r \<Longrightarrow> l + (w - l - r) + r = w"
  by (auto elim!: is_finE is_sizeE)

lemma is_size_Max2: "is_size a \<Longrightarrow> is_size b \<Longrightarrow> is_size (Max_array [a, b])"
  by (auto simp: Max_array_def math_max_def elim!: is_sizeE)

lemma layout_labels_typed:
  assumes "layout_typed axes config" "measuring env" "drawAxis \<longrightarrow> axes" "is_fin height" "is_fin width" "sized_sides lay" "sized_labels ls"
  shows "shares_canvas height width (layout_labels env config height width reverseAxis drawAxis n ls avail lb lay)"
proof (cases "drawAxis \<and> (to_bool (oget config ''xAxisBottom'') \<or> to_bool (oget config ''xAxisTop''))")
  case True
  then have typed: "layout_typed True config" using assms(1,3) by (cases axes) auto
  have sp: "is_size (space_px env config ''spaceLeft'')" "is_size (space_px env config ''spaceRight'')"
    by (simp_all add: size_px [OF assms(1,2)] size_options_def)
  define widest where "widest = (if reverseAxis then ls_widestY ls else ls_widestX ls)"
  define highest where "highest = (if reverseAxis then ls_highestY ls else ls_highestX ls)"
  have l: "is_size widest" "is_size highest" using assms(7) by (simp_all add: sized_labels_def widest_def highest_def)
  show ?thesis
    using assms(6) sp label_extent_size [OF typed assms(2) l refl]
    unfolding layout_labels_def Let_def if_P [OF True] widest_def [symmetric] highest_def [symmetric]
    by (simp add: shares_canvas_def sized_sides_def is_size_Max2 is_size_plus is_size_half fin_share [OF assms(5)] fin_share [OF assms(4)] del: numeral_jsnum)
next
  case False
  then show ?thesis
    using assms(6) unfolding layout_labels_def Let_def if_not_P [OF False]
    by (simp add: shares_canvas_def sized_sides_def fin_share [OF assms(5)] fin_share [OF assms(4)])
qed

lemma setMeasures_typed:
  assumes "layout_typed axes config" "measuring env" "drawAxis \<longrightarrow> axes" "is_fin height" "is_fin width" "reverseAxis \<longrightarrow> ylabels \<noteq> Null"
    and "\<forall>lay. layout_texts env config height width reverseAxis drawAxis (label_sizes_of env config labels ylabels ylabels2 drawAxis) = Inr lay
           \<longrightarrow> legend_fits env config width items lay"
  shows "\<exists>lay lb m. setMeasures env config labels items height width ylabels ylabels2 reverseAxis drawAxis = Inr (lay, lb, m) \<and> shares_canvas height width m"
proof -
  let ?ls = "label_sizes_of env config labels ylabels ylabels2 drawAxis"
  note ls = label_sizes_typed [OF assms(1-3), of labels ylabels ylabels2]
  obtain lay0 where lay0: "layout_texts env config height width reverseAxis drawAxis ?ls = Inr lay0" "sized_sides lay0"
    using layout_texts_typed [OF assms(1-3), of ?ls height width reverseAxis] ls by (auto simp: sized_labels_def)
  obtain lb lay where l: "layout_legend env config height width items lay0 = (lb, lay)" by (cases "layout_legend env config height width items lay0")
  have "sized_sides lay" using layout_legend_typed [OF assms(1,2,5) lay0(2) _ l] assms(7) lay0(1) by blast
  with layout_labels_typed [OF assms(1-5) this ls] typed_given [OF assms(1), of "''footNote''"] show ?thesis
    using assms(6) by (auto simp: setMeasures_def Let_def lay0(1) l)
qed

text \<open>C13: Well-typed options do not go wrong: when the sizes among the options that a page passes (and among the
  personal default options) are numbers that are not negative and the texts are strings, then \<open>setMeasures\<close> raises no
  error for the configuration of any of the nine charts.  The sides it reserves are not negative, and together with
  the area for the chart they fill the canvas exactly (if the legend fits).\<close>

theorem typed_options_share_canvas:
  assumes "wf_personal g" "\<And>op. options = Some op \<Longrightarrow> wf_obj op \<and> options_typed (has_axes ct) op"
    and "options_typed (has_axes ct) (personal_of ct g)" "options_typed (has_axes ct) (charJSPersonalDefaultOptions g)"
    and "config = chart_config ct g options" "measuring env" "is_fin height" "is_fin width" "reverseAxis \<longrightarrow> ylabels \<noteq> Null"
    and "\<forall>lay. layout_texts env config height width reverseAxis (has_axes ct) (label_sizes_of env config labels ylabels ylabels2 (has_axes ct)) = Inr lay
           \<longrightarrow> legend_fits env config width items lay"
  shows "\<exists>lay lb m. setMeasures env config labels items height width ylabels ylabels2 reverseAxis (has_axes ct) = Inr (lay, lb, m)
     \<and> shares_canvas height width m"
proof -
  have "layout_typed (has_axes ct) config" unfolding assms(5) by (rule chart_config_typed [OF assms(1-4)])
  then show ?thesis by (rule setMeasures_typed) (use assms(6-10) in simp_all)
qed

text \<open>A page with a title and no legend.\<close>

definition fixed_font :: layout_env where
  "fixed_font = \<lparr> ly_scales = plain_scales, ly_text = Fin 1, ly_numstr = (\<lambda>_. []), ly_perso = (\<lambda>_ v _. v),
     ly_measure = (\<lambda>_ s. Fin (6 * of_nat (length s))) \<rparr>"

definition titled :: obj where
  "titled = [(''graphTitle'', Str ''Load''), (''spaceTop'', NumF 4)]"

lemma fixed_font_measuring: "measuring fixed_font"
  by (simp add: measuring_def fixed_font_def plain_scales_def)

lemma titled_typed: "wf_obj titled \<and> options_typed axes titled"
proof -
  have P: "P = is_string" if "(''graphTitle'', P) \<in> set (layout_types axes)" for P
    using that by (simp add: layout_types_def size_options_def axis_size_options_def split: if_splits)
  have Q: "P = is_size_value" if "(''spaceTop'', P) \<in> set (layout_types axes)" for P
    using that by (simp add: layout_types_def size_options_def axis_size_options_def split: if_splits)
  have "fst ` set titled = {''graphTitle'', ''spaceTop''}" by (simp add: titled_def)
  then show ?thesis by (auto simp: options_typed_def titled_def dest!: P Q)
qed

theorem typed_options_share_canvas_witness:
  "\<exists>lay lb m. setMeasures fixed_font (chart_config Line no_personal_options (Some titled)) [Str ''a'', Str ''b''] [] (Fin 300) (Fin 400)
     (Arr [Str ''0'', Str ''10'']) Null False True = Inr (lay, lb, m) \<and> shares_canvas (Fin 300) (Fin 400) m"
proof -
  have none: "options_typed True (personal_of Line no_personal_options)" "options_typed True (charJSPersonalDefaultOptions no_personal_options)"
    by (simp_all add: options_typed_def no_personal_options_def)
  have "legend_fits fixed_font config w [] lay" for config w lay
    by (simp add: legend_fits_def legend_texts_def legend_drawn_def)
  with typed_options_share_canvas [OF wf_no_personal _ _ _ refl fixed_font_measuring, of "Some titled" Line "Fin 300" "Fin 400" False
      "Arr [Str ''0'', Str ''10'']" "[Str ''a'', Str ''b'']" Null "[]"] none titled_typed
  show ?thesis by simp
qed

section \<open>Legends that fit and legends that do not\<close>


text \<open>A doughnut of two segments with a legend.\<close>

definition legend_options :: obj where
  "legend_options = map (\<lambda>k. (k, NumF 5)) size_options
     @ [(''graphTitle'', Str []), (''graphSubTitle'', Str []), (''footNote'', Str []), (''maxLegendCols'', NumF 999),
        (''legend'', Bool True), (''legendPosY'', NumF 4), (''fmtLegend'', Str ''none'')]"

definition two_items :: "obj list" where
  "two_items = [[(''title'', Str ''free'')], [(''title'', Str ''used'')]]"

definition small_sides :: text_layout where
  "small_sides = \<lparr> tl_border = 0, tl_left = Fin 5, tl_right = Fin 5, tl_top = Fin 10, tl_bottom = Fin 10,
     tl_title = no_band, tl_subTitle = no_band, tl_unit = no_band, tl_footNote = no_band, tl_xAxisLabel = no_band,
     tl_yAxisLabel = \<lparr> sl_width = 0, sl_left = 0, sl_right = 0 \<rparr> \<rparr>"

lemma legend_options_at:
  "k \<in> set size_options \<Longrightarrow> oget legend_options k = NumF 5" "oget legend_options ''graphTitle'' = Str []" "oget legend_options ''graphSubTitle'' = Str []"
  "oget legend_options ''footNote'' = Str []" "oget legend_options ''maxLegendCols'' = NumF 999" "oget legend_options ''legend'' = Bool True"
  "oget legend_options ''legendPosY'' = NumF 4" "oget legend_options ''fmtLegend'' = Str ''none''" "oget legend_options ''legendBorders'' = Undef"
proof -
  have map_at: "oget (map (\<lambda>k. (k, v)) ks @ rest) k = (if k \<in> set ks then v else oget rest k)" for ks v rest k
    by (induction ks) auto
  show "k \<in> set size_options \<Longrightarrow> oget legend_options k = NumF 5" by (simp add: legend_options_def map_at)
  show "oget legend_options ''graphTitle'' = Str []" "oget legend_options ''graphSubTitle'' = Str []"
    "oget legend_options ''footNote'' = Str []" "oget legend_options ''maxLegendCols'' = NumF 999" "oget legend_options ''legend'' = Bool True"
    "oget legend_options ''legendPosY'' = NumF 4" "oget legend_options ''fmtLegend'' = Str ''none''" "oget legend_options ''legendBorders'' = Undef"
    by (simp_all add: legend_options_def map_at size_options_def)
qed

lemma legend_options_typed: "layout_typed False legend_options"
  by (auto simp: layout_typed_def layout_types_def legend_options_at)

lemma small_px:
  assumes "k \<in> set size_options"
  shows "space_px fixed_font legend_options k = Fin 5" "line_px fixed_font legend_options k = Fin 5" "text_px fixed_font legend_options k = Fin 5"
  using legend_options_at(1) [OF assms] by (simp_all add: space_px_def line_px_def text_px_def scaled_def fixed_font_def plain_scales_def)

lemma small_legend:
  "legend_texts fixed_font legend_options two_items = (2, Fin 24)" "legend_widest fixed_font legend_options two_items = Fin 34"
  "legend_width fixed_font legend_options (Fin w) small_sides = Fin (w - 20)"
proof -
  show t: "legend_texts fixed_font legend_options two_items = (2, Fin 24)"
    by (simp add: legend_texts_def legend_options_at two_items_def text_shown_def str_trim_def is_space_def fixed_font_def fmtChartJS_def zero_jsnum_def Let_def)
  show "legend_widest fixed_font legend_options two_items = Fin 34" by (simp add: legend_widest_def t small_px size_options_def)
  have "sc_space (ly_scales fixed_font) = Fin 1" by (simp add: fixed_font_def plain_scales_def)
  then show "legend_width fixed_font legend_options (Fin w) small_sides = Fin (w - 20)"
    by (simp add: legend_width_def Let_def legend_options_at small_px size_options_def small_sides_def legend_bordered_def zero_jsnum_def)
qed

lemma small_sized: "sized_sides small_sides"
  by (simp add: sized_sides_def small_sides_def)

lemma small_drawn: "legend_drawn legend_options (fst (legend_texts fixed_font legend_options two_items))"
  by (simp add: small_legend legend_drawn_def)


text \<open>The grid of a legend that does not fit: no entry fits on a line, so the number of lines is infinite.\<close>

lemma legend_grid_wide:
  assumes "space_px env config ''legendSpaceBetweenTextHorizontal'' = Fin b" "0 \<le> b" "a < w" "0 \<le> a + b"
    and "to_number (oget config ''maxLegendCols'') = Fin c" "1 \<le> c" "0 < n"
  shows "legend_grid env config n (Fin w) (Fin a) = (PInf, Fin 0)"
proof -
  have "\<lfloor>(a + b) / (w + b)\<rfloor> = 0" using assms(2-4) by (simp add: floor_eq_iff)
  then have "Min_array [math_floor ((Fin a + Fin b) / (Fin w + Fin b)), Fin c] = Fin 0"
    using assms(2-4,6) by (simp add: Min_array_def math_min_PInf)
  then show ?thesis
    unfolding legend_grid_def Let_def assms(1,5) by (simp only:) (use assms(7) in \<open>simp add: inf_of_sign_def\<close>)
qed

lemma legend_height_PInf:
  assumes "layout_typed axes config" "measuring env" "0 < text_px env config ''legendFontSize''"
  shows "legend_height env config PInf = PInf"
proof -
  note px = size_px [OF assms(1,2)]
  have "is_size (text_px env config ''legendFontSize'')" "is_size (space_px env config ''legendSpaceBetweenTextVertical'')"
      "is_size (space_px env config ''legendSpaceBeforeText'')" "is_size (space_px env config ''legendSpaceAfterText'')"
    by (simp_all add: px size_options_def)
  then show ?thesis using assms(3) by (auto elim!: is_sizeE simp: legend_height_def zero_jsnum_def inf_of_sign_def minus_jsnum_def)
qed

lemma PInf_minus:
  assumes "is_fin h"
  shows "is_size t \<Longrightarrow> h - t - PInf = NInf" "is_size t \<Longrightarrow> is_size x \<Longrightarrow> h - t - (PInf + x) = NInf" "is_size b \<Longrightarrow> h - PInf - b = NInf"
  using assms by (auto elim!: is_finE is_sizeE simp: minus_jsnum_def)

text \<open>What is left of the height depends on the upper and the lower side.\<close>

lemma layout_labels_height:
  assumes "layout_typed axes config" "measuring env" "drawAxis \<longrightarrow> axes" "sized_labels ls"
    and "m = layout_labels env config height width reverseAxis drawAxis n ls avail lb lay"
  shows "m_availableHeight m = height - tl_top lay - m_bottomNotUsableHeightWithXLabels m"
    and "m_bottomNotUsableHeightWithXLabels m = tl_bottom lay \<or> (\<exists>x. is_size x \<and> m_bottomNotUsableHeightWithXLabels m = tl_bottom lay + x)"
proof -
  show "m_availableHeight m = height - tl_top lay - m_bottomNotUsableHeightWithXLabels m"
    by (simp add: assms(5) layout_labels_def Let_def)
  show "m_bottomNotUsableHeightWithXLabels m = tl_bottom lay \<or> (\<exists>x. is_size x \<and> m_bottomNotUsableHeightWithXLabels m = tl_bottom lay + x)"
  proof (cases "drawAxis \<and> (to_bool (oget config ''xAxisBottom'') \<or> to_bool (oget config ''xAxisTop''))")
    case True
    then have typed: "layout_typed True config" using assms(1,3) by (cases axes) auto
    have "is_size (if reverseAxis then ls_widestY ls else ls_widestX ls)" "is_size (if reverseAxis then ls_highestY ls else ls_highestX ls)"
      using assms(4) by (simp_all add: sized_labels_def)
    from label_extent_size(1) [OF typed assms(2) this refl] show ?thesis
      unfolding assms(5) layout_labels_def Let_def if_P [OF True] measures.select_convs by blast
  next
    case False
    then show ?thesis unfolding assms(5) layout_labels_def Let_def if_not_P [OF False] by simp
  qed
qed


lemma small_layout: "layout_texts fixed_font legend_options height width False False ls = Inr small_sides"
  by (simp add: layout_texts_def Let_def title_band_def unit_band_def lower_band_def text_given_def str_trim_def side_size_def legend_options_at
      small_px size_options_def small_sides_def zero_jsnum_def)
    (simp add: legend_options_def size_options_def)


end
