(* ===== verification/PageLayout.thy ===== *)
theory PageLayout
  imports LineChart LayoutTypes InaeticsCommon
begin

text \<open>
  The layout of the charts of the two pages: the options of a page are well typed when the name, the type and the unit of the
  statistics are strings, the chart has no legend, and so the layout is computed; how much of the canvas the texts
  above and below the chart take.
\<close>

section \<open>Options of a page\<close>

text \<open>Options that differ at most in the choice of a logarithmic scale.\<close>

definition same_layout :: "obj \<Rightarrow> obj \<Rightarrow> bool" where
  "same_layout c c' = (\<forall>k. k \<noteq> ''logarithmic'' \<and> k \<noteq> ''logarithmic2'' \<longrightarrow> oget c k = oget c' k)"

lemma same_layout_refl: "same_layout c c"
  by (simp add: same_layout_def)

lemma same_layout_line: "same_layout (line_config lg vb c) c"
  by (simp add: same_layout_def line_config_other)

lemma same_layoutD: "same_layout c c' \<Longrightarrow> k \<noteq> ''logarithmic'' \<Longrightarrow> k \<noteq> ''logarithmic2'' \<Longrightarrow> oget c k = oget c' k"
  by (simp add: same_layout_def)

definition layout_keys :: "string list" where
  "layout_keys = size_options @ [''graphTitle'', ''graphSubTitle'', ''footNote'', ''maxLegendCols''] @ axis_size_options
     @ [''yAxisUnit'', ''yAxisLabel'', ''xAxisLabel'', ''rotateLabels'']"

lemma layout_types_keys: "(k, P) \<in> set (layout_types axes) \<Longrightarrow> k \<in> set layout_keys"
  unfolding layout_types_def layout_keys_def set_append set_map Un_iff by (cases axes) auto

lemma layout_keys_linear: "''logarithmic'' \<notin> set layout_keys" "''logarithmic2'' \<notin> set layout_keys"
  by code_simp+

lemma same_layout_typed:
  assumes "same_layout c c'" "layout_typed axes c'"
  shows "layout_typed axes c"
  unfolding layout_typed_def
proof safe
  fix k P assume kP: "(k, P) \<in> set (layout_types axes)"
  with layout_types_keys [OF this] layout_keys_linear have "oget c k = oget c' k"
    using assms(1) by (intro same_layoutD) auto
  with layout_typedD [OF assms(2) kP] show "P (oget c k)" by simp
qed

text \<open>The options of a page that the layout does not look at, and those it does.\<close>

definition quiet_keys :: "string list" where
  "quiet_keys =
     [''canvasBorders'', ''inGraphDataShow'', ''responsive'', ''animation'', ''responsiveMinWidth'', ''responsiveMaxWidth'', ''responsiveMinHeight'',
      ''responsiveMaxHeight'', ''pointDot'', ''bezierCurve'', ''datasetFill'', ''fmtXLabel'', ''scaleOverride'', ''scaleStartValue'', ''scaleSteps'', ''scaleStepWidth'']"

definition text_keys :: "string list" where
  "text_keys = [''graphTitleFontSize'', ''rotateLabels'', ''yAxisUnitFontSize'', ''yAxisLabel'', ''yAxisUnit'', ''graphTitle'']"

lemma page_keys: "fst ` set (getChartOpts st) \<subseteq> set quiet_keys \<union> set text_keys"
  unfolding getChartOpts_def Let_def quiet_keys_def text_keys_def by (simp add: keys_oset keys_obj_literal)

lemma quiet_layout: "k \<in> set layout_keys \<Longrightarrow> k \<notin> set quiet_keys"
proof -
  have "list_all (\<lambda>k. \<not> List.member quiet_keys k) layout_keys" by code_simp
  then show "k \<in> set layout_keys \<Longrightarrow> k \<notin> set quiet_keys" by (simp add: list_all_iff)
qed

lemma text_keys_sizes:
  "filter (List.member text_keys) size_options = [''graphTitleFontSize'']" "filter (List.member text_keys) axis_size_options = [''yAxisUnitFontSize'']"
  by code_simp+

lemma layout_types_at:
  assumes "(k, P) \<in> set (layout_types True)" "k \<in> set text_keys"
  shows "(k, P) \<in> {(''graphTitleFontSize'', is_size_value), (''yAxisUnitFontSize'', is_size_value), (''graphTitle'', is_string), (''yAxisUnit'', is_string),
      (''yAxisLabel'', is_string), (''rotateLabels'', is_angle)}"
proof -
  have only: "k = x" if "k \<in> set ks" "filter (List.member text_keys) ks = [x]" for ks x
  proof -
    have "k \<in> set (filter (List.member text_keys) ks)" using that(1) assms(2) by simp
    then show ?thesis by (simp add: that(2))
  qed
  have "set (layout_types True) = (\<lambda>k. (k, is_size_value)) ` set size_options
      \<union> ({(''graphTitle'', is_string), (''graphSubTitle'', is_string), (''footNote'', is_string), (''maxLegendCols'', is_columns)}
      \<union> ((\<lambda>k. (k, is_size_value)) ` set axis_size_options
      \<union> {(''yAxisUnit'', is_string), (''yAxisLabel'', is_string), (''xAxisLabel'', is_string), (''rotateLabels'', is_angle)}))"
    by (simp only: layout_types_def if_True set_append set_map list.set)
  with assms(1) show ?thesis
  proof (simp only:, elim UnE imageE)
    fix x assume "(k, P) = (x, is_size_value)" "x \<in> set size_options"
    then show ?thesis using only [OF _ text_keys_sizes(1)] by simp
  next
    fix x assume "(k, P) = (x, is_size_value)" "x \<in> set axis_size_options"
    then show ?thesis using only [OF _ text_keys_sizes(2)] by simp
  next
    assume "(k, P) \<in> {(''graphTitle'', is_string), (''graphSubTitle'', is_string), (''footNote'', is_string), (''maxLegendCols'', is_columns)}"
    moreover have "k \<noteq> ''graphSubTitle''" "k \<noteq> ''footNote''" "k \<noteq> ''maxLegendCols''" using assms(2) by (auto simp: text_keys_def)
    ultimately show ?thesis by simp
  next
    assume "(k, P) \<in> {(''yAxisUnit'', is_string), (''yAxisLabel'', is_string), (''xAxisLabel'', is_string), (''rotateLabels'', is_angle)}"
    moreover have "k \<noteq> ''xAxisLabel''" using assms(2) by (auto simp: text_keys_def)
    ultimately show ?thesis by simp
  qed
qed

lemma page_text_options:
  "oget (getChartOpts st) ''graphTitleFontSize'' = NumF 16" "oget (getChartOpts st) ''rotateLabels'' = NumF 60" "oget (getChartOpts st) ''yAxisUnitFontSize'' = NumF 14"
  "oget (getChartOpts st) ''yAxisLabel'' = oget st ''type''" "oget (getChartOpts st) ''yAxisUnit'' = oget st ''unit''"
  "oget (getChartOpts st) ''graphTitle'' = oget st ''displayName''"
  by (simp_all add: getChartOpts_def Let_def oget_obj_literal)

lemma options_typedI:
  "(\<And>k P. (k, P) \<in> set (layout_types axes) \<Longrightarrow> k \<in> fst ` set op \<Longrightarrow> P (oget op k)) \<Longrightarrow> options_typed axes op"
  by (auto simp: options_typed_def)

lemma page_options_typed:
  assumes "is_string (oget st ''type'')" "is_string (oget st ''unit'')" "is_string (oget st ''displayName'')"
  shows "options_typed True (getChartOpts st)"
proof (rule options_typedI)
  fix k P assume kP: "(k, P) \<in> set (layout_types True)" and k: "k \<in> fst ` set (getChartOpts st)"
  have "k \<in> set text_keys" using page_keys [of st] k quiet_layout [OF layout_types_keys [OF kP]] by auto
  from layout_types_at [OF kP this] show "P (oget (getChartOpts st) k)"
    using assms by (auto simp: page_text_options)
qed

lemma page_config_typed:
  assumes "is_string (oget st ''type'')" "is_string (oget st ''unit'')" "is_string (oget st ''displayName'')"
  shows "layout_typed True (chart_config Line no_personal_options (Some (getChartOpts st)))"
proof -
  have "options_typed True (personal_of Line no_personal_options)" "options_typed True (charJSPersonalDefaultOptions no_personal_options)"
    by (simp_all add: options_typed_def no_personal_options_def)
  then show ?thesis
    using chart_config_typed [OF wf_no_personal, of "Some (getChartOpts st)" Line] page_options_typed [OF assms] wf_getChartOpts by simp
qed

section \<open>The layout is computed\<close>

text \<open>Data sets without titles have no legend.\<close>

lemma untitled_legend: "\<forall>d \<in> set items. oget d ''title'' = Undef \<Longrightarrow> legend_texts env config items = (0, 0)"
proof -
  assume "\<forall>d \<in> set items. oget d ''title'' = Undef"
  then have "filter text_shown (map (\<lambda>d. oget d ''title'') items) = []" by (auto simp: filter_empty_conv text_shown_def)
  then show ?thesis by (simp add: legend_texts_def)
qed

lemma untitled_fits: "\<forall>d \<in> set items. oget d ''title'' = Undef \<Longrightarrow> legend_fits env config width items lay"
  by (simp add: legend_fits_def untitled_legend legend_drawn_def)

lemma line_layout_typed:
  assumes "layout_typed True config" "measuring (layout_of env)" "is_fin (ce_height env)" "is_fin (ce_width env)" "\<forall>d \<in> set items. oget d ''title'' = Undef"
  shows "\<exists>m. line_layout env config labels items yl yl2 = Inr m \<and> shares_canvas (ce_height env) (ce_width env) m"
proof -
  have "\<forall>lay. layout_texts (layout_of env) config (ce_height env) (ce_width env) False True
      (label_sizes_of (layout_of env) config labels yl yl2 True) = Inr lay \<longrightarrow> legend_fits (layout_of env) config (ce_width env) items lay"
    using untitled_fits [OF assms(5)] by blast
  from setMeasures_typed [OF assms(1,2) _ assms(3,4) _ this] show ?thesis by (auto simp: line_layout_def)
qed

lemma shares_canvas_finite:
  assumes "shares_canvas h w m" "is_fin h" "is_fin w"
  shows "finite_measures m"
proof -
  have "is_fin (m_availableWidth m)" "is_fin (m_availableHeight m)"
    using assms by (cases "m_leftNotUsableSize m"; cases "m_availableWidth m"; cases "m_rightNotUsableSize m"; simp add: shares_canvas_def)
      (use assms in \<open>cases "m_topNotUsableSize m"; cases "m_availableHeight m"; cases "m_bottomNotUsableHeightWithXLabels m"; simp add: shares_canvas_def\<close>)
  moreover have "is_fin (m_leftNotUsableSize m)" "is_fin (m_topNotUsableSize m)"
    using assms(1) by (auto simp: shares_canvas_def is_size_def split: jsnum.splits)
  ultimately show ?thesis by (simp add: finite_measures_def)
qed

section \<open>The height that is left\<close>

lemma line_text_defaults:
  "oget (chart_config Line no_personal_options None) ''graphSubTitle'' = Str []" "oget (chart_config Line no_personal_options None) ''footNote'' = Str []"
  "oget (chart_config Line no_personal_options None) ''graphSpaceBefore'' = NumF 5" "oget (chart_config Line no_personal_options None) ''graphSpaceAfter'' = NumF 5"
  "oget (chart_config Line no_personal_options None) ''spaceTop'' = NumF 0" "oget (chart_config Line no_personal_options None) ''spaceBottom'' = NumF 0"
  unfolding chart_config_default type_defaults.simps Line_defaults_def commonOptions_def commonOptions_layout_def commonOptions_behaviour_def
    find_last_obj_literal find_last_append
  by (simp_all cong: find_last_step)

lemma line_axis_defaults:
  "oget (chart_config Line no_personal_options None) ''yAxisUnitBackgroundColor'' = Str ''none''" "oget (chart_config Line no_personal_options None) ''yAxisUnitBorders'' = Bool False"
  "oget (chart_config Line no_personal_options None) ''xAxisLabel'' = Str []" "oget (chart_config Line no_personal_options None) ''xAxisBottom'' = Bool True"
  "oget (chart_config Line no_personal_options None) ''xAxisSpaceBefore'' = NumF 5" "oget (chart_config Line no_personal_options None) ''xAxisSpaceAfter'' = NumF 5"
  "oget (chart_config Line no_personal_options None) ''xScaleLabelsMinimumWidth'' = NumF 0" "oget (chart_config Line no_personal_options None) ''scaleFontSize'' = NumF 12"
  unfolding chart_config_default type_defaults.simps Line_defaults_def commonOptions_def commonOptions_layout_def commonOptions_behaviour_def
    find_last_obj_literal find_last_append xyAxisCommonOptions_def oget_obj_literal has_axes.simps if_True
  by (simp_all cong: find_last_step)

text \<open>The layout of a page whose statistics have no name and no unit, with a font whose texts are 10 wide.\<close>

definition util_env :: chart_env where
  "util_env = plot_env\<lparr> ce_paint := plain_paint\<lparr> pe_numstr := (\<lambda>_. ''10'') \<rparr> \<rparr>"

definition util_stat :: obj where
  "util_stat = [(''type'', Str ''utilization''), (''unit'', Str []), (''displayName'', Str []), (''timestamps'', Arr [NumF 1000, NumF 2000]), (''values'', Arr [NumF 20, NumF 50])]"

abbreviation util_config :: obj where
  "util_config \<equiv> chart_config Line no_personal_options (Some (getChartOpts util_stat))"

lemma util_own: "oget (getChartOpts util_stat) ''canvasBorders'' = Bool False" "oget (getChartOpts util_stat) ''fmtXLabel'' = Str ''DateTime''"
  "{''canvasBorders'', ''fmtXLabel'', ''graphTitle'', ''yAxisLabel'', ''yAxisUnit'', ''rotateLabels''} \<subseteq> fst ` set (getChartOpts util_stat)"
  "{''graphSubTitle'', ''footNote'', ''graphSpaceBefore'', ''graphSpaceAfter'', ''spaceTop'', ''spaceBottom'', ''yAxisUnitBackgroundColor'', ''yAxisUnitBorders'', ''xAxisLabel'',
    ''xAxisBottom'', ''xAxisSpaceBefore'', ''xAxisSpaceAfter'', ''xScaleLabelsMinimumWidth'', ''scaleFontSize''} \<inter> fst ` set (getChartOpts util_stat) = {}"
  by (simp_all add: getChartOpts_def Let_def oget_obj_literal keys_oset keys_obj_literal)

lemma util_options:
  "oget util_config ''canvasBorders'' = Bool False" "oget util_config ''fmtXLabel'' = Str ''DateTime''" "oget util_config ''graphTitle'' = Str []"
  "oget util_config ''yAxisLabel'' = Str ''utilization''" "oget util_config ''yAxisUnit'' = Str []" "oget util_config ''rotateLabels'' = NumF 60"
  "oget util_config ''graphSubTitle'' = Str []" "oget util_config ''footNote'' = Str []"
  "oget util_config ''graphSpaceBefore'' = NumF 5" "oget util_config ''graphSpaceAfter'' = NumF 5"
  "oget util_config ''spaceTop'' = NumF 0" "oget util_config ''spaceBottom'' = NumF 0"
  "oget util_config ''yAxisUnitBackgroundColor'' = Str ''none''" "oget util_config ''yAxisUnitBorders'' = Bool False"
  "oget util_config ''xAxisLabel'' = Str []" "oget util_config ''xAxisBottom'' = Bool True"
  "oget util_config ''xAxisSpaceBefore'' = NumF 5" "oget util_config ''xAxisSpaceAfter'' = NumF 5"
  "oget util_config ''xScaleLabelsMinimumWidth'' = NumF 0" "oget util_config ''scaleFontSize'' = NumF 12"
  using util_own unfolding config_opts [OF wf_getChartOpts]
  by (simp_all add: line_text_defaults line_axis_defaults page_text_options del: chart_config.simps) (simp_all add: util_stat_def)

lemma util_px:
  assumes "oget c k = NumF x" "x \<in> \<int>"
  shows "space_px (layout_of util_env) c k = Fin x" "text_px (layout_of util_env) c k = Fin x"
  using assms by (auto simp: space_px_def text_px_def scaled_def layout_of_def util_env_def plot_env_def plain_paint_def plain_scales_def elim!: Ints_cases)

lemma util_texts:
  assumes "same_layout c util_config"
  shows "\<exists>lay. layout_texts (layout_of util_env) c h w False True ls = Inr lay \<and> tl_top lay = Fin 5 \<and> tl_bottom lay = Fin 5"
proof -
  have c: "oget c k = oget util_config k" if "k \<noteq> ''logarithmic''" "k \<noteq> ''logarithmic2''" for k using same_layoutD [OF assms that] .
  have px: "space_px (layout_of util_env) c ''spaceTop'' = Fin 0" "space_px (layout_of util_env) c ''spaceBottom'' = Fin 0"
      "text_px (layout_of util_env) c ''graphSpaceBefore'' = Fin 5" "text_px (layout_of util_env) c ''graphSpaceAfter'' = Fin 5"
    by (rule util_px; simp add: c util_options del: chart_config.simps)+
  obtain yl where "y_axis_label (layout_of util_env) c w 0 = Inr yl"
    by (simp add: y_axis_label_def c util_options text_given_def case_prod_unfold Let_def del: chart_config.simps)
  then show ?thesis
    by (simp add: layout_texts_def Let_def title_band_def unit_band_def lower_band_def text_given_def str_trim_def
        frame_steps_def widened_def c util_options px zero_jsnum_def del: chart_config.simps)
qed

lemma util_labels:
  assumes "same_layout c util_config"
  shows "ls_widestX (label_sizes_of (layout_of util_env) c [NumF 1000, NumF 2000] yl yl2 True) = Fin 10"
    "ls_highestX (label_sizes_of (layout_of util_env) c [NumF 1000, NumF 2000] yl yl2 True) = Fin 12"
proof -
  have px: "text_px (layout_of util_env) c ''scaleFontSize'' = Fin 12" "text_px (layout_of util_env) c ''xScaleLabelsMinimumWidth'' = Fin 0"
    by (rule util_px; simp add: same_layoutD [OF assms] util_options del: chart_config.simps)+
  have shown: "to_string (ly_numstr (layout_of util_env)) (fmtChartJS (ly_numstr (layout_of util_env)) (ly_perso (layout_of util_env)) c (NumF x) (oget c ''fmtXLabel'')) = ''10''" for x
    by (simp add: fmtChartJS_def same_layoutD [OF assms] util_options layout_of_def util_env_def plot_env_def del: chart_config.simps)
  have "text_lines ''10'' = [''10'']" by (simp add: text_lines_def)
  then have "widest_label (layout_of util_env) c ''fmtXLabel'' [NumF 1000, NumF 2000] = (Fin 10, Fin 12)"
    by (simp add: widest_label_def shown px measureTextMultiLine_def Let_def) (simp add: layout_of_def util_env_def plot_env_def zero_jsnum_def one_jsnum_def)
  then show "ls_widestX (label_sizes_of (layout_of util_env) c [NumF 1000, NumF 2000] yl yl2 True) = Fin 10"
    "ls_highestX (label_sizes_of (layout_of util_env) c [NumF 1000, NumF 2000] yl yl2 True) = Fin 12"
    by (simp_all add: label_sizes_of_def Let_def px at_least_def case_prod_unfold)
qed

lemma turned_height_le:
  assumes "space_px env c ''xAxisSpaceBefore'' = Fin a" "space_px env c ''xAxisSpaceAfter'' = Fin b" "0 \<le> w" "0 \<le> h"
  shows "\<exists>x. turned_height env c (Fin angle) (Fin w) (Fin h) = Fin x \<and> x \<le> w + h + a + b"
proof -
  have "\<bar>sin t * r\<bar> \<le> r" if "0 \<le> r" for t r :: real
    using that abs_sin_le_one [of t] by (simp add: abs_mult mult_left_le_one_le)
  from this [OF assms(3)] this [OF assms(4)] show ?thesis
    using assms(1,2) by (auto simp: turned_height_def PI_def intro!: add_mono)
qed

lemma util_height:
  assumes "same_layout c util_config" "\<forall>d \<in> set items. oget d ''title'' = Undef"
    and "line_layout util_env c [NumF 1000, NumF 2000] items yl yl2 = Inr m"
  shows "\<exists>h. m_availableHeight m = Fin h \<and> 188 \<le> h"
proof -
  let ?env = "layout_of util_env" let ?ls = "label_sizes_of (layout_of util_env) c [NumF 1000, NumF 2000] yl yl2 True"
  obtain lay where lay: "layout_texts ?env c (ce_height util_env) (ce_width util_env) False True ?ls = Inr lay" "tl_top lay = Fin 5" "tl_bottom lay = Fin 5"
    using util_texts [OF assms(1)] by blast
  have legend: "layout_legend ?env c h w items lay = (no_legend 0 0, lay)" for h w
    by (simp add: layout_legend_def untitled_legend [OF assms(2)] legend_drawn_def)
  have "oget c ''xAxisBottom'' = Bool True" "oget c ''footNote'' = Str []" "oget c ''rotateLabels'' = NumF 60"
    by (simp_all add: same_layoutD [OF assms(1)] util_options del: chart_config.simps)
  note o = this
  have px: "space_px ?env c ''xAxisSpaceBefore'' = Fin 5" "space_px ?env c ''xAxisSpaceAfter'' = Fin 5"
    by (rule util_px; simp add: same_layoutD [OF assms(1)] util_options del: chart_config.simps)+
  obtain x where x: "turned_height ?env c (Fin 60) (Fin 10) (Fin 12) = Fin x" "x \<le> 10 + 12 + 5 + 5"
    using turned_height_le [OF px, of 10 12 60] by auto
  have h: "ce_height util_env = Fin 230" by (simp add: util_env_def plot_env_def)
  have "str_to_num ''smart'' = NaN" by code_simp
  then have "rotate_labels ?env c avail widest n = Fin 60" for avail widest n
    by (simp add: rotate_labels_def o Let_def zero_jsnum_def)
  then have "m_availableHeight m = ce_height util_env - Fin 5 - (Fin 5 + Fin x)"
    using assms(3) util_labels [OF assms(1), of yl yl2] x(1)
    by (auto simp: line_layout_def setMeasures_def Let_def lay legend layout_labels_def o text_given_def split: if_splits)
  with x(2) h show ?thesis by simp
qed

end
