(* ===== verification/BarPainting.thy ===== *)
theory BarPainting
  imports LinePainting ValueIndex "HOL-Library.Sublist"
begin

text \<open>
  The bars: the function \<open>drawBars\<close> of the stacked bar chart, the horizontal stacked bar chart, the bar chart and the
  horizontal bar chart, with the two versions of \<open>roundRect\<close>.  A bar chart also draws the lines of its data sets of
  type \<open>Line\<close>.  As in \<open>Painting\<close>, the result is the list of calls of the canvas context and the shapes
  for the mouse; options that are sizes are numbers.
\<close>

section \<open>The parts the functions share\<close>

text \<open>\<open>animationCorrection(animPc, data, config, i, j, 1).animVal\<close>, brought back to at most 1.\<close>

definition bar_share :: "obj \<Rightarrow> nat list \<Rightarrow> jsnum \<Rightarrow> nat \<Rightarrow> nat \<Rightarrow> jsnum" where
  "bar_share config lens animPc i j =
     (let a = animVal (animationCorrection animPc lens config i (Some j) 1) in if a > 1 then a - 1 else a)"

definition lens_of :: "obj list \<Rightarrow> nat list" where
  "lens_of datasets = map (length \<circ> dvalues) datasets"

definition bar_colours :: "paint_env \<Rightarrow> obj \<Rightarrow> obj \<Rightarrow> nat \<Rightarrow> nat \<Rightarrow> js_error + canvas_op list" where
  "bar_colours pe config ds i j =
     and_then (style_option pe ''COLOR'' (oget ds ''fillColor'') (oget config ''defaultFillColor'') i (int j)) (\<lambda>fill.
     and_then (style_option pe ''STROKECOLOR'' (oget ds ''strokeColor'') (oget config ''defaultStrokeColor'') i (int j)) (\<lambda>stroke.
       Inr [FillStyle fill, StrokeStyle stroke]))"

definition bar_dash :: "paint_env \<Rightarrow> obj \<Rightarrow> obj \<Rightarrow> nat \<Rightarrow> nat \<Rightarrow> js_error + canvas_op list" where
  "bar_dash pe config ds i j =
     and_then (style_option pe ''STROKESTYLE'' (oget ds ''datasetStrokeStyle'') (oget config ''datasetStrokeStyle'') i (int j)) (\<lambda>dash.
       Inr [LineDash (lineStyleFn (pe_numstr pe) dash)])"

text \<open>\<open>if (config.barShowStroke) { ... }\<close>\<close>

definition bar_stroke :: "paint_env \<Rightarrow> obj \<Rightarrow> obj \<Rightarrow> nat \<Rightarrow> nat \<Rightarrow> js_error + canvas_op list" where
  "bar_stroke pe config ds i j =
     (if to_bool (oget config ''barShowStroke'')
      then and_then (bar_dash pe config ds i j) (\<lambda>dash. Inr (dash @ [Stroke, LineDash []])) else Inr [])"

definition stroke_width :: "paint_env \<Rightarrow> obj \<Rightarrow> jsnum" where
  "stroke_width pe config = scaled (sc_line (pe_scales pe)) config ''barStrokeWidth''"

definition register_bar :: "paint_env \<Rightarrow> obj \<Rightarrow> (nat \<Rightarrow> nat \<Rightarrow> obj) \<Rightarrow> obj \<Rightarrow> nat \<Rightarrow> nat \<Rightarrow> js_error + annotation list" where
  "register_bar pe config statData ds i j =
     (if aget (dvalues ds) j = Undef then Inr []
      else and_then (style_option pe ''ANNOTATEDISPLAY'' Undef (oget config ''annotateDisplay'') i (int j)) (\<lambda>shown.
        Inr (if to_bool shown then [\<lparr> an_shape = RECT, an_i = i, an_j = int j, an_entry = statData i j \<rparr>] else [])))"

text \<open>The loops over the data sets and their values.\<close>

definition each_bar :: "obj list \<Rightarrow> (obj \<Rightarrow> nat \<Rightarrow> nat \<Rightarrow> js_error + 'a list) \<Rightarrow> js_error + 'a list" where
  "each_bar datasets f =
     map_sum id concat (collect (\<lambda>i. map_sum id concat (collect (f (datasets ! i) i) [0..<length (dvalues (datasets ! i))])) [0..<length datasets])"

definition register_bars :: "paint_env \<Rightarrow> obj \<Rightarrow> (nat \<Rightarrow> nat \<Rightarrow> obj) \<Rightarrow> obj list \<Rightarrow> jsnum \<Rightarrow> js_error + annotation list" where
  "register_bars pe config statData datasets animPc =
     (if last_frame config animPc then each_bar datasets (register_bar pe config statData) else Inr [])"

text \<open>The entry of the first data set with a value at the position, from which an animation of all data sets starts.
  There is one wherever it is read, since the value of the bar itself is given.\<close>

definition first_bar :: "(nat \<Rightarrow> nat \<Rightarrow> obj) \<Rightarrow> nat \<Rightarrow> nat \<Rightarrow> obj" where
  "first_bar statData i j = statData (nat \<lfloor>fin_val (num_at (statData i j) ''firstNotMissing'')\<rfloor>) j"

section \<open>Stacked bars\<close>

definition stacked_ends :: "obj \<Rightarrow> (nat \<Rightarrow> nat \<Rightarrow> obj) \<Rightarrow> jsnum \<Rightarrow> nat \<Rightarrow> nat \<Rightarrow> jsnum \<times> jsnum" where
  "stacked_ends config statData a i j =
     (let bottom = num_at (statData i j) ''yPosBottom''; top = num_at (statData i j) ''yPosTop'';
          base = num_at (first_bar statData i j) ''yPosBottom''
      in if to_bool (oget config ''animationByDataset'') then (bottom, bottom + a * (top - bottom))
         else (base - a * (base - bottom), base - a * (base - top)))"

definition paint_stacked_bar :: "paint_env \<Rightarrow> obj \<Rightarrow> (nat \<Rightarrow> nat \<Rightarrow> obj) \<Rightarrow> nat list \<Rightarrow> jsnum \<Rightarrow> obj \<Rightarrow> nat \<Rightarrow> nat \<Rightarrow> js_error + canvas_op list" where
  "paint_stacked_bar pe config statData lens animPc ds i j =
     (let a = bar_share config lens animPc i j; v = aget (dvalues ds) j
      in if v = Undef \<or> num_eq (to_number v) 0 then Inr []
         else
           (let (botBar, topBar) = stacked_ends config statData a i j;
                left = num_at (statData i j) ''xPosLeft''; right = num_at (statData i j) ''xPosRight''
            in and_then (bar_colours pe config ds i j) (\<lambda>colours.
               if \<not> num_eq a 0 \<and> \<not> num_eq botBar topBar
               then and_then (bar_stroke pe config ds i j) (\<lambda>stroke.
                      Inr (colours @ [BeginPath, MoveTo left botBar, LineTo left topBar, LineTo right topBar, LineTo right botBar]
                           @ stroke @ [ClosePath, Fill]))
               else Inr colours)))"

definition drawBars_StackedBar ::
  "paint_env \<Rightarrow> obj \<Rightarrow> obj list \<Rightarrow> (nat \<Rightarrow> nat \<Rightarrow> obj) \<Rightarrow> jsnum \<Rightarrow> js_error + canvas_op list \<times> annotation list" where
  "drawBars_StackedBar pe config datasets statData animPc =
     and_then (each_bar datasets (paint_stacked_bar pe config statData (lens_of datasets) animPc)) (\<lambda>ops.
     and_then (register_bars pe config statData datasets animPc) (\<lambda>shapes. Inr (LineWidth (stroke_width pe config) # ops, shapes)))"

section \<open>Horizontal stacked bars\<close>

definition horizontal_ends :: "obj \<Rightarrow> (nat \<Rightarrow> nat \<Rightarrow> obj) \<Rightarrow> jsnum \<Rightarrow> nat \<Rightarrow> nat \<Rightarrow> jsnum \<times> jsnum" where
  "horizontal_ends config statData a i j =
     (let left = num_at (statData i j) ''xPosLeft''; right = num_at (statData i j) ''xPosRight'';
          base = num_at (first_bar statData i j) ''xPosLeft''
      in if to_bool (oget config ''animationByDataset'') then (left, left + a * (right - left))
         else (base + a * (left - base), base + a * (right - base)))"

text \<open>Here the test for an empty bar compares the final ends, not the animated ones.\<close>

definition paint_horizontal_stacked_bar ::
  "paint_env \<Rightarrow> obj \<Rightarrow> (nat \<Rightarrow> nat \<Rightarrow> obj) \<Rightarrow> nat list \<Rightarrow> jsnum \<Rightarrow> obj \<Rightarrow> nat \<Rightarrow> nat \<Rightarrow> js_error + canvas_op list" where
  "paint_horizontal_stacked_bar pe config statData lens animPc ds i j =
     (let a = bar_share config lens animPc i j; v = aget (dvalues ds) j
      in if v = Undef \<or> num_eq (to_number v) 0 then Inr []
         else
           (let (leftBar, rightBar) = horizontal_ends config statData a i j;
                top = num_at (statData i j) ''yPosTop''; bottom = num_at (statData i j) ''yPosBottom''
            in and_then (bar_colours pe config ds i j) (\<lambda>colours.
               if \<not> num_eq a 0 \<and> \<not> num_eq (num_at (statData i j) ''xPosLeft'') (num_at (statData i j) ''xPosRight'')
               then and_then (bar_stroke pe config ds i j) (\<lambda>stroke.
                      Inr (colours @ [BeginPath, MoveTo leftBar top, LineTo rightBar top, LineTo rightBar bottom, LineTo leftBar bottom, LineTo leftBar top]
                           @ stroke @ [ClosePath, Fill]))
               else Inr colours)))"

definition drawBars_HorizontalStackedBar ::
  "paint_env \<Rightarrow> obj \<Rightarrow> obj list \<Rightarrow> (nat \<Rightarrow> nat \<Rightarrow> obj) \<Rightarrow> jsnum \<Rightarrow> js_error + canvas_op list \<times> annotation list" where
  "drawBars_HorizontalStackedBar pe config datasets statData animPc =
     and_then (each_bar datasets (paint_horizontal_stacked_bar pe config statData (lens_of datasets) animPc)) (\<lambda>ops.
     and_then (register_bars pe config statData datasets animPc) (\<lambda>shapes. Inr (LineWidth (stroke_width pe config) # ops, shapes)))"

section \<open>Bars\<close>

text \<open>\<open>1\<close> for a bar that goes up or to the right, \<open>- 1\<close> for a negative one.\<close>

definition bar_sign :: "jsval \<Rightarrow> jsnum" where
  "bar_sign v = (if to_number v < 0 then - 1 else 1)"

definition roundRect :: "paint_env \<Rightarrow> obj \<Rightarrow> obj \<Rightarrow> jsnum \<Rightarrow> jsnum \<Rightarrow> jsnum \<Rightarrow> jsnum \<Rightarrow> bool \<Rightarrow> jsnum \<Rightarrow> nat \<Rightarrow> nat \<Rightarrow> jsnum \<Rightarrow> js_error + canvas_op list" where
  "roundRect pe config ds x y w h stroke radius i j factor =
     and_then (bar_dash pe config ds i j) (\<lambda>dash.
       Inr (BeginPath # dash
         @ [MoveTo (x + radius) y, LineTo (x + w - radius) y, QuadraticCurveTo (x + w) y (x + w) y,
            LineTo (x + w) (y - h + factor * radius), QuadraticCurveTo (x + w) (y - h) (x + w - radius) (y - h),
            LineTo (x + radius) (y - h), QuadraticCurveTo x (y - h) x (y - h + factor * radius),
            LineTo x y, QuadraticCurveTo x y (x + radius) y]
         @ (if stroke then [Stroke] else []) @ [ClosePath, Fill, LineDash []]))"

definition paint_bar ::
  "paint_env \<Rightarrow> obj \<Rightarrow> (nat \<Rightarrow> nat \<Rightarrow> obj) \<Rightarrow> jsnum \<Rightarrow> nat list \<Rightarrow> jsnum \<Rightarrow> obj \<Rightarrow> nat \<Rightarrow> nat \<Rightarrow> js_error + canvas_op list" where
  "paint_bar pe config statData barWidth lens animPc ds i j =
     (let v = aget (dvalues ds) j; e = statData i j
      in if loose_eq (oget ds ''type'') (Str ''Line'') \<or> v = Undef then Inr []
         else
           (let barHeight = bar_share config lens animPc i j * num_at e ''barHeight'' + stroke_width pe config / 2
            in and_then (bar_colours pe config ds i j) (\<lambda>colours.
               and_then (roundRect pe config ds (num_at e ''xPosLeft'') (num_at e ''yPosBottom'') barWidth barHeight
                   (to_bool (oget config ''barShowStroke'')) (to_number (oget config ''barBorderRadius'')) i j (bar_sign v)) (\<lambda>rect.
                 Inr (colours @ rect)))))"

definition register_own_bar :: "paint_env \<Rightarrow> obj \<Rightarrow> (nat \<Rightarrow> nat \<Rightarrow> obj) \<Rightarrow> obj \<Rightarrow> nat \<Rightarrow> nat \<Rightarrow> js_error + annotation list" where
  "register_own_bar pe config statData ds i j =
     (if loose_eq (oget ds ''type'') (Str ''Line'') then Inr [] else register_bar pe config statData ds i j)"

definition drawBars_Bar ::
  "paint_env \<Rightarrow> obj \<Rightarrow> othervars \<Rightarrow> obj list \<Rightarrow> (nat \<Rightarrow> nat \<Rightarrow> obj) \<Rightarrow> jsnum \<Rightarrow> js_error + canvas_op list \<times> annotation list" where
  "drawBars_Bar pe config ov datasets statData animPc =
     and_then (each_bar datasets (paint_bar pe config statData (ov_barWidth ov) (lens_of datasets) animPc)) (\<lambda>ops.
     and_then (drawLinesDataset pe config ov datasets statData animPc) (\<lambda>(lines, points).
     and_then (if last_frame config animPc then each_bar datasets (register_own_bar pe config statData) else Inr []) (\<lambda>shapes.
       Inr (LineWidth (stroke_width pe config) # ops @ lines, points @ shapes))))"

section \<open>Horizontal bars\<close>

definition roundRect_horizontal :: "paint_env \<Rightarrow> obj \<Rightarrow> obj \<Rightarrow> jsnum \<Rightarrow> jsnum \<Rightarrow> jsnum \<Rightarrow> jsnum \<Rightarrow> jsnum \<Rightarrow> jsnum \<Rightarrow> nat \<Rightarrow> nat \<Rightarrow> jsnum \<Rightarrow> js_error + canvas_op list" where
  "roundRect_horizontal pe config ds x y w h radius zeroY i j factor =
     and_then (bar_stroke pe config ds i j) (\<lambda>stroke.
       Inr ([BeginPath, MoveTo (y + zeroY) (x + radius), LineTo (y + zeroY) (x + w - radius), QuadraticCurveTo (y + zeroY) (x + w) (y + zeroY) (x + w),
            LineTo (y + h - factor * radius) (x + w), QuadraticCurveTo (y + h) (x + w) (y + h) (x + w - radius),
            LineTo (y + h) (x + radius), QuadraticCurveTo (y + h) x (y + h - factor * radius) x,
            LineTo (y + zeroY) x, QuadraticCurveTo (y + zeroY) x (y + zeroY) (x + radius)]
         @ stroke @ [ClosePath, Fill]))"

text \<open>The colours of a missing value are set although nothing is painted.\<close>

definition paint_horizontal_bar ::
  "paint_env \<Rightarrow> obj \<Rightarrow> (nat \<Rightarrow> nat \<Rightarrow> obj) \<Rightarrow> jsnum \<Rightarrow> nat list \<Rightarrow> jsnum \<Rightarrow> obj \<Rightarrow> nat \<Rightarrow> nat \<Rightarrow> js_error + canvas_op list" where
  "paint_horizontal_bar pe config statData barWidth lens animPc ds i j =
     (let v = aget (dvalues ds) j; e = statData i j;
          barHeight = bar_share config lens animPc i j * num_at e ''barWidth'' + stroke_width pe config / 2
      in and_then (bar_colours pe config ds i j) (\<lambda>colours.
         and_then (if v = Undef then Inr []
                   else roundRect_horizontal pe config ds (num_at e ''yPosTop'') (num_at e ''xPosLeft'') barWidth barHeight
                          (to_number (oget config ''barBorderRadius'')) 0 i j (bar_sign v)) (\<lambda>rect.
           Inr (LineWidth (stroke_width pe config) # colours @ rect))))"

definition drawBars_HorizontalBar ::
  "paint_env \<Rightarrow> obj \<Rightarrow> othervars \<Rightarrow> obj list \<Rightarrow> (nat \<Rightarrow> nat \<Rightarrow> obj) \<Rightarrow> jsnum \<Rightarrow> js_error + canvas_op list \<times> annotation list" where
  "drawBars_HorizontalBar pe config ov datasets statData animPc =
     and_then (each_bar datasets (paint_horizontal_bar pe config statData (ov_barWidth ov) (lens_of datasets) animPc)) (\<lambda>ops.
     and_then (register_bars pe config statData datasets animPc) (\<lambda>shapes. Inr (ops, shapes)))"

section \<open>The loops\<close>

lemma each_barE:
  assumes "each_bar datasets f = Inr xs"
  obtains xss where "xs = concat (map concat xss)" "length xss = length datasets"
    "\<And>i. i < length datasets \<Longrightarrow> collect (f (datasets ! i) i) [0..<length (dvalues (datasets ! i))] = Inr (xss ! i)"
proof -
  let ?g = "\<lambda>i. collect (f (datasets ! i) i) [0..<length (dvalues (datasets ! i))]"
  obtain ys where ys: "collect (\<lambda>i. map_sum id concat (?g i)) [0..<length datasets] = Inr ys" "xs = concat ys"
    using assms unfolding each_bar_def by (cases "collect (\<lambda>i. map_sum id concat (?g i)) [0..<length datasets]") auto
  from collect_nth [OF ys(1)] have len: "length ys = length datasets"
    and nth: "\<And>i. i < length datasets \<Longrightarrow> map_sum id concat (?g i) = Inr (ys ! i)" by simp_all
  have "\<forall>i < length datasets. \<exists>zs. ?g i = Inr zs \<and> concat zs = ys ! i"
  proof (intro allI impI)
    fix i assume "i < length datasets"
    from nth [OF this] show "\<exists>zs. ?g i = Inr zs \<and> concat zs = ys ! i" by (cases "?g i") auto
  qed
  then obtain z where z: "\<And>i. i < length datasets \<Longrightarrow> ?g i = Inr (z i) \<and> concat (z i) = ys ! i" by metis
  have "ys = map concat (map z [0..<length datasets])" using z len by (intro nth_equalityI) simp_all
  with z show ?thesis by (intro that [of "map z [0..<length datasets]"]) (simp_all add: ys(2))
qed

lemma sublist_concat: "i < length xss \<Longrightarrow> sublist (xss ! i) (concat xss)"
  by (subst (2) id_take_nth_drop [of i xss]) (auto simp: sublist_def)

text \<open>What the loops do with one bar is a part of the result, and every member of the result comes from one bar.\<close>

lemma each_bar_part:
  assumes "each_bar datasets f = Inr xs" "i < length datasets" "j < length (dvalues (datasets ! i))"
  shows "\<exists>ys. f (datasets ! i) i j = Inr ys \<and> sublist ys xs"
proof -
  obtain xss where xss: "xs = concat (map concat xss)" "length xss = length datasets"
      "collect (f (datasets ! i) i) [0..<length (dvalues (datasets ! i))] = Inr (xss ! i)"
    using each_barE [OF assms(1)] assms(2) by metis
  from collect_nth [OF xss(3)] assms(3)
  have "f (datasets ! i) i j = Inr (xss ! i ! j)" "sublist (xss ! i ! j) (concat (xss ! i))"
    by (simp_all add: sublist_concat)
  moreover have "sublist (concat (xss ! i)) xs"
    using sublist_concat [of i "map concat xss"] xss(1,2) assms(2) by simp
  ultimately show ?thesis using sublist_order.order.trans by blast
qed

lemma each_bar_member:
  assumes "each_bar datasets f = Inr xs" "y \<in> set xs"
  shows "\<exists>i < length datasets. \<exists>j < length (dvalues (datasets ! i)). \<exists>ys. f (datasets ! i) i j = Inr ys \<and> y \<in> set ys"
proof -
  obtain xss where xss: "xs = concat (map concat xss)" "length xss = length datasets"
      "\<And>i. i < length datasets \<Longrightarrow> collect (f (datasets ! i) i) [0..<length (dvalues (datasets ! i))] = Inr (xss ! i)"
    using each_barE [OF assms(1)] by metis
  have "\<exists>i < length datasets. y \<in> set (concat (xss ! i))" using assms(2) xss(1,2) by (auto simp: in_set_conv_nth [of _ xss]) blast
  then obtain i where i: "i < length datasets" "y \<in> set (concat (xss ! i))" by blast
  with in_collect [OF xss(3) [OF i(1)]] show ?thesis by blast
qed

section \<open>The boxes of stacked bars\<close>

text \<open>The offsets of a linear scale grow with the value.\<close>

lemma linear_axis_level:
  assumes "linear_axis sc logar hop n s g h"
  shows "\<exists>level. mono level \<and> (\<forall>x. calculateOffset lg logar (Fin x) sc hop = Fin (level x))"
proof -
  define q where "q x = (x - g) / (n * s)" for x
  define f where "f x = (if q x > 1 then 1 else if q x < 0 then 0 else q x)" for x
  have c: "calculateOffset lg logar (Fin x) sc hop = Fin (h * n * f x)" for x
    using assms by (simp add: linear_axis_def calculateOffset_def Let_def CapValue_Fin q_def f_def)
  have "q x \<le> q y" if "x \<le> y" for x y
    using assms that by (simp add: linear_axis_def q_def divide_right_mono)
  then have "f x \<le> f y" if "x \<le> y" for x y using that [THEN \<open>\<And>y x. x \<le> y \<Longrightarrow> q x \<le> q y\<close>] by (auto simp: f_def)
  then have "mono (\<lambda>x. h * n * f x)" using assms by (intro monoI mult_left_mono) (simp_all add: linear_axis_def)
  with c show ?thesis by blast
qed

text \<open>The values between which the bar of the data set \<open>i\<close> lies.\<close>

definition stack_base :: "obj list \<Rightarrow> nat \<Rightarrow> nat \<Rightarrow> real" where
  "stack_base dss i j = (if svalue j (dss ! i) < 0 then stack_down j (take i dss) else stack_up j (take i dss))"

definition stack_top :: "obj list \<Rightarrow> nat \<Rightarrow> nat \<Rightarrow> real" where
  "stack_top dss i j = stack_base dss i j + svalue j (dss ! i)"

lemma stack_take_Suc:
  "i < length dss \<Longrightarrow> stack_up j (take (Suc i) dss) = stack_up j (take i dss) + max 0 (svalue j (dss ! i))"
  "i < length dss \<Longrightarrow> stack_down j (take (Suc i) dss) = stack_down j (take i dss) + min 0 (svalue j (dss ! i))"
  by (simp_all add: stack_up_def stack_down_def take_Suc_conv_app_nth)

lemma stack_take_mono:
  assumes "i \<le> k"
  shows "stack_up j (take i dss) \<le> stack_up j (take k dss)" "stack_down j (take k dss) \<le> stack_down j (take i dss)"
proof -
  have minus: "sum_list (map (\<lambda>ds. - min 0 (svalue j ds)) xs) = - sum_list (map (\<lambda>ds. min 0 (svalue j ds)) xs)" for xs
    by (induction xs) simp_all
  show "stack_up j (take i dss) \<le> stack_up j (take k dss)" "stack_down j (take k dss) \<le> stack_down j (take i dss)"
    using sum_take_mono [of dss "\<lambda>ds. max 0 (svalue j ds)" i k] sum_take_mono [of dss "\<lambda>ds. - min 0 (svalue j ds)" i k] assms
    unfolding minus by (simp_all add: stack_up_def stack_down_def)
qed

lemma stack_ranges:
  assumes "i < length dss"
  shows "svalue j (dss ! i) < 0 \<Longrightarrow> stack_base dss i j = stack_down j (take i dss) \<and> stack_top dss i j = stack_down j (take (Suc i) dss)"
    and "\<not> svalue j (dss ! i) < 0 \<Longrightarrow> stack_base dss i j = stack_up j (take i dss) \<and> stack_top dss i j = stack_up j (take (Suc i) dss)"
  using assms by (auto simp: stack_base_def stack_top_def stack_take_Suc)

lemma stack_signs: "stack_down j dss \<le> 0" "0 \<le> stack_up j dss"
  using stack_take_mono(2) [of 0 "length dss" j dss] stack_take_mono(1) [of 0 "length dss" j dss] by (simp_all add: stack_down_def stack_up_def)

text \<open>Two bars of a stack lie apart.\<close>

lemma stack_apart:
  assumes "i < k" "k < length dss"
  shows "max (stack_base dss i j) (stack_top dss i j) \<le> min (stack_base dss k j) (stack_top dss k j)
       \<or> max (stack_base dss k j) (stack_top dss k j) \<le> min (stack_base dss i j) (stack_top dss i j)"
proof -
  have i: "i < length dss" using assms by simp
  have u: "stack_up j (take i dss) \<le> stack_up j (take (Suc i) dss)" "stack_up j (take (Suc i) dss) \<le> stack_up j (take k dss)"
      "stack_up j (take k dss) \<le> stack_up j (take (Suc k) dss)" using assms(1) by (auto intro: stack_take_mono)
  have d: "stack_down j (take (Suc i) dss) \<le> stack_down j (take i dss)" "stack_down j (take k dss) \<le> stack_down j (take (Suc i) dss)"
      "stack_down j (take (Suc k) dss) \<le> stack_down j (take k dss)" using assms(1) by (auto intro: stack_take_mono)
  note signs = stack_signs [of j "take i dss"] stack_signs [of j "take k dss"]
  show ?thesis
    using stack_ranges [OF i, of j] stack_ranges [OF assms(2), of j] u d signs
    by (cases "svalue j (dss ! i) < 0"; cases "svalue j (dss ! k) < 0") auto
qed

text \<open>The sides of a bar do not depend on the data set, and what the first pass stored of its column is kept.\<close>

definition column_left :: "obj \<Rightarrow> ctx_scales \<Rightarrow> othervars \<Rightarrow> nat \<Rightarrow> jsnum" where
  "column_left config cs ov j = ov_yAxisPosX ov + scaled (sc_space cs) config ''barValueSpacing'' + ov_valueHop ov * Fin (of_nat j)"

definition in_column :: "obj \<Rightarrow> ctx_scales \<Rightarrow> othervars \<Rightarrow> nat \<Rightarrow> obj \<Rightarrow> obj \<Rightarrow> bool" where
  "in_column config cs ov j e0 e =
     (oget e ''xPosLeft'' = Num (column_left config cs ov j) \<and> oget e ''xPosRight'' = Num (column_left config cs ov j + ov_barWidth ov)
      \<and> oget e ''firstNotMissing'' = oget e0 ''firstNotMissing'')"

lemma stacked_step_column:
  "v \<noteq> Undef \<Longrightarrow> in_column config cs ov j (sk_result st i j) (sk_result (stacked_step lg config cs ov i (j, v) st) i j)"
  by (simp add: stacked_step_def Let_def stack_ends_def oget_copy_attrs bar_box_def in_column_def column_left_def push_stack_def)

lemma stack_run_before: "length vs \<le> j \<Longrightarrow> sk_result (stack_run lg config cs ov i vs sk) i j = sk_result sk i j"
  by (induction vs rule: rev_induct) (simp_all add: enumerate_snoc stacked_step_other)

lemma stack_run_column:
  assumes "aget vs j \<noteq> Undef"
  shows "in_column config cs ov j (sk_result sk i j) (sk_result (stack_run lg config cs ov i vs sk) i j)"
  using assms
proof (induction vs rule: rev_induct)
  case (snoc v vs)
  show ?case
  proof (cases "j = length vs")
    case True
    with snoc.prems have "v \<noteq> Undef" by (simp add: aget_snoc)
    from stacked_step_column [OF this, of config cs ov j "stack_run lg config cs ov i vs sk" i lg] True show ?thesis
      unfolding stack_run_snoc by (simp add: stack_run_before)
  next
    case False
    with snoc show ?thesis unfolding stack_run_snoc by (simp add: aget_snoc stacked_step_other)
  qed
qed (simp add: aget_def)

lemma stacks_column:
  assumes "given dss i j"
  shows "in_column config cs ov j (statData i j)
    (initPassVariableData_part2_values lg config ''StackedBar'' data labels cs ov dss statData i j)"
proof -
  define st where "st n dss = fold (place_dataset lg config ''StackedBar'' data labels n cs ov) (enumerate 0 dss)
      \<lparr> pl_realbars = 0, pl_stacks = \<lparr> sk_pos = (\<lambda>_. 0), sk_neg = (\<lambda>_. 0), sk_result = statData \<rparr> \<rparr>" for n dss
  have "(\<forall>i j. given dss i j \<longrightarrow> in_column config cs ov j (statData i j) (sk_result (pl_stacks (st n dss)) i j))
      \<and> (\<forall>i \<ge> length dss. sk_result (pl_stacks (st n dss)) i = statData i)" for n dss
  proof (induction dss rule: rev_induct)
    case (snoc ds dss)
    have step: "pl_stacks (st n (dss @ [ds])) = stack_run lg config cs ov (length dss) (dvalues ds) (pl_stacks (st n dss))"
      by (simp add: st_def enumerate_snoc place_stacked)
    from snoc stack_run_column [of "dvalues ds" _ config cs ov "pl_stacks (st n dss)" "length dss" lg]
    show ?case unfolding step by (auto simp: nth_append less_Suc_eq stack_run_other)
  qed (simp add: st_def)
  with assms show ?thesis by (auto simp: initPassVariableData_part2_values_def Let_def st_def)
qed

text \<open>The measures of a stacked bar chart: columns of width \<open>bw\<close> every \<open>w\<close> pixels from \<open>x0\<close> on, and the scale.\<close>

definition stack_measures :: "obj \<Rightarrow> ctx_scales \<Rightarrow> othervars \<Rightarrow> real \<Rightarrow> real \<Rightarrow> real \<Rightarrow> real \<Rightarrow> bool" where
  "stack_measures config cs ov x0 y0 w bw =
     (column_left config cs ov 0 = Fin x0 \<and> ov_valueHop ov = Fin w \<and> ov_barWidth ov = Fin bw \<and> ov_xAxisPosY ov = Fin y0
      \<and> 0 \<le> bw \<and> bw \<le> w \<and> (\<exists>n s g h. linear_axis (ov_scale ov) (oget config ''logarithmic'') (ov_scaleHop ov) n s g h)
      \<and> \<not> scaled (sc_space cs) config ''spaceBetweenBar'' > 0)"

definition stacked_boxes :: "obj list \<Rightarrow> (nat \<Rightarrow> nat \<Rightarrow> obj) \<Rightarrow> real \<Rightarrow> real \<Rightarrow> real \<Rightarrow> real \<Rightarrow> (real \<Rightarrow> real) \<Rightarrow> bool" where
  "stacked_boxes dss statData x0 y0 w bw level =
     (mono level \<and> 0 \<le> bw \<and> bw \<le> w
      \<and> (\<forall>i j. given dss i j \<longrightarrow>
           num_at (statData i j) ''xPosLeft'' = Fin (x0 + w * real j) \<and> num_at (statData i j) ''xPosRight'' = Fin (x0 + w * real j + bw)
           \<and> num_at (statData i j) ''yPosBottom'' = Fin (y0 - level (stack_base dss i j))
           \<and> num_at (statData i j) ''yPosTop'' = Fin (y0 - level (stack_top dss i j))
           \<and> (\<exists>f. given dss f j \<and> first_bar statData i j = statData f j)))"

lemma part1_first:
  assumes "(padded, statData) = initPassVariableData_values ns perso config ''StackedBar'' labels datasets" "given padded i j"
  shows "\<exists>f. given padded f j \<and> oget (statData i j) ''firstNotMissing'' = IntV (int f)"
proof -
  have padded: "padded = map (pad_dataset ''StackedBar'' labels) datasets"
    using assms(1) by (simp add: initPassVariableData_values_def Let_def)
  have kind: "drawn_as ''StackedBar'' ds = ''StackedBar''" for ds by (simp add: drawn_as_def tpdraw_def)
  have "j < length (dvalues (padded ! i))" using assms(2) aget_length by blast
  with part1_indexed [OF assms(1), of i j] assms(2) have "oget (statData i j) ''firstNotMissing'' = IntV (vt_firstj (value_totals padded) j)"
    by (simp add: kind value_kind_def indexed_def first_index_def padded)
  with value_totals_first [of padded j] assms(2) show ?thesis by (auto split: if_splits)
qed

lemma stacked_placed_at:
  assumes "\<forall>ds \<in> set datasets. finite_dataset ds" "stack_measures config cs ov x0 y0 w bw"
    and "(padded, stat0) = initPassVariableData_values ns perso config0 ''StackedBar'' labels datasets"
    and "statData = initPassVariableData_part2_values lg config ''StackedBar'' data labels cs ov padded stat0"
    and level: "mono level" "\<And>x. calculateOffset lg (oget config ''logarithmic'') (Fin x) (ov_scale ov) (ov_scaleHop ov) = Fin (level x)"
  shows "stacked_boxes padded statData x0 y0 w bw level"
proof -
  note m = assms(2) [unfolded stack_measures_def]
  have fin: "\<forall>ds \<in> set padded. finite_dataset ds"
    using assms(1,3) pad_dataset_same(5) by (auto simp: initPassVariableData_values_def Let_def)
  have tiled: "stacks_done lg config ov j padded (pl_stacks (fold (place_dataset lg config ''StackedBar'' data labels n cs ov) (enumerate 0 padded)
      \<lparr> pl_realbars = 0, pl_stacks = \<lparr> sk_pos = (\<lambda>_. 0), sk_neg = (\<lambda>_. 0), sk_result = stat0 \<rparr> \<rparr>))" for j n
    by (rule stacks_done_all [OF fin]) (use m in simp_all)
  have stands: "stands_on lg config ov (Fin (stack_base padded i j)) (Fin (svalue j (padded ! i))) (statData i j)" if "given padded i j" for i j
    using stacks_doneD [OF tiled] that unfolding assms(4) initPassVariableData_part2_values_def Let_def stack_base_def by simp
  have left: "column_left config cs ov j = Fin (x0 + w * real j)" for j
    using m by (cases "ov_yAxisPosX ov"; cases "scaled (sc_space cs) config ''barValueSpacing''")
      (auto simp: column_left_def zero_jsnum_def)
  have "\<exists>f. given padded f j \<and> first_bar statData i j = statData f j" if "given padded i j" for i j
    using part1_first [OF assms(3) that] stacks_column [OF that, of config cs ov stat0 lg data labels]
    by (auto simp: assms(4) in_column_def first_bar_def num_at_def)
  moreover have "num_at (statData i j) ''xPosLeft'' = Fin (x0 + w * real j) \<and> num_at (statData i j) ''xPosRight'' = Fin (x0 + w * real j + bw)"
    if "given padded i j" for i j
    using stacks_column [OF that, of config cs ov stat0 lg data labels] m left by (simp add: assms(4) in_column_def num_at_def)
  moreover have "num_at (statData i j) ''yPosBottom'' = Fin (y0 - level (stack_base padded i j))
           \<and> num_at (statData i j) ''yPosTop'' = Fin (y0 - level (stack_top padded i j))" if "given padded i j" for i j
    using stands [OF that] m by (simp add: stands_on_def num_at_def level(2) stack_top_def)
  ultimately show ?thesis using m level(1) unfolding stacked_boxes_def by blast
qed

lemma stacked_placed:
  assumes "\<forall>ds \<in> set datasets. finite_dataset ds" "stack_measures config cs ov x0 y0 w bw"
    and "(padded, stat0) = initPassVariableData_values ns perso config ''StackedBar'' labels datasets"
    and "statData = initPassVariableData_part2_values lg config ''StackedBar'' data labels cs ov padded stat0"
  shows "\<exists>level. stacked_boxes padded statData x0 y0 w bw level"
  using stacked_placed_at [OF assms] assms(2) linear_axis_level unfolding stack_measures_def by metis

section \<open>The mouse finds the stacked bars that are painted\<close>

text \<open>A registered bar.\<close>

abbreviation bar_shape_at :: "(nat \<Rightarrow> nat \<Rightarrow> obj) \<Rightarrow> nat \<Rightarrow> nat \<Rightarrow> annotation" where
  "bar_shape_at statData i j \<equiv> \<lparr> an_shape = RECT, an_i = i, an_j = int j, an_entry = statData i j \<rparr>"

lemma registered_bar:
  assumes "register_bars pe config statData dss animPc = Inr shapes" "a \<in> set shapes"
  shows "\<exists>i j. given dss i j \<and> a = bar_shape_at statData i j"
proof -
  have "each_bar dss (register_bar pe config statData) = Inr shapes" using assms by (auto simp: register_bars_def split: if_splits)
  from each_bar_member [OF this assms(2)] show ?thesis by (auto simp: register_bar_def and_then_def split: if_splits sum.splits)
qed

definition box_path :: "real \<Rightarrow> real \<Rightarrow> real \<Rightarrow> real \<Rightarrow> canvas_op list" where
  "box_path l b r t = [BeginPath, MoveTo (Fin l) (Fin b), LineTo (Fin l) (Fin t), LineTo (Fin r) (Fin t), LineTo (Fin r) (Fin b)]"

lemma stacked_bar_path:
  assumes "paint_stacked_bar pe config statData lens (Fin 1) ds i j = Inr ops" "aget (dvalues ds) j \<noteq> Undef"
    and "num_at (statData i j) ''xPosLeft'' = Fin l" "num_at (statData i j) ''xPosRight'' = Fin r"
    and "num_at (statData i j) ''yPosBottom'' = Fin b" "num_at (statData i j) ''yPosTop'' = Fin t"
    and "num_at (first_bar statData i j) ''yPosBottom'' = Fin base" "to_number (aget (dvalues ds) j) = Fin x" "x \<noteq> 0" "b \<noteq> t"
  shows "sublist (box_path l b r t) ops"
proof -
  have "bar_share config lens (Fin 1) i j = Fin 1" by (simp add: bar_share_def)
  moreover have "stacked_ends config statData (Fin 1) i j = (Fin b, Fin t)" using assms(3-7) by (simp add: stacked_ends_def Let_def)
  ultimately show ?thesis
    using assms by (auto simp: paint_stacked_bar_def Let_def and_then_def box_path_def zero_jsnum_def sublist_def split: sum.splits if_splits)
qed

lemma bar_hit_box:
  assumes "stacked_boxes dss statData x0 y0 w bw level" "given dss i j"
    and "b = y0 - level (stack_base dss i j)" "t = y0 - level (stack_top dss i j)"
  shows "snd (hit_test env config (Fin x, Fin y) (bar_shape_at statData i j)) \<longleftrightarrow>
      x0 + w * real j < x \<and> x < x0 + w * real j + bw \<and> min b t < y \<and> y < max b t"
  using assms by (auto simp: stacked_boxes_def hit_test_def hit_rect_def Let_def)

lemma bar_hit:
  assumes "stacked_boxes dss statData x0 y0 w bw level" "given dss i j"
  shows "snd (hit_test env config (Fin x, Fin y) (bar_shape_at statData i j)) \<longleftrightarrow>
      x0 + w * real j < x \<and> x < x0 + w * real j + bw
      \<and> y0 - level (max (stack_base dss i j) (stack_top dss i j)) < y \<and> y < y0 - level (min (stack_base dss i j) (stack_top dss i j))"
proof -
  have "mono level" using assms(1) by (simp add: stacked_boxes_def)
  then have lv: "level (max a b) = max (level a) (level b)" "level (min a b) = min (level a) (level b)" for a b
    by (simp_all add: max_of_mono min_of_mono)
  show ?thesis unfolding lv bar_hit_box [OF assms refl refl] by auto
qed

lemma columns_apart:
  assumes "0 \<le> bw" "bw \<le> w" "x0 + w * real j < x" "x < x0 + w * real j + bw" "x0 + w * real k < x" "x < x0 + w * real k + bw"
  shows "j = k"
proof (rule ccontr)
  assume "j \<noteq> k"
  have "w * real (Suc m) \<le> w * real n" if "m < n" for m n
    using assms(1,2) that by (intro mult_left_mono of_nat_mono) simp_all
  then have "w * real m + w \<le> w * real n" if "m < n" for m n using that by (simp add: algebra_simps)
  with \<open>j \<noteq> k\<close> assms show False by (cases "j < k") (smt (verit) not_less_iff_gr_or_eq)+
qed

lemma boxes_disjoint:
  assumes boxes: "stacked_boxes dss statData x0 y0 w bw level" and "given dss i j" "given dss k l"
    and hits: "snd (hit_test env config (Fin x, Fin y) (bar_shape_at statData i j))" "snd (hit_test env config (Fin x, Fin y) (bar_shape_at statData k l))"
  shows "i = k \<and> j = l"
proof -
  have m: "mono level" "0 \<le> bw" "bw \<le> w" using boxes by (simp_all add: stacked_boxes_def)
  note h = bar_hit [OF boxes assms(2), THEN iffD1, OF hits(1)] bar_hit [OF boxes assms(3), THEN iffD1, OF hits(2)]
  have j: "j = l" using columns_apart [OF m(2,3)] h by blast
  have apart: "\<not> max (stack_base dss a j) (stack_top dss a j) \<le> min (stack_base dss b j) (stack_top dss b j)"
    if "(a, b) \<in> {(i, k), (k, i)}" for a b
  proof
    assume "max (stack_base dss a j) (stack_top dss a j) \<le> min (stack_base dss b j) (stack_top dss b j)"
    from monoD [OF m(1) this] h that show False by (auto simp: j)
  qed
  have "\<not> i < k" "\<not> k < i" using stack_apart [of i k dss j] stack_apart [of k i dss j] apart [of i k] apart [of k i] assms(2,3) by auto
  with j show ?thesis by simp
qed

lemma box_painted:
  assumes boxes: "stacked_boxes dss statData x0 y0 w bw level" and ij: "given dss i j" and "\<forall>ds \<in> set dss. finite_dataset ds"
    and draw: "each_bar dss (paint_stacked_bar pe config statData (lens_of dss) (Fin 1)) = Inr ops"
    and "level (stack_base dss i j) \<noteq> level (stack_top dss i j)"
  shows "sublist (box_path (x0 + w * real j) (y0 - level (stack_base dss i j)) (x0 + w * real j + bw) (y0 - level (stack_top dss i j))) ops"
proof -
  obtain x where x: "to_number (aget (dvalues (dss ! i)) j) = Fin x" using finite_dataset_cell assms(3) ij by (meson nth_mem)
  have "x \<noteq> 0" using assms(5) x by (auto simp: stack_top_def svalue_def split: if_splits)
  have "j < length (dvalues (dss ! i))" using ij aget_length by blast
  with each_bar_part [OF draw] ij obtain ys
    where ys: "paint_stacked_bar pe config statData (lens_of dss) (Fin 1) (dss ! i) i j = Inr ys" "sublist ys ops" by blast
  obtain f where "given dss f j" "first_bar statData i j = statData f j" using boxes ij by (auto simp: stacked_boxes_def)
  with boxes have "\<exists>base. num_at (first_bar statData i j) ''yPosBottom'' = Fin base" by (auto simp: stacked_boxes_def)
  with stacked_bar_path [OF ys(1) _ _ _ _ _ _ x \<open>x \<noteq> 0\<close>] boxes ij assms(5)
  have "sublist (box_path (x0 + w * real j) (y0 - level (stack_base dss i j)) (x0 + w * real j + bw) (y0 - level (stack_top dss i j))) ys"
    by (auto simp: stacked_boxes_def)
  with ys(2) show ?thesis using sublist_order.order.trans by blast
qed

text \<open>Drawing returns when no option that gives a style is null.\<close>

definition bar_styles_given :: "obj \<Rightarrow> obj list \<Rightarrow> bool" where
  "bar_styles_given config dss =
     ((\<forall>k \<in> {''defaultFillColor'', ''defaultStrokeColor'', ''datasetStrokeStyle'', ''annotateDisplay''}. oget config k \<noteq> Null)
      \<and> (\<forall>ds \<in> set dss. \<forall>k \<in> {''fillColor'', ''strokeColor'', ''datasetStrokeStyle''}. oget ds k \<noteq> Null))"

lemma bar_styles_return:
  assumes "bar_styles_given config dss" "ds \<in> set dss"
  shows "\<exists>ops. bar_colours pe config ds i j = Inr ops" "\<exists>ops. bar_dash pe config ds i j = Inr ops" "\<exists>ops. bar_stroke pe config ds i j = Inr ops"
    "\<exists>v. style_option pe ''ANNOTATEDISPLAY'' Undef (oget config ''annotateDisplay'') i (int j) = Inr v"
proof -
  have opt: "\<exists>v. style_option pe r (oget ds k) (oget config k') i (int j) = Inr v"
    if "(k, k') \<in> {(''fillColor'', ''defaultFillColor''), (''strokeColor'', ''defaultStrokeColor''), (''datasetStrokeStyle'', ''datasetStrokeStyle'')}" for r k k'
    using assms that by (intro option_given) (auto simp: bar_styles_given_def)
  show "\<exists>ops. bar_colours pe config ds i j = Inr ops"
    using opt [of "''fillColor''" "''defaultFillColor''" "''COLOR''"] opt [of "''strokeColor''" "''defaultStrokeColor''" "''STROKECOLOR''"]
    by (auto simp: bar_colours_def)
  show "\<exists>ops. bar_dash pe config ds i j = Inr ops"
    using opt [of "''datasetStrokeStyle''" "''datasetStrokeStyle''" "''STROKESTYLE''"] by (auto simp: bar_dash_def)
  then show "\<exists>ops. bar_stroke pe config ds i j = Inr ops" by (auto simp: bar_stroke_def)
  show "\<exists>v. style_option pe ''ANNOTATEDISPLAY'' Undef (oget config ''annotateDisplay'') i (int j) = Inr v"
    using assms by (intro option_given) (auto simp: bar_styles_given_def)
qed

lemma each_bar_total:
  assumes "\<And>i j. i < length dss \<Longrightarrow> \<exists>r. f (dss ! i) i j = Inr r"
  shows "\<exists>xs. each_bar dss f = Inr xs"
proof -
  have "\<exists>r. map_sum id concat (collect (f (dss ! i) i) [0..<length (dvalues (dss ! i))]) = Inr r" if "i < length dss" for i
    using collect_total [of "[0..<length (dvalues (dss ! i))]" "f (dss ! i) i"] assms [OF that] by auto
  with collect_total [of "[0..<length dss]" "\<lambda>i. map_sum id concat (collect (f (dss ! i) i) [0..<length (dvalues (dss ! i))])"]
  show ?thesis unfolding each_bar_def by fastforce
qed

lemma stacked_bars_return:
  assumes "bar_styles_given config dss"
  shows "\<exists>ops shapes. drawBars_StackedBar pe config dss statData animPc = Inr (ops, shapes)"
proof -
  note sty = bar_styles_return [OF assms, OF nth_mem]
  have "\<exists>r. paint_stacked_bar pe config statData (lens_of dss) animPc (dss ! i) i j = Inr r" if "i < length dss" for i j
    using sty(1,3) [OF that, of pe i j] by (auto simp: paint_stacked_bar_def Let_def split: prod.splits)
  moreover have "\<exists>r. register_bar pe config statData (dss ! i) i j = Inr r" if "i < length dss" for i j
    using sty(4) [OF that, of pe i j] by (auto simp: register_bar_def)
  ultimately obtain ops shapes where "each_bar dss (paint_stacked_bar pe config statData (lens_of dss) animPc) = Inr ops"
      "each_bar dss (register_bar pe config statData) = Inr shapes" using each_bar_total by metis
  then show ?thesis by (simp add: drawBars_StackedBar_def register_bars_def)
qed

lemma all_bars_registered:
  assumes "register_bars pe config statData dss animPc = Inr shapes" "last_frame config animPc" "oget config ''annotateDisplay'' = Bool True"
    and "given dss i j"
  shows "bar_shape_at statData i j \<in> set shapes"
proof -
  have "each_bar dss (register_bar pe config statData) = Inr shapes" using assms(1,2) by (simp add: register_bars_def)
  moreover have "j < length (dvalues (dss ! i))" using assms(4) aget_length by blast
  ultimately obtain ys where "register_bar pe config statData (dss ! i) i j = Inr ys" "sublist ys shapes"
    using each_bar_part assms(4) by blast
  with assms(3,4) show ?thesis
    by (auto simp: register_bar_def style_option_def setOptionValue_def rescaled_def set_mono_sublist dest: set_mono_sublist)
qed

text \<open>C11: The last frame of a stacked bar chart with finite values is drawn, and the mouse finds exactly what is painted:
  every value has a shape, every shape is a rectangle whose outline was painted (unless it is empty), the mouse is on the shape exactly
  when it is strictly inside this rectangle, and it is never on two shapes at once.\<close>

theorem painted_stacks_found:
  assumes "\<forall>ds \<in> set datasets. finite_dataset ds" "stack_measures config cs ov x0 y0 w bw"
    and "(padded, stat0) = initPassVariableData_values ns perso config ''StackedBar'' labels datasets"
    and "statData = initPassVariableData_part2_values lg config ''StackedBar'' data labels cs ov padded stat0"
    and "bar_styles_given config padded" "last_frame config (Fin 1)" "oget config ''annotateDisplay'' = Bool True"
  shows "\<exists>ops shapes. drawBars_StackedBar pe config padded statData (Fin 1) = Inr (ops, shapes)
     \<and> (\<forall>i j. given padded i j \<longrightarrow> bar_shape_at statData i j \<in> set shapes)
     \<and> (\<forall>a \<in> set shapes. \<exists>l b r t.
         (b \<noteq> t \<longrightarrow> sublist (box_path l b r t) ops)
       \<and> (\<forall>x y. snd (hit_test env config (Fin x, Fin y) a) \<longleftrightarrow> l < x \<and> x < r \<and> min b t < y \<and> y < max b t))
     \<and> (\<forall>a \<in> set shapes. \<forall>a' \<in> set shapes. \<forall>x y. snd (hit_test env config (Fin x, Fin y) a)
          \<and> snd (hit_test env config (Fin x, Fin y) a') \<longrightarrow> a = a')"
proof -
  obtain level where boxes: "stacked_boxes padded statData x0 y0 w bw level" using stacked_placed [OF assms(1-4)] by blast
  obtain ops shapes where all: "drawBars_StackedBar pe config padded statData (Fin 1) = Inr (ops, shapes)"
    using stacked_bars_return [OF assms(5)] by blast
  then obtain ops' where draw: "each_bar padded (paint_stacked_bar pe config statData (lens_of padded) (Fin 1)) = Inr ops'"
      "register_bars pe config statData padded (Fin 1) = Inr shapes" "ops = LineWidth (stroke_width pe config) # ops'"
    by (auto simp: drawBars_StackedBar_def and_then_def split: sum.splits)
  note reg = registered_bar [OF draw(2)]
  have fin: "\<forall>ds \<in> set padded. finite_dataset ds"
    using assms(1,3) pad_dataset_same(5) by (auto simp: initPassVariableData_values_def Let_def)
  have "\<exists>l b r t. (b \<noteq> t \<longrightarrow> sublist (box_path l b r t) ops)
       \<and> (\<forall>x y. snd (hit_test env config (Fin x, Fin y) a) \<longleftrightarrow> l < x \<and> x < r \<and> min b t < y \<and> y < max b t)"
    if mem: "a \<in> set shapes" for a
  proof -
    obtain i j where a: "given padded i j" "a = bar_shape_at statData i j" using reg [OF mem] by blast
    let ?b = "y0 - level (stack_base padded i j)" and ?t = "y0 - level (stack_top padded i j)"
    have "sublist ops' ops" by (auto simp: draw(3) sublist_Cons_right)
    with box_painted [OF boxes a(1) fin draw(1)]
    have "?b \<noteq> ?t \<longrightarrow> sublist (box_path (x0 + w * real j) ?b (x0 + w * real j + bw) ?t) ops"
      using sublist_order.order.trans by auto
    then show ?thesis unfolding a(2) using bar_hit_box [OF boxes a(1) refl refl] by blast
  qed
  moreover have "a = a'" if "a \<in> set shapes" "a' \<in> set shapes" "snd (hit_test env config (Fin x, Fin y) a)"
      "snd (hit_test env config (Fin x, Fin y) a')" for a a' x y
    using reg [OF that(1)] reg [OF that(2)] that(3,4) boxes_disjoint [OF boxes] by metis
  moreover note all_bars_registered [OF draw(2) assms(6,7)] all
  ultimately show ?thesis by blast
qed

text \<open>Two stacks, the second with a negative value.\<close>

definition stack_config :: obj where
  "stack_config = [(''barValueSpacing'', NumF 5), (''spaceBetweenBar'', NumF 0), (''animationStopValue'', NumF 1), (''annotateDisplay'', Bool True)]"

definition stack_data :: "obj list" where
  "stack_data = [[(''data'', Arr [NumF 10, NumF 20])], [(''data'', Arr [NumF 30, NumF (- 10)])]]"

definition stack_labels :: "jsval list" where
  "stack_labels = [Str ''a'', Str ''b'']"

theorem painted_stacks_found_witness:
  "\<exists>padded stat0 statData ops shapes.
     (padded, stat0) = initPassVariableData_values (\<lambda>_. []) (\<lambda>_ v _. v) stack_config ''StackedBar'' stack_labels stack_data
   \<and> statData = initPassVariableData_part2_values (\<lambda>_. NaN) stack_config ''StackedBar'' [] stack_labels plain_scales small_measures padded stat0
   \<and> drawBars_StackedBar plain_paint stack_config padded statData (Fin 1) = Inr (ops, shapes)
   \<and> bar_shape_at statData 0 0 \<in> set shapes \<and> bar_shape_at statData 1 1 \<in> set shapes"
proof -
  let ?pad = "map (pad_dataset ''StackedBar'' stack_labels) stack_data"
  obtain stat0 where s: "(?pad, stat0) = initPassVariableData_values (\<lambda>_. []) (\<lambda>_ v _. v) stack_config ''StackedBar'' stack_labels stack_data"
    by (simp add: initPassVariableData_values_def Let_def)
  have ov: "stack_measures stack_config plain_scales small_measures 45 300 50 10"
    by (simp add: stack_measures_def column_left_def stack_config_def plain_scales_def small_measures_def scaled_def zero_jsnum_def)
      (rule exI [of _ 10], rule exI [of _ 10], rule exI [of _ 0], rule exI [of _ 25], simp add: linear_axis_def small_scale_def)
  have sty: "bar_styles_given stack_config ?pad"
    by (simp add: bar_styles_given_def stack_config_def stack_data_def pad_dataset_def Let_def)
  have padded: "given ?pad i j \<longleftrightarrow> given stack_data i j" for i j by (auto simp: pad_dataset_same)
  have g: "given ?pad 0 0" "given ?pad 1 1" unfolding padded by (simp_all add: stack_data_def aget_def dvalues_def)
  have fin: "\<forall>ds \<in> set stack_data. finite_dataset ds" by (simp add: stack_data_def finite_dataset_def dvalues_def)
  have shown: "last_frame stack_config (Fin 1)" "oget stack_config ''annotateDisplay'' = Bool True"
    by (simp_all add: last_frame_def stack_config_def)
  define statData where "statData = initPassVariableData_part2_values (\<lambda>_. NaN) stack_config ''StackedBar'' [] stack_labels plain_scales small_measures ?pad stat0"
  obtain ops shapes where "drawBars_StackedBar plain_paint stack_config ?pad statData (Fin 1) = Inr (ops, shapes)"
      "\<forall>i j. given ?pad i j \<longrightarrow> bar_shape_at statData i j \<in> set shapes"
    using painted_stacks_found [OF fin ov s statData_def sty shown, where pe = plain_paint] by blast
  with g s show ?thesis unfolding statData_def by (intro exI conjI) (assumption | rule refl | blast)+
qed

end
