(* ===== verification/TextPainting.thy ===== *)
theory TextPainting
  imports LayoutTypes LinePainting
begin

text \<open>
  The texts around a chart and the legend, as calls of the canvas context: the second half of \<open>setMeasures\<close>,
  \<open>setTextBordersAndBackground\<close>, \<open>fillTextMultiLine\<close> and \<open>drawLegend\<close>.  A small machine executes the
  calls, with the stack of saved drawing states; it tells where the texts appear, and that nothing that is set for a text
  stays set after it.
\<close>

section \<open>The drawing state\<close>

text \<open>The part of the state of a canvas context that the calls change: the origin and its angle, and the styles.\<close>

record canvas_state =
  cs_x :: jsnum
  cs_y :: jsnum
  cs_angle :: jsnum
  cs_fill :: jsval
  cs_stroke :: jsval
  cs_width :: jsnum
  cs_dash :: "real list"
  cs_font :: string
  cs_align :: string
  cs_baseline :: string

text \<open>The position of a point given in the current coordinates.\<close>

definition placed :: "canvas_state \<Rightarrow> jsnum \<Rightarrow> jsnum \<Rightarrow> jsnum \<times> jsnum" where
  "placed s x y =
     (cs_x s + (math_cos (cs_angle s) * x - math_sin (cs_angle s) * y), cs_y s + (math_sin (cs_angle s) * x + math_cos (cs_angle s) * y))"

fun canvas_step :: "canvas_op \<Rightarrow> canvas_state \<times> canvas_state list \<Rightarrow> canvas_state \<times> canvas_state list" where
  "canvas_step Save (s, stack) = (s, s # stack)"
| "canvas_step Restore (s, stack) = (case stack of [] \<Rightarrow> (s, []) | t # stack' \<Rightarrow> (t, stack'))"
| "canvas_step (Translate x y) (s, stack) = (s\<lparr> cs_x := fst (placed s x y), cs_y := snd (placed s x y) \<rparr>, stack)"
| "canvas_step (Rotate a) (s, stack) = (s\<lparr> cs_angle := cs_angle s + a \<rparr>, stack)"
| "canvas_step (FillStyle v) (s, stack) = (s\<lparr> cs_fill := v \<rparr>, stack)"
| "canvas_step (StrokeStyle v) (s, stack) = (s\<lparr> cs_stroke := v \<rparr>, stack)"
| "canvas_step (LineWidth w) (s, stack) = (s\<lparr> cs_width := w \<rparr>, stack)"
| "canvas_step (LineDash d) (s, stack) = (s\<lparr> cs_dash := d \<rparr>, stack)"
| "canvas_step (Font f) (s, stack) = (s\<lparr> cs_font := f \<rparr>, stack)"
| "canvas_step (TextAlign a) (s, stack) = (s\<lparr> cs_align := a \<rparr>, stack)"
| "canvas_step (TextBaseline b) (s, stack) = (s\<lparr> cs_baseline := b \<rparr>, stack)"
| "canvas_step _ st = st"

definition run_canvas :: "canvas_op list \<Rightarrow> canvas_state \<times> canvas_state list \<Rightarrow> canvas_state \<times> canvas_state list" where
  "run_canvas ops st = fold canvas_step ops st"

text \<open>The texts that appear, with their positions on the canvas.\<close>

fun texts_of :: "canvas_op list \<Rightarrow> canvas_state \<times> canvas_state list \<Rightarrow> (string \<times> jsnum \<times> jsnum) list" where
  "texts_of [] st = []"
| "texts_of (FillText t x y # ops) st = (t, placed (fst st) x y) # texts_of ops st"
| "texts_of (op # ops) st = texts_of ops (canvas_step op st)"

text \<open>How deep the calls of \<open>save\<close> are nested: \<open>None\<close> when a \<open>restore\<close> has no \<open>save\<close>.\<close>

fun nesting :: "nat \<Rightarrow> canvas_op list \<Rightarrow> nat option" where
  "nesting n [] = Some n"
| "nesting n (Save # ops) = nesting (Suc n) ops"
| "nesting n (Restore # ops) = (case n of 0 \<Rightarrow> None | Suc m \<Rightarrow> nesting m ops)"
| "nesting n (_ # ops) = nesting n ops"

definition balanced :: "canvas_op list \<Rightarrow> bool" where
  "balanced ops = (nesting 0 ops = Some 0)"

section \<open>Texts\<close>

fun fill_lines :: "string list \<Rightarrow> jsnum \<Rightarrow> jsnum \<Rightarrow> jsnum \<Rightarrow> canvas_op list" where
  "fill_lines [] x y lineHeight = []"
| "fill_lines (l # ls) x y lineHeight = FillText l x y # fill_lines ls x (y + lineHeight) lineHeight"

definition fillTextMultiLine :: "string \<Rightarrow> jsnum \<Rightarrow> jsnum \<Rightarrow> string \<Rightarrow> jsnum \<Rightarrow> bool \<Rightarrow> canvas_op list" where
  "fillTextMultiLine text x y yLevel lineHeight horizontal =
     (let lines = text_lines text; n = Fin (of_nat (length lines) - 1);
          y' = (if yLevel = ''middle'' then (if horizontal then y - n / 2 * lineHeight else y)
                else if yLevel = ''bottom'' then (if horizontal then y - n * lineHeight else y) else y)
      in fill_lines lines x y' lineHeight)"

text \<open>\<open>text.toString()\<close> for an argument that need not be a string.\<close>

definition text_string :: "(jsnum \<Rightarrow> string) \<Rightarrow> jsval \<Rightarrow> js_error + string" where
  "text_string ns v = (case v of Undef \<Rightarrow> Inl TypeError | Null \<Rightarrow> Inl TypeError | _ \<Rightarrow> Inr (to_string ns v))"

text \<open>The extent of a text around the position it is written at; an alignment other than these leaves the variables undefined.\<close>

definition text_sides :: "string \<Rightarrow> jsnum \<Rightarrow> jsnum \<times> jsnum" where
  "text_sides align w =
     (if align = ''center'' then (- w / 2, w / 2) else if align = ''left'' then (0, w) else if align = ''right'' then (- w, 0) else (NaN, NaN))"

definition text_ends :: "string \<Rightarrow> jsnum \<Rightarrow> jsnum \<times> jsnum" where
  "text_ends baseline h =
     (if baseline = ''top'' then (0, h) else if baseline = ''center'' \<or> baseline = ''middle'' then (- h / 2, h / 2)
      else if baseline = ''bottom'' then (- h, 0) else (NaN, NaN))"

text \<open>The frame of a text: whether there are borders, their colour, width and style, the space inside, the background.\<close>

record text_frame =
  tf_borders :: jsval
  tf_color :: jsval
  tf_width :: jsnum
  tf_xspace :: jsnum
  tf_yspace :: jsnum
  tf_style :: jsval
  tf_background :: jsval

definition setTextBordersAndBackground ::
  "layout_env \<Rightarrow> string \<Rightarrow> string \<Rightarrow> string \<Rightarrow> jsval \<Rightarrow> jsnum \<Rightarrow> jsnum \<Rightarrow> jsnum \<Rightarrow> text_frame \<Rightarrow> js_error + canvas_op list" where
  "setTextBordersAndBackground env font align baseline text fontsize xpos ypos tf =
     and_then (text_string (ly_numstr env) text) (\<lambda>txt.
       (let (x1, x2) = text_sides align (ly_measure env font txt);
            (ytop, ybottom) = text_ends baseline (fontsize * Fin (of_nat (length (text_lines txt))));
            bw = tf_width tf; xs = tf_xspace tf; ys = tf_yspace tf
        in Inr ([Save, BeginPath, Translate xpos ypos]
             @ (if \<not> loose_eq (tf_background tf) (Str ''none'')
                then [Save, FillStyle (tf_background tf), FillRect (x1 - xs) (ybottom + ys) (x2 - x1 + 2 * xs) (ytop - ybottom - 2 * ys), Stroke,
                      Restore, FillStyle (Str ''black'')]
                else [])
             @ (if to_bool (tf_borders tf)
                then [Save, LineWidth bw, StrokeStyle (tf_color tf), FillStyle (tf_color tf), LineDash (lineStyleFn (ly_numstr env) (tf_style tf)),
                      Rect (x1 - bw / 2 - xs) (ytop - bw / 2 - ys) (x2 - x1 + bw + 2 * xs) (ybottom - ytop + bw + 2 * ys), Stroke, LineDash [], Restore]
                else [])
             @ [Restore])))"

section \<open>The texts around the chart\<close>

definition frame_of :: "layout_env \<Rightarrow> obj \<Rightarrow> string \<Rightarrow> text_frame" where
  "frame_of env config key =
     \<lparr> tf_borders = oget config (key @ ''Borders''), tf_color = oget config (key @ ''BordersColor''), tf_width = line_px env config (key @ ''BordersWidth''),
       tf_xspace = space_px env config (key @ ''BordersXSpace''), tf_yspace = space_px env config (key @ ''BordersYSpace''),
       tf_style = oget config (key @ ''BordersStyle''), tf_background = oget config (key @ ''BackgroundColor'') \<rparr>"

definition text_style :: "layout_env \<Rightarrow> obj \<Rightarrow> string \<Rightarrow> canvas_op list" where
  "text_style env config font =
     [Font (font_of env config font), FillStyle (oget config (font @ ''FontColor'')), TextAlign ''center'', TextBaseline ''bottom'']"

text \<open>A text with its frame at a position.\<close>

definition paint_text :: "layout_env \<Rightarrow> obj \<Rightarrow> canvas_op list \<Rightarrow> string \<Rightarrow> string \<Rightarrow> jsval \<Rightarrow> jsnum \<Rightarrow> jsnum \<Rightarrow> js_error + canvas_op list" where
  "paint_text env config start font key text x y =
     (let size = text_px env config (font @ ''FontSize'')
      in and_then (setTextBordersAndBackground env (font_of env config font) ''center'' ''bottom'' text size x y (frame_of env config key)) (\<lambda>box.
           Inr (Save # start @ text_style env config font @ box @ [Translate x y]
                @ fillTextMultiLine (to_string (ly_numstr env) text) 0 0 ''bottom'' size True @ [Stroke, Restore])))"

text \<open>A text that is turned by a right angle.\<close>

definition paint_turned :: "layout_env \<Rightarrow> obj \<Rightarrow> jsval \<Rightarrow> jsnum \<Rightarrow> jsnum \<Rightarrow> jsnum \<Rightarrow> js_error + canvas_op list" where
  "paint_turned env config text x y angle =
     (let size = text_px env config ''yAxisFontSize''
      in and_then (setTextBordersAndBackground env (font_of env config ''yAxis'') ''center'' ''bottom'' text size 0 0 (frame_of env config ''yAxisLabel'')) (\<lambda>box.
           Inr ([Save, BeginPath] @ text_style env config ''yAxis'' @ [Translate x y, Rotate angle] @ box
                @ fillTextMultiLine (to_string (ly_numstr env) text) 0 0 ''bottom'' size False @ [Stroke, Restore])))"

definition paint_borders :: "layout_env \<Rightarrow> obj \<Rightarrow> jsnum \<Rightarrow> jsnum \<Rightarrow> jsnum \<Rightarrow> canvas_op list" where
  "paint_borders env config height width borderWidth =
     (if borderWidth > 0
      then [Save, BeginPath, LineWidth (2 * borderWidth), LineDash (lineStyleFn (ly_numstr env) (oget config ''canvasBordersStyle'')),
            StrokeStyle (oget config ''canvasBordersColor''), MoveTo 0 0, LineTo 0 height, LineTo width height, LineTo width 0, LineTo 0 0,
            Stroke, LineDash [], Restore]
      else [])"

definition paint_title :: "layout_env \<Rightarrow> obj \<Rightarrow> jsnum \<Rightarrow> string \<Rightarrow> text_band \<Rightarrow> js_error + canvas_op list" where
  "paint_title env config width key band =
     (let left = space_px env config ''spaceLeft''
      in if tb_height band > 0
         then paint_text env config [BeginPath] key key (oget config key) (left + (width - left - space_px env config ''spaceRight'') / 2) (tb_pos band)
         else Inr [])"

text \<open>An empty second text is replaced by the first one, in the options themselves.\<close>

definition second_text :: "string \<Rightarrow> string \<Rightarrow> obj \<Rightarrow> obj" where
  "second_text key key2 config = (if loose_eq (oget config key2) (Str []) then oset key2 (oget config key) config else config)"

definition paint_unit :: "layout_env \<Rightarrow> obj \<Rightarrow> jsnum \<Rightarrow> text_layout \<Rightarrow> measures \<Rightarrow> js_error + obj \<times> canvas_op list" where
  "paint_unit env config width lay m =
     (if tb_height (tl_unit lay) > 0 then
        and_then (if to_bool (oget config ''yAxisLeft'')
                  then paint_text env config [BeginPath] ''yAxisUnit'' ''yAxisUnit'' (oget config ''yAxisUnit'') (m_leftNotUsableSize m) (tb_pos (tl_unit lay))
                  else Inr []) (\<lambda>left.
          if to_bool (oget config ''yAxisRight'') then
            (let config' = second_text ''yAxisUnit'' ''yAxisUnit2'' config
             in and_then (paint_text env config' [BeginPath] ''yAxisUnit'' ''yAxisUnit'' (oget config' ''yAxisUnit2'') (width - m_rightNotUsableSize m)
                            (tb_pos (tl_unit lay))) (\<lambda>right. Inr (config', left @ right)))
          else Inr (config, left))
      else Inr (config, []))"

definition paint_y_label :: "layout_env \<Rightarrow> obj \<Rightarrow> text_layout \<Rightarrow> measures \<Rightarrow> js_error + obj \<times> canvas_op list" where
  "paint_y_label env config lay m =
     (let yl = tl_yAxisLabel lay; mid = m_topNotUsableSize m + m_availableHeight m / 2; right_angle = Fin 90 * (PI / Fin 180)
      in if sl_width yl > 0 then
           and_then (if to_bool (oget config ''yAxisLeft'')
                     then paint_turned env config (oget config ''yAxisLabel'') (sl_left yl) mid (- right_angle) else Inr []) (\<lambda>left.
             if to_bool (oget config ''yAxisRight'') then
               (let config' = second_text ''yAxisLabel'' ''yAxisLabel2'' config
                in and_then (paint_turned env config' (oget config' ''yAxisLabel2'') (sl_right yl) mid right_angle) (\<lambda>right. Inr (config', left @ right)))
             else Inr (config, left))
         else Inr (config, []))"

definition paint_x_label :: "layout_env \<Rightarrow> obj \<Rightarrow> text_layout \<Rightarrow> measures \<Rightarrow> js_error + canvas_op list" where
  "paint_x_label env config lay m =
     (if tb_height (tl_xAxisLabel lay) > 0 \<and> to_bool (oget config ''xAxisBottom'')
      then paint_text env config [BeginPath] ''xAxis'' ''xAxisLabel'' (oget config ''xAxisLabel'') (m_leftNotUsableSize m + m_availableWidth m / 2)
             (tb_pos (tl_xAxisLabel lay))
      else Inr [])"

definition paint_footNote :: "layout_env \<Rightarrow> obj \<Rightarrow> text_layout \<Rightarrow> measures \<Rightarrow> js_error + canvas_op list" where
  "paint_footNote env config lay m =
     and_then (text_given (oget config ''footNote'')) (\<lambda>g.
       if g then paint_text env config [] ''footNote'' ''footNote'' (oget config ''footNote'') (m_leftNotUsableSize m + m_availableWidth m / 2)
                   (tb_pos (tl_footNote lay))
       else Inr [])"

section \<open>The legend\<close>

text \<open>How a chart type draws its legend: on data sets or on segments, in which order, with boxes or lines.\<close>

record legend_kind =
  lk_onData :: bool
  lk_reverse :: bool
  lk_box :: bool
  lk_tpchart :: string

definition legend_frame :: "layout_env \<Rightarrow> obj \<Rightarrow> legend_box \<Rightarrow> canvas_op list" where
  "legend_frame env config lb =
     (if legend_bordered config then
        (let x = lb_borderX lb; y = lb_borderY lb; w = lb_borderWidth lb; h = lb_borderHeight lb
         in [Save, LineDash (lineStyleFn (ly_numstr env) (oget config ''legendBordersStyle'')), BeginPath, LineWidth (line_px env config ''legendBordersWidth''),
             StrokeStyle (oget config ''legendBordersColors''), MoveTo x y, LineTo x (y + h), LineTo (x + w) (y + h), LineTo (x + w) y, LineTo x y, Stroke,
             ClosePath, LineDash [], FillStyle (Str ''rgba(0,0,0,0)''), FillStyle (oget config ''legendFillColor''), Fill, Restore])
      else [])"

text \<open>The stroke of an entry.\<close>

definition legend_stroke :: "paint_env \<Rightarrow> obj \<Rightarrow> legend_kind \<Rightarrow> obj \<Rightarrow> nat \<Rightarrow> js_error + canvas_op list" where
  "legend_stroke pe config lk item i =
     and_then (style_option pe ''LEGENDSTROKECOLOR'' (oget item ''strokeColor'') (oget config ''defaultFillColor'') i (- 1)) (\<lambda>stroke.
     and_then (if lk_onData lk then style_option pe ''LEGENDLINEDASH'' (oget item ''datasetStrokeStyle'') (oget config ''datasetStrokeStyle'') i (- 1)
               else style_option pe ''LEGENDSEGMENTTROKESTYLE'' (oget item ''segmentStrokeStyle'') (oget config ''segmentStrokeStyle'') i (- 1)) (\<lambda>dash.
       Inr [StrokeStyle stroke, LineDash (lineStyleFn (pe_numstr pe) dash)]))"

definition legend_block :: "layout_env \<Rightarrow> paint_env \<Rightarrow> obj \<Rightarrow> legend_kind \<Rightarrow> obj \<Rightarrow> nat \<Rightarrow> jsnum \<Rightarrow> jsnum \<Rightarrow> js_error + canvas_op list" where
  "legend_block env pe config lk item i x y =
     (let block = text_px env config ''legendBlockSize''; font = text_px env config ''legendFontSize''
      in and_then (legend_stroke pe config lk item i) (\<lambda>stroke.
         and_then (style_option pe ''LEGENDFILLCOLOR'' (oget item (if lk_onData lk then ''fillColor'' else ''color'')) (oget config ''defaultFillColor'') i (- 1)) (\<lambda>fill.
           Inr ([LineWidth (line_px env config ''datasetStrokeWidth''), BeginPath] @ stroke
                @ [MoveTo x y, LineTo (x + block) y, LineTo (x + block) (y - font), LineTo x (y - font), LineTo x y, Stroke, ClosePath,
                   FillStyle fill, Fill]))))"

text \<open>The marker on the line of an entry; \<open>data.datasets\<close> does not exist when the legend is drawn on segments.\<close>

definition legend_marker :: "layout_env \<Rightarrow> paint_env \<Rightarrow> obj \<Rightarrow> legend_kind \<Rightarrow> obj \<Rightarrow> nat \<Rightarrow> jsnum \<Rightarrow> jsnum \<Rightarrow> js_error + canvas_op list" where
  "legend_marker env pe config lk item i x y =
     (let option_of = (\<lambda>scale reference own general. setOptionValue (pe_call pe) scale reference (oget item own) (oget config general) (int i) (- 1))
      in if \<not> to_bool (oget config ''pointDot'') then Inr []
         else if \<not> lk_onData lk then Inl TypeError
         else
           and_then (option_of 1 ''LEGENDMARKERFILLCOLOR'' ''pointColor'' ''defaultStrokeColor'') (\<lambda>fill.
           and_then (option_of 1 ''LEGENDMARKERSTROKESTYLE'' ''pointStrokeColor'' ''defaultStrokeColor'') (\<lambda>stroke.
           and_then (option_of (sc_line (pe_scales pe)) ''LEGENDMARKERLINEWIDTH'' ''pointDotStrokeWidth'' ''pointDotStrokeWidth'') (\<lambda>width.
           and_then (option_of 1 ''LEGENDMARKERSHAPE'' ''markerShape'' ''markerShape'') (\<lambda>marker.
           and_then (option_of (sc_space (pe_scales pe)) ''LEGENDMARKERRADIUS'' ''pointDotRadius'' ''pointDotRadius'') (\<lambda>radius.
           and_then (option_of 1 ''LEGENDMARKERSTROKESTYLE'' ''pointDotStrokeStyle'' ''pointDotStrokeStyle'') (\<lambda>dash.
             Inr ([BeginPath, FillStyle fill, StrokeStyle stroke, LineWidth (to_number width)]
                  @ drawMarker pe (x + 2 + text_px env config ''legendBlockSize'' / 2) (y - text_px env config ''legendFontSize'' / 2) marker
                      (to_number radius) dash))))))))"

definition legend_line :: "layout_env \<Rightarrow> paint_env \<Rightarrow> obj \<Rightarrow> legend_kind \<Rightarrow> obj \<Rightarrow> nat \<Rightarrow> jsnum \<Rightarrow> jsnum \<Rightarrow> js_error + canvas_op list" where
  "legend_line env pe config lk item i x y =
     (let block = text_px env config ''legendBlockSize''; font = text_px env config ''legendFontSize''; own = oget config ''legendColorIndicatorStrokeWidth''
      in and_then (legend_stroke pe config lk item i) (\<lambda>stroke.
         and_then (legend_marker env pe config lk item i x y) (\<lambda>marker.
           Inr ([LineWidth (if to_bool own then to_number own else line_px env config ''datasetStrokeWidth'')]
                @ (if to_bool own \<and> to_number own > font then [LineWidth font] else [])
                @ stroke @ [MoveTo (x + 2) (y - font / 2), LineTo (x + 2 + block) (y - font / 2), Stroke, Fill] @ marker @ [Fill]))))"

definition boxed_entry :: "obj \<Rightarrow> legend_kind \<Rightarrow> obj \<Rightarrow> bool" where
  "boxed_entry config lk item =
     (lk_box lk \<and> \<not> (lk_tpchart lk = ''Bar'' \<and> loose_eq (oget item ''type'') (Str ''Line'') \<and> \<not> to_bool (oget config ''datasetFill'')))"

definition legend_entry ::
  "layout_env \<Rightarrow> paint_env \<Rightarrow> obj \<Rightarrow> legend_kind \<Rightarrow> obj \<Rightarrow> nat \<Rightarrow> string \<Rightarrow> jsnum \<Rightarrow> jsnum \<Rightarrow> js_error + canvas_op list" where
  "legend_entry env pe config lk item i text x y =
     and_then (if boxed_entry config lk item then legend_block env pe config lk item i x y else legend_line env pe config lk item i x y) (\<lambda>mark.
     and_then (style_option pe ''LEGENDFONTCOLOR'' Undef (oget config ''legendFontColor'') i (- 1)) (\<lambda>color.
       Inr ([Save, BeginPath] @ mark @ [Restore]
            @ [Save, BeginPath, Font (font_of env config ''legend''), FillStyle color, TextAlign ''left'', TextBaseline ''bottom'',
               Translate (x + text_px env config ''legendBlockSize'' + space_px env config ''legendSpaceBetweenBoxAndText'') y, FillText text 0 0, Restore])))"

text \<open>The text of an entry: \<open>None\<close> when it has none.\<close>

definition legend_text :: "layout_env \<Rightarrow> obj \<Rightarrow> obj \<Rightarrow> js_error + string option" where
  "legend_text env config item =
     (case oget item ''title'' of
        Str s \<Rightarrow> (case fmtChartJS (ly_numstr env) (ly_perso env) config (Str s) (oget config ''fmtLegend'') of
                    Str t \<Rightarrow> Inr (if str_trim t = [] then None else Some (str_trim t))
                  | _ \<Rightarrow> Inl TypeError)
      | _ \<Rightarrow> Inr None)"

text \<open>The variables of the loop: the column and the position of the last entry.\<close>

record legend_loop =
  lg_col :: jsnum
  lg_x :: jsnum
  lg_y :: jsnum

definition next_entry :: "layout_env \<Rightarrow> obj \<Rightarrow> legend_box \<Rightarrow> legend_loop \<Rightarrow> legend_loop" where
  "next_entry env config lb lg =
     (if num_eq (lg_col lg + 1) (lb_cols lb)
      then \<lparr> lg_col = 0, lg_x = lb_x lb, lg_y = lg_y lg + (text_px env config ''legendFontSize'' + space_px env config ''legendSpaceBetweenTextVertical'') \<rparr>
      else lg\<lparr> lg_col := lg_col lg + 1, lg_x := lg_x lg + (lb_widest lb + space_px env config ''legendSpaceBetweenTextHorizontal'') \<rparr>)"

fun legend_entries ::
  "layout_env \<Rightarrow> paint_env \<Rightarrow> obj \<Rightarrow> legend_kind \<Rightarrow> legend_box \<Rightarrow> obj list \<Rightarrow> nat list \<Rightarrow> legend_loop \<Rightarrow> js_error + canvas_op list" where
  "legend_entries env pe config lk lb items [] lg = Inr []"
| "legend_entries env pe config lk lb items (i # is) lg =
     and_then (legend_text env config (items ! i)) (\<lambda>text.
       case text of
         None \<Rightarrow> legend_entries env pe config lk lb items is lg
       | Some t \<Rightarrow>
           (let lg' = next_entry env config lb lg
            in and_then (legend_entry env pe config lk (items ! i) i t (lg_x lg') (lg_y lg')) (\<lambda>entry.
               and_then (legend_entries env pe config lk lb items is lg') (\<lambda>rest. Inr (entry @ rest)))))"

definition legend_order :: "legend_kind \<Rightarrow> nat \<Rightarrow> nat list" where
  "legend_order lk n = (if lk_reverse lk then [0..<n] else rev [0..<n])"

definition drawLegend :: "layout_env \<Rightarrow> paint_env \<Rightarrow> obj \<Rightarrow> legend_kind \<Rightarrow> legend_box \<Rightarrow> obj list \<Rightarrow> js_error + canvas_op list" where
  "drawLegend env pe config lk lb items =
     and_then (legend_entries env pe config lk lb items (legend_order lk (length items))
                 \<lparr> lg_col = lb_cols lb - 1, lg_x = 0,
                   lg_y = lb_y lb - (text_px env config ''legendFontSize'' + space_px env config ''legendSpaceBetweenTextVertical'') \<rparr>) (\<lambda>entries.
       Inr (legend_frame env config lb @ entries))"

section \<open>All texts\<close>

text \<open>The second half of \<open>setMeasures\<close>.  A legend inside the chart is drawn later, on top of it; a first call, with
  the labels \<open>"nihil"\<close>, only measures.\<close>

definition paint_legend :: "layout_env \<Rightarrow> paint_env \<Rightarrow> obj \<Rightarrow> legend_kind \<Rightarrow> legend_box \<Rightarrow> obj list \<Rightarrow> js_error + bool \<times> canvas_op list" where
  "paint_legend env pe config lk lb items =
     (if legend_drawn config (lb_n lb) then
        (if pos_is config ''legendPosY'' 0 \<or> pos_is config ''legendPosY'' 4 \<or> pos_is config ''legendPosX'' 0 \<or> pos_is config ''legendPosX'' 4
         then map_sum id (Pair False) (drawLegend env pe config lk lb items)
         else Inr (True, []))
      else Inr (False, []))"

definition paint_texts ::
  "layout_env \<Rightarrow> paint_env \<Rightarrow> obj \<Rightarrow> legend_kind \<Rightarrow> obj list \<Rightarrow> jsnum \<Rightarrow> jsnum \<Rightarrow> text_layout \<Rightarrow> legend_box \<Rightarrow> measures
     \<Rightarrow> js_error + obj \<times> bool \<times> canvas_op list" where
  "paint_texts env pe config lk items height width lay lb m =
     and_then (paint_title env config width ''graphTitle'' (tl_title lay)) (\<lambda>title.
     and_then (paint_title env config width ''graphSubTitle'' (tl_subTitle lay)) (\<lambda>sub.
     and_then (paint_unit env config width lay m) (\<lambda>(config1, unit).
     and_then (paint_y_label env config1 lay m) (\<lambda>(config2, ylabel).
     and_then (paint_x_label env config2 lay m) (\<lambda>xlabel.
     and_then (paint_legend env pe config2 lk lb items) (\<lambda>(dispLegend, legend).
     and_then (paint_footNote env config2 lay m) (\<lambda>foot.
       Inr (config2, dispLegend,
            paint_borders env config height width (tl_border lay) @ title @ sub @ unit @ ylabel @ xlabel @ legend @ foot))))))))"

section \<open>Saving and restoring\<close>

lemma nesting_append: "nesting n (xs @ ys) = (case nesting n xs of None \<Rightarrow> None | Some m \<Rightarrow> nesting m ys)"
  by (induction n xs rule: nesting.induct) (auto split: nat.splits option.splits)

lemma nesting_shift: "nesting n ops = Some m \<Longrightarrow> nesting (n + k) ops = Some (m + k)"
  by (induction n ops rule: nesting.induct) (auto split: nat.splits)

lemma balanced_Nil [simp]: "balanced []"
  by (simp add: balanced_def)

lemma balanced_append: "balanced xs \<Longrightarrow> balanced ys \<Longrightarrow> balanced (xs @ ys)"
  by (simp add: balanced_def nesting_append)

lemma balanced_frame: "balanced ops \<Longrightarrow> balanced (Save # ops @ [Restore])"
  using nesting_shift [of 0 ops 0 1] by (simp add: balanced_def nesting_append)

text \<open>A call other than \<open>save\<close> and \<open>restore\<close>.\<close>

lemma balanced_Cons: "op \<noteq> Save \<Longrightarrow> op \<noteq> Restore \<Longrightarrow> balanced (op # ops) \<longleftrightarrow> balanced ops"
  by (cases op) (simp_all add: balanced_def)

text \<open>What a client may expect of a context: \<open>restore\<close> brings back the state of the matching \<open>save\<close>, and no other call touches what is saved.\<close>

locale drawing_context =
  fixes step :: "canvas_op \<Rightarrow> 's \<times> 's list \<Rightarrow> 's \<times> 's list"
  assumes save: "step Save (s, stack) = (s, s # stack)"
    and restore: "step Restore (s, t # stack) = (t, stack)"
    and other: "op \<noteq> Save \<Longrightarrow> op \<noteq> Restore \<Longrightarrow> snd (step op (s, stack)) = stack"
begin

lemma keeps_stack:
  assumes "nesting n ops = Some m" "length pre = n"
  shows "\<exists>s' pre'. fold step ops (s, pre @ stack) = (s', pre' @ stack) \<and> length pre' = m"
  using assms
proof (induction ops arbitrary: n s pre)
  case (Cons op ops)
  show ?case
  proof (cases "op = Save \<or> op = Restore")
    case True
    then show ?thesis
    proof
      assume op: "op = Save"
      then show ?thesis using Cons.IH [of "Suc n" "s # pre" s] Cons.prems by (simp add: save)
    next
      assume op: "op = Restore"
      with Cons.prems obtain k t pre' where "n = Suc k" "pre = t # pre'" "length pre' = k" "nesting k ops = Some m"
        by (cases n; cases pre) auto
      then show ?thesis using Cons.IH [of k pre' t] op by (simp add: restore)
    qed
  next
    case False
    then obtain s' where "step op (s, pre @ stack) = (s', pre @ stack)" using other [of op s "pre @ stack"] by (metis prod.collapse)
    moreover have "nesting n ops = Some m" using Cons.prems(1) False by (cases op) simp_all
    ultimately show ?thesis using Cons.IH [of n pre s'] Cons.prems(2) by simp
  qed
qed simp

theorem frame_restores:
  assumes "balanced ops"
  shows "fold step (Save # ops @ [Restore]) st = st"
proof -
  obtain s stack where st: "st = (s, stack)" by (cases st)
  obtain s' pre' where "fold step ops (s, [] @ s # stack) = (s', pre' @ s # stack)" "length pre' = 0"
    using keeps_stack [of 0 ops 0 "[]" s "s # stack"] assms by (auto simp: balanced_def)
  then show ?thesis by (simp add: st save restore)
qed

end

interpretation html_canvas: drawing_context canvas_step
proof unfold_locales
  fix op and s :: canvas_state and stack assume "op \<noteq> Save" "op \<noteq> Restore"
  then show "snd (canvas_step op (s, stack)) = stack" by (cases op) simp_all
qed simp_all

text \<open>Calls that leave the state of the context as it was.\<close>

definition leaves_no_trace :: "canvas_op list \<Rightarrow> bool" where
  "leaves_no_trace ops = (\<forall>st. run_canvas ops st = st)"

lemma traceless_Nil [simp]: "leaves_no_trace []"
  by (simp add: leaves_no_trace_def run_canvas_def)

lemma traceless_append: "leaves_no_trace xs \<Longrightarrow> leaves_no_trace ys \<Longrightarrow> leaves_no_trace (xs @ ys)"
  by (simp add: leaves_no_trace_def run_canvas_def)

lemma traceless_frame: "balanced ops \<Longrightarrow> leaves_no_trace (Save # ops @ [Restore])"
  using html_canvas.frame_restores [of ops] by (simp add: leaves_no_trace_def run_canvas_def)

lemma balanced_fill_lines: "balanced (fill_lines ls x y h)"
  by (induction ls arbitrary: y) (simp_all add: balanced_Cons)

lemma balanced_fillText: "balanced (fillTextMultiLine text x y level h horizontal)"
  by (simp add: fillTextMultiLine_def Let_def balanced_fill_lines)

lemma balanced_box:
  assumes "setTextBordersAndBackground env font align base text fontsize x y tf = Inr ops"
  shows "balanced ops"
proof -
  obtain str where t: "text_string (ly_numstr env) text = Inr str" using assms by (cases "text_string (ly_numstr env) text") (simp_all add: setTextBordersAndBackground_def)
  show ?thesis
    using assms by (auto simp: setTextBordersAndBackground_def t Let_def balanced_def split: prod.splits)
qed

lemma balanced_style: "balanced (text_style env config font)"
  by (simp add: text_style_def balanced_Cons)

lemma traceless_text:
  assumes "paint_text env config start font key text x y = Inr ops" "balanced start"
  shows "leaves_no_trace ops"
proof -
  let ?size = "text_px env config (font @ ''FontSize'')"
  obtain box where box: "setTextBordersAndBackground env (font_of env config font) ''center'' ''bottom'' text ?size x y (frame_of env config key) = Inr box"
    using assms(1) by (cases "setTextBordersAndBackground env (font_of env config font) ''center'' ''bottom'' text ?size x y (frame_of env config key)")
      (simp_all add: paint_text_def Let_def)
  have "balanced (start @ text_style env config font @ box @ [Translate x y]
      @ fillTextMultiLine (to_string (ly_numstr env) text) 0 0 ''bottom'' ?size True @ [Stroke])"
    by (intro balanced_append balanced_style balanced_box [OF box] balanced_fillText assms(2)) (simp_all add: balanced_Cons)
  from traceless_frame [OF this] show ?thesis using assms(1) unfolding paint_text_def Let_def box by simp
qed

lemma traceless_turned:
  assumes "paint_turned env config text x y angle = Inr ops"
  shows "leaves_no_trace ops"
proof -
  let ?size = "text_px env config ''yAxisFontSize''"
  obtain box where box: "setTextBordersAndBackground env (font_of env config ''yAxis'') ''center'' ''bottom'' text ?size 0 0 (frame_of env config ''yAxisLabel'') = Inr box"
    using assms by (cases "setTextBordersAndBackground env (font_of env config ''yAxis'') ''center'' ''bottom'' text ?size 0 0 (frame_of env config ''yAxisLabel'')")
      (simp_all add: paint_turned_def Let_def)
  have "balanced ([BeginPath] @ text_style env config ''yAxis'' @ [Translate x y, Rotate angle] @ box
      @ fillTextMultiLine (to_string (ly_numstr env) text) 0 0 ''bottom'' ?size False @ [Stroke])"
    by (intro balanced_append balanced_style balanced_box [OF box] balanced_fillText) (simp_all add: balanced_Cons)
  from traceless_frame [OF this] show ?thesis using assms unfolding paint_turned_def Let_def box by simp
qed

text \<open>The results of a sequence of calls that can raise.\<close>

lemma and_then_Inr: "and_then r f = Inr y \<longleftrightarrow> (\<exists>x. r = Inr x \<and> f x = Inr y)"
  by (cases r) simp_all

lemma traceless_title: "paint_title env config width key band = Inr ops \<Longrightarrow> leaves_no_trace ops"
  by (auto simp: paint_title_def Let_def balanced_Cons split: if_splits intro: traceless_text)

lemma traceless_unit: "paint_unit env config width lay m = Inr (config', ops) \<Longrightarrow> leaves_no_trace ops"
  by (auto simp: paint_unit_def Let_def and_then_Inr balanced_Cons split: if_splits intro!: traceless_append intro: traceless_text)

lemma traceless_y_label: "paint_y_label env config lay m = Inr (config', ops) \<Longrightarrow> leaves_no_trace ops"
  by (auto simp: paint_y_label_def Let_def and_then_Inr split: if_splits intro!: traceless_append intro: traceless_turned)

lemma traceless_x_label: "paint_x_label env config lay m = Inr ops \<Longrightarrow> leaves_no_trace ops"
  by (auto simp: paint_x_label_def balanced_Cons split: if_splits intro: traceless_text)

lemma traceless_footNote: "paint_footNote env config lay m = Inr ops \<Longrightarrow> leaves_no_trace ops"
  by (auto simp: paint_footNote_def and_then_Inr split: if_splits intro: traceless_text)

lemma traceless_borders: "leaves_no_trace (paint_borders env config height width w)"
  using traceless_frame [of "[BeginPath, LineWidth (2 * w), LineDash (lineStyleFn (ly_numstr env) (oget config ''canvasBordersStyle'')),
            StrokeStyle (oget config ''canvasBordersColor''), MoveTo 0 0, LineTo 0 height, LineTo width height, LineTo width 0, LineTo 0 0, Stroke, LineDash []]"]
  by (simp add: paint_borders_def balanced_Cons)

lemma traceless_legend_frame: "leaves_no_trace (legend_frame env config lb)"
proof -
  have "\<exists>ops. legend_frame env config lb = Save # ops @ [Restore] \<and> balanced ops" if "legend_bordered config"
    using that unfolding legend_frame_def Let_def if_P [OF that]
    by (intro exI [of _ "butlast (tl (legend_frame env config lb))"]) (simp add: legend_frame_def Let_def balanced_Cons)
  then show ?thesis using traceless_frame by (cases "legend_bordered config") (auto simp: legend_frame_def)
qed

lemma balanced_legend_stroke: "legend_stroke pe config lk item i = Inr ops \<Longrightarrow> balanced ops"
  by (auto simp: legend_stroke_def and_then_Inr balanced_Cons split: if_splits)

lemma balanced_marker: "balanced (drawMarker pe x y marker r dash)"
  by (simp add: drawMarker_def marker_path_def Let_def balanced_Cons)

lemma balanced_legend_block: "legend_block env pe config lk item i x y = Inr ops \<Longrightarrow> balanced ops"
  by (auto simp: legend_block_def Let_def and_then_Inr balanced_Cons dest!: balanced_legend_stroke intro!: balanced_append)

lemma balanced_legend_marker: "legend_marker env pe config lk item i x y = Inr ops \<Longrightarrow> balanced ops"
  by (auto simp: legend_marker_def Let_def and_then_Inr balanced_Cons balanced_marker split: if_splits)

lemma balanced_legend_line: "legend_line env pe config lk item i x y = Inr ops \<Longrightarrow> balanced ops"
  by (auto simp: legend_line_def Let_def and_then_Inr balanced_Cons dest!: balanced_legend_stroke balanced_legend_marker intro!: balanced_append)

lemma traceless_entry:
  assumes "legend_entry env pe config lk item i text x y = Inr ops"
  shows "leaves_no_trace ops"
proof -
  obtain mark color where m: "balanced mark"
      and ops: "ops = (Save # ([BeginPath] @ mark) @ [Restore])
        @ (Save # [BeginPath, Font (font_of env config ''legend''), FillStyle color, TextAlign ''left'', TextBaseline ''bottom'',
             Translate (x + text_px env config ''legendBlockSize'' + space_px env config ''legendSpaceBetweenBoxAndText'') y, FillText text 0 0] @ [Restore])"
    using assms unfolding legend_entry_def and_then_Inr
    by (auto split: if_splits dest: balanced_legend_block balanced_legend_line)
  have "balanced ([BeginPath] @ mark)" using m by (simp add: balanced_Cons)
  then show ?thesis unfolding ops by (intro traceless_append traceless_frame) (simp_all add: balanced_Cons)
qed

lemma traceless_entries: "legend_entries env pe config lk lb items is lg = Inr ops \<Longrightarrow> leaves_no_trace ops"
proof (induction "is" arbitrary: lg ops)
  case (Cons i "is")
  then show ?case
    by (auto simp: and_then_Inr Let_def split: option.splits intro!: traceless_append dest: traceless_entry)
qed simp

lemma traceless_drawLegend: "drawLegend env pe config lk lb items = Inr ops \<Longrightarrow> leaves_no_trace ops"
  by (auto simp: drawLegend_def and_then_Inr intro!: traceless_append traceless_legend_frame dest: traceless_entries)

lemma traceless_legend: "paint_legend env pe config lk lb items = Inr (d, ops) \<Longrightarrow> leaves_no_trace ops"
  by (cases "drawLegend env pe config lk lb items") (auto simp: paint_legend_def traceless_drawLegend split: if_splits)

text \<open>C15: Painting the texts around a chart and its legend leaves the context as it was before: the origin, the angle, the colours, the font and
  the stack of saved states, so that the chart itself is drawn in the coordinates of the canvas.\<close>

theorem texts_leave_no_trace:
  assumes "paint_texts env pe config lk items height width lay lb m = Inr (config', dispLegend, ops)"
  shows "run_canvas ops st = st"
proof -
  have "leaves_no_trace ops"
    using assms unfolding paint_texts_def
    by (auto simp: and_then_Inr intro!: traceless_append traceless_borders dest: traceless_title traceless_unit traceless_y_label traceless_x_label traceless_legend traceless_footNote)
  then show ?thesis unfolding leaves_no_trace_def by blast
qed

text \<open>A foot note with borders.\<close>

definition note_env :: layout_env where
  "note_env = \<lparr> ly_scales = plain_scales, ly_text = Fin 1, ly_numstr = (\<lambda>_. []), ly_perso = (\<lambda>_ v _. v), ly_measure = (\<lambda>_ _. Fin 10) \<rparr>"

definition note_config :: obj where
  "note_config = [(''footNote'', Str ''note''), (''footNoteFontSize'', NumF 10), (''footNoteBorders'', Bool True)]"

definition note_layout :: text_layout where
  "note_layout =
     \<lparr> tl_border = Fin 1, tl_left = Fin 0, tl_right = Fin 0, tl_top = Fin 0, tl_bottom = Fin 0, tl_title = no_band, tl_subTitle = no_band, tl_unit = no_band,
       tl_footNote = \<lparr> tb_height = Fin 10, tb_pos = Fin 190 \<rparr>, tl_xAxisLabel = no_band, tl_yAxisLabel = \<lparr> sl_width = 0, sl_left = 0, sl_right = 0 \<rparr> \<rparr>"

definition plain_measures :: "jsnum \<Rightarrow> jsnum \<Rightarrow> measures" where
  "plain_measures h w =
     \<lparr> m_leftNotUsableSize = Fin 0, m_rightNotUsableSize = Fin 0, m_availableWidth = w, m_topNotUsableSize = Fin 0,
       m_bottomNotUsableHeightWithoutXLabels = Fin 0, m_bottomNotUsableHeightWithXLabels = Fin 0, m_availableHeight = h,
       m_labels = \<lparr> ls_widestX = Fin 0, ls_highestX = Fin 0, ls_widestY = Fin 0, ls_highestY = Fin 0, ls_widestY2 = Fin 0, ls_highestY2 = Fin 0 \<rparr>,
       m_rotateLabels = Fin 0, m_xLabelPos = Fin 0, m_clrx = Fin 0, m_clry = Fin 0, m_clrwidth = w, m_clrheight = h \<rparr>"

definition blank_canvas :: canvas_state where
  "blank_canvas =
     \<lparr> cs_x = Fin 0, cs_y = Fin 0, cs_angle = Fin 0, cs_fill = Str ''black'', cs_stroke = Str ''black'', cs_width = Fin 1, cs_dash = [], cs_font = [],
       cs_align = ''start'', cs_baseline = ''alphabetic'' \<rparr>"

definition boxed_keys :: legend_kind where
  "boxed_keys = \<lparr> lk_onData = True, lk_reverse = False, lk_box = True, lk_tpchart = ''Line'' \<rparr>"

theorem texts_leave_no_trace_witness:
  "\<exists>config' d ops. paint_texts note_env plain_paint note_config boxed_keys [] (Fin 200) (Fin 300) note_layout (no_legend 0 0) (plain_measures (Fin 200) (Fin 300)) = Inr (config', d, ops)
     \<and> FillText ''note'' (Fin 0) (Fin 0) \<in> set ops \<and> run_canvas ops (blank_canvas, []) = (blank_canvas, [])"
proof -
  have lines: "text_lines ''note'' = [''note'']" by (simp add: text_lines_def)
  have "\<exists>ops. paint_texts note_env plain_paint note_config boxed_keys [] (Fin 200) (Fin 300) note_layout (no_legend 0 0) (plain_measures (Fin 200) (Fin 300)) = Inr (note_config, False, ops)
      \<and> FillText ''note'' (Fin 0) (Fin 0) \<in> set ops"
    by (simp add: paint_texts_def paint_title_def paint_unit_def paint_y_label_def paint_x_label_def paint_legend_def paint_footNote_def paint_text_def
        setTextBordersAndBackground_def text_string_def text_given_def str_trim_def note_config_def note_layout_def legend_drawn_def no_legend_def
        fillTextMultiLine_def lines text_sides_def text_ends_def text_px_def scaled_def note_env_def is_space_def Let_def zero_jsnum_def)
  then show ?thesis using texts_leave_no_trace by blast
qed

section \<open>Where the entries of a legend appear\<close>

lemma texts_of_append: "texts_of (xs @ ys) st = texts_of xs st @ texts_of ys (run_canvas xs st)"
  by (induction xs st rule: texts_of.induct) (simp_all add: run_canvas_def)

lemma texts_of_traceless: "leaves_no_trace xs \<Longrightarrow> texts_of (xs @ ys) st = texts_of xs st @ texts_of ys st"
  unfolding texts_of_append leaves_no_trace_def by metis

fun is_text :: "canvas_op \<Rightarrow> bool" where
  "is_text (FillText _ _ _) = True"
| "is_text _ = False"

abbreviation silent :: "canvas_op list \<Rightarrow> bool" where
  "silent ops \<equiv> list_all (\<lambda>op. \<not> is_text op) ops"

lemma texts_of_silent: "silent ops \<Longrightarrow> texts_of ops st = []"
  by (induction ops st rule: texts_of.induct) auto

lemma silent_stroke: "legend_stroke pe config lk item i = Inr ops \<Longrightarrow> silent ops"
  by (auto simp: legend_stroke_def and_then_Inr split: if_splits)

lemma silent_drawMarker: "silent (drawMarker pe x y marker r dash)"
  by (simp add: drawMarker_def marker_path_def Let_def)

lemma silent_marker: "legend_marker env pe config lk item i x y = Inr ops \<Longrightarrow> silent ops"
  by (auto simp: legend_marker_def Let_def and_then_Inr silent_drawMarker split: if_splits)

lemma silent_block: "legend_block env pe config lk item i x y = Inr ops \<Longrightarrow> silent ops"
  by (auto simp: legend_block_def Let_def and_then_Inr dest: silent_stroke)

lemma silent_line: "legend_line env pe config lk item i x y = Inr ops \<Longrightarrow> silent ops"
  by (auto simp: legend_line_def Let_def and_then_Inr dest: silent_stroke silent_marker)

lemma silent_frame: "silent (legend_frame env config lb)"
  by (simp add: legend_frame_def Let_def)

text \<open>The context with its origin at the corner of the canvas.\<close>

definition at_origin :: "canvas_state \<times> canvas_state list \<Rightarrow> bool" where
  "at_origin st = (cs_x (fst st) = Fin 0 \<and> cs_y (fst st) = Fin 0 \<and> cs_angle (fst st) = Fin 0)"

lemma entry_text:
  assumes "legend_entry env pe config lk item i text (Fin x) (Fin y) = Inr ops" "at_origin st"
    and "text_px env config ''legendBlockSize'' + space_px env config ''legendSpaceBetweenBoxAndText'' = Fin gap"
  shows "texts_of ops st = [(text, Fin (x + gap), Fin y)]"
proof -
  let ?gap = "Fin x + text_px env config ''legendBlockSize'' + space_px env config ''legendSpaceBetweenBoxAndText''"
  obtain mark color where m: "silent mark" "balanced mark"
      and ops: "ops = (Save # ([BeginPath] @ mark) @ [Restore])
        @ (Save # [BeginPath, Font (font_of env config ''legend''), FillStyle color, TextAlign ''left'', TextBaseline ''bottom'',
             Translate ?gap (Fin y), FillText text 0 0] @ [Restore])"
    using assms(1) unfolding legend_entry_def and_then_Inr
    by (auto split: if_splits dest: silent_block silent_line balanced_legend_block balanced_legend_line)
  have "?gap = Fin (x + gap)" using assms(3)
    by (cases "text_px env config ''legendBlockSize''"; cases "space_px env config ''legendSpaceBetweenBoxAndText''") simp_all
  moreover have "balanced ([BeginPath] @ mark)" using m(2) by (simp add: balanced_Cons)
  then have "texts_of ops st = texts_of (Save # ([BeginPath] @ mark) @ [Restore]) st
      @ texts_of (Save # [BeginPath, Font (font_of env config ''legend''), FillStyle color, TextAlign ''left'', TextBaseline ''bottom'', Translate ?gap (Fin y), FillText text 0 0] @ [Restore]) st"
    unfolding ops by (intro texts_of_traceless traceless_frame)
  moreover have "texts_of (Save # ([BeginPath] @ mark) @ [Restore]) st = []" using m(1) by (intro texts_of_silent) simp
  ultimately show ?thesis
    using assms(2) by (cases st) (simp add: at_origin_def placed_def zero_jsnum_def)
qed

text \<open>The variables of the loop after \<open>k\<close> entries in \<open>c\<close> columns of width \<open>w\<close>, in lines of height \<open>r\<close>.\<close>

definition in_grid :: "nat \<Rightarrow> real \<Rightarrow> real \<Rightarrow> real \<Rightarrow> real \<Rightarrow> nat \<Rightarrow> legend_loop \<Rightarrow> bool" where
  "in_grid c x0 y0 w r k lg =
     (case k of
        0 \<Rightarrow> lg_col lg = Fin (of_nat c - 1) \<and> lg_y lg = Fin (y0 - r)
      | Suc j \<Rightarrow> lg_col lg = Fin (of_nat (j mod c)) \<and> lg_x lg = Fin (x0 + of_nat (j mod c) * w) \<and> lg_y lg = Fin (y0 + of_nat (j div c) * r))"

lemma next_in_grid:
  assumes "in_grid c x0 y0 w r k lg" "0 < c" "lb_cols lb = Fin (of_nat c)" "lb_x lb = Fin x0"
    and "lb_widest lb + space_px env config ''legendSpaceBetweenTextHorizontal'' = Fin w"
    and "text_px env config ''legendFontSize'' + space_px env config ''legendSpaceBetweenTextVertical'' = Fin r"
  shows "in_grid c x0 y0 w r (Suc k) (next_entry env config lb lg)"
proof (cases k)
  case 0
  then show ?thesis using assms by (simp add: in_grid_def next_entry_def one_jsnum_def zero_jsnum_def)
next
  case (Suc j)
  have eq: "real (j mod c) + 1 = real c \<longleftrightarrow> Suc (j mod c) = c" by linarith
  show ?thesis
  proof (cases "Suc (j mod c) = c")
    case True
    then have "Suc j mod c = 0" "Suc j div c = Suc (j div c)" by (simp_all add: mod_Suc div_Suc)
    with True show ?thesis using assms Suc by (simp add: in_grid_def next_entry_def one_jsnum_def zero_jsnum_def eq algebra_simps)
  next
    case False
    then have "Suc j mod c = Suc (j mod c)" "Suc j div c = j div c" by (simp_all add: mod_Suc div_Suc)
    with False show ?thesis using assms Suc by (simp add: in_grid_def next_entry_def one_jsnum_def zero_jsnum_def eq algebra_simps)
  qed
qed

definition legend_shown :: "layout_env \<Rightarrow> obj \<Rightarrow> obj list \<Rightarrow> nat list \<Rightarrow> string list" where
  "legend_shown env config items is = concat (map (\<lambda>i. case legend_text env config (items ! i) of Inr (Some t) \<Rightarrow> [t] | _ \<Rightarrow> []) is)"

text \<open>The \<open>k\<close>-th entry of a legend.\<close>

definition grid_text :: "nat \<Rightarrow> real \<Rightarrow> real \<Rightarrow> real \<Rightarrow> real \<Rightarrow> nat \<times> string \<Rightarrow> string \<times> jsnum \<times> jsnum" where
  "grid_text c x0 y0 w r = (\<lambda>(k, t). (t, Fin (x0 + of_nat (k mod c) * w), Fin (y0 + of_nat (k div c) * r)))"

lemma entries_in_grid:
  assumes "legend_entries env pe config lk lb items is lg = Inr ops" "in_grid c x0 y0 w r k lg" "at_origin st"
    and g: "0 < c" "lb_cols lb = Fin (of_nat c)" "lb_x lb = Fin x0"
      "lb_widest lb + space_px env config ''legendSpaceBetweenTextHorizontal'' = Fin w"
      "text_px env config ''legendFontSize'' + space_px env config ''legendSpaceBetweenTextVertical'' = Fin r"
    and gap: "text_px env config ''legendBlockSize'' + space_px env config ''legendSpaceBetweenBoxAndText'' = Fin gap"
  shows "texts_of ops st = map (grid_text c (x0 + gap) y0 w r) (enumerate k (legend_shown env config items is))"
  using assms(1,2)
proof (induction "is" arbitrary: k lg ops)
  case Nil
  then show ?case by (simp add: legend_shown_def)
next
  case (Cons i "is")
  from Cons.prems(1) obtain opt where opt: "legend_text env config (items ! i) = Inr opt" by (auto simp: and_then_Inr)
  show ?case
  proof (cases opt)
    case None
    then show ?thesis using Cons.IH [of lg ops k] Cons.prems opt by (simp add: legend_shown_def)
  next
    case (Some t)
    let ?lg = "next_entry env config lb lg"
    have grid: "in_grid c x0 y0 w r (Suc k) ?lg" by (rule next_in_grid [OF Cons.prems(2) g])
    then have pos: "lg_x ?lg = Fin (x0 + of_nat (k mod c) * w)" "lg_y ?lg = Fin (y0 + of_nat (k div c) * r)" by (simp_all add: in_grid_def)
    obtain entry rest where e: "legend_entry env pe config lk (items ! i) i t (lg_x ?lg) (lg_y ?lg) = Inr entry"
        "legend_entries env pe config lk lb items is ?lg = Inr rest" "ops = entry @ rest"
      using Cons.prems(1) opt Some by (auto simp: and_then_Inr Let_def)
    have "texts_of ops st = texts_of entry st @ texts_of rest st"
      unfolding e(3) by (rule texts_of_traceless [OF traceless_entry [OF e(1)]])
    with entry_text [OF e(1) [unfolded pos] assms(3) gap] Cons.IH [OF e(2) grid] opt Some show ?thesis
      by (simp add: legend_shown_def grid_text_def algebra_simps)
  qed
qed

text \<open>C17: The entries of a legend appear in a grid: the \<open>k\<close>-th text that is shown stands in column \<open>k mod c\<close> and in line \<open>k div c\<close>, in the
  order of the data sets or against it.\<close>

theorem legend_in_grid:
  assumes "drawLegend env pe config lk lb items = Inr ops" "at_origin st" "0 < c" "lb_cols lb = Fin (of_nat c)" "lb_x lb = Fin x0" "lb_y lb = Fin y0"
    and "lb_widest lb + space_px env config ''legendSpaceBetweenTextHorizontal'' = Fin w"
    and "text_px env config ''legendFontSize'' + space_px env config ''legendSpaceBetweenTextVertical'' = Fin r"
    and "text_px env config ''legendBlockSize'' + space_px env config ''legendSpaceBetweenBoxAndText'' = Fin gap"
  shows "texts_of ops st =
     map (grid_text c (x0 + gap) y0 w r) (enumerate 0 (legend_shown env config items (legend_order lk (length items))))"
proof -
  let ?lg = "\<lparr> lg_col = lb_cols lb - 1, lg_x = 0, lg_y = lb_y lb - (text_px env config ''legendFontSize'' + space_px env config ''legendSpaceBetweenTextVertical'') \<rparr>"
  obtain entries where e: "legend_entries env pe config lk lb items (legend_order lk (length items)) ?lg = Inr entries" "ops = legend_frame env config lb @ entries"
    using assms(1) by (auto simp: drawLegend_def and_then_Inr)
  have "in_grid c x0 y0 w r 0 ?lg" using assms(4,6,8) by (simp add: in_grid_def one_jsnum_def)
  note grid = entries_in_grid [OF e(1) this assms(2-5,7-9)]
  have "texts_of ops st = texts_of (legend_frame env config lb) st @ texts_of entries st"
    unfolding e(2) by (rule texts_of_traceless [OF traceless_legend_frame])
  then show ?thesis using grid texts_of_silent [OF silent_frame] by simp
qed

text \<open>A legend of three entries in two columns.\<close>

definition key_config :: obj where
  "key_config =
     [(''legendFontSize'', NumF 10), (''legendSpaceBetweenTextVertical'', NumF 5), (''legendSpaceBetweenTextHorizontal'', NumF 5), (''legendBlockSize'', NumF 15),
      (''legendSpaceBetweenBoxAndText'', NumF 5), (''legendFontColor'', Str ''black''), (''fmtLegend'', Str ''notformatted''), (''datasetStrokeStyle'', Str ''solid'')]"

definition key_items :: "obj list" where
  "key_items = [[(''title'', Str ''a'')], [(''title'', Str ''b'')], [], [(''title'', Str ''c'')]]"

definition key_box :: legend_box where
  "key_box = (no_legend 3 (Fin 30))\<lparr> lb_lines := Fin 2, lb_cols := Fin 2, lb_x := Fin 50, lb_y := Fin 180 \<rparr>"

theorem legend_in_grid_witness:
  "\<exists>ops. drawLegend note_env plain_paint key_config boxed_keys key_box key_items = Inr ops
     \<and> texts_of ops (blank_canvas, []) = [(''c'', Fin 70, Fin 180), (''b'', Fin 105, Fin 180), (''a'', Fin 70, Fin 195)]"
proof -
  have shown: "legend_text note_env key_config (key_items ! 0) = Inr (Some ''a'')" "legend_text note_env key_config (key_items ! 1) = Inr (Some ''b'')"
      "legend_text note_env key_config (key_items ! 2) = Inr None" "legend_text note_env key_config (key_items ! 3) = Inr (Some ''c'')"
    by (simp_all add: legend_text_def key_items_def key_config_def fmtChartJS_def str_trim_def is_space_def)
  have "\<exists>ops. legend_entry note_env plain_paint key_config boxed_keys item i t x y = Inr ops" if "item \<in> set key_items" for item i t x y
  proof -
    have "oget item k \<noteq> Null" for k using that by (auto simp: key_items_def split: if_splits)
    moreover have "oget key_config k \<noteq> Null" for k by (simp add: key_config_def)
    ultimately show ?thesis
      using option_given [of "oget item ''strokeColor''" "oget key_config ''defaultFillColor''" plain_paint "''LEGENDSTROKECOLOR''" i "- 1"]
        option_given [of "oget item ''datasetStrokeStyle''" "oget key_config ''datasetStrokeStyle''" plain_paint "''LEGENDLINEDASH''" i "- 1"]
        option_given [of "oget item ''fillColor''" "oget key_config ''defaultFillColor''" plain_paint "''LEGENDFILLCOLOR''" i "- 1"]
        option_given [of Undef "oget key_config ''legendFontColor''" plain_paint "''LEGENDFONTCOLOR''" i "- 1"]
      by (auto simp: legend_entry_def boxed_entry_def boxed_keys_def legend_block_def legend_stroke_def Let_def)
  qed
  then have entry: "\<exists>ops. legend_entry note_env plain_paint key_config boxed_keys (key_items ! j) i t x y = Inr ops" if "j < 4" for i j t x y
    using that nth_mem [of j key_items] by (simp add: key_items_def)
  have order: "legend_order boxed_keys (length key_items) = [3, 2, 1, 0]" by (simp add: legend_order_def boxed_keys_def key_items_def)
  have "\<exists>ops. drawLegend note_env plain_paint key_config boxed_keys key_box key_items = Inr ops"
    unfolding drawLegend_def order using entry [of 3] entry [of 1] entry [of 0] shown by (fastforce simp: and_then_Inr Let_def)
  then obtain ops where ops: "drawLegend note_env plain_paint key_config boxed_keys key_box key_items = Inr ops" by blast
  have "texts_of ops (blank_canvas, []) = map (grid_text 2 (50 + 20) 180 35 15) (enumerate 0 (legend_shown note_env key_config key_items [3, 2, 1, 0]))"
    unfolding order [symmetric]
    by (rule legend_in_grid [OF ops])
      (simp_all add: at_origin_def blank_canvas_def key_box_def no_legend_def space_px_def text_px_def scaled_def key_config_def note_env_def plain_scales_def)
  with ops show ?thesis using shown by (intro exI [of _ ops]) (simp add: legend_shown_def grid_text_def)
qed

section \<open>Where the titles appear\<close>

lemma box_traceless:
  assumes "setTextBordersAndBackground env font align base text fontsize x y tf = Inr ops"
  shows "leaves_no_trace ops" "silent ops"
proof -
  obtain str where t: "text_string (ly_numstr env) text = Inr str" using assms by (cases "text_string (ly_numstr env) text") (simp_all add: setTextBordersAndBackground_def)
  obtain inner where "ops = Save # inner @ [Restore]" "balanced inner" "silent inner"
    using assms by (auto simp: setTextBordersAndBackground_def t Let_def balanced_def split: prod.splits)
  then show "leaves_no_trace ops" "silent ops" using traceless_frame by simp_all
qed

lemma texts_of_lines:
  assumes "cs_x (fst st) = Fin x" "cs_y (fst st) = Fin y" "cs_angle (fst st) = Fin 0"
  shows "texts_of (fill_lines ls (Fin 0) (Fin z) (Fin h) @ [Stroke, Restore]) st = map (\<lambda>(i, l). (l, Fin x, Fin (y + z + of_nat i * h))) (enumerate 0 ls)"
proof -
  have "texts_of (fill_lines ls (Fin 0) (Fin (z + of_nat k * h)) (Fin h) @ [Stroke, Restore]) st
      = map (\<lambda>(i, l). (l, Fin x, Fin (y + z + of_nat i * h))) (enumerate k ls)" for k
  proof (induction ls arbitrary: k)
    case Nil
    then show ?case by (cases st) (simp split: list.split)
  next
    case (Cons l ls)
    then show ?case using Cons.IH [of "Suc k"] assms by (simp add: placed_def algebra_simps)
  qed
  from this [of 0] show ?thesis by simp
qed

lemma painted_lines:
  assumes "paint_text env config start font key (Str str) (Fin x) (Fin y) = Inr ops" "start = [] \<or> start = [BeginPath]" "at_origin st"
    and "text_px env config (font @ ''FontSize'') = Fin h"
  shows "texts_of ops st = map (\<lambda>(i, l). (l, Fin x, Fin (y - (of_nat (length (text_lines str)) - 1 - of_nat i) * h))) (enumerate 0 (text_lines str))"
proof -
  let ?n = "of_nat (length (text_lines str)) :: real"
  obtain box where box: "setTextBordersAndBackground env (font_of env config font) ''center'' ''bottom'' (Str str) (Fin h) (Fin x) (Fin y) (frame_of env config key) = Inr box"
    using assms(1,4) by (auto simp: paint_text_def and_then_Inr Let_def)
  have ops: "ops = (Save # start @ text_style env config font) @ box @ Translate (Fin x) (Fin y)
      # fill_lines (text_lines str) (Fin 0) (Fin (- ((?n - 1) * h))) (Fin h) @ [Stroke, Restore]"
    using assms(1) unfolding paint_text_def Let_def assms(4) box by (simp add: fillTextMultiLine_def Let_def zero_jsnum_def)
  let ?st = "run_canvas (Save # start @ text_style env config font) st"
  have st: "cs_x (fst ?st) = Fin 0" "cs_y (fst ?st) = Fin 0" "cs_angle (fst ?st) = Fin 0"
    using assms(2,3) by (cases st; auto simp: run_canvas_def text_style_def at_origin_def)+
  have "silent (Save # start @ text_style env config font)" using assms(2) by (auto simp: text_style_def)
  then have "texts_of ops st = texts_of (Translate (Fin x) (Fin y) # fill_lines (text_lines str) (Fin 0) (Fin (- ((?n - 1) * h))) (Fin h) @ [Stroke, Restore]) ?st"
    unfolding ops texts_of_append [of "Save # start @ text_style env config font"]
    by (simp only: texts_of_silent texts_of_traceless [OF box_traceless(1) [OF box]] texts_of_silent [OF box_traceless(2) [OF box]] append_Nil)
  also have "\<dots> = map (\<lambda>(i, l). (l, Fin x, Fin (y + - ((?n - 1) * h) + of_nat i * h))) (enumerate 0 (text_lines str))"
  proof -
    have "cs_x (fst (canvas_step (Translate (Fin x) (Fin y)) ?st)) = Fin x" "cs_y (fst (canvas_step (Translate (Fin x) (Fin y)) ?st)) = Fin y"
        "cs_angle (fst (canvas_step (Translate (Fin x) (Fin y)) ?st)) = Fin 0"
      using st by (cases ?st; simp add: placed_def)+
    from texts_of_lines [OF this] show ?thesis by (simp only: texts_of.simps)
  qed
  finally show ?thesis by (simp add: algebra_simps)
qed

text \<open>The steps of a frame are sizes.\<close>

lemma widened_Fin: "widened (map Fin ds) (Fin x) = Fin (x + 2 * sum_list ds)"
  by (induction ds arbitrary: x) (simp_all add: widened_def)

lemma moved_on_Fin: "moved_on (map Fin ds) (Fin x) = Fin (x + sum_list ds)"
  by (induction ds arbitrary: x) (simp_all add: moved_on_def)

lemma sizes_Fin: "\<forall>x \<in> set xs. is_size x \<Longrightarrow> \<exists>ds. xs = map Fin ds \<and> (\<forall>d \<in> set ds. 0 \<le> d)"
proof (induction xs)
  case (Cons x xs)
  then obtain d ds where "x = Fin d" "0 \<le> d" "xs = map Fin ds" "\<forall>d \<in> set ds. 0 \<le> d" by (auto simp: is_size_def split: jsnum.splits)
  then show ?case by (intro exI [of _ "d # ds"]) simp
qed simp

lemma title_position:
  assumes "title_band env config key (Fin u) = Inr band" "oget config key = Str str" "str_trim str \<noteq> []"
    and "text_px env config (key @ ''FontSize'') = Fin h" "0 \<le> h" "is_size (space_px env config (key @ ''SpaceBefore''))" "is_size (space_px env config (key @ ''SpaceAfter''))"
    and "\<forall>x \<in> set (frame_steps env config key (key @ ''Borders'') (key @ ''Borders'')). is_size x"
  shows "\<exists>b p. tb_height band = Fin b \<and> tb_pos band = Fin p \<and> u + of_nat (length (text_lines str)) * h \<le> p \<and> p \<le> u + b"
proof -
  obtain a where a: "space_px env config (key @ ''SpaceBefore'') = Fin a" "0 \<le> a" using assms(6) by (rule is_sizeE)
  obtain c where c: "space_px env config (key @ ''SpaceAfter'') = Fin c" "0 \<le> c" using assms(7) by (rule is_sizeE)
  obtain ds where ds: "frame_steps env config key (key @ ''Borders'') (key @ ''Borders'') = map Fin ds" "\<forall>d \<in> set ds. 0 \<le> d"
    using sizes_Fin [OF assms(8)] by blast
  have "0 \<le> sum_list ds" using ds(2) by (intro sum_list_nonneg) blast
  then show ?thesis
    using assms(1) a c
    by (auto simp: title_band_def text_given_def assms(2-4) text_height_def Let_def ds(1) widened_Fin moved_on_Fin algebra_simps)
qed

text \<open>A title as it is painted: every line is between the upper end of its band and the lower one.\<close>

lemma title_lines:
  assumes "layout_typed axes config" "measuring env" "key \<in> {''graphTitle'', ''graphSubTitle''}" "title_band env config key (Fin u) = Inr band" "is_fin width"
    and "paint_title env config width key band = Inr ops" "at_origin st"
  shows "\<exists>h b. text_px env config (key @ ''FontSize'') = Fin h \<and> 0 \<le> h \<and> tb_height band = Fin b \<and> 0 \<le> b
     \<and> (\<forall>(t, x, y) \<in> set (texts_of ops st). \<exists>y'. y = Fin y' \<and> u + h \<le> y' \<and> y' \<le> u + b)"
proof -
  note px = size_px [OF assms(1,2)]
  have ok: "is_size (text_px env config (key @ ''FontSize''))" "is_size (space_px env config (key @ ''SpaceBefore''))"
      "is_size (space_px env config (key @ ''SpaceAfter''))" "is_size (space_px env config (key @ ''BordersYSpace''))"
      "is_size (line_px env config (key @ ''BordersWidth''))"
    using assms(3) by (auto intro!: px simp: size_options_def)
  have sides: "is_size (space_px env config ''spaceLeft'')" "is_size (space_px env config ''spaceRight'')" by (rule px, simp add: size_options_def)+
  obtain b where b: "tb_height band = Fin b" "0 \<le> b"
    using title_band_typed [OF assms(1-3), of "Fin u"] assms(4) by (auto elim: is_sizeE)
  obtain h where h: "text_px env config (key @ ''FontSize'') = Fin h" "0 \<le> h" using ok(1) by (rule is_sizeE)
  obtain str where str: "oget config key = Str str" using typed_text [OF assms(1), of key] assms(3) by auto
  have "\<exists>y'. y = Fin y' \<and> u + h \<le> y' \<and> y' \<le> u + b" if "(t, x, y) \<in> set (texts_of ops st)" for t x y
  proof -
    have painted: "tb_height band > 0" using that assms(6) by (auto simp: paint_title_def Let_def split: if_splits)
    then have given: "str_trim str \<noteq> []" using assms(4) by (auto simp: title_band_def text_given_def str Let_def)
    obtain p where p: "tb_pos band = Fin p" "u + of_nat (length (text_lines str)) * h \<le> p" "p \<le> u + b"
      using title_position [OF assms(4) str given h ok(2,3) frame_steps_size [OF ok(4,5)]] b(1) by auto
    define left where "left = space_px env config ''spaceLeft''"
    have "is_fin (left + (width - left - space_px env config ''spaceRight'') / 2)"
      using sides assms(5) unfolding left_def by (auto elim!: is_sizeE is_finE)
    then obtain x0 where x0: "left + (width - left - space_px env config ''spaceRight'') / 2 = Fin x0" by (rule is_finE)
    have "paint_text env config [BeginPath] key key (Str str) (Fin x0) (Fin p) = Inr ops"
      using assms(6) painted x0 p(1) str by (simp add: paint_title_def Let_def left_def)
    from painted_lines [OF this _ assms(7) h(1)] that obtain i where i: "i < length (text_lines str)"
        "y = Fin (p - (of_nat (length (text_lines str)) - 1 - of_nat i) * h)"
      by (auto simp: in_set_enumerate_eq)
    have "0 \<le> (of_nat (length (text_lines str)) - 1 - of_nat i) * h" using i(1) h(2) by (intro mult_nonneg_nonneg) simp_all
    moreover have "(of_nat (length (text_lines str)) - 1 - of_nat i) * h \<le> (of_nat (length (text_lines str)) - 1) * h"
      using h(2) by (intro mult_right_mono) simp_all
    ultimately show ?thesis using p(2,3) by (intro exI [of _ "p - (of_nat (length (text_lines str)) - 1 - of_nat i) * h"]) (simp add: i(2) algebra_simps)
  qed
  with h b show ?thesis by (intro exI [of _ h] exI [of _ b]) auto
qed

text \<open>C18: The titles neither overlap each other nor the chart: every line of the title is above every line of the sub-title, and both are between
  the upper end of the canvas and the upper end of the chart.\<close>

theorem titles_above_chart:
  assumes "layout_typed axes config" "measuring env" "drawAxis \<longrightarrow> axes" "is_fin width"
    and "layout_texts env config height width reverseAxis drawAxis ls = Inr lay" "at_origin st"
    and "paint_title env config width ''graphTitle'' (tl_title lay) = Inr title" "paint_title env config width ''graphSubTitle'' (tl_subTitle lay) = Inr sub"
  shows "(\<forall>(t, x, y) \<in> set (texts_of title st). \<forall>(t', x', y') \<in> set (texts_of sub st). y \<le> y' - text_px env config ''graphSubTitleFontSize'')
     \<and> (\<forall>(t, x, y) \<in> set (texts_of title st). Fin 0 \<le> y - text_px env config ''graphTitleFontSize'')
     \<and> (\<forall>(t, x, y) \<in> set (texts_of title st) \<union> set (texts_of sub st). y \<le> tl_top lay)"
proof -
  define border where "border = (if to_bool (oget config ''canvasBorders'') then line_px env config ''canvasBordersWidth'' else 0)"
  note px = size_px [OF assms(1,2)]
  have "is_size (border + space_px env config ''spaceTop'')" "is_size (text_px env config ''graphSpaceBefore'')"
    by (simp_all add: border_def px size_options_def is_size_plus)
  then obtain u g where u: "border + space_px env config ''spaceTop'' = Fin u" "0 \<le> u" and g: "text_px env config ''graphSpaceBefore'' = Fin g" "0 \<le> g"
    by (auto elim!: is_sizeE)
  obtain un where bands: "title_band env config ''graphTitle'' (Fin u) = Inr (tl_title lay)"
      "title_band env config ''graphSubTitle'' (Fin u + tb_height (tl_title lay)) = Inr (tl_subTitle lay)"
      "unit_band env config drawAxis (Fin u + tb_height (tl_title lay) + tb_height (tl_subTitle lay)) = Inr un"
      "tl_top lay = Fin u + tb_height (tl_title lay) + tb_height (tl_subTitle lay) + tb_height un + Fin g"
    using assms(5) unfolding layout_texts_def Let_def border_def [symmetric] u(1) g(1) by (auto simp: and_then_Inr)
  obtain h b where t: "text_px env config ''graphTitleFontSize'' = Fin h" "0 \<le> h" "tb_height (tl_title lay) = Fin b" "0 \<le> b"
      "\<forall>(t, x, y) \<in> set (texts_of title st). \<exists>y'. y = Fin y' \<and> u + h \<le> y' \<and> y' \<le> u + b"
    using title_lines [OF assms(1,2) _ bands(1) assms(4,7,6)] by auto
  obtain h2 b2 where s: "text_px env config ''graphSubTitleFontSize'' = Fin h2" "0 \<le> h2" "tb_height (tl_subTitle lay) = Fin b2" "0 \<le> b2"
      "\<forall>(t, x, y) \<in> set (texts_of sub st). \<exists>y'. y = Fin y' \<and> (u + b) + h2 \<le> y' \<and> y' \<le> (u + b) + b2"
    using title_lines [OF assms(1,2) _ bands(2) [unfolded t(3) plus_jsnum.simps] assms(4,8,6)] by auto
  obtain c where c: "tb_height un = Fin c" "0 \<le> c"
    using unit_band_typed [OF assms(1-3), of "Fin u + tb_height (tl_title lay) + tb_height (tl_subTitle lay)"] bands(3) by (auto elim: is_sizeE)
  have top: "tl_top lay = Fin (u + b + b2 + c + g)" by (simp add: bands(4) t(3) s(3) c(1))
  show ?thesis
    using t(1,2,4,5) s(1,2,4,5) u(2) g(2) c(2) by (fastforce simp: top)
qed

theorem titles_above_chart_witness:
  "let config = chart_config Line no_personal_options (Some titled) in
   \<exists>lay title sub. layout_texts fixed_font config (Fin 300) (Fin 400) False True (label_sizes_of fixed_font config [] Null Null True) = Inr lay
     \<and> paint_title fixed_font config (Fin 400) ''graphTitle'' (tl_title lay) = Inr title
     \<and> paint_title fixed_font config (Fin 400) ''graphSubTitle'' (tl_subTitle lay) = Inr sub
     \<and> (\<forall>(t, x, y) \<in> set (texts_of title (blank_canvas, [])) \<union> set (texts_of sub (blank_canvas, [])). y \<le> tl_top lay)"
proof -
  let ?config = "chart_config Line no_personal_options (Some titled)" let ?ls = "label_sizes_of fixed_font ?config [] Null Null True"
  have none: "options_typed True (personal_of Line no_personal_options)" "options_typed True (charJSPersonalDefaultOptions no_personal_options)"
    by (simp_all add: options_typed_def no_personal_options_def)
  have typed: "layout_typed True ?config"
    using chart_config_typed [OF wf_no_personal, of "Some titled" Line] none titled_typed by simp
  have "sized_labels ?ls" by (rule label_sizes_typed [OF typed fixed_font_measuring]) simp
  then obtain lay where lay: "layout_texts fixed_font ?config (Fin 300) (Fin 400) False True ?ls = Inr lay"
    using layout_texts_typed [OF typed fixed_font_measuring, of True ?ls "Fin 300" "Fin 400" False] unfolding sized_labels_def by blast
  have "\<exists>ops. paint_title fixed_font ?config (Fin 400) key band = Inr ops" if "key \<in> {''graphTitle'', ''graphSubTitle''}" for key band
  proof -
    have "key \<in> {''graphTitle'', ''graphSubTitle'', ''footNote''}" using that by auto
    then obtain str where "oget ?config key = Str str" using typed_text [OF typed, of key] by blast
    then show ?thesis by (simp add: paint_title_def paint_text_def setTextBordersAndBackground_def text_string_def Let_def split: prod.splits)
  qed
  then obtain title sub where p: "paint_title fixed_font ?config (Fin 400) ''graphTitle'' (tl_title lay) = Inr title"
      "paint_title fixed_font ?config (Fin 400) ''graphSubTitle'' (tl_subTitle lay) = Inr sub" by fastforce
  have "at_origin (blank_canvas, [])" by (simp add: at_origin_def blank_canvas_def)
  with titles_above_chart [OF typed fixed_font_measuring _ _ lay _ p, of "(blank_canvas, [])"]
  have "\<forall>(t, x, y) \<in> set (texts_of title (blank_canvas, [])) \<union> set (texts_of sub (blank_canvas, [])). y \<le> tl_top lay" by simp
  with lay p show ?thesis unfolding Let_def by blast
qed

text \<open>\<open>setMeasures\<close> as a whole: the layout and, unless it only measures, the painting.  The result has the options, in which the second texts
  of the axis may be filled in, whether the legend is still to be drawn, the measures and the calls of the context.\<close>

definition setMeasures_painted ::
  "layout_env \<Rightarrow> paint_env \<Rightarrow> obj \<Rightarrow> legend_kind \<Rightarrow> jsval list \<Rightarrow> obj list \<Rightarrow> jsnum \<Rightarrow> jsnum \<Rightarrow> jsval \<Rightarrow> jsval \<Rightarrow> bool \<Rightarrow> bool
     \<Rightarrow> js_error + obj \<times> bool \<times> measures \<times> canvas_op list" where
  "setMeasures_painted env pe config lk labels items height width ylabels ylabels2 reverseAxis drawAxis =
     and_then (setMeasures env config labels items height width ylabels ylabels2 reverseAxis drawAxis) (\<lambda>(lay, lb, m).
       if loose_eq ylabels (Str ''nihil'') then Inr (config, False, m, [])
       else map_sum id (\<lambda>(config', disp, ops). (config', disp, m, ops)) (paint_texts env pe config lk items height width lay lb m))"

end
