(* ===== verification/AxisPainting.thy ===== *)
theory AxisPainting
  imports TextPainting LineChart InaeticsCommon
begin

text \<open>
  The axes, grids and labels of the charts with axes: \<open>drawScale\<close> and \<open>drawLabels\<close> of Line, StackedBar,
  HorizontalStackedBar, Bar and HorizontalBar as calls of the canvas context.  The number of steps can be an option
  of the page: with an infinite number the loops do not end, and the result is \<open>None\<close>.
\<close>

section \<open>Lines\<close>

text \<open>The values of \<open>j\<close> in \<open>for (j = from; j < n; j++)\<close>.\<close>

definition loop_range :: "int \<Rightarrow> jsnum \<Rightarrow> int list option" where
  "loop_range from n = (case n of Fin r \<Rightarrow> Some [from..\<lceil>r\<rceil> - 1] | PInf \<Rightarrow> None | _ \<Rightarrow> Some [])"

definition first_step :: "obj \<Rightarrow> int" where
  "first_step config = (if to_bool (oget config ''showYAxisMin'') then - 1 else 0)"

definition tick_px :: "layout_env \<Rightarrow> obj \<Rightarrow> string \<Rightarrow> jsnum" where
  "tick_px env config side = line_px env config (''scaleTickSize'' @ side)"

definition dash_of :: "layout_env \<Rightarrow> obj \<Rightarrow> string \<Rightarrow> canvas_op" where
  "dash_of env config key = LineDash (lineStyleFn (ly_numstr env) (oget config key))"

definition axis_pen :: "layout_env \<Rightarrow> obj \<Rightarrow> canvas_op list" where
  "axis_pen env config = [LineWidth (line_px env config ''scaleLineWidth''), StrokeStyle (oget config ''scaleLineColor'')]"

definition grid_pen :: "layout_env \<Rightarrow> obj \<Rightarrow> canvas_op list" where
  "grid_pen env config = [LineWidth (line_px env config ''scaleGridLineWidth''), StrokeStyle (oget config ''scaleGridLineColor'')]"

text \<open>\<open>k % config[key] == 0\<close>\<close>

definition on_step :: "obj \<Rightarrow> string \<Rightarrow> int \<Rightarrow> bool" where
  "on_step config key k = num_eq (js_mod (Fin (of_int k)) (to_number (oget config key))) 0"

text \<open>The line up from position \<open>i\<close> of the lower axis, over the whole height or only the tick.\<close>

definition x_grid_line :: "layout_env \<Rightarrow> obj \<Rightarrow> othervars \<Rightarrow> measures \<Rightarrow> int \<Rightarrow> canvas_op list" where
  "x_grid_line env config ov m i =
     (let x = ov_yAxisPosX ov + Fin (of_int i) * ov_valueHop ov
      in [BeginPath, MoveTo x (ov_xAxisPosY ov + tick_px env config ''Bottom'')] @ grid_pen env config
         @ [LineTo x (if to_bool (oget config ''scaleShowGridLines'') \<and> i > 0 \<and> on_step config ''scaleXGridLinesStep'' i
                      then ov_xAxisPosY ov - m_availableHeight m - tick_px env config ''Top'' else ov_xAxisPosY ov)])"

text \<open>The line to the right from step \<open>j\<close> of the left axis; the horizontal stacked bars have no ticks on the right.\<close>

definition right_end :: "layout_env \<Rightarrow> obj \<Rightarrow> othervars \<Rightarrow> measures \<Rightarrow> bool \<Rightarrow> jsnum" where
  "right_end env config ov m ticks =
     (if ticks then ov_yAxisPosX ov + m_availableWidth m + tick_px env config ''Right'' else ov_yAxisPosX ov + m_availableWidth m)"

definition y_grid_line :: "layout_env \<Rightarrow> obj \<Rightarrow> othervars \<Rightarrow> measures \<Rightarrow> bool \<Rightarrow> int \<Rightarrow> canvas_op list" where
  "y_grid_line env config ov m ticks j =
     (let y = ov_xAxisPosY ov - Fin (of_int (j + 1)) * ov_scaleHop ov
      in [BeginPath, MoveTo (ov_yAxisPosX ov - tick_px env config ''Left'') y] @ grid_pen env config
         @ [LineTo (if to_bool (oget config ''scaleShowGridLines'') \<and> on_step config ''scaleYGridLinesStep'' (j + 1)
                    then right_end env config ov m ticks else ov_yAxisPosX ov) y])"

definition x_axis_path :: "layout_env \<Rightarrow> obj \<Rightarrow> othervars \<Rightarrow> measures \<Rightarrow> bool \<Rightarrow> jsnum \<Rightarrow> canvas_op list" where
  "x_axis_path env config ov m ticks y = [MoveTo (ov_yAxisPosX ov - tick_px env config ''Left'') y, LineTo (right_end env config ov m ticks) y]"

definition y_axis_path :: "layout_env \<Rightarrow> obj \<Rightarrow> othervars \<Rightarrow> measures \<Rightarrow> canvas_op list" where
  "y_axis_path env config ov m =
     [MoveTo (ov_yAxisPosX ov) (ov_xAxisPosY ov + tick_px env config ''Bottom''),
      LineTo (ov_yAxisPosX ov) (ov_xAxisPosY ov - m_availableHeight m - tick_px env config ''Top'')]"

section \<open>The scale of a line chart\<close>

text \<open>The height of a horizontal axis; the variable keeps its value when the position is none of these, or when it is
  zero and zero is not on the chart.\<close>

definition scale_line_pos :: "layout_env \<Rightarrow> obj \<Rightarrow> othervars \<Rightarrow> measures \<Rightarrow> jsval \<Rightarrow> jsnum \<Rightarrow> jsnum" where
  "scale_line_pos env config ov m position y =
     (if position = Str ''bottom'' then ov_xAxisPosY ov
      else if position = Str ''top'' then ov_xAxisPosY ov - m_availableHeight m - tick_px env config ''Top''
      else if position = Str ''0'' \<or> position = NumF 0 then (if \<not> num_eq (ov_zeroY ov) 0 then ov_xAxisPosY ov - ov_zeroY ov else y)
      else y)"

fun scale_lines :: "layout_env \<Rightarrow> obj \<Rightarrow> othervars \<Rightarrow> measures \<Rightarrow> jsval list \<Rightarrow> jsnum \<Rightarrow> js_error + canvas_op list" where
  "scale_lines env config ov m [] y = Inr []"
| "scale_lines env config ov m (l # ls) y =
     and_then (jget l ''lineWidth'') (\<lambda>width. and_then (jget l ''lineColor'') (\<lambda>color. and_then (jget l ''position'') (\<lambda>position.
       (let y' = scale_line_pos env config ov m position y
        in and_then (scale_lines env config ov m ls y') (\<lambda>rest.
           Inr ([LineWidth (if to_bool width then to_number width else line_px env config ''scaleLineWidth''),
                 StrokeStyle (if to_bool color then color else oget config ''scaleLineColor''), BeginPath]
                @ x_axis_path env config ov m True y' @ [dash_of env config ''scaleLineStyle'', Stroke, LineDash []] @ rest))))))"

definition x_scale_lines :: "layout_env \<Rightarrow> obj \<Rightarrow> othervars \<Rightarrow> measures \<Rightarrow> js_error + canvas_op list" where
  "x_scale_lines env config ov m =
     (if oget config ''drawXScaleLine'' = Bool False then Inr []
      else and_then (elements (oget config ''drawXScaleLine'')) (\<lambda>ls. scale_lines env config ov m ls NaN))"

definition dashed :: "canvas_op \<Rightarrow> canvas_op list \<Rightarrow> canvas_op list" where
  "dashed dash ops = ops @ [dash, Stroke, LineDash []]"

definition drawScale_Line :: "layout_env \<Rightarrow> obj \<Rightarrow> othervars \<Rightarrow> measures \<Rightarrow> nat \<Rightarrow> (js_error + canvas_op list) option" where
  "drawScale_Line env config ov m labels =
     (case x_scale_lines env config ov m of
        Inl e \<Rightarrow> Some (Inl e)
      | Inr xs \<Rightarrow>
          map_option (\<lambda>js. Inr (xs
              @ concat (map (\<lambda>i. dashed (dash_of env config ''scaleGridLineStyle'') (x_grid_line env config ov m (int i))) [0..<labels])
              @ dashed (dash_of env config ''scaleLineStyle'') (axis_pen env config @ [BeginPath] @ y_axis_path env config ov m)
              @ concat (map (\<lambda>j. dashed (dash_of env config ''scaleGridLineStyle'') (y_grid_line env config ov m True j)) js)))
            (loop_range 0 (s_steps (ov_scale ov))))"

section \<open>The scales of the bar charts\<close>

text \<open>The two axes are drawn with the same calls; the grids differ.\<close>

definition bar_axis :: "layout_env \<Rightarrow> obj \<Rightarrow> canvas_op list \<Rightarrow> canvas_op list" where
  "bar_axis env config path = axis_pen env config @ [dash_of env config ''scaleLineStyle'', BeginPath] @ path @ [Stroke, LineDash []]"

definition bar_scale :: "layout_env \<Rightarrow> obj \<Rightarrow> othervars \<Rightarrow> measures \<Rightarrow> nat \<Rightarrow> int \<Rightarrow> canvas_op list option" where
  "bar_scale env config ov m labels from =
     map_option (\<lambda>js.
       bar_axis env config (x_axis_path env config ov m True (ov_xAxisPosY ov))
       @ [dash_of env config ''scaleGridLineStyle''] @ concat (map (\<lambda>i. x_grid_line env config ov m (int i) @ [Stroke]) [0..<labels]) @ [LineDash []]
       @ bar_axis env config (y_axis_path env config ov m)
       @ [dash_of env config ''scaleGridLineStyle''] @ concat (map (\<lambda>j. y_grid_line env config ov m True j @ [Stroke]) js) @ [LineDash []])
     (loop_range from (s_steps (ov_scale ov)))"

definition drawScale_StackedBar :: "layout_env \<Rightarrow> obj \<Rightarrow> othervars \<Rightarrow> measures \<Rightarrow> nat \<Rightarrow> canvas_op list option" where
  "drawScale_StackedBar env config ov m labels = bar_scale env config ov m labels (first_step config)"

definition drawScale_Bar :: "layout_env \<Rightarrow> obj \<Rightarrow> othervars \<Rightarrow> measures \<Rightarrow> nat \<Rightarrow> canvas_op list option" where
  "drawScale_Bar env config ov m labels = bar_scale env config ov m labels 0"

text \<open>The horizontal charts; the stacked one ends the dashes within the loop, so that only its first line is dashed.\<close>

definition horizontal_scale :: "layout_env \<Rightarrow> obj \<Rightarrow> othervars \<Rightarrow> measures \<Rightarrow> nat \<Rightarrow> bool \<Rightarrow> canvas_op list option" where
  "horizontal_scale env config ov m labels stacked =
     map_option (\<lambda>is.
       bar_axis env config (x_axis_path env config ov m (\<not> stacked) (ov_xAxisPosY ov))
       @ [dash_of env config ''scaleGridLineStyle'']
       @ concat (map (\<lambda>i. (if i \<ge> 0 then x_grid_line env config ov m i @ [Stroke] else []) @ (if stacked then [LineDash []] else [])) is)
       @ (if stacked then [] else [LineDash []])
       @ bar_axis env config (y_axis_path env config ov m)
       @ [dash_of env config ''scaleGridLineStyle''] @ concat (map (\<lambda>j. y_grid_line env config ov m (\<not> stacked) (int j) @ [Stroke]) [0..<labels]) @ [LineDash []])
     (loop_range (first_step config) (s_steps (ov_scale ov)))"

definition drawScale_HorizontalStackedBar :: "layout_env \<Rightarrow> obj \<Rightarrow> othervars \<Rightarrow> measures \<Rightarrow> nat \<Rightarrow> canvas_op list option" where
  "drawScale_HorizontalStackedBar env config ov m labels = horizontal_scale env config ov m labels True"

definition drawScale_HorizontalBar :: "layout_env \<Rightarrow> obj \<Rightarrow> othervars \<Rightarrow> measures \<Rightarrow> nat \<Rightarrow> canvas_op list option" where
  "drawScale_HorizontalBar env config ov m labels = horizontal_scale env config ov m labels False"

section \<open>Labels\<close>

definition label_size :: "layout_env \<Rightarrow> obj \<Rightarrow> jsnum" where
  "label_size env config = text_px env config ''scaleFontSize''"

text \<open>The labels below the chart can be turned; the state that is saved here is not restored.\<close>

definition x_label_style :: "obj \<Rightarrow> measures \<Rightarrow> canvas_op list" where
  "x_label_style config m =
     [TextBaseline ''top'']
     @ (if m_rotateLabels m > Fin 90 then [Save, TextAlign ''left''] else if m_rotateLabels m > 0 then [Save, TextAlign ''right''] else [TextAlign ''center''])
     @ [FillStyle (oget config ''scaleFontColor'')]"

definition x_label :: "layout_env \<Rightarrow> obj \<Rightarrow> measures \<Rightarrow> string \<Rightarrow> jsnum \<Rightarrow> canvas_op list" where
  "x_label env config m text x =
     Save
     # (if m_rotateLabels m > 0
        then [Translate (x - ls_highestX (m_labels m) / 2) (m_xLabelPos m), Rotate (- (m_rotateLabels m * (PI / Fin 180)))]
             @ fillTextMultiLine text 0 0 ''top'' (label_size env config) True
        else fillTextMultiLine text x (m_xLabelPos m) ''top'' (label_size env config) True)
     @ [Restore]"

definition x_labels :: "layout_env \<Rightarrow> obj \<Rightarrow> measures \<Rightarrow> (string \<times> jsnum) list \<Rightarrow> canvas_op list" where
  "x_labels env config m ls =
     (if to_bool (oget config ''xAxisTop'') \<or> to_bool (oget config ''xAxisBottom'')
      then x_label_style config m @ (if to_bool (oget config ''xAxisBottom'') then concat (map (\<lambda>(text, x). x_label env config m text x) ls) else [])
      else [])"

text \<open>\<open>fmtChartJS(config, data.labels[i], config.fmtXLabel)\<close> as a text, and \<open>calculatedScale.labels[k]\<close>.\<close>

definition shown_label :: "layout_env \<Rightarrow> obj \<Rightarrow> jsval \<Rightarrow> string" where
  "shown_label env config v = to_string (ly_numstr env) (fmtChartJS (ly_numstr env) (ly_perso env) config v (oget config ''fmtXLabel''))"

definition label_of :: "scale \<Rightarrow> int \<Rightarrow> string" where
  "label_of sc k = (if 0 \<le> k \<and> nat k < length (s_labels sc) then s_labels sc ! nat k else ''undefined'')"

text \<open>A label beside an axis.\<close>

definition left_label :: "layout_env \<Rightarrow> obj \<Rightarrow> othervars \<Rightarrow> string \<Rightarrow> jsnum \<Rightarrow> canvas_op list" where
  "left_label env config ov text y =
     TextAlign ''right''
     # fillTextMultiLine text (ov_yAxisPosX ov - (tick_px env config ''Left'' + space_px env config ''yAxisSpaceRight'')) y ''middle'' (label_size env config) True"

definition right_label :: "layout_env \<Rightarrow> obj \<Rightarrow> othervars \<Rightarrow> measures \<Rightarrow> string \<Rightarrow> jsnum \<Rightarrow> canvas_op list" where
  "right_label env config ov m text y =
     TextAlign ''left''
     # fillTextMultiLine text (ov_yAxisPosX ov + m_availableWidth m + (tick_px env config ''Right'' + space_px env config ''yAxisSpaceRight'')) y ''middle''
         (label_size env config) True"

definition both_labels :: "layout_env \<Rightarrow> obj \<Rightarrow> othervars \<Rightarrow> measures \<Rightarrow> bool \<Rightarrow> string \<Rightarrow> jsnum \<Rightarrow> canvas_op list" where
  "both_labels env config ov m right text y =
     (if to_bool (oget config ''yAxisLeft'') then left_label env config ov text y else []) @ (if right then right_label env config ov m text y else [])"

text \<open>The labels of the scale beside a vertical axis.\<close>

definition y_labels :: "layout_env \<Rightarrow> obj \<Rightarrow> othervars \<Rightarrow> measures \<Rightarrow> bool \<Rightarrow> int list \<Rightarrow> canvas_op list" where
  "y_labels env config ov m right js =
     concat (map (\<lambda>j. if to_bool (oget config ''scaleShowLabels'')
                       then both_labels env config ov m right (label_of (ov_scale ov) (j + 1)) (ov_xAxisPosY ov - Fin (of_int (j + 1)) * ov_scaleHop ov) else []) js)"

definition y_labels2 :: "layout_env \<Rightarrow> obj \<Rightarrow> othervars \<Rightarrow> measures \<Rightarrow> int list \<Rightarrow> canvas_op list" where
  "y_labels2 env config ov m js =
     concat (map (\<lambda>j. if to_bool (oget config ''scaleShowLabels'')
                       then right_label env config ov m (label_of (ov_scale2 ov) (j + 1)) (ov_xAxisPosY ov - Fin (of_int (j + 1)) * ov_scaleHop2 ov) else []) js)"

definition vertical_labels :: "layout_env \<Rightarrow> obj \<Rightarrow> othervars \<Rightarrow> measures \<Rightarrow> bool \<Rightarrow> (string \<times> jsnum) list \<Rightarrow> canvas_op list option" where
  "vertical_labels env config ov m two ls =
     (let right = to_bool (oget config ''yAxisRight'')
      in Option.bind (loop_range (first_step config) (s_steps (ov_scale ov))) (\<lambda>js.
         Option.bind (if right \<and> two then loop_range (first_step config) (s_steps (ov_scale2 ov)) else Some []) (\<lambda>js2.
           Some ([Font (font_of env config ''scale'')] @ x_labels env config m ls @ [TextAlign ''right'', TextBaseline ''middle'']
                 @ y_labels env config ov m (right \<and> \<not> two) js @ y_labels2 env config ov m js2))))"

definition drawLabels_Line :: "layout_env \<Rightarrow> obj \<Rightarrow> othervars \<Rightarrow> measures \<Rightarrow> bool \<Rightarrow> jsval list \<Rightarrow> canvas_op list option" where
  "drawLabels_Line env config ov m two labels =
     vertical_labels env config ov m two
       (map (\<lambda>(i, l). (shown_label env config l, ov_yAxisPosX ov + Fin (of_nat i) * ov_valueHop ov)) (enumerate 0 labels))"

definition drawLabels_Bar :: "layout_env \<Rightarrow> obj \<Rightarrow> othervars \<Rightarrow> measures \<Rightarrow> bool \<Rightarrow> jsval list \<Rightarrow> canvas_op list option" where
  "drawLabels_Bar env config ov m two labels =
     vertical_labels env config ov m two
       (map (\<lambda>(i, l). (shown_label env config l, ov_yAxisPosX ov + Fin (of_nat i) * ov_valueHop ov + ov_valueHop ov / 2)) (enumerate 0 labels))"

definition drawLabels_StackedBar :: "layout_env \<Rightarrow> obj \<Rightarrow> othervars \<Rightarrow> measures \<Rightarrow> jsval list \<Rightarrow> canvas_op list option" where
  "drawLabels_StackedBar env config ov m labels =
     vertical_labels env config ov m False
       (map (\<lambda>(i, l). (shown_label env config l,
          ov_yAxisPosX ov + space_px env config ''barValueSpacing'' + Fin (of_nat i) * ov_valueHop ov + ov_barWidth ov / 2)) (enumerate 0 labels))"

text \<open>The horizontal charts: the scale is below, the labels of the data are beside the axis at the height \<open>y j\<close>.\<close>

definition horizontal_labels :: "layout_env \<Rightarrow> obj \<Rightarrow> othervars \<Rightarrow> measures \<Rightarrow> jsval list \<Rightarrow> (nat \<Rightarrow> jsnum) \<Rightarrow> canvas_op list option" where
  "horizontal_labels env config ov m labels y =
     map_option (\<lambda>is.
       [Font (font_of env config ''scale'')]
       @ (if to_bool (oget config ''scaleShowLabels'')
          then x_labels env config m (map (\<lambda>i. (label_of (ov_scale ov) (i + 1), ov_yAxisPosX ov + Fin (of_int (i + 1)) * ov_valueHop ov)) is) else [])
       @ [TextAlign ''right'', TextBaseline ''middle'']
       @ concat (map (\<lambda>(j, l). both_labels env config ov m (to_bool (oget config ''yAxisRight'')) (shown_label env config l) (y j)) (enumerate 0 labels)))
     (if to_bool (oget config ''scaleShowLabels'') \<and> to_bool (oget config ''xAxisBottom'') then loop_range (first_step config) (s_steps (ov_scale ov)) else Some [])"

definition drawLabels_HorizontalStackedBar :: "layout_env \<Rightarrow> obj \<Rightarrow> othervars \<Rightarrow> measures \<Rightarrow> jsval list \<Rightarrow> canvas_op list option" where
  "drawLabels_HorizontalStackedBar env config ov m labels =
     horizontal_labels env config ov m labels (\<lambda>j. ov_xAxisPosY ov - Fin (of_nat (j + 1)) * ov_scaleHop ov + ov_barWidth ov / 2)"

definition drawLabels_HorizontalBar :: "layout_env \<Rightarrow> obj \<Rightarrow> othervars \<Rightarrow> measures \<Rightarrow> jsval list \<Rightarrow> canvas_op list option" where
  "drawLabels_HorizontalBar env config ov m labels =
     horizontal_labels env config ov m labels (\<lambda>j. ov_xAxisPosY ov - Fin (of_nat j) * ov_scaleHop ov - ov_scaleHop ov / 2)"

section \<open>States that are saved and not restored\<close>

lemma balanced_concat: "(\<And>xs. xs \<in> set xss \<Longrightarrow> balanced xs) \<Longrightarrow> balanced (concat xss)"
  by (induction xss) (auto intro: balanced_append)

lemma nesting_balanced: "balanced xs \<Longrightarrow> nesting n (xs @ ys) = nesting n ys"
  using nesting_shift [of 0 xs 0 n] by (simp add: balanced_def nesting_append)

lemma x_label_framed: "\<exists>ops. x_label env config m text x = Save # ops @ [Restore] \<and> balanced ops"
  by (intro exI [of _ "tl (butlast (x_label env config m text x))"]) (auto simp: x_label_def butlast_append balanced_Cons balanced_fillText)

lemma balanced_x_label: "balanced (x_label env config m text x)"
  using x_label_framed [of env config m "text" x] balanced_frame by metis

lemma balanced_both_labels: "balanced (both_labels env config ov m right text y)"
  by (auto simp: both_labels_def left_label_def right_label_def balanced_Cons balanced_fillText intro!: balanced_append)

lemma balanced_right_label: "balanced (right_label env config ov m text y)"
  by (simp add: right_label_def balanced_Cons balanced_fillText)

lemma balanced_y_labels: "balanced (y_labels env config ov m right js)" "balanced (y_labels2 env config ov m js)"
  by (auto simp: y_labels_def y_labels2_def balanced_both_labels balanced_right_label intro!: balanced_concat)

definition x_axis_shown :: "obj \<Rightarrow> bool" where
  "x_axis_shown config = (to_bool (oget config ''xAxisTop'') \<or> to_bool (oget config ''xAxisBottom''))"

lemma nesting_x_labels:
  "nesting n (x_labels env config m ls @ ops) = nesting (n + (if x_axis_shown config \<and> m_rotateLabels m > 0 then 1 else 0)) ops"
proof -
  have "balanced (concat (map (\<lambda>(text, x). x_label env config m text x) ls))" by (auto intro!: balanced_concat balanced_x_label)
  note b = nesting_balanced [OF this]
  have "m_rotateLabels m > 0" if "m_rotateLabels m > Fin 90" using that by (cases "m_rotateLabels m") (simp_all add: zero_jsnum_def)
  then show ?thesis
    by (auto simp: x_labels_def x_axis_shown_def x_label_style_def b)
qed

lemma vertical_labels_nesting:
  assumes "vertical_labels env config ov m two ls = Some ops"
  shows "nesting 0 ops = Some (if x_axis_shown config \<and> m_rotateLabels m > 0 then 1 else 0)"
proof -
  obtain js js2 right where ops: "ops = [Font (font_of env config ''scale'')] @ x_labels env config m ls @ [TextAlign ''right'', TextBaseline ''middle'']
      @ y_labels env config ov m right js @ y_labels2 env config ov m js2"
    using assms by (auto simp: vertical_labels_def Let_def bind_eq_Some_conv)
  show ?thesis
    unfolding ops
    using nesting_balanced [OF balanced_y_labels(2), where ys = "[]"]
    by (simp add: nesting_x_labels nesting_balanced [OF balanced_y_labels(1)])
qed

text \<open>C35: Drawing the labels of a line chart leaves the stack of saved states as it was, except when the labels of the lower axis are turned, as
  both pages ask for: then one state stays on the stack at every drawing.\<close>

theorem turned_labels_leak:
  assumes "drawLabels_Line env config ov m two labels = Some ops"
  shows "\<exists>leaked. snd (run_canvas ops st) = leaked @ snd st \<and> length leaked = (if x_axis_shown config \<and> m_rotateLabels m > 0 then 1 else 0)"
proof -
  obtain s stack where st: "st = (s, stack)" by (cases st)
  have "nesting 0 ops = Some (if x_axis_shown config \<and> m_rotateLabels m > 0 then 1 else 0)"
    using assms unfolding drawLabels_Line_def by (rule vertical_labels_nesting)
  from html_canvas.keeps_stack [OF this, of "[]" s stack] show ?thesis unfolding st run_canvas_def by auto
qed

text \<open>A chart with two labels that are turned by 60 degrees.\<close>

definition turned_config :: obj where
  "turned_config = [(''xAxisBottom'', Bool True), (''scaleFontSize'', NumF 10)]"

definition two_steps :: othervars where
  "two_steps =
     \<lparr> ov_midPosX = NaN, ov_midPosY = NaN, ov_int_radius = NaN, ov_ext_radius = NaN, ov_maxSize = NaN, ov_xAxisPosY = Fin 200, ov_yAxisPosX = Fin 50,
       ov_valueHop = Fin 100, ov_nbValueHop = Fin 1, ov_barWidth = NaN, ov_availableHeight = Fin 160,
       ov_scale = \<lparr> s_steps = Fin 2, s_stepValue = Fin 5, s_graphMin = Fin 10, s_labels = [''10'', ''15'', ''20''], s_maxValue = Fin 20 \<rparr>,
       ov_scaleHop = Fin 80, ov_zeroY = Fin 0, ov_logarithmic = Bool False, ov_scale2 = no_scale, ov_scaleHop2 = NaN, ov_zeroY2 = Fin 0, ov_logarithmic2 = Bool False \<rparr>"

theorem turned_labels_leak_witness:
  "\<exists>ops leaked. drawLabels_Line note_env turned_config two_steps ((plain_measures (Fin 160) (Fin 100))\<lparr> m_rotateLabels := Fin 60 \<rparr>) False [Str ''a'', Str ''b''] = Some ops
     \<and> snd (run_canvas ops (blank_canvas, [])) = leaked \<and> length leaked = 1"
proof -
  let ?m = "(plain_measures (Fin 160) (Fin 100))\<lparr> m_rotateLabels := Fin 60 \<rparr>"
  obtain ops where ops: "drawLabels_Line note_env turned_config two_steps ?m False [Str ''a'', Str ''b''] = Some ops"
    by (simp add: drawLabels_Line_def vertical_labels_def Let_def loop_range_def two_steps_def turned_config_def)
  have "x_axis_shown turned_config \<and> m_rotateLabels ?m > 0" by (simp add: x_axis_shown_def turned_config_def zero_jsnum_def)
  with turned_labels_leak [OF ops, of "(blank_canvas, [])"] ops show ?thesis by auto
qed

section \<open>Where the labels of the scale stand\<close>

text \<open>Calls that move neither the origin nor its angle, in a context whose saved states are those it started with.\<close>

fun moves :: "canvas_op \<Rightarrow> bool" where
  "moves Save = True" | "moves Restore = True" | "moves (Translate _ _) = True" | "moves (Rotate _) = True"
| "moves _ = False"

lemma still_origin: "at_origin st \<Longrightarrow> \<not> moves op \<Longrightarrow> at_origin (canvas_step op st)"
  by (cases op; cases st) (simp_all add: at_origin_def)

lemma still_run: "at_origin st \<Longrightarrow> list_all (\<lambda>op. \<not> moves op) ops \<Longrightarrow> at_origin (run_canvas ops st)"
  by (induction ops arbitrary: st) (simp_all add: run_canvas_def still_origin)

lemma traceless_axis_label: "leaves_no_trace (x_label env config m text x)"
  using x_label_framed [of env config m "text" x] traceless_frame by metis

lemma traceless_concat: "(\<And>xs. xs \<in> set xss \<Longrightarrow> leaves_no_trace xs) \<Longrightarrow> leaves_no_trace (concat xss)"
  by (induction xss) (auto intro: traceless_append)

lemma origin_x_labels:
  assumes "at_origin st"
  shows "at_origin (run_canvas (x_labels env config m ls) st)"
proof -
  have "leaves_no_trace (concat (map (\<lambda>(text, x). x_label env config m text x) ls))" by (auto intro!: traceless_concat traceless_axis_label)
  then have "run_canvas (concat (map (\<lambda>(text, x). x_label env config m text x) ls)) s = s" for s unfolding leaves_no_trace_def by blast
  moreover have "at_origin (run_canvas (x_label_style config m) st)"
    using assms by (cases st) (simp add: run_canvas_def x_label_style_def at_origin_def)
  ultimately show ?thesis using assms by (simp add: x_labels_def run_canvas_def)
qed

lemma still_fill: "list_all (\<lambda>op. \<not> moves op) (fill_lines ls x y h)"
  by (induction ls arbitrary: y) simp_all

lemma still_labels:
  "list_all (\<lambda>op. \<not> moves op) (left_label env config ov text y)" "list_all (\<lambda>op. \<not> moves op) (right_label env config ov m text y)"
  by (simp_all add: left_label_def right_label_def fillTextMultiLine_def Let_def still_fill)

lemma still_y_labels: "list_all (\<lambda>op. \<not> moves op) (y_labels env config ov m right js)"
  by (induction js) (simp_all add: y_labels_def both_labels_def still_labels)

lemma text_inside:
  assumes "at_origin (run_canvas pre st)" "FillText t (Fin x) (Fin y) = op"
  shows "(t, Fin x, Fin y) \<in> set (texts_of (pre @ op # post) st)"
  using assms(1) unfolding texts_of_append assms(2) [symmetric] by (simp add: placed_def at_origin_def)



end
