(* ===== verification/BarCharts.thy ===== *)
theory BarCharts
  imports BarPainting AxisPainting
begin

text \<open>
  The constructors \<open>StackedBar\<close>, \<open>HorizontalStackedBar\<close>, \<open>Bar\<close> and \<open>HorizontalBar\<close> from the data to the positions of the
  bars: the kind of the scale, the bounds, the scale, the measures and the width of a bar.  What they take from outside is the
  record \<open>chart_env\<close> of the line chart.  A result of \<open>None\<close> is a scale that is never found, \<open>Inr None\<close> a chart
  without room, which is tested for redrawing.
\<close>

section \<open>Layout and scale\<close>

text \<open>\<open>setMeasures(data, config, ctx, height, width, ylabels, ylabels2, true, reverseAxis, true, ...)\<close>\<close>

definition bar_layout :: "chart_env \<Rightarrow> obj \<Rightarrow> jsval list \<Rightarrow> obj list \<Rightarrow> bool \<Rightarrow> jsval \<Rightarrow> jsval \<Rightarrow> js_error + measures" where
  "bar_layout env config labels datasets reverseAxis ylabels ylabels2 =
     map_sum id (snd \<circ> snd) (setMeasures (layout_of env) config labels datasets (ce_height env) (ce_width env) ylabels ylabels2 reverseAxis True)"

text \<open>\<open>for (var i = 0; i <= calculatedScale.steps; i++)\<close>\<close>

definition step_indices :: "jsnum \<Rightarrow> nat list option" where
  "step_indices steps = (case steps of Fin r \<Rightarrow> Some [0..<nat (\<lfloor>r\<rfloor> + 1)] | PInf \<Rightarrow> None | _ \<Rightarrow> Some [])"

text \<open>The overridden scale of the stacked charts, which format their labels themselves.\<close>

definition stacked_override :: "chart_env \<Rightarrow> obj \<Rightarrow> jsval \<Rightarrow> (js_error + scale) option" where
  "stacked_override env config labelTemplateString =
     (let pe = ce_paint env; ns = pe_numstr pe;
          opt = (\<lambda>ref key. setOptionValue (pe_call pe) 1 ref Undef (oget config key) (- 1) (- 1));
          show = (\<lambda>v. ce_tmpl env (to_string ns labelTemplateString) (fmtChartJS ns (ce_perso env) config (Num v) (oget config ''fmtYLabel'')))
      in case (opt ''SCALESTARTVALUE'' ''scaleStartValue'', opt ''SCALESTEPS'' ''scaleSteps'', opt ''SCALESTEPWIDTH'' ''scaleStepWidth'') of
           (Inr start, Inr steps, Inr width) \<Rightarrow>
             map_option
               (\<lambda>is. map_sum id (\<lambda>ls. \<lparr> s_steps = to_number steps, s_stepValue = to_number width, s_graphMin = to_number start, s_labels = ls, s_maxValue = NaN \<rparr>)
                  (if to_bool labelTemplateString
                   then collect (\<lambda>i. map_sum id show (fixed_label ns (to_number start + to_number width * Fin (of_nat i)) (to_number width))) is
                   else Inr []))
               (step_indices (to_number steps))
         | _ \<Rightarrow> Some (Inl TypeError))"

definition computed_scale :: "chart_env \<Rightarrow> obj \<Rightarrow> value_bounds \<Rightarrow> (js_error + scale) option" where
  "computed_scale env config vb =
     calculateScale (ce_lg env) (pe_numstr (ce_paint env)) (ce_perso env) (ce_tmpl env) 1 config (maxSteps vb) (minSteps vb) (vb_max vb) (vb_min vb)
       (label_template config [])"

definition with_no_scale2 :: "(js_error + scale) option \<Rightarrow> (js_error + scale \<times> scale) option" where
  "with_no_scale2 = map_option (map_sum id (\<lambda>s. (s, no_scale)))"

definition stacked_scale :: "chart_env \<Rightarrow> obj \<Rightarrow> value_bounds \<Rightarrow> (js_error + scale \<times> scale) option" where
  "stacked_scale env config vb =
     with_no_scale2
       (if \<not> to_bool (oget config ''scaleOverride'') then computed_scale env config vb
        else stacked_override env config (label_template config []))"

definition horizontal_bar_scale :: "chart_env \<Rightarrow> obj \<Rightarrow> value_bounds \<Rightarrow> (js_error + scale \<times> scale) option" where
  "horizontal_bar_scale env config vb =
     with_no_scale2
       (if \<not> to_bool (oget config ''scaleOverride'') then computed_scale env config vb
        else override_scale (pe_call (ce_paint env)) (pe_numstr (ce_paint env)) (ce_perso env) (ce_tmpl env) 1 [] config (label_template config []))"

text \<open>A bar chart chooses the scales of its two axes as a line chart does.\<close>

definition two_scales :: "chart_env \<Rightarrow> obj \<Rightarrow> value_bounds \<Rightarrow> (js_error + scale \<times> scale) option" where
  "two_scales env config vb =
     (let scale_of = (\<lambda>axis. line_scale (pe_call (ce_paint env)) (ce_lg env) (pe_numstr (ce_paint env)) (ce_perso env) (ce_tmpl env) axis vb config)
      in case scale_of 1 of
           None \<Rightarrow> None
         | Some (Inl e) \<Rightarrow> Some (Inl e)
         | Some (Inr None) \<Rightarrow> Some (Inl TypeError)
         | Some (Inr (Some s)) \<Rightarrow>
             (case scale_of 2 of
                None \<Rightarrow> None
              | Some (Inl e) \<Rightarrow> Some (Inl e)
              | Some (Inr None) \<Rightarrow> Some (Inl TypeError)
              | Some (Inr (Some s2)) \<Rightarrow> Some (Inr (s, s2))))"

section \<open>Measures\<close>

text \<open>A bar is at least one pixel wide.\<close>

definition snap_width :: "jsnum \<Rightarrow> jsnum" where
  "snap_width w = (let w1 = (if w \<ge> 0 \<and> w \<le> 1 then 1 else w) in if w1 < 0 \<and> w1 \<ge> - 1 then - 1 else w1)"

definition tick :: "ctx_scales \<Rightarrow> obj \<Rightarrow> string \<Rightarrow> jsnum" where
  "tick cs config side = scaled (sc_line cs) config (''scaleTickSize'' @ side)"

definition hop_of :: "obj \<Rightarrow> jsnum \<Rightarrow> jsnum \<Rightarrow> jsnum" where
  "hop_of config width n =
     (let hop = math_floor (width / n) in if num_eq hop 0 \<or> to_bool (oget config ''fullWidthGraph'') then width / n else hop)"

text \<open>The variables of a chart whose values are on the vertical axis; the fields that the constructors do not set are undefined.\<close>

definition column_measures :: "ctx_scales \<Rightarrow> obj \<Rightarrow> nat \<Rightarrow> scale \<Rightarrow> measures \<Rightarrow> measures \<times> othervars" where
  "column_measures cs config labels sc msr =
     (let prevHeight = m_availableHeight msr; n = Fin (of_nat labels);
          height = prevHeight - tick cs config ''Bottom'' - tick cs config ''Top''; width = m_availableWidth msr - tick cs config ''Left'' - tick cs config ''Right'';
          scaleHop = math_floor (height / s_steps sc); valueHop = hop_of config width n;
          availableHeight = s_steps sc * scaleHop; shift = tick cs config ''Bottom'' + tick cs config ''Top'' - (prevHeight - availableHeight)
      in (msr\<lparr> m_clrwidth := m_clrwidth msr - (width - n * valueHop), m_availableWidth := n * valueHop, m_availableHeight := availableHeight,
               m_xLabelPos := m_xLabelPos msr + shift, m_clrheight := m_clrheight msr + shift \<rparr>,
          \<lparr> ov_midPosX = NaN, ov_midPosY = NaN, ov_int_radius = NaN, ov_ext_radius = NaN, ov_maxSize = NaN,
            ov_xAxisPosY = m_topNotUsableSize msr + availableHeight + tick cs config ''Top'', ov_yAxisPosX = m_leftNotUsableSize msr + tick cs config ''Left'',
            ov_valueHop = valueHop, ov_nbValueHop = NaN, ov_barWidth = NaN, ov_availableHeight = availableHeight,
            ov_scale = sc, ov_scaleHop = scaleHop, ov_zeroY = NaN, ov_logarithmic = Undef,
            ov_scale2 = no_scale, ov_scaleHop2 = NaN, ov_zeroY2 = NaN, ov_logarithmic2 = Undef \<rparr>))"

text \<open>The same with the values on the horizontal axis.\<close>

definition row_measures :: "ctx_scales \<Rightarrow> obj \<Rightarrow> nat \<Rightarrow> scale \<Rightarrow> measures \<Rightarrow> measures \<times> othervars" where
  "row_measures cs config labels sc msr =
     (let height = m_availableHeight msr - tick cs config ''Bottom'' - tick cs config ''Top''; width = m_availableWidth msr - tick cs config ''Left'' - tick cs config ''Right'';
          n = Fin (of_nat labels); scaleHop = math_floor (height / n); valueHop = hop_of config width (s_steps sc);
          availableHeight = n * scaleHop
      in (msr\<lparr> m_clrwidth := m_clrwidth msr - (width - s_steps sc * valueHop), m_availableWidth := s_steps sc * valueHop, m_availableHeight := availableHeight \<rparr>,
          \<lparr> ov_midPosX = NaN, ov_midPosY = NaN, ov_int_radius = NaN, ov_ext_radius = NaN, ov_maxSize = NaN,
            ov_xAxisPosY = m_topNotUsableSize msr + availableHeight + tick cs config ''Top'', ov_yAxisPosX = m_leftNotUsableSize msr + tick cs config ''Left'',
            ov_valueHop = valueHop, ov_nbValueHop = NaN, ov_barWidth = NaN, ov_availableHeight = availableHeight,
            ov_scale = sc, ov_scaleHop = scaleHop, ov_zeroY = NaN, ov_logarithmic = Undef,
            ov_scale2 = no_scale, ov_scaleHop2 = NaN, ov_zeroY2 = NaN, ov_logarithmic2 = Undef \<rparr>))"

text \<open>The widths of the bars.\<close>

definition around_bars :: "ctx_scales \<Rightarrow> obj \<Rightarrow> jsnum \<Rightarrow> jsnum" where
  "around_bars cs config hop = hop - scaled (sc_line cs) config ''scaleGridLineWidth'' * 2 - scaled (sc_space cs) config ''barValueSpacing'' * 2"

definition stacked_width :: "ctx_scales \<Rightarrow> obj \<Rightarrow> jsnum \<Rightarrow> jsnum" where
  "stacked_width cs config valueHop = snap_width (around_bars cs config valueHop - scaled (sc_line cs) config ''barStrokeWidth'' / 2 - 1)"

definition horizontal_stacked_width :: "ctx_scales \<Rightarrow> obj \<Rightarrow> nat \<Rightarrow> jsnum \<Rightarrow> jsnum" where
  "horizontal_stacked_width cs config n scaleHop =
     snap_width (around_bars cs config scaleHop - (scaled (sc_space cs) config ''barDatasetSpacing'' * Fin (of_nat n) - 1)
       - scaled (sc_line cs) config ''barStrokeWidth'' / 2 - 1)"

definition shared_width :: "ctx_scales \<Rightarrow> obj \<Rightarrow> nat \<Rightarrow> jsnum \<Rightarrow> jsnum" where
  "shared_width cs config n hop =
     snap_width ((around_bars cs config hop - (scaled (sc_space cs) config ''barDatasetSpacing'' * Fin (of_nat n) - 1)
       - (scaled (sc_line cs) config ''barStrokeWidth'' / 2 * Fin (of_nat n) - 1)) / Fin (of_nat n))"

definition stacked_measures :: "ctx_scales \<Rightarrow> obj \<Rightarrow> nat \<Rightarrow> scale \<Rightarrow> measures \<Rightarrow> measures \<times> othervars" where
  "stacked_measures cs config labels sc msr =
     map_prod id (\<lambda>ov. ov\<lparr> ov_barWidth := stacked_width cs config (ov_valueHop ov) \<rparr>) (column_measures cs config labels sc msr)"

text \<open>The zero of the horizontal stacked chart is computed with the height of a row in the place of the width of a step.\<close>

definition horizontal_stacked_measures :: "ctx_scales \<Rightarrow> obj \<Rightarrow> nat \<Rightarrow> nat \<Rightarrow> scale \<Rightarrow> measures \<Rightarrow> measures \<times> othervars" where
  "horizontal_stacked_measures cs config labels n sc msr =
     map_prod id (\<lambda>ov. ov\<lparr> ov_barWidth := horizontal_stacked_width cs config n (ov_scaleHop ov), ov_zeroY := HorizontalCalculateOffset 0 sc (ov_scaleHop ov) \<rparr>)
       (row_measures cs config labels sc msr)"

definition bar_measures :: "(jsnum \<Rightarrow> jsnum) \<Rightarrow> ctx_scales \<Rightarrow> obj \<Rightarrow> nat \<Rightarrow> nat \<Rightarrow> value_bounds \<Rightarrow> scale \<Rightarrow> scale \<Rightarrow> measures \<Rightarrow> measures \<times> othervars" where
  "bar_measures lg cs config labels nrOfBars vb sc sc2 msr =
     (let height = m_availableHeight msr - tick cs config ''Bottom'' - tick cs config ''Top''; scaleHop2 = math_floor (height / s_steps sc2)
      in map_prod id
           (\<lambda>ov. ov\<lparr> ov_barWidth := shared_width cs config nrOfBars (ov_valueHop ov),
                 ov_zeroY := (if vb_min vb < 0 then calculateOffset lg (oget config ''logarithmic'') 0 sc (ov_scaleHop ov) else 0),
                 ov_scale2 := sc2, ov_scaleHop2 := scaleHop2,
                 ov_zeroY2 := (if vb_min2 vb < 0 then calculateOffset lg (oget config ''logarithmic2'') 0 sc2 scaleHop2 else 0) \<rparr>)
           (column_measures cs config labels sc msr))"

definition horizontal_bar_measures :: "(jsnum \<Rightarrow> jsnum) \<Rightarrow> ctx_scales \<Rightarrow> obj \<Rightarrow> nat \<Rightarrow> nat \<Rightarrow> value_bounds \<Rightarrow> scale \<Rightarrow> measures \<Rightarrow> measures \<times> othervars" where
  "horizontal_bar_measures lg cs config labels n vb sc msr =
     map_prod id
       (\<lambda>ov. ov\<lparr> ov_barWidth := shared_width cs config n (ov_scaleHop ov),
             ov_zeroY := (if vb_min vb < 0 then calculateOffset lg (oget config ''logarithmic'') 0 sc (ov_valueHop ov) else 0) \<rparr>)
       (row_measures cs config labels sc msr)"

section \<open>The constructors\<close>

text \<open>What the frames are painted from.\<close>

record bar_chart =
  bc_config :: obj
  bc_labels :: "jsval list"
  bc_datasets :: "obj list"
  bc_statData :: "nat \<Rightarrow> nat \<Rightarrow> obj"
  bc_bounds :: value_bounds
  bc_measures :: measures
  bc_vars :: othervars

text \<open>
  What the four constructors share after \<open>initPassVariableData_part1\<close>: a first layout without the labels of the scale, the
  bounds, a test for room, the scale, the layout with its labels, the measures, \<open>initPassVariableData_part2\<close>.
\<close>

definition setup_bars ::
  "chart_env \<Rightarrow> string \<Rightarrow> bool \<Rightarrow> (obj \<Rightarrow> jsnum \<Rightarrow> value_bounds) \<Rightarrow> (value_bounds \<Rightarrow> obj \<Rightarrow> obj)
     \<Rightarrow> (chart_env \<Rightarrow> obj \<Rightarrow> value_bounds \<Rightarrow> (js_error + scale \<times> scale) option) \<Rightarrow> (obj \<Rightarrow> value_bounds \<Rightarrow> scale \<Rightarrow> scale \<Rightarrow> measures \<Rightarrow> measures \<times> othervars)
     \<Rightarrow> obj \<Rightarrow> obj \<Rightarrow> jsval list \<Rightarrow> obj list \<Rightarrow> (nat \<Rightarrow> nat \<Rightarrow> obj) \<Rightarrow> (js_error + bar_chart option) option" where
  "setup_bars env tp reverseAxis bounds adjust scales measured config data labels datasets statData =
     (case bar_layout env config labels datasets reverseAxis (Str ''nihil'') (Arr [Str []]) of
        Inl e \<Rightarrow> Some (Inl e)
      | Inr msr \<Rightarrow>
          (let vb = bounds config (m_availableHeight msr); config' = adjust vb config
           in if \<not> (maxSteps vb > 0 \<and> minSteps vb > 0) then Some (Inr None)
              else (case scales env config' vb of
                      None \<Rightarrow> None
                    | Some (Inl e) \<Rightarrow> Some (Inl e)
                    | Some (Inr (sc, sc2)) \<Rightarrow>
                        (case bar_layout env config' labels datasets reverseAxis (fst (scale_labels vb sc sc2)) (snd (scale_labels vb sc sc2)) of
                           Inl e \<Rightarrow> Some (Inl e)
                         | Inr msr2 \<Rightarrow>
                             (let (msr3, ov) = measured config' vb sc sc2 msr2
                              in Some (Inr (Some
                                   \<lparr> bc_config = config', bc_labels = labels, bc_datasets = datasets,
                                     bc_statData = initPassVariableData_part2_values (ce_lg env) config' tp data labels (pe_scales (ce_paint env)) ov datasets statData,
                                     bc_bounds = vb, bc_measures = msr3, bc_vars = ov \<rparr>)))))))"

definition setup_StackedBar :: "chart_env \<Rightarrow> obj \<Rightarrow> obj \<Rightarrow> jsval list \<Rightarrow> obj list \<Rightarrow> (js_error + bar_chart option) option" where
  "setup_StackedBar env config data labels datasets0 =
     (let (datasets, statData) = initPassVariableData_values (pe_numstr (ce_paint env)) (ce_perso env) config ''StackedBar'' labels datasets0
      in setup_bars env ''StackedBar'' False
           (\<lambda>cfg h. getValueBounds_StackedBar (ce_option env) cfg (ce_text env) h (map as_dataset datasets)) (\<lambda>vb cfg. cfg) stacked_scale
           (\<lambda>cfg vb sc sc2. stacked_measures (pe_scales (ce_paint env)) cfg (length labels) sc)
           (oset ''logarithmic'' (Bool False) config) data labels datasets statData)"

text \<open>The data are reversed in place, once per context; \<open>fresh\<close> says that this has not been done.\<close>

definition reverse_arrays :: "obj \<Rightarrow> obj" where
  "reverse_arrays = map (\<lambda>(k, v). (k, case v of Arr vs \<Rightarrow> Arr (rev vs) | _ \<Rightarrow> v))"

definition reverseData :: "jsval list \<times> obj list \<Rightarrow> jsval list \<times> obj list" where
  "reverseData = map_prod rev (map reverse_arrays)"

definition in_order :: "obj \<Rightarrow> bool \<Rightarrow> jsval list \<times> obj list \<Rightarrow> jsval list \<times> obj list" where
  "in_order config fresh d = (if to_bool (oget config ''reverseOrder'') \<and> fresh then reverseData d else d)"

definition setup_HorizontalStackedBar :: "chart_env \<Rightarrow> obj \<Rightarrow> bool \<Rightarrow> obj \<Rightarrow> jsval list \<Rightarrow> obj list \<Rightarrow> (js_error + bar_chart option) option" where
  "setup_HorizontalStackedBar env config fresh data labels0 datasets0 =
     (let (labels, datasets1) = in_order config fresh (labels0, datasets0);
          (datasets, statData) = initPassVariableData_values (pe_numstr (ce_paint env)) (ce_perso env) config ''HorizontalStackedBar'' labels datasets1
      in setup_bars env ''HorizontalStackedBar'' True
           (\<lambda>cfg h. getValueBounds_HorizontalStackedBar (ce_option env) cfg (ce_text env) h (map as_dataset datasets)) (\<lambda>vb cfg. cfg) stacked_scale
           (\<lambda>cfg vb sc sc2. horizontal_stacked_measures (pe_scales (ce_paint env)) cfg (length labels) (length datasets) sc)
           (oset ''logarithmic'' (Bool False) config) data labels datasets statData)"

definition is_line :: "obj \<Rightarrow> bool" where
  "is_line ds = loose_eq (oget ds ''type'') (Str ''Line'')"

definition count_bars :: "obj list \<Rightarrow> nat" where
  "count_bars datasets = length (filter (\<lambda>ds. \<not> is_line ds) datasets)"

text \<open>The first entry of every data set notes how it is drawn; the assignment raises when there is no entry.\<close>

definition mark_bars :: "obj list \<Rightarrow> (nat \<Rightarrow> nat \<Rightarrow> obj) \<Rightarrow> js_error + (nat \<Rightarrow> nat \<Rightarrow> obj)" where
  "mark_bars datasets statData =
     (if \<exists>ds \<in> set datasets. dvalues ds = [] then Inl TypeError
      else Inr (\<lambda>i j. if i < length datasets \<and> j = 0
                 then oset ''tpchart'' (Str (if is_line (datasets ! i) then ''Line'' else ''Bar'')) (statData i j) else statData i j))"

text \<open>A scale from zero or below is not logarithmic.\<close>

definition above_zero :: "value_bounds \<Rightarrow> obj \<Rightarrow> obj" where
  "above_zero vb config = (if vb_min vb \<le> 0 then oset ''logarithmic'' (Bool False) config else config)"

definition setup_Bar :: "chart_env \<Rightarrow> obj \<Rightarrow> obj \<Rightarrow> jsval list \<Rightarrow> obj list \<Rightarrow> (js_error + bar_chart option) option" where
  "setup_Bar env config data labels datasets0 =
     (let (datasets, stat) = initPassVariableData_values (pe_numstr (ce_paint env)) (ce_perso env) config ''Bar'' labels datasets0
      in case mark_bars datasets stat of
           Inl e \<Rightarrow> Some (Inl e)
         | Inr statData \<Rightarrow>
             setup_bars env ''Bar'' False
               (\<lambda>cfg h. getValueBounds_Bar (ce_option env) (ce_deviation env) cfg (ce_text env) h (map as_dataset datasets))
               (\<lambda>vb cfg. line_config (ce_lg env) vb (above_zero vb cfg)) two_scales
               (\<lambda>cfg vb sc sc2. bar_measures (ce_lg env) (pe_scales (ce_paint env)) cfg (length labels) (count_bars datasets) vb sc sc2)
               config data labels datasets statData)"

definition setup_HorizontalBar :: "chart_env \<Rightarrow> obj \<Rightarrow> bool \<Rightarrow> obj \<Rightarrow> jsval list \<Rightarrow> obj list \<Rightarrow> (js_error + bar_chart option) option" where
  "setup_HorizontalBar env config fresh data labels0 datasets0 =
     (let (labels, datasets1) = in_order config fresh (labels0, datasets0);
          (datasets, statData) = initPassVariableData_values (pe_numstr (ce_paint env)) (ce_perso env) config ''HorizontalBar'' labels datasets1
      in setup_bars env ''HorizontalBar'' True
           (\<lambda>cfg h. getValueBounds_HorizontalBar (ce_option env) cfg (ce_text env) h (map as_dataset datasets)) above_zero horizontal_bar_scale
           (\<lambda>cfg vb sc sc2. horizontal_bar_measures (ce_lg env) (pe_scales (ce_paint env)) cfg (length labels) (length datasets) vb sc)
           config data labels datasets statData)"

section \<open>What a chart that has been set up knows\<close>

lemma setup_barsE:
  assumes "setup_bars env tp reverseAxis bounds adjust scales measured config data labels datasets statData = Some (Inr (Some bc))"
  obtains vb sc sc2 msr where "bc_config bc = adjust vb config" "bc_labels bc = labels" "bc_datasets bc = datasets" "bc_bounds bc = vb"
    "scales env (bc_config bc) vb = Some (Inr (sc, sc2))"
    "bar_layout env (bc_config bc) labels datasets reverseAxis (fst (scale_labels vb sc sc2)) (snd (scale_labels vb sc sc2)) = Inr msr"
    "(bc_measures bc, bc_vars bc) = measured (bc_config bc) vb sc sc2 msr"
    "bc_statData bc = initPassVariableData_part2_values (ce_lg env) (bc_config bc) tp data labels (pe_scales (ce_paint env)) (bc_vars bc) datasets statData"
  using assms unfolding setup_bars_def Let_def
  by (auto split: sum.splits option.splits if_splits prod.splits)

lemma setup_bars_returns:
  assumes "bar_layout env config labels datasets reverseAxis (Str ''nihil'') (Arr [Str []]) = Inr msr" "vb = bounds config (m_availableHeight msr)"
    and "maxSteps vb > 0" "minSteps vb > 0" "config' = adjust vb config" "scales env config' vb = Some (Inr (sc, sc2))"
    and "bar_layout env config' labels datasets reverseAxis (fst (scale_labels vb sc sc2)) (snd (scale_labels vb sc sc2)) = Inr msr2"
  shows "\<exists>bc. setup_bars env tp reverseAxis bounds adjust scales measured config data labels datasets statData = Some (Inr (Some bc))
     \<and> bc_config bc = config' \<and> bc_vars bc = snd (measured config' vb sc sc2 msr2)"
  using assms by (simp add: setup_bars_def case_prod_unfold Let_def)

text \<open>The widths of bars.\<close>

lemma snap_width_cases:
  "snap_width (Fin w) = Fin (if 0 \<le> w \<and> w \<le> 1 then 1 else if - 1 \<le> w \<and> w < 0 then - 1 else w)"
  by (simp add: snap_width_def Let_def zero_jsnum_def one_jsnum_def)

text \<open>The options that a column is divided by, as sizes in pixels: the grid line, the space beside the bars, the space between
  the bars and the stroke.\<close>

definition bar_sizes :: "ctx_scales \<Rightarrow> obj \<Rightarrow> real \<Rightarrow> real \<Rightarrow> real \<Rightarrow> real \<Rightarrow> bool" where
  "bar_sizes cs config gl vs ds sw =
     (scaled (sc_line cs) config ''scaleGridLineWidth'' = Fin gl \<and> scaled (sc_space cs) config ''barValueSpacing'' = Fin vs
      \<and> scaled (sc_space cs) config ''barDatasetSpacing'' = Fin ds \<and> scaled (sc_line cs) config ''barStrokeWidth'' = Fin sw
      \<and> 0 \<le> gl \<and> 0 \<le> vs \<and> 0 \<le> ds \<and> 0 \<le> sw)"

lemma stacked_width_fits:
  assumes "bar_sizes cs config gl vs ds sw" "stacked_width cs config (Fin w) = Fin bw" "0 < bw"
  shows "vs + bw \<le> w" "0 \<le> vs"
  using assms unfolding bar_sizes_def by (auto simp: stacked_width_def around_bars_def snap_width_cases one_jsnum_def split: if_splits)

section \<open>A stacked bar chart from the data to the canvas\<close>

lemma setup_StackedBarE:
  assumes "setup_StackedBar env config data labels datasets = Some (Inr (Some bc))"
  obtains stat where
    "(bc_datasets bc, stat) = initPassVariableData_values (pe_numstr (ce_paint env)) (ce_perso env) config ''StackedBar'' labels datasets"
    "bc_config bc = oset ''logarithmic'' (Bool False) config"
    "bc_statData bc = initPassVariableData_part2_values (ce_lg env) (bc_config bc) ''StackedBar'' data labels (pe_scales (ce_paint env)) (bc_vars bc) (bc_datasets bc) stat"
    "ov_barWidth (bc_vars bc) = stacked_width (pe_scales (ce_paint env)) (bc_config bc) (ov_valueHop (bc_vars bc))"
proof -
  obtain dss stat where d: "initPassVariableData_values (pe_numstr (ce_paint env)) (ce_perso env) config ''StackedBar'' labels datasets = (dss, stat)"
    by (cases "initPassVariableData_values (pe_numstr (ce_paint env)) (ce_perso env) config ''StackedBar'' labels datasets")
  note s = assms [unfolded setup_StackedBar_def Let_def d prod.case]
  show thesis
  proof (rule setup_barsE [OF s])
    fix vb sc sc2 msr
    assume bc: "bc_config bc = oset ''logarithmic'' (Bool False) config" "bc_datasets bc = dss"
      and m: "(bc_measures bc, bc_vars bc) = stacked_measures (pe_scales (ce_paint env)) (bc_config bc) (length labels) sc msr"
      and st: "bc_statData bc = initPassVariableData_part2_values (ce_lg env) (bc_config bc) ''StackedBar'' data labels (pe_scales (ce_paint env)) (bc_vars bc) dss stat"
    have "bc_vars bc = snd (stacked_measures (pe_scales (ce_paint env)) (bc_config bc) (length labels) sc msr)" by (metis m snd_conv)
    then have "ov_barWidth (bc_vars bc) = stacked_width (pe_scales (ce_paint env)) (bc_config bc) (ov_valueHop (bc_vars bc))"
      by (simp add: stacked_measures_def snd_map_prod)
    with bc st d that show thesis by simp
  qed
qed

text \<open>Columns every \<open>w\<close> pixels from \<open>x0\<close> on with bars of width \<open>bw\<close>, above \<open>y0\<close> a linear scale of \<open>n\<close> steps of \<open>s\<close> units and \<open>h\<close>
  pixels, from \<open>g\<close> on.\<close>

definition column_axes :: "othervars \<Rightarrow> real \<Rightarrow> real \<Rightarrow> real \<Rightarrow> real \<Rightarrow> real \<Rightarrow> real \<Rightarrow> real \<Rightarrow> real \<Rightarrow> bool" where
  "column_axes ov n s g h x0 w y0 bw =
     (ov_yAxisPosX ov = Fin x0 \<and> ov_valueHop ov = Fin w \<and> ov_xAxisPosY ov = Fin y0 \<and> ov_barWidth ov = Fin bw \<and> 0 < bw
      \<and> linear_axis (ov_scale ov) (Bool False) (ov_scaleHop ov) n s g h)"

text \<open>The height of a value above the lower end of the scale.\<close>

definition level_of :: "real \<Rightarrow> real \<Rightarrow> real \<Rightarrow> real \<Rightarrow> real \<Rightarrow> real" where
  "level_of n s g h x = min 1 (max 0 ((x - g) / (n * s))) * (n * h)"

lemma level_of:
  assumes "linear_axis sc logar hop n s g h"
  shows "calculateOffset lg logar (Fin x) sc hop = Fin (level_of n s g h x)" "mono (level_of n s g h)"
    "0 \<le> level_of n s g h x" "level_of n s g h x \<le> n * h" "g \<le> x \<Longrightarrow> x \<le> g + n * s \<Longrightarrow> level_of n s g h x = (x - g) / s * h"
proof -
  have p: "0 < n" "0 < s" "0 \<le> h" using assms by (simp_all add: linear_axis_def)
  show "calculateOffset lg logar (Fin x) sc hop = Fin (level_of n s g h x)"
  proof -
    define q where "q = (x - g) / (n * s)"
    have "calculateOffset lg logar (Fin x) sc hop = Fin (h * n * (if q > 1 then 1 else if q < 0 then 0 else q))"
      using assms by (simp add: linear_axis_def calculateOffset_def Let_def CapValue_Fin q_def)
    then show ?thesis unfolding level_of_def q_def [symmetric] by (simp add: min_def max_def)
  qed
  have "(x - g) / (n * s) \<le> (y - g) / (n * s)" if "x \<le> y" for x y using p that by (simp add: divide_right_mono)
  then show "mono (level_of n s g h)"
    unfolding level_of_def using p by (intro monoI mult_right_mono min.mono max.mono) simp_all
  show "0 \<le> level_of n s g h x" "level_of n s g h x \<le> n * h"
    unfolding level_of_def using p by (simp_all add: mult_left_le_one_le)
  show "level_of n s g h x = (x - g) / s * h" if "g \<le> x" "x \<le> g + n * s"
  proof -
    have "0 \<le> (x - g) / (n * s)" "(x - g) / (n * s) \<le> 1" using p that by (simp_all add: field_simps)
    with p show ?thesis by (simp add: level_of_def field_simps)
  qed
qed

text \<open>C12: From the data to the canvas: the last frame of a stacked bar chart is drawn, and the bar of every given value is a rectangle in the
  column of its position and between the ends of the scale; it stands on the earlier values of its sign, and when the stack is on the scale its
  height is in proportion to the value.\<close>

theorem stacked_chart_drawn:
  assumes "setup_StackedBar env config data labels datasets = Some (Inr (Some bc))" "\<forall>ds \<in> set datasets. finite_dataset ds"
    and "column_axes (bc_vars bc) n s g h x0 w y0 bw" "bar_sizes (pe_scales (ce_paint env)) (bc_config bc) gl vs dsp sw"
    and "\<not> scaled (sc_space (pe_scales (ce_paint env))) (bc_config bc) ''spaceBetweenBar'' > 0" "bar_styles_given (bc_config bc) (bc_datasets bc)"
  shows "\<exists>ops shapes. drawBars_StackedBar pe (bc_config bc) (bc_datasets bc) (bc_statData bc) (Fin 1) = Inr (ops, shapes)
     \<and> (\<forall>i j. given (bc_datasets bc) i j \<longrightarrow>
          (\<exists>l r b t. b = y0 - level_of n s g h (stack_base (bc_datasets bc) i j) \<and> t = y0 - level_of n s g h (stack_top (bc_datasets bc) i j)
            \<and> (b \<noteq> t \<longrightarrow> sublist (box_path l b r t) ops)
            \<and> x0 + w * real j \<le> l \<and> l < r \<and> r \<le> x0 + w * real (Suc j) \<and> y0 - n * h \<le> min b t \<and> max b t \<le> y0
            \<and> (g \<le> min (stack_base (bc_datasets bc) i j) (stack_top (bc_datasets bc) i j)
                \<and> max (stack_base (bc_datasets bc) i j) (stack_top (bc_datasets bc) i j) \<le> g + n * s
                \<longrightarrow> b - t = svalue j (bc_datasets bc ! i) / s * h)))"
proof -
  let ?cs = "pe_scales (ce_paint env)" and ?dss = "bc_datasets bc" and ?level = "level_of n s g h"
  obtain stat where st: "(?dss, stat) = initPassVariableData_values (pe_numstr (ce_paint env)) (ce_perso env) config ''StackedBar'' labels datasets"
      "bc_config bc = oset ''logarithmic'' (Bool False) config"
      "bc_statData bc = initPassVariableData_part2_values (ce_lg env) (bc_config bc) ''StackedBar'' data labels ?cs (bc_vars bc) ?dss stat"
      "ov_barWidth (bc_vars bc) = stacked_width ?cs (bc_config bc) (ov_valueHop (bc_vars bc))"
    using setup_StackedBarE [OF assms(1)] by blast
  note ax = assms(3) [unfolded column_axes_def]
  have lin: "linear_axis (ov_scale (bc_vars bc)) (oget (bc_config bc) ''logarithmic'') (ov_scaleHop (bc_vars bc)) n s g h" using ax st(2) by simp
  have fit: "vs + bw \<le> w" "0 \<le> vs" using stacked_width_fits [OF assms(4), of w bw] st(4) ax by simp_all
  have left: "column_left (bc_config bc) ?cs (bc_vars bc) 0 = Fin (x0 + vs)" using ax assms(4) by (simp add: column_left_def bar_sizes_def)
  have "stack_measures (bc_config bc) ?cs (bc_vars bc) (x0 + vs) y0 w bw"
    unfolding stack_measures_def using ax fit left lin assms(5) by auto
  note boxes = stacked_placed_at [OF assms(2) this st(1,3) level_of(2,1) [OF lin]]
  have fin: "\<forall>ds \<in> set ?dss. finite_dataset ds"
    using assms(2) st(1) pad_dataset_same(5) by (auto simp: initPassVariableData_values_def Let_def)
  obtain ops shapes where all: "drawBars_StackedBar pe (bc_config bc) ?dss (bc_statData bc) (Fin 1) = Inr (ops, shapes)"
    using stacked_bars_return [OF assms(6)] by blast
  then obtain ops' where draw: "each_bar ?dss (paint_stacked_bar pe (bc_config bc) (bc_statData bc) (lens_of ?dss) (Fin 1)) = Inr ops'"
      "ops = LineWidth (stroke_width pe (bc_config bc)) # ops'"
    by (auto simp: drawBars_StackedBar_def and_then_def split: sum.splits)
  have "\<exists>l r b t. b = y0 - ?level (stack_base ?dss i j) \<and> t = y0 - ?level (stack_top ?dss i j) \<and> (b \<noteq> t \<longrightarrow> sublist (box_path l b r t) ops)
      \<and> x0 + w * real j \<le> l \<and> l < r \<and> r \<le> x0 + w * real (Suc j) \<and> y0 - n * h \<le> min b t \<and> max b t \<le> y0
      \<and> (g \<le> min (stack_base ?dss i j) (stack_top ?dss i j) \<and> max (stack_base ?dss i j) (stack_top ?dss i j) \<le> g + n * s
          \<longrightarrow> b - t = svalue j (?dss ! i) / s * h)" if "given ?dss i j" for i j
  proof (intro exI conjI impI; (rule refl)?)
    let ?b = "y0 - ?level (stack_base ?dss i j)" and ?t = "y0 - ?level (stack_top ?dss i j)"
    assume "?b \<noteq> ?t"
    then show "sublist (box_path (x0 + vs + w * real j) ?b (x0 + vs + w * real j + bw) ?t) ops"
      using box_painted [OF boxes that fin draw(1)] draw(2) by (simp add: sublist_Cons_right)
  next
    assume "g \<le> min (stack_base ?dss i j) (stack_top ?dss i j) \<and> max (stack_base ?dss i j) (stack_top ?dss i j) \<le> g + n * s"
    then show "y0 - ?level (stack_base ?dss i j) - (y0 - ?level (stack_top ?dss i j)) = svalue j (?dss ! i) / s * h"
      by (simp add: level_of(5) [OF lin] stack_top_def diff_divide_distrib [symmetric] left_diff_distrib [symmetric])
  qed (use ax fit level_of(3,4) [OF lin] in \<open>simp_all add: algebra_simps\<close>)
  with all show ?thesis by blast
qed

text \<open>Two stacks on a scale from 0 to 10 on the canvas of the line chart above.\<close>

definition column_config :: obj where
  "column_config =
     [(''barValueSpacing'', NumF 5), (''barDatasetSpacing'', NumF 1), (''barStrokeWidth'', NumF 2), (''scaleGridLineWidth'', NumF 1), (''spaceBetweenBar'', NumF 0)]
     @ plot_config"

definition column_data :: "obj list" where
  "column_data = [[(''data'', Arr [NumF 2, NumF 3])], [(''data'', Arr [NumF 4, NumF (- 1)])]]"

lemma column_sizes:
  "bar_sizes plain_scales (oset ''logarithmic'' v column_config) 1 5 1 2"
  "\<not> scaled (sc_space plain_scales) (oset ''logarithmic'' v column_config) ''spaceBetweenBar'' > 0"
  by (simp_all add: bar_sizes_def column_config_def scaled_def plain_scales_def zero_jsnum_def)

lemma column_plain: "plain_layout (oset ''logarithmic'' v column_config)"
  by (auto simp: plain_layout_def column_config_def own_keys_def)

text \<open>The layout of vertical bars is the one of lines.\<close>

lemma bar_layout_line: "bar_layout env config labels datasets False = line_layout env config labels datasets"
  by (intro ext) (simp add: bar_layout_def line_layout_def)

lemma column_setup:
  assumes "length labels = 2"
  obtains bc where "setup_StackedBar plot_env column_config data labels datasets = Some (Inr (Some bc))"
    "bc_config bc = oset ''logarithmic'' (Bool False) column_config" "column_axes (bc_vars bc) 2 5 0 100 40 150 225 136"
proof -
  define cfg where "cfg = oset ''logarithmic'' (Bool False) column_config"
  note plain = column_plain [of "Bool False", folded cfg_def]
  obtain dss stat where d: "initPassVariableData_values (pe_numstr (ce_paint plot_env)) (ce_perso plot_env) column_config ''StackedBar'' labels datasets = (dss, stat)"
    by (cases "initPassVariableData_values (pe_numstr (ce_paint plot_env)) (ce_perso plot_env) column_config ''StackedBar'' labels datasets")
  note layout = plot_layout [OF plain, folded bar_layout_line]
  obtain msr where msr: "bar_layout plot_env cfg labels dss False (Str ''nihil'') (Arr [Str []]) = Inr msr" "m_availableHeight msr = Fin 210"
    using layout by metis
  define bounds where "bounds = (\<lambda>cfg h. getValueBounds_StackedBar (ce_option plot_env) cfg (ce_text plot_env) h (map as_dataset dss))"
  define vb where "vb = bounds cfg (m_availableHeight msr)"
  have c: "oget cfg k = oget plot_config k" if "k \<notin> set own_keys" for k
    using plain that unfolding plain_layout_def by blast
  have keys: "oget cfg ''scaleFontSize'' = NumF 12" "oget cfg ''scaleOverride'' = Bool True" "oget cfg ''scaleShowLabels'' = Bool False"
      "oget cfg ''scaleSteps'' = NumF 2" "oget cfg ''scaleStartValue'' = NumF 0" "oget cfg ''scaleStepWidth'' = NumF 5"
    by (simp_all add: c own_keys_def plot_config_head plot_head_def)
  have room: "maxSteps vb > 0" "minSteps vb > 0"
    by (simp_all add: vb_def bounds_def getValueBounds_StackedBar_def Let_def one_axis_def max_steps_def min_steps_def label_height_def keys msr(2)
        plot_env_def zero_jsnum_def)
  let ?sc = "\<lparr> s_steps = Fin 2, s_stepValue = Fin 5, s_graphMin = Fin 0, s_labels = [], s_maxValue = NaN \<rparr>"
  have scale: "stacked_scale plot_env cfg vb = Some (Inr (?sc, no_scale))"
    by (simp add: stacked_scale_def with_no_scale2_def stacked_override_def Let_def setOptionValue_def rescaled_def label_template_def step_indices_def keys)
  obtain m where m: "bar_layout plot_env cfg labels dss False (fst (scale_labels vb ?sc no_scale)) (snd (scale_labels vb ?sc no_scale)) = Inr m"
      "m_leftNotUsableSize m = Fin 35" "m_topNotUsableSize m = Fin 20" "m_availableWidth m = Fin 310" "m_availableHeight m = Fin 210"
    using layout by metis
  obtain bc where bc: "setup_StackedBar plot_env column_config data labels datasets = Some (Inr (Some bc))" "bc_config bc = cfg"
      "bc_vars bc = snd (stacked_measures (pe_scales (ce_paint plot_env)) cfg (length labels) ?sc m)"
    using setup_bars_returns [where bounds = bounds and config = cfg and adjust = "\<lambda>vb cfg. cfg" and scales = stacked_scale, OF msr(1) vb_def room refl scale m(1)]
    unfolding setup_StackedBar_def Let_def d prod.case bounds_def cfg_def by blast
  have full: "\<not> to_bool (oget cfg ''fullWidthGraph'')" by (simp add: c own_keys_def plot_unset)
  have "pe_scales (ce_paint plot_env) = plain_scales" by (simp add: plot_env_def plain_paint_def)
  with bc(3) have "column_axes (bc_vars bc) 2 5 0 100 40 150 225 136"
    using plot_ticks [OF plain] m(2-5) full column_sizes(1) [of "Bool False", folded cfg_def]
    by (simp add: column_axes_def stacked_measures_def snd_map_prod column_measures_def Let_def tick_def hop_of_def assms stacked_width_def
        around_bars_def bar_sizes_def snap_width_cases linear_axis_def zero_jsnum_def one_jsnum_def)
  with bc(1,2) that show thesis by (simp add: cfg_def)
qed

theorem stacked_chart_drawn_witness:
  "\<exists>bc ops shapes l r. setup_StackedBar plot_env column_config [] [Str ''a'', Str ''b''] column_data = Some (Inr (Some bc))
     \<and> drawBars_StackedBar plain_paint (bc_config bc) (bc_datasets bc) (bc_statData bc) (Fin 1) = Inr (ops, shapes)
     \<and> sublist (box_path l 185 r 105) ops \<and> 40 \<le> l \<and> l < r \<and> r \<le> 190"
proof -
  let ?labels = "[Str ''a'', Str ''b'']"
  obtain bc where bc: "setup_StackedBar plot_env column_config [] ?labels column_data = Some (Inr (Some bc))"
      "bc_config bc = oset ''logarithmic'' (Bool False) column_config" "column_axes (bc_vars bc) 2 5 0 100 40 150 225 136"
    by (rule column_setup [of ?labels "[]" column_data]) simp_all
  have dss: "bc_datasets bc = map (pad_dataset ''StackedBar'' ?labels) column_data"
    by (rule setup_StackedBarE [OF bc(1)]) (simp add: initPassVariableData_values_def Let_def)
  have vals: "map dvalues (bc_datasets bc) = [[NumF 2, NumF 3], [NumF 4, NumF (- 1)]]"
    by (simp add: dss column_data_def pad_dataset_def dvalues_def Let_def)
  have fin: "\<forall>ds \<in> set column_data. finite_dataset ds" by (simp add: column_data_def finite_dataset_def dvalues_def)
  have c: "oget (bc_config bc) k = oget plot_config k" if "k \<notin> set own_keys" for k
    using column_plain [of "Bool False"] that unfolding bc(2) plain_layout_def by blast
  have sty: "bar_styles_given (bc_config bc) (bc_datasets bc)"
    by (simp add: bar_styles_given_def c own_keys_def plot_unset dss column_data_def pad_dataset_def Let_def)
  have env: "pe_scales (ce_paint plot_env) = plain_scales" by (simp add: plot_env_def plain_paint_def)
  have ij: "given (bc_datasets bc) 1 0" by (simp add: dss column_data_def pad_dataset_def dvalues_def aget_def Let_def)
  have "stack_base (bc_datasets bc) 1 0 = 2" "stack_top (bc_datasets bc) 1 0 = 6"
    by (simp_all add: stack_base_def stack_top_def stack_up_def svalue_def dss column_data_def pad_dataset_def dvalues_def aget_def Let_def)
  with stacked_chart_drawn [OF bc(1) fin bc(3), of 1 5 1 2 plain_paint] sty ij show ?thesis
    unfolding env bc(2) using column_sizes [of "Bool False"] bc(1) by (fastforce simp: level_of_def bc(2))
qed

section \<open>The columns of a bar chart\<close>

lemma setup_BarE:
  assumes "setup_Bar env config data labels datasets = Some (Inr (Some bc))"
  obtains stat where
    "bc_statData bc = initPassVariableData_part2_values (ce_lg env) (bc_config bc) ''Bar'' data labels (pe_scales (ce_paint env)) (bc_vars bc) (bc_datasets bc) stat"
    "ov_barWidth (bc_vars bc) = shared_width (pe_scales (ce_paint env)) (bc_config bc) (count_bars (bc_datasets bc)) (ov_valueHop (bc_vars bc))"
    "ov_logarithmic (bc_vars bc) = Undef" "ov_logarithmic2 (bc_vars bc) = Undef"
proof -
  obtain dss stat0 where d: "initPassVariableData_values (pe_numstr (ce_paint env)) (ce_perso env) config ''Bar'' labels datasets = (dss, stat0)"
    by (cases "initPassVariableData_values (pe_numstr (ce_paint env)) (ce_perso env) config ''Bar'' labels datasets")
  note s = assms [unfolded setup_Bar_def Let_def d prod.case]
  obtain stat where mark: "mark_bars dss stat0 = Inr stat" using s by (auto split: sum.splits)
  note s' = s [unfolded mark sum.case]
  show thesis
  proof (rule setup_barsE [OF s'])
    fix vb sc sc2 msr
    assume bc: "bc_datasets bc = dss"
      and m: "(bc_measures bc, bc_vars bc) = bar_measures (ce_lg env) (pe_scales (ce_paint env)) (bc_config bc) (length labels) (count_bars dss) vb sc sc2 msr"
      and st: "bc_statData bc = initPassVariableData_part2_values (ce_lg env) (bc_config bc) ''Bar'' data labels (pe_scales (ce_paint env)) (bc_vars bc) dss stat"
    have "bc_vars bc = snd (bar_measures (ce_lg env) (pe_scales (ce_paint env)) (bc_config bc) (length labels) (count_bars dss) vb sc sc2 msr)" by (metis m snd_conv)
    with that st bc show thesis by (simp add: bar_measures_def Let_def column_measures_def)
  qed
qed

lemma drawn_as_Bar: "drawn_as ''Bar'' ds = (if is_line ds then ''Line'' else ''Bar'')"
  by (simp add: drawn_as_def tpdraw_def is_line_def)

text \<open>A bar of a chart: its place depends on the number of bars before it.\<close>

lemma bar_entry:
  assumes "setup_Bar env config data labels datasets = Some (Inr (Some bc))" "i < length (bc_datasets bc)" "j < length (dvalues (bc_datasets bc ! i))"
    and "\<not> is_line (bc_datasets bc ! i)"
  shows "\<exists>e. bc_statData bc i j = place_bar (ce_lg env) (bc_config bc) (pe_scales (ce_paint env)) (bc_vars bc) (count_bars (take i (bc_datasets bc)))
     (bc_datasets bc ! i) j (dvalues (bc_datasets bc ! i) ! j) e"
proof -
  have "bars_before ''Bar'' dss = count_bars dss" for dss
    unfolding count_bars_def by (rule arg_cong [of _ _ length], rule filter_cong) (simp_all add: drawn_as_Bar)
  with assms show ?thesis
    by (auto elim!: setup_BarE simp: part2_alone place_alone_def drawn_as_Bar)
qed

text \<open>A line in a bar chart is always placed on a linear scale: the constructor does not hand the kind of the scale to the second pass, which
  takes it from the options for the bars.\<close>

lemma mixed_lines_linear:
  assumes "setup_Bar env config data labels datasets = Some (Inr (Some bc))" "i < length (bc_datasets bc)" "j < length (dvalues (bc_datasets bc ! i))"
    and "is_line (bc_datasets bc ! i)" "axis_index (bc_datasets bc ! i) = 1" "dvalues (bc_datasets bc ! i) ! j = v" "v \<noteq> Undef"
  shows "oget (bc_statData bc i j) ''posY'' = Num (ov_xAxisPosY (bc_vars bc) - ov_zeroY (bc_vars bc)
     - (calculateOffset (ce_lg env) (Bool False) (to_number v) (ov_scale (bc_vars bc)) (ov_scaleHop (bc_vars bc)) - ov_zeroY (bc_vars bc)))"
proof -
  obtain stat where st: "bc_statData bc = initPassVariableData_part2_values (ce_lg env) (bc_config bc) ''Bar'' data labels (pe_scales (ce_paint env)) (bc_vars bc)
      (bc_datasets bc) stat" "ov_logarithmic (bc_vars bc) = Undef" by (rule setup_BarE [OF assms(1)])
  have "calculateOffset lg Undef x sc hop = calculateOffset lg (Bool False) x sc hop" for lg x sc hop by (simp add: calculateOffset_def)
  with assms(2-) show ?thesis
    by (simp add: st part2_alone place_alone_def drawn_as_Bar oget_place_point)
qed

lemma shared_width_sum:
  assumes "bar_sizes cs config gl vs dsp sw" "shared_width cs config n (Fin w) = Fin bw" "1 < bw" "0 < n"
  shows "real n * bw = w - 2 * gl - 2 * vs - (dsp * real n - 1) - (sw / 2 * real n - 1)"
proof -
  define u where "u = (w - 2 * gl - 2 * vs - (dsp * real n - 1) - (sw / 2 * real n - 1)) / real n"
  have "shared_width cs config n (Fin w) = snap_width (Fin u)"
    using assms(1,4) by (simp add: shared_width_def around_bars_def bar_sizes_def u_def one_jsnum_def mult.commute)
  then have "bw = u" using assms(2,3) by (simp add: snap_width_cases split: if_splits)
  then show ?thesis using assms(4) by (simp add: u_def)
qed

text \<open>C30: The columns of a bar chart are apart exactly when there are few enough bars in a column: the width of a bar is computed with half of
  its stroke, but the bars are placed with all of it, so with many data sets the last bar of a column lies over the first bar of the next one.\<close>

theorem bar_columns_apart:
  assumes "setup_Bar env config data labels datasets = Some (Inr (Some bc))" "\<forall>ds \<in> set (bc_datasets bc). \<not> is_line ds"
    and "ov_yAxisPosX (bc_vars bc) = Fin x0" "ov_valueHop (bc_vars bc) = Fin w" "ov_barWidth (bc_vars bc) = Fin bw" "1 < bw"
    and "bar_sizes (pe_scales (ce_paint env)) (bc_config bc) gl vs dsp sw" "n = length (bc_datasets bc)" "0 < n"
    and "j < length (dvalues (bc_datasets bc ! (n - 1)))" "Suc j < length (dvalues (bc_datasets bc ! 0))"
  shows "\<exists>r l. oget (bc_statData bc (n - 1) j) ''xPosRight'' = NumF r \<and> oget (bc_statData bc 0 (Suc j)) ''xPosLeft'' = NumF l
     \<and> (r \<le> l \<longleftrightarrow> (real n / 2 - 1) * sw + 2 \<le> 2 * gl + 2 * vs + dsp)"
proof -
  let ?dss = "bc_datasets bc" and ?cs = "pe_scales (ce_paint env)"
  have bars: "count_bars (take k ?dss) = min n k" for k
  proof -
    have "filter (\<lambda>ds. \<not> is_line ds) (take k ?dss) = take k ?dss" using assms(2) by (intro filter_True) (auto dest: in_set_takeD)
    then show ?thesis by (simp add: count_bars_def assms(8))
  qed
  have last: "n - 1 < length ?dss" "0 < length ?dss" using assms(8,9) by simp_all
  obtain e where r: "bc_statData bc (n - 1) j = place_bar (ce_lg env) (bc_config bc) ?cs (bc_vars bc) (n - 1) (?dss ! (n - 1)) j (dvalues (?dss ! (n - 1)) ! j) e"
    using bar_entry [OF assms(1) last(1) assms(10)] assms(2) nth_mem [OF last(1)] by (auto simp: bars)
  obtain e' where l: "bc_statData bc 0 (Suc j) = place_bar (ce_lg env) (bc_config bc) ?cs (bc_vars bc) 0 (?dss ! 0) (Suc j) (dvalues (?dss ! 0) ! Suc j) e'"
    using bar_entry [OF assms(1) last(2) assms(11)] assms(2) nth_mem [OF last(2)] by (auto simp: count_bars_def)
  have "count_bars ?dss = n" using bars [of n] assms(8) by simp
  then have "shared_width ?cs (bc_config bc) n (Fin w) = Fin bw"
    using assms(4,5) by (metis setup_BarE [OF assms(1)])
  note width = shared_width_sum [OF assms(7) this assms(6,9)]
  have pred: "real (n - 1) = real n - 1" using assms(9) by simp
  note size = assms(3-5,7) [unfolded bar_sizes_def]
  have "oget (bc_statData bc (n - 1) j) ''xPosRight'' = NumF (x0 + vs + w * real j + (real n - 1) * (bw + dsp + sw) + bw)"
    unfolding r oget_place_bar pred using size by (simp add: algebra_simps)
  moreover have "oget (bc_statData bc 0 (Suc j)) ''xPosLeft'' = NumF (x0 + vs + w * real (Suc j))"
    unfolding l oget_place_bar using size by simp
  moreover have "x0 + vs + w * real j + (real n - 1) * (bw + dsp + sw) + bw \<le> x0 + vs + w * real (Suc j)
      \<longleftrightarrow> (real n / 2 - 1) * sw + 2 \<le> 2 * gl + 2 * vs + dsp"
  proof -
    have "x0 + vs + w * real j + (real n - 1) * (bw + dsp + sw) + bw
      = x0 + vs + w * real (Suc j) + ((real n / 2 - 1) * sw + 2 - (2 * gl + 2 * vs + dsp))"
      using width by (simp add: field_simps)
    then show ?thesis by linarith
  qed
  ultimately show ?thesis by blast
qed

text \<open>Fourteen data sets with the default sizes.\<close>

definition many_bars :: "obj list" where
  "many_bars = replicate 14 [(''data'', Arr [NumF 2, NumF 3])]"

lemma many_setup:
  obtains bc where "setup_Bar plot_env column_config [] [Str ''a'', Str ''b''] many_bars = Some (Inr (Some bc))" "bc_datasets bc = many_bars"
    "bar_sizes plain_scales (bc_config bc) 1 5 1 2" "ov_yAxisPosX (bc_vars bc) = Fin 40" "ov_valueHop (bc_vars bc) = Fin 150" "ov_barWidth (bc_vars bc) = Fin 8"
proof -
  let ?labels = "[Str ''a'', Str ''b'']" and ?bounds = "\<lambda>cfg h. getValueBounds_Bar (ce_option plot_env) (ce_deviation plot_env) cfg (ce_text plot_env) h (map as_dataset many_bars)"
  have pad: "map (pad_dataset ''Bar'' ?labels) many_bars = many_bars"
    by (simp add: many_bars_def pad_dataset_def dvalues_def Let_def oset_def)
  obtain stat where d: "initPassVariableData_values (pe_numstr (ce_paint plot_env)) (ce_perso plot_env) column_config ''Bar'' ?labels many_bars = (many_bars, stat)"
    by (simp add: initPassVariableData_values_def Let_def pad)
  obtain stat' where mark: "mark_bars many_bars stat = Inr stat'" by (simp add: mark_bars_def many_bars_def dvalues_def)
  have plain: "plain_layout column_config" by (auto simp: plain_layout_def column_config_def own_keys_def)
  obtain msr where msr: "bar_layout plot_env column_config ?labels many_bars False (Str ''nihil'') (Arr [Str []]) = Inr msr" "m_availableHeight msr = Fin 210"
    using plot_layout [OF plain, folded bar_layout_line] by metis
  define vb where "vb = ?bounds column_config (m_availableHeight msr)"
  define cfg where "cfg = line_config (ce_lg plot_env) vb (above_zero vb column_config)"
  have own: "oget cfg k = oget column_config k" if "k \<noteq> ''logarithmic''" "k \<noteq> ''logarithmic2''" for k
    using that by (simp add: cfg_def line_config_other above_zero_def)
  have plain': "plain_layout cfg" using plain own by (auto simp: plain_layout_def own_keys_def)
  then have c: "oget cfg k = oget plot_config k" if "k \<notin> set own_keys" for k using that unfolding plain_layout_def by blast
  have keys: "oget cfg ''scaleOverride'' = Bool True" "oget cfg ''scaleShowLabels'' = Bool False"
      "oget cfg ''scaleSteps'' = NumF 2" "oget cfg ''scaleStartValue'' = NumF 0" "oget cfg ''scaleStepWidth'' = NumF 5"
    by (simp_all add: c own_keys_def plot_config_head plot_head_def)
  have "oget column_config ''scaleFontSize'' = NumF 12"
    using plain by (simp add: plain_layout_def own_keys_def plot_config_head plot_head_def)
  then have room: "maxSteps vb > 0" "minSteps vb > 0"
    by (simp_all add: vb_def getValueBounds_Bar_def Let_def max_steps_def min_steps_def label_height_def msr(2) plot_env_def zero_jsnum_def)
  have one: "\<not> dbAxis vb"
    unfolding vb_def bar_bounds_equal_line_bounds by (rule no_second_axis) (simp add: many_bars_def axis_index_def)
  let ?sc = "\<lparr> s_steps = Fin 2, s_stepValue = Fin 5, s_graphMin = Fin 0, s_labels = [], s_maxValue = Fin 10 \<rparr>"
  have scale: "two_scales plot_env cfg vb = Some (Inr (?sc, no_scale))"
    using one by (simp add: two_scales_def line_scale_def Let_def override_scale_def setOptionValue_def rescaled_def label_template_def populateLabels_def keys)
  obtain m where m: "bar_layout plot_env cfg ?labels many_bars False (fst (scale_labels vb ?sc no_scale)) (snd (scale_labels vb ?sc no_scale)) = Inr m"
      "m_leftNotUsableSize m = Fin 35" "m_topNotUsableSize m = Fin 20" "m_availableWidth m = Fin 310" "m_availableHeight m = Fin 210"
    using plot_layout [OF plain', folded bar_layout_line] by metis
  obtain bc where bc: "setup_Bar plot_env column_config [] ?labels many_bars = Some (Inr (Some bc))" "bc_config bc = cfg"
      "bc_vars bc = snd (bar_measures (ce_lg plot_env) (pe_scales (ce_paint plot_env)) cfg (length ?labels) (count_bars many_bars) vb ?sc no_scale m)"
    using setup_bars_returns [where bounds = ?bounds and config = column_config and adjust = "\<lambda>vb cfg. line_config (ce_lg plot_env) vb (above_zero vb cfg)"
        and scales = two_scales, OF msr(1) vb_def room cfg_def scale m(1)]
    unfolding setup_Bar_def Let_def d prod.case mark sum.case by blast
  have dss: "bc_datasets bc = many_bars"
    using bc(1) unfolding setup_Bar_def Let_def d prod.case mark sum.case by (rule setup_barsE)
  have sizes: "bar_sizes plain_scales cfg 1 5 1 2"
    by (simp add: bar_sizes_def scaled_def plain_scales_def own) (simp add: column_config_def)
  have full: "\<not> to_bool (oget cfg ''fullWidthGraph'')" by (simp add: c own_keys_def plot_unset)
  have nr: "count_bars many_bars = 14" by (simp add: count_bars_def many_bars_def is_line_def)
  have "pe_scales (ce_paint plot_env) = plain_scales" by (simp add: plot_env_def plain_paint_def)
  with bc(3) have "ov_yAxisPosX (bc_vars bc) = Fin 40" "ov_valueHop (bc_vars bc) = Fin 150" "ov_barWidth (bc_vars bc) = Fin 8"
    using plot_ticks [OF plain'] m(2-5) full sizes
    by (simp_all add: bar_measures_def nr column_measures_def Let_def tick_def hop_of_def shared_width_def around_bars_def bar_sizes_def snap_width_cases
        zero_jsnum_def one_jsnum_def)
  with that bc(1,2) dss sizes show thesis by simp
qed

theorem bar_columns_apart_witness:
  "\<exists>bc r l. setup_Bar plot_env column_config [] [Str ''a'', Str ''b''] many_bars = Some (Inr (Some bc))
     \<and> oget (bc_statData bc 13 0) ''xPosRight'' = NumF r \<and> oget (bc_statData bc 0 1) ''xPosLeft'' = NumF l \<and> l < r"
proof -
  obtain bc where bc: "setup_Bar plot_env column_config [] [Str ''a'', Str ''b''] many_bars = Some (Inr (Some bc))" "bc_datasets bc = many_bars"
      "bar_sizes plain_scales (bc_config bc) 1 5 1 2" "ov_yAxisPosX (bc_vars bc) = Fin 40" "ov_valueHop (bc_vars bc) = Fin 150" "ov_barWidth (bc_vars bc) = Fin 8"
    by (rule many_setup)
  have "\<forall>ds \<in> set (bc_datasets bc). \<not> is_line ds" by (simp add: bc(2) many_bars_def is_line_def)
  moreover have "bar_sizes (pe_scales (ce_paint plot_env)) (bc_config bc) 1 5 1 2" using bc(3) by (simp add: plot_env_def plain_paint_def)
  moreover have "14 = length (bc_datasets bc)" "0 < length (dvalues (bc_datasets bc ! (14 - 1)))" "Suc 0 < length (dvalues (bc_datasets bc ! 0))"
    by (simp_all add: bc(2) many_bars_def dvalues_def)
  ultimately have "\<exists>r l. oget (bc_statData bc (14 - 1) 0) ''xPosRight'' = NumF r \<and> oget (bc_statData bc 0 (Suc 0)) ''xPosLeft'' = NumF l
      \<and> (r \<le> l \<longleftrightarrow> (real 14 / 2 - 1) * 2 + 2 \<le> 2 * 1 + 2 * 5 + 1)"
    by (intro bar_columns_apart [OF bc(1) _ bc(4,5,6)]) simp_all
  then show ?thesis using bc(1) by auto
qed

end
