(* ===== verification/Spec2Isabelle.thy ===== *)
theory Spec2Isabelle
  imports DashboardPage StatsPage PageLayout BarCharts
begin

text \<open>
  A verification library for the web user interface of the INAETICS demonstrator: the scripts under
  src/org.inaetics.demonstrator.java_impl/resources, that is the chart library ChartNew.js and the
  three scripts inaeticsCommon.js, inaeticsDashboard.js and inaeticsStats.js of the two pages.

  \<^bold>\<open>The program.\<close>  A page polls the coordinator for statistics (getJSON), turns each response into chart
  data (getData) and chart options (getChartOpts) and draws or updates line charts (renderGraph,
  renderStats).  ChartNew.js merges the options of the page with its defaults, computes bounds and
  scale of the data, the positions of everything that is drawn, and plays an animation; a drawn
  chart is kept in global registries and is drawn again when the window is resized, scrolled, or
  the data are updated.

  \<^bold>\<open>The theories.\<close>

  \<^item> JsNum, JsValue: the prelude.  JavaScript numbers (finite reals, infinities, NaN), values, objects as
    association lists, coercions, strings.
  \<^item> ChartTables, ChartOptions: the tables of defaults and mergeChartConfig with the nine constructors
    this.PolarArea to this.HorizontalBar.  The locale option_store states what a merge promises; it is
    interpreted on mergeChartConfig.
  \<^item> ChartHelpers: fmtChartJS, unFormat, roundToWithThousands, setOptionValue, isBooleanOptionTrue,
    tpdraw, CapValue, the polyfill of indexOf and the other small functions.
  \<^item> Easing, AnimationLoop: animationOptions and the closure of animationLoop (animateFrame, animLoop)
    as a function on its local variables.
  \<^item> ChartLifecycle: the global state as the record world (contexts, jsGraphResize, dynamicDisplay, the
    requested frames, the listeners) and the functions init_and_start, redrawGraph, subUpdateChart,
    testRedraw, updateChart, chartJsResize, resizeGraph, resizeCtx, addResponsiveChart, dynamicFunction,
    scrollFunction, defMouse as functions on it.
  \<^item> ChartStates, PageOptions, PageMachine: the state machine of ctx.firstPass, the options under which
    a page draws, and the events of a page with the invariant that holds in every reachable state.  The
    locales redraw_service, redraw_agreement and page_redraw are what the mutually recursive functions
    expect of redrawGraph; they are interpreted on redrawGraph itself.
  \<^item> ChartScale, ValueBounds: calculateScale with its loops, populateLabels, calculateOffset, the overridden scale, and
    the seven getValueBounds.
  \<^item> StatData, StatPositions: initPassVariableData_part1 and _part2: totals, shares, angles, neighbours,
    positions of segments, points and bars.
  \<^item> MouseActions: doMouseAction with the test whether the mouse is on a registered arc, bar or point.
  \<^item> Painting, LinePainting: the drawing functions as the list of calls of the canvas context they make:
    drawAllSegments, both drawPieSegments, drawLinesDataset with its curves and markers, animationCorrection.
  \<^item> BarPainting: drawBars of the four bar charts in the same style.
  \<^item> ChartLayout: setMeasures, which divides the canvas among titles, labels, legend and chart.  LayoutDefaults and
    LayoutTypes: the types of the options it reads, that the tables of defaults have these types, and that the layout is
    then computed without an exception and leaves no gap.
  \<^item> ValueIndex, LineChart: the first and last given values of the entries, and the constructor Line from the data to
    the frames (setup_Line, drawLines).
  \<^item> BarCharts: the constructors StackedBar, HorizontalStackedBar, Bar and HorizontalBar in the same way (setup_bars is what they
    share), with reverseData.
  \<^item> TextPainting: the canvas context as a machine that runs the calls (colours, origin, angle and the stack of saved states), and what
    setMeasures paints: titles, unit, axis labels, footnote, frames, drawLegend.  The locale drawing_context says what saving and
    restoring promise; it is interpreted on that machine.
  \<^item> AxisPainting: drawScale and drawLabels of the five chart types with axes.
  \<^item> PageLayout: the layout of the charts of the two pages.
  \<^item> InaeticsCommon, DashboardPage, StatsPage: the scripts of the pages on top of the events of PageMachine.
    The locale line_charts is what the pages rely on; it is interpreted on the chart library.
  \<^item> This theory: properties that need several of them.

  \<^bold>\<open>What is shown.\<close>  For the options: the layer that decides an option, and that redrawing keeps the
  configuration.  For a chart: at most one animation loop and one registry entry per chart, no event of
  a page raises, an update of a displayed chart is drawn and stored, an animation of N steps ends after
  at most N frames with the complete chart, every frame draws a share between 0 and 1.  For the numbers:
  the bounds contain the data, the scale covers the bounds when there is room for the steps, values are
  placed in proportion; the path a line chart paints is the graph of its data (line_chart_drawn, and
  utilisation_chart_drawn from the response of the coordinator on); segments fill the circle, shares add up to 100, bars do not overlap and stacks have no
  gaps; a stacked bar chart paints its values as rectangles in proportion (stacked_chart_drawn), and bar_columns_apart says for which
  sizes the columns of a bar chart are apart.  For the texts: painting them leaves no trace in the context, the titles are above the
  chart, the legend is a grid, the labels stand at their values.  For the pages: after each response the statistics page shows exactly the reported statistics, the
  dashboard shows both utilisations, the tables have the rows of the response, polling goes on until the first
  request without an answer.  The theorems of kind error state where the code does something else than
  what it means to.

  \<^bold>\<open>Fuel and loops.\<close>  redrawGraph, draw_chart and subUpdateChart call each other; the depth is the argument n of
  redrawGraph.  redraw_depth shows that depth one is enough and redraw_fuel_irrelevant that more does not
  matter.  The loops of calculateScale are partial functions with option results, where None is a loop that does
  not end; step_loop_terminates and scale_covers_data show that they return.  An animation is the sequence of
  states animLoop goes through; animation_terminates bounds it, animation_diverges shows when there is no
  bound.

  \<^bold>\<open>Parameters.\<close>  What the browser or the page provides is an argument: lg the logarithm, ns the conversion of a
  number to a string, perso the function fmtChartJSPerso a page may define, tmpl the template engine, call the
  call of a function given as an option, layout_fits whether the layout leaves room for the chart, locale_time
  the local time format, the clock and the sizes of the elements in the environment.  calculateOffset, CapValue,
  log10 and HorizontalCalculateOffset exist twice in ChartNew.js with the same text; the model has one
  definition of each.

  \<^bold>\<open>Not modelled.\<close>  The rounding of doubles: finite numbers are reals.  The width of a text is an argument (measureText of the
  browser).  The texts inside the chart (inGraphDataShow) and the user's crossText and crossImage; the constructors PolarArea, Radar, Pie
  and Doughnut around the modelled parts (bounds, scale, data, segments), and the polygons and the grid of Radar and PolarArea.  The templates
  tmpl, tmplbis and tmplter, which evaluate generated source.  saveCanvas and the creation of the elements of the annotation.  The timers
  the pages start in window.onload.  jQuery and bootstrap are third-party; the Java and C sources of the demonstrator are not part
  of the user interface.  The lemmas about these parts that could still be added are those of the radar, whose points are already
  placed (place_radar), and the animation of the texts inside the chart.
\<close>

section \<open>The scale of a utilisation chart\<close>

lemma line_label_options:
  "oget (chart_config Line no_personal_options None) ''scaleShowLabels'' = Bool True"
  "oget (chart_config Line no_personal_options None) ''scaleLabel'' = Str ''<%=value%>''"
  unfolding chart_config_default type_defaults.simps Line_defaults_def find_last_obj_literal
  by (simp_all cong: find_last_step)

lemma utilisation_options:
  assumes "oget st ''type'' = Str ''utilization''"
  shows "oget (getChartOpts st) ''scaleOverride'' = Bool True" "oget (getChartOpts st) ''scaleStartValue'' = NumF 0"
    "oget (getChartOpts st) ''scaleSteps'' = NumF 10" "oget (getChartOpts st) ''scaleStepWidth'' = NumF 10"
  using assms by (simp_all add: getChartOpts_def Let_def)

lemma keys_getChartOpts:
  assumes "oget st ''type'' = Str ''utilization''"
  shows "{''scaleOverride'', ''scaleStartValue'', ''scaleSteps'', ''scaleStepWidth''} \<subseteq> fst ` set (getChartOpts st)"
    "''scaleShowLabels'' \<notin> fst ` set (getChartOpts st)" "''scaleLabel'' \<notin> fst ` set (getChartOpts st)"
  using assms by (simp_all add: getChartOpts_def Let_def keys_oset keys_obj_literal)

lemma collect_Inr: "(\<And>i. i \<in> set is \<Longrightarrow> f i = Inr (g i)) \<Longrightarrow> collect f is = Inr (map g is)"
  by (induction "is") simp_all

lemma decimal_places_10: "ns (Fin 10) = ''10'' \<Longrightarrow> fixed_label ns v (Fin 10) = Inr (to_fixed 0 v)"
  by (simp add: fixed_label_def getDecimalPlaces_def decimal_match.simps match_fraction_def match_exponent_def math_max_def)

lemma utilisation_scale:
  assumes "oget st ''type'' = Str ''utilization''" "ns (Fin 10) = ''10''"
    and "config = line_config lg vb (chart_config Line no_personal_options (Some (getChartOpts st)))"
  shows "\<exists>labels. length labels = 11 \<and> line_scale call lg ns perso tmpl 1 vb config =
      Some (Inr (Some \<lparr> s_steps = Fin 10, s_stepValue = Fin 10, s_graphMin = Fin 0, s_labels = labels, s_maxValue = Fin 0 + Fin 10 * Fin 10 \<rparr>))"
    and "oget config ''logarithmic'' = Bool False"
proof -
  let ?c = "chart_config Line no_personal_options (Some (getChartOpts st))"
  note opts = config_opts [OF wf_getChartOpts, of Line st]
  have c: "oget ?c ''scaleOverride'' = Bool True" "oget ?c ''scaleStartValue'' = NumF 0" "oget ?c ''scaleSteps'' = NumF 10"
      "oget ?c ''scaleStepWidth'' = NumF 10" "oget ?c ''scaleShowLabels'' = Bool True" "oget ?c ''scaleLabel'' = Str ''<%=value%>''"
    using keys_getChartOpts [OF assms(1)] unfolding opts by (simp_all add: utilisation_options [OF assms(1)] line_label_options del: chart_config.simps)
  have same: "oget config k = oget ?c k" if "k \<noteq> ''logarithmic''" "k \<noteq> ''logarithmic2''" for k
    unfolding assms(3) using that by (rule line_config_other)
  show lin: "oget config ''logarithmic'' = Bool False"
    unfolding assms(3) by (rule line_config_override) (simp add: c(1) del: chart_config.simps)
  let ?show = "\<lambda>v. tmpl ''<%=value%>'' (fmtChartJS ns perso config (Num v) (oget config ''fmtYLabel''))"
  let ?labels = "map (\<lambda>i. ?show (to_fixed 0 (Fin 0 + Fin 10 * Fin (of_nat i)))) [0..<11]"
  have "populateLabels ns perso tmpl 1 config (Str ''<%=value%>'') (Fin 10) (Fin 0) (Fin 10) = Some (Inr ?labels)"
    unfolding populateLabels_def Let_def using lin
    by (simp add: label_indices_def decimal_places_10 [of ns, OF assms(2)] collect_Inr
        del: upt_conv_Cons upt_rec_numeral to_fixed_def cong: map_cong)
  then have "line_scale call lg ns perso tmpl 1 vb config =
      Some (Inr (Some \<lparr> s_steps = Fin 10, s_stepValue = Fin 10, s_graphMin = Fin 0, s_labels = ?labels,
         s_maxValue = Fin 0 + Fin 10 * Fin 10 \<rparr>))"
    using c same by (simp add: line_scale_def override_scale_def setOptionValue_def rescaled_def label_template_def Let_def)
  then show "\<exists>labels. length labels = 11 \<and> line_scale call lg ns perso tmpl 1 vb config =
      Some (Inr (Some \<lparr> s_steps = Fin 10, s_stepValue = Fin 10, s_graphMin = Fin 0, s_labels = labels, s_maxValue = Fin 0 + Fin 10 * Fin 10 \<rparr>))"
    by (intro exI [of _ ?labels]) simp
qed

text \<open>C20: A chart of a utilisation always shows the scale from 0 to 100 in ten steps with eleven labels,
  whatever the data are: the scale is linear, and a value between 0 and 100 is drawn at its share of
  the height of the scale.\<close>

theorem utilisation_scale_fixed:
  assumes "oget st ''type'' = Str ''utilization''" "ns (Fin 10) = ''10''" "0 \<le> h"
    and "config = line_config lg vb (chart_config Line no_personal_options (Some (getChartOpts st)))"
  shows "\<exists>sc. line_scale call lg ns perso tmpl 1 vb config = Some (Inr (Some sc))
     \<and> s_graphMin sc = Fin 0 \<and> s_steps sc = Fin 10 \<and> s_stepValue sc = Fin 10 \<and> length (s_labels sc) = 11
     \<and> (\<forall>v. 0 \<le> v \<and> v \<le> 100 \<longrightarrow> calculateOffset lg (oget config ''logarithmic'') (Fin v) sc (Fin h) = Fin (10 * h * (v / 100)))"
proof -
  obtain labels where l: "length labels = 11" "line_scale call lg ns perso tmpl 1 vb config =
      Some (Inr (Some \<lparr> s_steps = Fin 10, s_stepValue = Fin 10, s_graphMin = Fin 0, s_labels = labels, s_maxValue = Fin 0 + Fin 10 * Fin 10 \<rparr>))"
    using utilisation_scale(1) [of st ns config lg vb call perso tmpl] assms by blast
  have lin: "oget config ''logarithmic'' = Bool False" using utilisation_scale(2) [of st ns config lg vb] assms by blast
  show ?thesis
    using l lin assms(3) by (intro exI conjI) (auto simp: calculateOffset_def Let_def CapValue_Fin)
qed

theorem utilisation_scale_fixed_witness:
  "let config = line_config (\<lambda>_. Fin 0) (getValueBounds_Line (\<lambda>_. Undef) (\<lambda>_. Fin 0) sample_config (Fin 1) (Fin 300) sample_data)
         (chart_config Line no_personal_options (Some (getChartOpts [(''type'', Str ''utilization'')])));
       vb = getValueBounds_Line (\<lambda>_. Undef) (\<lambda>_. Fin 0) sample_config (Fin 1) (Fin 300) sample_data
   in \<exists>sc. line_scale (\<lambda>_ _ _ _. Undef) (\<lambda>_. Fin 0) (\<lambda>_. ''10'') (\<lambda>_ v _. v) (\<lambda>_ _. []) 1 vb config = Some (Inr (Some sc))
     \<and> length (s_labels sc) = 11 \<and> calculateOffset (\<lambda>_. Fin 0) (oget config ''logarithmic'') (Fin 50) sc (Fin 20) = Fin 100"
proof -
  have e: "10 * 20 * (50 / 100) = (100 :: real)" by simp
  show ?thesis
    unfolding Let_def
    using utilisation_scale_fixed [of "[(''type'', Str ''utilization'')]" "\<lambda>_. ''10''" 20 _ "\<lambda>_. Fin 0"
      "getValueBounds_Line (\<lambda>_. Undef) (\<lambda>_. Fin 0) sample_config (Fin 1) (Fin 300) sample_data" "\<lambda>_ _ _ _. Undef" "\<lambda>_ v _. v" "\<lambda>_ _. []",
      OF _ _ _ refl]
    by (auto simp del: chart_config.simps dest!: spec [of _ "50 :: real"] simp: e)
qed

section \<open>From the response to the canvas\<close>

text \<open>The options that decide how the line of a page is painted.\<close>

lemma line_default_options:
  "oget (chart_config Line no_personal_options None) ''bezierCurveTension'' = NumF (4 / 10)"
  "oget (chart_config Line no_personal_options None) ''extrapolateMissingData'' = Bool True"
  "oget (chart_config Line no_personal_options None) ''datasetStrokeStyle'' = Str ''solid''"
  "oget (chart_config Line no_personal_options None) ''scaleFontSize'' = NumF 12"
  "oget (chart_config Line no_personal_options None) ''scaleTickSizeBottom'' = NumF 5"
  "oget (chart_config Line no_personal_options None) ''scaleTickSizeTop'' = NumF 5"
  "oget (chart_config Line no_personal_options None) ''scaleTickSizeLeft'' = NumF 5"
  "oget (chart_config Line no_personal_options None) ''scaleTickSizeRight'' = NumF 5"
  unfolding chart_config_default type_defaults.simps Line_defaults_def find_last_obj_literal
  by (simp_all cong: find_last_step)

lemma line_common_options:
  "oget (chart_config Line no_personal_options None) ''annotateDisplay'' = Bool False"
  "oget (chart_config Line no_personal_options None) ''defaultFillColor'' = Str ''rgba(220,220,220,0.5)''"
  "oget (chart_config Line no_personal_options None) ''defaultStrokeColor'' = Str ''rgba(220,220,220,1)''"
  unfolding chart_config_default type_defaults.simps Line_defaults_def commonOptions_def commonOptions_layout_def commonOptions_behaviour_def
    find_last_obj_literal find_last_append
  by (simp_all cong: find_last_step)

lemma page_own_options:
  "oget (getChartOpts st) ''bezierCurve'' = Bool False" "oget (getChartOpts st) ''pointDot'' = Bool False" "oget (getChartOpts st) ''datasetFill'' = Bool True"
  "{''bezierCurve'', ''pointDot'', ''datasetFill''} \<subseteq> fst ` set (getChartOpts st)"
  "{''bezierCurveTension'', ''extrapolateMissingData'', ''datasetStrokeStyle'', ''scaleFontSize'', ''scaleTickSizeBottom'', ''scaleTickSizeTop'',
    ''scaleTickSizeLeft'', ''scaleTickSizeRight'', ''annotateDisplay'', ''defaultFillColor'', ''defaultStrokeColor''} \<inter> fst ` set (getChartOpts st) = {}"
  by (simp_all add: getChartOpts_def Let_def oget_obj_literal keys_oset keys_obj_literal)

lemma page_line_options:
  assumes "c = chart_config Line no_personal_options (Some (getChartOpts st))"
  shows "oget c ''bezierCurve'' = Bool False" "oget c ''pointDot'' = Bool False" "oget c ''datasetFill'' = Bool True"
    "oget c ''bezierCurveTension'' = NumF (4 / 10)" "oget c ''annotateDisplay'' = Bool False" "oget c ''extrapolateMissingData'' = Bool True"
    "oget c ''datasetStrokeStyle'' = Str ''solid''" "oget c ''defaultFillColor'' = Str ''rgba(220,220,220,0.5)''"
    "oget c ''defaultStrokeColor'' = Str ''rgba(220,220,220,1)''" "oget c ''scaleFontSize'' = NumF 12"
    "oget c ''scaleTickSizeBottom'' = NumF 5" "oget c ''scaleTickSizeTop'' = NumF 5" "oget c ''scaleTickSizeLeft'' = NumF 5"
    "oget c ''scaleTickSizeRight'' = NumF 5"
  using page_own_options [of st] unfolding assms config_opts [OF wf_getChartOpts]
  by (simp_all add: line_default_options line_common_options del: chart_config.simps)

text \<open>The data set of a page.\<close>

definition page_dataset :: "jsval list \<Rightarrow> obj" where
  "page_dataset vs = [(''fillColor'', Str ''rgba(151,187,205,0.5)''), (''strokeColor'', Str ''rgba(151,187,205,1)''), (''data'', Arr vs)]"

text \<open>Room for the chart of a page: a canvas and a font of finite sizes, with space for the ticks and for at least one label.\<close>

definition page_room :: "chart_env \<Rightarrow> obj \<Rightarrow> jsval list \<Rightarrow> jsval list \<Rightarrow> bool" where
  "page_room env st ts vs =
     (measuring (layout_of env) \<and> is_fin (ce_height env) \<and> is_fin (ce_width env) \<and>
      (\<exists>k. sc_line (pe_scales (ce_paint env)) = Fin k \<and>
        (\<forall>c yl yl2 m. same_layout c (chart_config Line no_personal_options (Some (getChartOpts st)))
            \<and> line_layout env c ts [pad_dataset ''Line'' ts (page_dataset vs)] yl yl2 = Inr m \<longrightarrow>
           (let text = math_ceil (ce_text env * Fin 12)
            in m_availableHeight m \<ge> math_ceil (Fin (k * 5)) + math_ceil (Fin (k * 5))
               \<and> max_steps (m_availableHeight m) text > 0 \<and> min_steps (m_availableHeight m) text > 0))))"

lemma page_data:
  assumes "oget st ''timestamps'' = Arr ts" "oget st ''values'' = Arr vs" "vs \<noteq> []"
  shows "labels_of (getData st) = ts" "datasets_of (getData st) = [page_dataset vs]"
proof -
  have d: "has_elements (Arr vs)" using assms(3) by (simp add: has_elements_def jlength_def zero_jsnum_def)
  show "labels_of (getData st) = ts" by (simp add: labels_of_def getData_def Let_def assms(1) oget_obj_literal)
  have "obj_literal [(''fillColor'', Str ''rgba(151,187,205,0.5)''), (''strokeColor'', Str ''rgba(151,187,205,1)''), (''data'', Arr vs)] = page_dataset vs"
    by (simp add: obj_literal_def page_dataset_def oset_def)
  then show "datasets_of (getData st) = [page_dataset vs]" using d by (simp add: datasets_of_def getData_def Let_def assms(2) oget_obj_literal)
qed

lemma oget_page_dataset:
  "oget (page_dataset vs) ''data'' = Arr vs" "oget (page_dataset vs) ''axis'' = Undef" "oget (page_dataset vs) ''xPos'' = Undef" "dvalues (page_dataset vs) = vs"
  "oget (page_dataset vs) ''datasetStrokeStyle'' = Undef" "oget (page_dataset vs) ''fillColor'' \<noteq> Null" "oget (page_dataset vs) ''strokeColor'' \<noteq> Null"
  by (simp_all add: page_dataset_def dvalues_def)

lemma untitled_page: "oget (pad_dataset tp ts (page_dataset vs)) ''title'' = Undef"
  by (simp add: oget_pad page_dataset_def)

lemma utilisation_setup:
  assumes "oget st ''type'' = Str ''utilization''" "is_string (oget st ''unit'')" "is_string (oget st ''displayName'')"
    and "2 \<le> length vs" "2 \<le> length ts" "pe_numstr (ce_paint env) (Fin 10) = ''10''" "page_room env st ts vs"
    and "config = chart_config Line no_personal_options (Some (getChartOpts st))"
  shows "\<exists>lc h x0 w y0. setup_Line env config data ts [page_dataset vs] = Some (Inr (Some lc)) \<and> axes_at (lc_vars lc) 10 10 0 h x0 w y0 0
     \<and> plain_lines (lc_config lc) [page_dataset vs] \<and> to_bool (oget (lc_config lc) ''datasetFill'')"
proof -
  define padded where "padded = map (pad_dataset ''Line'' ts) [page_dataset vs]"
  have adapt: "adapt_single ts [page_dataset vs] = (ts, [page_dataset vs])" using assms(4) by (simp add: adapt_single_def oget_page_dataset)
  obtain k where "dvalues (pad_dataset ''Line'' ts (page_dataset vs)) = vs @ replicate k Undef"
    using dvalues_pad [of "''Line''" ts "page_dataset vs"] by (auto simp: oget_page_dataset)
  then have ne: "\<forall>ds \<in> set padded. dvalues ds \<noteq> []" using assms(4) by (auto simp: padded_def)
  note o = page_line_options [OF assms(8)]
  obtain K where K: "sc_line (pe_scales (ce_paint env)) = Fin K" and env: "measuring (layout_of env)" "is_fin (ce_height env)" "is_fin (ce_width env)"
      and m: "\<And>c yl yl2 m. same_layout c config \<Longrightarrow> line_layout env c ts padded yl yl2 = Inr m \<Longrightarrow>
        m_availableHeight m \<ge> math_ceil (Fin (K * 5)) + math_ceil (Fin (K * 5))
        \<and> max_steps (m_availableHeight m) (math_ceil (ce_text env * Fin 12)) > 0
        \<and> min_steps (m_availableHeight m) (math_ceil (ce_text env * Fin 12)) > 0"
    using assms(7) unfolding page_room_def Let_def padded_def assms(8) list.map by blast
  have typed: "layout_typed True config" unfolding assms(8) by (rule page_config_typed) (simp_all add: assms(1-3))
  have layout: "\<exists>m. line_layout env c ts padded yl yl2 = Inr m \<and> finite_measures m" if "same_layout c config" for c yl yl2
    using line_layout_typed [OF same_layout_typed [OF that typed] env, of padded ts yl yl2] shares_canvas_finite [OF _ env(2,3)]
    by (auto simp: padded_def untitled_page)
  obtain msr where msr: "line_layout env config ts padded (Str ''nihil'') (Arr [Str []]) = Inr msr" using layout [OF same_layout_refl] by blast
  define vb where "vb = getValueBounds_Line (ce_option env) (ce_deviation env) config (ce_text env) (m_availableHeight msr) (map as_dataset padded)"
  define cfg where "cfg = line_config (ce_lg env) vb config"
  have same: "same_layout cfg config" unfolding cfg_def by (rule same_layout_line)
  note c = same_layoutD [OF same]
  have room: "maxSteps vb > 0" "minSteps vb > 0"
    using m [OF same_layout_refl msr] by (simp_all add: vb_def getValueBounds_Line_def Let_def label_height_def o)
  have "axis_index (page_dataset vs) \<noteq> 0" by (simp add: axis_index_def oget_page_dataset)
  then have one: "\<not> dbAxis vb" unfolding vb_def by (intro no_second_axis) (simp add: padded_def pad_dataset_same)
  then have s2: "line_scale (pe_call (ce_paint env)) (ce_lg env) (pe_numstr (ce_paint env)) (ce_perso env) (ce_tmpl env) 2 vb cfg = Some (Inr (Some no_scale))"
    by (simp add: line_scale_def Let_def)
  obtain ls where s1: "line_scale (pe_call (ce_paint env)) (ce_lg env) (pe_numstr (ce_paint env)) (ce_perso env) (ce_tmpl env) 1 vb cfg =
      Some (Inr (Some \<lparr> s_steps = Fin 10, s_stepValue = Fin 10, s_graphMin = Fin 0, s_labels = ls, s_maxValue = Fin 0 + Fin 10 * Fin 10 \<rparr>))"
    and log: "oget cfg ''logarithmic'' = Bool False"
    using utilisation_scale(1) [of st "pe_numstr (ce_paint env)" cfg "ce_lg env" vb "pe_call (ce_paint env)" "ce_perso env" "ce_tmpl env"]
      utilisation_scale(2) [of st "pe_numstr (ce_paint env)" cfg "ce_lg env" vb]
      assms(1,6) cfg_def [unfolded assms(8)] by blast
  let ?sc = "\<lparr> s_steps = Fin 10, s_stepValue = Fin 10, s_graphMin = Fin 0, s_labels = ls, s_maxValue = Fin 0 + Fin 10 * Fin 10 \<rparr>"
  obtain yl yl2 where yl: "scale_labels vb ?sc no_scale = (yl, yl2)" by (cases "scale_labels vb ?sc no_scale")
  obtain msr2 where msr2: "line_layout env cfg ts padded yl yl2 = Inr msr2" "finite_measures msr2" using layout [OF same] by blast
  obtain lc where lc: "setup_Line env config data ts [page_dataset vs] = Some (Inr (Some lc))" "lc_config lc = cfg"
      "lc_vars lc = snd (line_measures (ce_lg env) (pe_scales (ce_paint env)) cfg (length ts) vb ?sc no_scale msr2)"
    using setup_Line_returns [OF adapt padded_def ne vb_def cfg_def room s1 s2 msr yl msr2(1)] by blast
  have t: "scaled (sc_line (pe_scales (ce_paint env))) cfg (''scaleTickSize'' @ side) = math_ceil (Fin (K * 5))"
    if "side \<in> {''Bottom'', ''Top'', ''Left'', ''Right''}" for side using that by (auto simp: scaled_def K c o)
  then have "finite_ticks (pe_scales (ce_paint env)) cfg" by (simp add: finite_ticks_def)
  moreover have "scaled (sc_line (pe_scales (ce_paint env))) cfg ''scaleTickSizeBottom'' + scaled (sc_line (pe_scales (ce_paint env))) cfg ''scaleTickSizeTop''
      \<le> m_availableHeight msr2" using t [of "''Bottom''"] t [of "''Top''"] m [OF same msr2(1)] by simp
  ultimately have "\<exists>h x0 w y0 z. axes_at (lc_vars lc) 10 10 0 h x0 w y0 z \<and> ((0 :: real) = 0 \<longrightarrow> z = 0)"
    using msr2(2) assms(5) log by (intro line_measures_axes [OF _ _ _ _ _ _ _ _ _ lc(3)]) simp_all
  moreover have "plain_lines cfg [page_dataset vs]" by (simp add: plain_lines_def styles_given_def c o oget_page_dataset)
  ultimately show ?thesis using lc(1,2) by (auto simp: c o)
qed

text \<open>C3: From a response to the canvas: the chart of a utilisation with at least two samples between 0 and 100 is set up, and its last
  frame paints exactly the graph of the samples: sample \<open>j\<close> at the \<open>j\<close>-th position and at its share of the height of the scale, the area
  below closed over the axis.\<close>

theorem utilisation_chart_drawn:
  assumes "oget st ''type'' = Str ''utilization''" "oget st ''timestamps'' = Arr ts" "oget st ''values'' = Arr vs" "2 \<le> length vs" "2 \<le> length ts"
    and "\<forall>v \<in> set vs. \<exists>x. v = NumF x \<and> 0 \<le> x \<and> x \<le> 100" "pe_numstr (ce_paint env) (Fin 10) = ''10''" "page_room env st ts vs"
    and "is_string (oget st ''unit'')" "is_string (oget st ''displayName'')"
  shows "\<exists>lc h x0 w y0 ops annots.
       setup_chart env (chart_config Line no_personal_options (Some (getChartOpts st))) (getData st) = Some (Inr (Some lc))
     \<and> axes_at (lc_vars lc) 10 10 0 h x0 w y0 0 \<and> drawLines pe lc (Fin 1) = Inr (ops, annots)
     \<and> path_of ops = closed_graph True y0 (map (\<lambda>j. (Fin (x0 + w * of_nat j), Fin (y0 - fin_val (to_number (vs ! j)) / 10 * h))) [0..<length vs])"
proof -
  obtain lc h x0 w y0 where lc: "setup_Line env (chart_config Line no_personal_options (Some (getChartOpts st))) (getData st) ts [page_dataset vs] = Some (Inr (Some lc))"
      "axes_at (lc_vars lc) 10 10 0 h x0 w y0 0" "plain_lines (lc_config lc) [page_dataset vs]" "to_bool (oget (lc_config lc) ''datasetFill'')"
    using utilisation_setup [OF assms(1,9,10,4,5,7,8) refl] by blast
  have "fold max (map (length \<circ> dvalues) [page_dataset vs]) 0 \<noteq> 1" using assms(4) by (simp add: oget_page_dataset)
  moreover have "\<forall>ds \<in> set [page_dataset vs]. on_scale 0 (0 + 10 * 10) ds"
    using assms(6) by (auto simp: on_scale_def axis_index_def oget_page_dataset)
  moreover have "aget vs j \<noteq> Undef" if "j < length vs" for j using that assms(6) nth_mem [OF that] by (fastforce simp: aget_def)
  then have "given_at vs = [0..<length vs]" by (simp add: given_at_def filter_id_conv)
  then have "graph_of 10 0 h x0 w y0 (page_dataset vs)
      = map (\<lambda>j. (Fin (x0 + w * of_nat j), Fin (y0 - fin_val (to_number (vs ! j)) / 10 * h))) [0..<length vs]"
    by (simp add: graph_of_def oget_page_dataset aget_def)
  ultimately have "\<exists>ops annots. drawLines pe lc (Fin 1) = Inr (ops, annots)
     \<and> path_of ops = closed_graph True y0 (map (\<lambda>j. (Fin (x0 + w * of_nat j), Fin (y0 - fin_val (to_number (vs ! j)) / 10 * h))) [0..<length vs])"
    using lines_drawn [OF lc(1) _ lc(3,2), of pe] lc(4) by simp
  then show ?thesis
    using lc(1,2) page_data [OF assms(2,3)] assms(4) by (fastforce simp: setup_chart_def)
qed

lemma util_room: "page_room util_env util_stat [NumF 1000, NumF 2000] [NumF 20, NumF 50]"
proof -
  have m: "measuring (layout_of util_env)" "is_fin (ce_height util_env)" "is_fin (ce_width util_env)" "sc_line (pe_scales (ce_paint util_env)) = Fin 1" "ce_text util_env = Fin 1"
    by (simp_all add: measuring_def layout_of_def util_env_def plot_env_def plain_paint_def plain_scales_def)
  have "m_availableHeight m \<ge> Fin 10 \<and> max_steps (m_availableHeight m) (Fin 12) > 0 \<and> min_steps (m_availableHeight m) (Fin 12) > 0"
    if l: "same_layout c util_config" "line_layout util_env c [NumF 1000, NumF 2000] [pad_dataset ''Line'' [NumF 1000, NumF 2000] (page_dataset [NumF 20, NumF 50])] yl yl2 = Inr m"
    for c yl yl2 m
  proof -
    obtain h where h: "m_availableHeight m = Fin h" "188 \<le> h" using util_height [OF l(1) _ l(2)] by (auto simp: untitled_page)
    have "1 \<le> \<lfloor>h / (12 * (66 / 100))\<rfloor>" "1 \<le> \<lfloor>h / 12 * (1 / 2)\<rfloor>" using h(2) by (simp_all add: le_floor_iff)
    with h show ?thesis by (simp add: max_steps_def min_steps_def zero_jsnum_def)
  qed
  with m show ?thesis unfolding page_room_def Let_def by (intro conjI exI [of _ 1]) (auto simp del: chart_config.simps)
qed

theorem utilisation_chart_drawn_witness:
  "\<exists>lc ops annots. setup_chart util_env (chart_config Line no_personal_options (Some (getChartOpts util_stat))) (getData util_stat) = Some (Inr (Some lc))
     \<and> drawLines plain_paint lc (Fin 1) = Inr (ops, annots) \<and> length (path_of ops) = 4"
proof -
  have "oget util_stat ''type'' = Str ''utilization''" "oget util_stat ''timestamps'' = Arr [NumF 1000, NumF 2000]"
      "oget util_stat ''values'' = Arr [NumF 20, NumF 50]" "pe_numstr (ce_paint util_env) (Fin 10) = ''10''"
      "is_string (oget util_stat ''unit'')" "is_string (oget util_stat ''displayName'')"
    by (simp_all add: util_stat_def util_env_def)
  from utilisation_chart_drawn [OF this(1-3) _ _ _ this(4) util_room this(5,6), of plain_paint] obtain lc h x0 w y0 ops annots where
    "setup_chart util_env (chart_config Line no_personal_options (Some (getChartOpts util_stat))) (getData util_stat) = Some (Inr (Some lc))"
    "drawLines plain_paint lc (Fin 1) = Inr (ops, annots)"
    "path_of ops = closed_graph True y0 (map (\<lambda>j. (Fin (x0 + w * of_nat j), Fin (y0 - fin_val (to_number ([NumF 20, NumF 50] ! j)) / 10 * h))) [0..<2])"
    by (auto simp: numeral_2_eq_2)
  then show ?thesis by (intro exI conjI) (auto simp: closed_graph_def polyline_def numeral_2_eq_2)
qed

end
